(* ===== verification/Prelude.thy ===== *)
theory Prelude
  imports Main "HOL-Library.AList" "HOL-Library.List_Lexorder" "HOL-Library.Product_Lexorder"
    "HOL-Library.Char_ord" "HOL-Library.Multiset"
begin

text \<open>
  What the components share: the development's theorem collections, Python values that
  several modules use (calendar dates, row ids, text helpers, ordered dictionaries), the
  keyed accumulator that every \<open>table[key] = table.get(key, ZERO) + amount\<close> loop of the
  code is (the locale \<open>ledger\<close> and its interpretation), and the locale
  \<open>state_machine\<close> in which reachability invariants are proved once.
\<close>

section \<open>Theorem collections\<close>

named_theorems py_simps \<open>evaluation of the Python helpers the components share\<close>
named_theorems dict_simps \<open>lookups and totals of ordered dictionaries\<close>

section \<open>Row ids and results\<close>

text \<open>
  A \<open>uuid.UUID\<close> is its 128-bit number: equality and the order of the numbers are the
  equality and the order of the hexadecimal texts (\<open>key=str\<close>), which have a fixed width.
  A raised exception is the left value of a sum.
\<close>

type_synonym uuid = nat
type_synonym ('e, 'a) result = "'e + 'a"

section \<open>Calendar dates\<close>

text \<open>
  \<open>datetime.date\<close>: compared by year, month and day; the difference of two dates is the
  difference of their ordinals (\<open>date.toordinal\<close>, proleptic Gregorian).
\<close>

datatype date = Date (date_year: int) (date_month: int) (date_day: int)

fun date_key :: "date \<Rightarrow> int \<times> int \<times> int" where
  "date_key (Date y m d) = (y, m, d)"

lemma date_key_inject: "date_key a = date_key b \<longleftrightarrow> a = b"
  by (cases a; cases b) auto

instantiation date :: linorder
begin

definition less_eq_date :: "date \<Rightarrow> date \<Rightarrow> bool" where
  "a \<le> b \<longleftrightarrow> date_key a \<le> date_key b"

definition less_date :: "date \<Rightarrow> date \<Rightarrow> bool" where
  "a < b \<longleftrightarrow> date_key a < date_key b"

instance
  by standard
    (auto simp: less_eq_date_def less_date_def date_key_inject less_le_not_le
      simp del: prod.collapse dest: date_key_inject [THEN iffD1, OF antisym])

end

lemma date_le_simps [simp]:
  "Date y m d \<le> Date y' m' d' \<longleftrightarrow> (y, m, d) \<le> (y', m', d')"
  "Date y m d < Date y' m' d' \<longleftrightarrow> (y, m, d) < (y', m', d')"
  by (simp_all add: less_eq_date_def less_date_def)

definition is_leap :: "int \<Rightarrow> bool" where
  "is_leap y \<longleftrightarrow> y mod 4 = 0 \<and> (y mod 100 \<noteq> 0 \<or> y mod 400 = 0)"

definition days_before_year :: "int \<Rightarrow> int" where
  "days_before_year y = (let p = y - 1 in p * 365 + p div 4 - p div 100 + p div 400)"

definition days_before_month :: "int \<Rightarrow> int \<Rightarrow> int" where
  "days_before_month y m =
     [0, 0, 31, 59, 90, 120, 151, 181, 212, 243, 273, 304, 334] ! nat m
     + (if m > 2 \<and> is_leap y then 1 else 0)"

definition to_ordinal :: "date \<Rightarrow> int" where
  "to_ordinal d = days_before_year (date_year d) + days_before_month (date_year d) (date_month d)
     + date_day d"

definition days_between :: "date \<Rightarrow> date \<Rightarrow> int" where
  "days_between later earlier = to_ordinal later - to_ordinal earlier"

section \<open>Text\<close>

text \<open>
  Strings are lists of 8-bit characters. \<open>str.strip\<close> and \<open>str.split\<close> drop the white
  space characters of that range; \<open>str.casefold\<close> and \<open>str.upper\<close> are modelled on the ASCII letters.
\<close>

definition is_space :: "char \<Rightarrow> bool" where
  "is_space c \<longleftrightarrow> (of_char c :: nat) \<in> {9, 10, 11, 12, 13, 28, 29, 30, 31, 32, 133, 160}"

definition lstrip :: "string \<Rightarrow> string" where
  "lstrip s = dropWhile is_space s"

definition strip :: "string \<Rightarrow> string" where
  "strip s = rev (lstrip (rev (lstrip s)))"

definition fold_char :: "char \<Rightarrow> char" where
  "fold_char c =
     (if 65 \<le> (of_char c :: nat) \<and> (of_char c :: nat) \<le> 90 then char_of ((of_char c :: nat) + 32)
      else c)"

definition casefold :: "string \<Rightarrow> string" where
  "casefold s = map fold_char s"

definition upper_char :: "char \<Rightarrow> char" where
  "upper_char c = (if 97 \<le> (of_char c :: nat) \<and> (of_char c :: nat) \<le> 122
     then char_of ((of_char c :: nat) - 32) else c)"

definition upper :: "string \<Rightarrow> string" where
  "upper s = map upper_char s"

definition is_digit :: "char \<Rightarrow> bool" where
  "is_digit c \<longleftrightarrow> 48 \<le> (of_char c :: nat) \<and> (of_char c :: nat) \<le> 57"

definition digit_val :: "char \<Rightarrow> nat" where
  "digit_val c = of_char c - 48"

definition digit_char :: "nat \<Rightarrow> char" where
  "digit_char k = char_of (48 + k)"

text \<open>\<open>int(text)\<close> of a text of digits, and \<open>str(n)\<close> of a natural number.\<close>

definition parse_nat :: "string \<Rightarrow> nat" where
  "parse_nat s = foldl (\<lambda>acc c. 10 * acc + digit_val c) 0 s"

fun nat_str :: "nat \<Rightarrow> string" where
  "nat_str n = (if n < 10 then [digit_char n] else nat_str (n div 10) @ [digit_char (n mod 10)])"

declare nat_str.simps [simp del]

definition int_str :: "int \<Rightarrow> string" where
  "int_str n = (if n < 0 then CHR ''-'' # nat_str (nat (- n)) else nat_str (nat n))"

text \<open>\<open>str.split()\<close>: the maximal runs without white space; \<open>" ".join\<close>.\<close>

fun py_words :: "string \<Rightarrow> string \<Rightarrow> string list" where
  "py_words acc [] = (if acc = [] then [] else [rev acc])"
| "py_words acc (c # cs) =
     (if is_space c then (if acc = [] then py_words [] cs else rev acc # py_words [] cs)
      else py_words (c # acc) cs)"

definition split_ws :: "string \<Rightarrow> string list" where
  "split_ws s = py_words [] s"

fun join_space :: "string list \<Rightarrow> string" where
  "join_space [] = []"
| "join_space [w] = w"
| "join_space (w # ws) = w @ CHR '' '' # join_space ws"

subsection \<open>Facts about text\<close>

lemma digit_char_facts [simp]:
  assumes "k < 10"
  shows "is_digit (digit_char k)" and "digit_val (digit_char k) = k"
  using assms by (simp_all add: is_digit_def digit_val_def digit_char_def of_char_of)

lemma parse_nat_snoc [simp]: "parse_nat (s @ [c]) = 10 * parse_nat s + digit_val c"
  by (simp add: parse_nat_def)

lemma parse_nat_Nil [simp]: "parse_nat [] = 0"
  by (simp add: parse_nat_def)

lemma nat_str_facts:
  "parse_nat (nat_str n) = n \<and> list_all is_digit (nat_str n) \<and> nat_str n \<noteq> []"
proof (induction n rule: nat_str.induct)
  case (1 n)
  show ?case
  proof (cases "n < 10")
    case True
    then show ?thesis
      using parse_nat_snoc [of "[]" "digit_char n"] by (simp add: nat_str.simps [of n])
  next
    case False
    with "1.IH" show ?thesis by (simp add: nat_str.simps [of n])
  qed
qed

lemma parse_nat_str [simp]: "parse_nat (nat_str n) = n"
  and digits_nat_str [simp]: "list_all is_digit (nat_str n)"
  and nat_str_nonempty [simp]: "nat_str n \<noteq> []"
  using nat_str_facts by blast+

lemma digit_not_space: "is_digit c \<Longrightarrow> \<not> is_space c"
  by (auto simp: is_digit_def is_space_def)

lemma lstrip_id: "s = [] \<or> \<not> is_space (hd s) \<Longrightarrow> lstrip s = s"
  by (cases s) (auto simp: lstrip_def)

lemma strip_id:
  assumes "s \<noteq> []" and "\<not> is_space (hd s)" and "\<not> is_space (last s)"
  shows "strip s = s"
  using assms by (simp add: strip_def lstrip_id hd_rev)

lemma lstrip_hd: "lstrip s \<noteq> [] \<Longrightarrow> \<not> is_space (hd (lstrip s))"
  unfolding lstrip_def by (rule hd_dropWhile)

lemma strip_last: "strip s \<noteq> [] \<Longrightarrow> \<not> is_space (last (strip s))"
  using lstrip_hd [of "rev (lstrip s)"] by (simp add: strip_def last_rev)

lemma strip_strip [simp]: "strip (strip s) = strip s"
proof (cases "strip s = []")
  case True
  then show ?thesis by (simp only: strip_def) (simp add: lstrip_def)
next
  case False
  have "lstrip s \<noteq> []" using False by (auto simp: strip_def lstrip_def dest: set_dropWhileD)
  then have hd: "\<not> is_space (hd (lstrip s))" by (rule lstrip_hd)
  obtain p where p: "rev (lstrip s) = p @ lstrip (rev (lstrip s))"
    unfolding lstrip_def by (metis takeWhile_dropWhile_id)
  then have "lstrip s = strip s @ rev p"
    by (metis rev_append rev_rev_ident strip_def)
  with False hd have "\<not> is_space (hd (strip s))" by (metis hd_append2)
  with False strip_last [OF False] show ?thesis by (simp add: strip_id)
qed

text \<open>A normalised text that is not empty starts with a character other than a blank.\<close>

lemma py_words_solid:
  "list_all (\<lambda>c. \<not> is_space c) acc \<Longrightarrow> w \<in> set (py_words acc s) \<Longrightarrow>
    w \<noteq> [] \<and> list_all (\<lambda>c. \<not> is_space c) w"
  by (induction acc s rule: py_words.induct) (auto split: if_splits)

lemma words_solid:
  assumes "take n (join_space (split_ws s)) \<noteq> []"
  shows "list_ex (\<lambda>c. c \<noteq> CHR '' '') (take n (join_space (split_ws s)))"
proof -
  obtain w ws where ws: "split_ws s = w # ws" using assms by (cases "split_ws s") auto
  then have "w \<in> set (py_words [] s)" by (simp add: split_ws_def)
  then have "w \<noteq> [] \<and> list_all (\<lambda>c. \<not> is_space c) w" by (rule py_words_solid [rotated]) simp
  then obtain c cs where w: "w = c # cs" "\<not> is_space c" by (cases w) auto
  then have "c \<noteq> CHR '' ''" by (auto simp: is_space_def)
  moreover obtain x where "take n (join_space (split_ws s)) = c # x"
    using assms w(1) ws by (cases n; cases ws) auto
  ultimately show ?thesis by simp
qed

section \<open>Ordered dictionaries as accumulators\<close>

text \<open>
  A Python \<open>dict\<close> is an association list in insertion order: storing under a present
  key keeps its position (\<open>AList.update\<close>). \<open>dict_add\<close> is
  \<open>table[key] = table.get(key, ZERO) + amount\<close> (\<open>_add\<close> of figures.py and its kin).
\<close>

type_synonym ('k, 'v) dict = "('k \<times> 'v) list"

definition dict_get :: "('k, 'v) dict \<Rightarrow> 'k \<Rightarrow> 'v \<Rightarrow> 'v" where
  "dict_get t k v = (case map_of t k of None \<Rightarrow> v | Some x \<Rightarrow> x)"

definition dict_at :: "('k, int) dict \<Rightarrow> 'k \<Rightarrow> int" where
  "dict_at t k = dict_get t k 0"

definition dict_add :: "('k, int) dict \<Rightarrow> 'k \<Rightarrow> int \<Rightarrow> ('k, int) dict" where
  "dict_add t k v = AList.update k (dict_at t k + v) t"

definition dict_total :: "('k, int) dict \<Rightarrow> int" where
  "dict_total t = sum_list (map snd t)"

definition dict_add_all :: "('k, int) dict \<Rightarrow> ('k \<times> int) list \<Rightarrow> ('k, int) dict" where
  "dict_add_all t kvs = foldl (\<lambda>d (k, v). dict_add d k v) t kvs"

text \<open>
  The contract of such a table: adding under a key changes that key's figure by the
  amount, no other figure, and the total by the amount. Everything a client needs to know
  about a loop of additions follows from it.
\<close>

locale ledger =
  fixes empty :: "'t"
    and add :: "'t \<Rightarrow> 'k \<Rightarrow> int \<Rightarrow> 't"
    and at :: "'t \<Rightarrow> 'k \<Rightarrow> int"
    and total :: "'t \<Rightarrow> int"
    and keys :: "'t \<Rightarrow> 'k set"
  assumes at_empty: "at empty k = 0"
    and total_empty: "total empty = 0"
    and keys_empty: "keys empty = {}"
    and at_add: "at (add t k v) k' = (if k' = k then at t k + v else at t k')"
    and total_add: "total (add t k v) = total t + v"
    and keys_add: "keys (add t k v) = insert k (keys t)"
begin

lemma at_fold:
  "at (foldl (\<lambda>d (k, v). add d k v) t kvs) k =
     at t k + (\<Sum>(k', v) \<leftarrow> filter (\<lambda>kv. fst kv = k) kvs. v)"
  by (induction kvs arbitrary: t) (auto simp: at_add)

lemma total_fold:
  "total (foldl (\<lambda>d (k, v). add d k v) t kvs) = total t + (\<Sum>kv \<leftarrow> kvs. snd kv)"
  by (induction kvs arbitrary: t) (auto simp: total_add)

lemma keys_fold:
  "keys (foldl (\<lambda>d (k, v). add d k v) t kvs) = keys t \<union> fst ` set kvs"
  by (induction kvs arbitrary: t) (auto simp: keys_add)

end

lemma map_of_update: "map_of (AList.update k v t) k' = (if k' = k then Some v else map_of t k')"
  by (simp add: update_conv')

lemma sum_update:
  fixes v :: int
  shows "sum_list (map snd (AList.update k v t)) =
    sum_list (map snd t) + v - (case map_of t k of None \<Rightarrow> 0 | Some x \<Rightarrow> x)"
  by (induction t) auto

interpretation kdict: ledger "[]" dict_add dict_at dict_total "\<lambda>t. fst ` set t"
proof unfold_locales
  fix t :: "('k, int) dict" and k k' :: 'k and v :: int
  show "dict_at (dict_add t k v) k' = (if k' = k then dict_at t k + v else dict_at t k')"
    by (simp add: dict_at_def dict_get_def dict_add_def map_of_update)
  show "dict_total (dict_add t k v) = dict_total t + v"
    by (simp add: dict_total_def dict_add_def dict_at_def dict_get_def sum_update
        split: option.splits)
  show "fst ` set (dict_add t k v) = insert k (fst ` set t)"
    using dom_update [of k "dict_at t k + v" t] by (simp add: dict_add_def)
qed (simp_all add: dict_at_def dict_get_def dict_total_def)

lemmas dict_facts [dict_simps] =
  kdict.at_empty kdict.total_empty kdict.at_add kdict.total_add kdict.keys_add

lemma dict_add_all_at [dict_simps]:
  "dict_at (dict_add_all t kvs) k = dict_at t k + (\<Sum>(k', v) \<leftarrow> filter (\<lambda>kv. fst kv = k) kvs. v)"
  unfolding dict_add_all_def by (rule kdict.at_fold)

lemma dict_add_all_total [dict_simps]:
  "dict_total (dict_add_all t kvs) = dict_total t + (\<Sum>kv \<leftarrow> kvs. snd kv)"
  unfolding dict_add_all_def by (rule kdict.total_fold)

lemma dict_add_all_keys [dict_simps]:
  "fst ` set (dict_add_all t kvs) = fst ` set t \<union> fst ` set kvs"
  unfolding dict_add_all_def by (rule kdict.keys_fold)

lemma dict_add_distinct: "distinct (map fst t) \<Longrightarrow> distinct (map fst (dict_add t k v))"
  unfolding dict_add_def by (rule distinct_update)

lemma dict_add_all_distinct: "distinct (map fst t) \<Longrightarrow> distinct (map fst (dict_add_all t kvs))"
  unfolding dict_add_all_def
  by (induction kvs arbitrary: t) (auto simp: dict_add_distinct)

lemma dict_add_all_append: "dict_add_all t (xs @ ys) = dict_add_all (dict_add_all t xs) ys"
  by (simp add: dict_add_all_def)

section \<open>Sums over lists\<close>

lemma sum_list_filter_split:
  fixes f :: "'a \<Rightarrow> int"
  shows "(\<Sum>x \<leftarrow> xs. f x) = (\<Sum>x \<leftarrow> filter P xs. f x) + (\<Sum>x \<leftarrow> filter (\<lambda>x. \<not> P x) xs. f x)"
  by (induction xs) auto

lemma sum_list_filter_if:
  fixes f :: "'a \<Rightarrow> int"
  shows "(\<Sum>x \<leftarrow> filter P xs. f x) = (\<Sum>x \<leftarrow> xs. if P x then f x else 0)"
  by (induction xs) auto

lemma sum_list_nonneg_all:
  fixes f :: "'a \<Rightarrow> int"
  shows "(\<And>x. x \<in> set xs \<Longrightarrow> 0 \<le> f x) \<Longrightarrow> 0 \<le> (\<Sum>x \<leftarrow> xs. f x)"
  by (induction xs) (auto simp: add_nonneg_nonneg)

lemma sum_list_mset_eq:
  fixes f :: "'a \<Rightarrow> int"
  shows "distinct xs \<Longrightarrow> (\<Sum>x \<leftarrow> xs. f x) = sum f (set xs)"
  by (simp add: sum_list_distinct_conv_sum_set)

lemma sum_list_swap:
  fixes f :: "'a \<Rightarrow> 'b \<Rightarrow> int"
  shows "(\<Sum>x \<leftarrow> xs. \<Sum>y \<leftarrow> ys. f x y) = (\<Sum>y \<leftarrow> ys. \<Sum>x \<leftarrow> xs. f x y)"
  by (induction xs) (simp_all add: sum_list_addf)

lemma sum_list_sort_key:
  fixes f :: "'a \<Rightarrow> int"
  shows "(\<Sum>x \<leftarrow> sort_key k xs. f x) = (\<Sum>x \<leftarrow> xs. f x)"
  by (metis mset_map mset_sort sum_mset_sum_list)

lemma sum_list_concat_map:
  fixes f :: "'b \<Rightarrow> int"
  shows "(\<Sum>y \<leftarrow> concat (map g xs). f y) = (\<Sum>x \<leftarrow> xs. \<Sum>y \<leftarrow> g x. f y)"
  by (induction xs) auto

text \<open>A partition: an element that exactly one class of a list of classes holds is counted once.\<close>

lemma sum_list_one_class:
  fixes v :: int
  assumes "distinct js" and "j \<in> set js" and "\<And>i. i \<in> set js \<Longrightarrow> Q i \<longleftrightarrow> i = j"
  shows "(\<Sum>i \<leftarrow> js. if Q i then v else 0) = v"
proof -
  have "(\<Sum>i \<leftarrow> js. if Q i then v else 0) = (\<Sum>i \<in> set js. if Q i then v else 0)"
    using assms(1) by (rule sum_list_mset_eq)
  also have "\<dots> = (\<Sum>i \<in> set js. if i = j then v else 0)"
    using assms(3) by (intro sum.cong) auto
  also have "\<dots> = v" using assms(2) by simp
  finally show ?thesis .
qed

section \<open>Filters that map\<close>

lemma find_mem: "List.find P xs = Some x \<Longrightarrow> x \<in> set xs \<and> P x"
  by (induction xs) (auto split: if_splits)

lemma find_distinct:
  "distinct (map f xs) \<Longrightarrow> a \<in> set xs \<Longrightarrow>
    List.find (\<lambda>b. f b = f a) (filter P xs) = (if P a then Some a else None)"
proof (induction xs)
  case (Cons x xs)
  have "List.find (\<lambda>b. f b = f x) (filter P xs) = None"
    using Cons.prems(1) by (auto simp: find_None_iff) (metis imageI)
  then show ?case using Cons by (auto simp: image_iff)
qed simp

lemma find_by_key_None: "k \<notin> f ` set xs \<Longrightarrow> List.find (\<lambda>b. f b = k) xs = None"
  by (auto simp: find_None_iff)

lemma set_map_filter: "set (List.map_filter f xs) = {y. \<exists>x \<in> set xs. f x = Some y}"
  by (induction xs) (auto simp: List.map_filter_simps split: option.splits)

section \<open>Totals of a dictionary over keys\<close>

lemma dict_at_Some: "distinct (map fst t) \<Longrightarrow> (k, v) \<in> set t \<Longrightarrow> dict_at t k = v"
  by (simp add: dict_at_def dict_get_def)

lemma dict_at_absent: "k \<notin> fst ` set t \<Longrightarrow> dict_at t k = 0"
  by (simp add: dict_at_def dict_get_def map_of_eq_None_iff [THEN iffD2])

lemma dict_total_keys:
  assumes "distinct (map fst t)"
  shows "dict_total t = (\<Sum>k \<in> fst ` set t. dict_at t k)"
proof -
  have "dict_total t = (\<Sum>k \<leftarrow> map fst t. dict_at t k)"
    unfolding dict_total_def map_map comp_def
    using dict_at_Some [OF assms] by (intro arg_cong [of _ _ sum_list] map_cong) auto
  also have "\<dots> = (\<Sum>k \<in> set (map fst t). dict_at t k)" using assms by (rule sum_list_mset_eq)
  finally show ?thesis by simp
qed

lemma dict_total_cover:
  assumes "distinct (map fst t)" and "distinct ks" and "fst ` set t \<subseteq> set ks"
  shows "(\<Sum>k \<leftarrow> ks. dict_at t k) = dict_total t"
proof -
  have "(\<Sum>k \<leftarrow> ks. dict_at t k) = (\<Sum>k \<in> set ks. dict_at t k)"
    using assms(2) by (rule sum_list_mset_eq)
  also have "\<dots> = (\<Sum>k \<in> fst ` set t. dict_at t k)"
    using assms(3) dict_at_absent by (intro sum.mono_neutral_right) auto
  finally show ?thesis using dict_total_keys [OF assms(1)] by simp
qed

definition dict_total_if :: "('k \<Rightarrow> bool) \<Rightarrow> ('k, int) dict \<Rightarrow> int" where
  "dict_total_if P t = (\<Sum>kv \<leftarrow> filter (\<lambda>kv. P (fst kv)) t. snd kv)"

lemma dict_total_if_add:
  "dict_total_if P (dict_add t k v) = dict_total_if P t + (if P k then v else 0)"
proof -
  have "(\<Sum>kv \<leftarrow> filter (\<lambda>kv. P (fst kv)) (AList.update k w t). snd kv) =
      (\<Sum>kv \<leftarrow> filter (\<lambda>kv. P (fst kv)) t. snd kv)
      + (if P k then w - (case map_of t k of None \<Rightarrow> 0 | Some x \<Rightarrow> x) else 0)" for w :: int
    by (induction t) auto
  then show ?thesis
    by (simp add: dict_total_if_def dict_add_def dict_at_def dict_get_def split: option.splits)
qed

lemma dict_total_if_add_all:
  "dict_total_if P (dict_add_all t kvs) =
     dict_total_if P t + (\<Sum>kv \<leftarrow> filter (\<lambda>kv. P (fst kv)) kvs. snd kv)"
  unfolding dict_add_all_def
  by (induction kvs arbitrary: t) (auto simp: dict_total_if_add)

section \<open>Dictionaries of lists\<close>

text \<open>
  \<open>groups.setdefault(key, []).append(value)\<close>: each key holds its values in the order they came,
  and the keys are in the order they were first met.
\<close>

definition dict_push :: "('k, 'v list) dict \<Rightarrow> 'k \<Rightarrow> 'v \<Rightarrow> ('k, 'v list) dict" where
  "dict_push t k v = AList.update k (dict_get t k [] @ [v]) t"

definition dict_group :: "('k \<times> 'v) list \<Rightarrow> ('k, 'v list) dict" where
  "dict_group kvs = foldl (\<lambda>d (k, v). dict_push d k v) [] kvs"

lemma dict_push_get: "dict_get (dict_push t k v) k' [] = (if k' = k then dict_get t k [] @ [v] else dict_get t k' [])"
  by (simp add: dict_push_def dict_get_def map_of_update)

lemma dict_group_snoc: "dict_group (kvs @ [(k, v)]) = dict_push (dict_group kvs) k v"
  by (simp add: dict_group_def)

lemma dict_group_get: "dict_get (dict_group kvs) k [] = map snd (filter (\<lambda>kv. fst kv = k) kvs)"
proof (induction kvs rule: rev_induct)
  case Nil
  show ?case by (simp add: dict_group_def dict_get_def)
next
  case (snoc kv kvs)
  then show ?case by (cases kv) (auto simp: dict_group_snoc dict_push_get)
qed

lemma dict_group_keys: "fst ` set (dict_group kvs) = fst ` set kvs"
proof (induction kvs rule: rev_induct)
  case (snoc kv kvs)
  obtain k v where kv: "kv = (k, v)" by (rule prod.exhaust)
  show ?case using snoc dom_update [of k "dict_get (dict_group kvs) k [] @ [v]" "dict_group kvs"]
    by (simp add: kv dict_group_snoc dict_push_def)
qed (simp add: dict_group_def)

lemma dict_group_distinct: "distinct (map fst (dict_group kvs))"
  by (induction kvs rule: rev_induct) (auto simp: dict_group_def dict_push_def split: prod.split intro: distinct_update)

lemma dict_group_values:
  "(k, vs) \<in> set (dict_group kvs) \<longleftrightarrow> vs = map snd (filter (\<lambda>kv. fst kv = k) kvs) \<and> vs \<noteq> []"
proof -
  have "map_of (dict_group kvs) k = (if k \<in> fst ` set kvs then Some (map snd (filter (\<lambda>kv. fst kv = k) kvs)) else None)"
    using dict_group_get [of kvs k] dict_group_keys [of kvs] map_of_eq_None_iff [of "dict_group kvs" k]
    by (cases "map_of (dict_group kvs) k") (auto simp: dict_get_def dest: map_of_SomeD intro: rev_image_eqI)
  moreover have "k \<in> fst ` set kvs \<longleftrightarrow> filter (\<lambda>kv. fst kv = k) kvs \<noteq> []" by (auto simp: filter_empty_conv)
  ultimately show ?thesis
    using map_of_eq_Some_iff [OF dict_group_distinct, of kvs k vs] by auto
qed

lemma dict_group_total:
  fixes f :: "'v \<Rightarrow> int"
  shows "(\<Sum>kvs \<leftarrow> dict_group kvs. \<Sum>v \<leftarrow> snd kvs. f v) = (\<Sum>kv \<leftarrow> kvs. f (snd kv))"
proof (induction kvs rule: rev_induct)
  case (snoc kv kvs)
  have update: "(\<Sum>kvs \<leftarrow> AList.update k vs t. \<Sum>v \<leftarrow> snd kvs. f v) =
      (\<Sum>kvs \<leftarrow> t. \<Sum>v \<leftarrow> snd kvs. f v) + (\<Sum>v \<leftarrow> vs. f v) - (\<Sum>v \<leftarrow> dict_get t k []. f v)" for k vs t
    by (induction t) (auto simp: dict_get_def)
  show ?case using snoc by (cases kv) (simp add: dict_group_snoc dict_push_def update)
qed (simp add: dict_group_def)

section \<open>State machines\<close>

text \<open>
  The states a component can reach from its start by its operations, and the rule that an
  invariant of the start and of every step holds in all of them. A component interprets
  the locale with its own start, step relation and invariant.
\<close>

inductive reachable_from :: "('s \<Rightarrow> bool) \<Rightarrow> ('s \<Rightarrow> 's \<Rightarrow> bool) \<Rightarrow> 's \<Rightarrow> bool"
  for start :: "'s \<Rightarrow> bool" and step :: "'s \<Rightarrow> 's \<Rightarrow> bool" where
  reach_start: "start s \<Longrightarrow> reachable_from start step s"
| reach_step: "reachable_from start step s \<Longrightarrow> step s t \<Longrightarrow> reachable_from start step t"

locale state_machine =
  fixes start :: "'s \<Rightarrow> bool"
    and step :: "'s \<Rightarrow> 's \<Rightarrow> bool"
    and inv :: "'s \<Rightarrow> bool"
  assumes inv_start: "start s \<Longrightarrow> inv s"
    and inv_step: "inv s \<Longrightarrow> step s t \<Longrightarrow> inv t"
begin

lemma reachable_inv: "reachable_from start step s \<Longrightarrow> inv s"
  by (induction rule: reachable_from.induct) (auto intro: inv_start inv_step)

lemma steps_inv: "inv s \<Longrightarrow> step\<^sup>*\<^sup>* s t \<Longrightarrow> inv t"
  by (rotate_tac 1, induction rule: rtranclp.induct) (auto intro: inv_step)

end

end
