(* ===== verification/Money.thy ===== *)
theory Money
  imports Prelude
begin

text \<open>
  Money as the program computes it. Every stored amount is \<open>NUMERIC(14,2)\<close> and the code
  adds and subtracts \<open>Decimal\<close> values of two places, which is exact: an amount is the
  integer number of its cents. A percent is the number of its hundredths, a rate the number
  of its ten-thousandths. What is rounded is rounded here: \<open>quantize(CENT,
  rounding=ROUND_HALF_UP)\<close> as \<open>div_half_up\<close>, and the one true division of the billing
  code (\<open>billed / scheduled_value\<close>) under the 28-digit \<open>ROUND_HALF_EVEN\<close> context of
  Python's \<open>decimal\<close> as \<open>decimal_div\<close>. \<open>words\<close> is money as a sentence prints it.
\<close>

type_synonym cents = int
type_synonym hundredths = int
type_synonym ten_thousandths = int

section \<open>Rounding half up\<close>

text \<open>
  \<open>(n / d).quantize(1, rounding=ROUND_HALF_UP)\<close> for an exact quotient: to the nearest
  integer, a tie away from zero.
\<close>

definition div_half_up :: "int \<Rightarrow> int \<Rightarrow> int" where
  "div_half_up n d = sgn n * ((2 * \<bar>n\<bar> + d) div (2 * d))"

lemma div_half_up_nonneg_eq: "0 \<le> n \<Longrightarrow> div_half_up n d = (2 * n + d) div (2 * d)" if "0 < d"
  using that by (cases "n = 0") (auto simp: div_half_up_def sgn_if div_pos_pos_trivial)

lemma div_half_up_minus [simp]: "div_half_up (- n) d = - div_half_up n d"
  by (simp add: div_half_up_def)

lemma div_half_up_0 [simp]: "div_half_up 0 d = 0"
  by (simp add: div_half_up_def)

lemma div_eq_iff_bounds:
  fixes x y m :: int
  assumes "0 < y"
  shows "x div y = m \<longleftrightarrow> m * y \<le> x \<and> x < (m + 1) * y"
proof
  assume "x div y = m"
  moreover have "x = (x div y) * y + x mod y" by simp
  ultimately have "x = m * y + x mod y" by simp
  moreover have "0 \<le> x mod y" "x mod y < y" using assms by simp_all
  ultimately have "m * y \<le> x" and "x < m * y + y" by linarith+
  then show "m * y \<le> x \<and> x < (m + 1) * y" by (simp add: distrib_right)
next
  assume b: "m * y \<le> x \<and> x < (m + 1) * y"
  show "x div y = m"
    by (rule int_div_pos_eq [where r = "x - m * y"])
      (use b in \<open>simp_all add: algebra_simps\<close>)
qed

text \<open>The result is the integer whose half-open interval of width one holds the quotient.\<close>

lemma div_half_up_iff:
  assumes "0 < d" and "0 \<le> n"
  shows "div_half_up n d = m \<longleftrightarrow> (2 * m - 1) * d \<le> 2 * n \<and> 2 * n < (2 * m + 1) * d"
  using assms by (simp add: div_half_up_nonneg_eq div_eq_iff_bounds) (auto simp: algebra_simps)

lemma div_half_up_exact [simp]:
  assumes "0 < d"
  shows "div_half_up (k * d) d = k"
proof -
  have pos: "div_half_up (j * d) d = j" if "0 \<le> j" for j
    using assms that by (simp add: div_half_up_iff algebra_simps)
  show ?thesis
  proof (cases "0 \<le> k")
    case False
    then have "div_half_up ((- k) * d) d = - k" by (intro pos) simp
    then show ?thesis by simp
  qed (rule pos)
qed

lemma div_half_up_mono:
  assumes "0 < d" and "n \<le> n'"
  shows "div_half_up n d \<le> div_half_up n' d"
proof -
  have pos: "div_half_up a d \<le> div_half_up b d" if "0 \<le> a" "a \<le> b" for a b
    using that assms(1) by (simp add: div_half_up_nonneg_eq zdiv_mono1)
  have sign: "0 \<le> div_half_up b d" if "0 \<le> b" for b
    using that assms(1) by (simp add: div_half_up_nonneg_eq pos_imp_zdiv_nonneg_iff)
  consider "0 \<le> n" | "n < 0" "0 \<le> n'" | "n < 0" "n' < 0" by linarith
  then show ?thesis
  proof cases
    case 1
    then show ?thesis using pos assms(2) by blast
  next
    case 2
    then show ?thesis
      using sign [of n'] sign [of "- n"] div_half_up_minus [of "- n" d] by simp
  next
    case 3
    then show ?thesis
      using pos [of "- n'" "- n"] assms(2) by simp
  qed
qed

lemma div_half_up_nonneg: "0 < d \<Longrightarrow> 0 \<le> n \<Longrightarrow> 0 \<le> div_half_up n d"
  using div_half_up_mono [of d 0 n] by simp

lemma div_half_up_error: "0 < d \<Longrightarrow> 2 * \<bar>div_half_up n d * d - n\<bar> \<le> d"
proof -
  assume d: "0 < d"
  have pos: "2 * \<bar>div_half_up a d * d - a\<bar> \<le> d" if "0 \<le> a" for a
    using div_half_up_iff [OF d that, of "div_half_up a d"]
    by (simp add: algebra_simps) (simp add: abs_if)
  show ?thesis
  proof (cases "0 \<le> n")
    case True
    then show ?thesis by (rule pos)
  next
    case False
    then have "2 * \<bar>div_half_up (- n) d * d - (- n)\<bar> \<le> d" by (intro pos) simp
    then show ?thesis by (simp add: abs_minus_commute algebra_simps)
  qed
qed

section \<open>Division in the decimal context\<close>

text \<open>
  \<open>Decimal.__truediv__\<close> in the default context: the exact quotient rounded half even to
  28 significant digits. For positive operands the coefficient is \<open>n * 10^k / d\<close> for the
  first scale \<open>k\<close> that gives it 28 digits, and the value is the coefficient over
  \<open>10^k\<close>. A scale of at most 63 is looked for: \<open>k \<le> 28 + 14\<close> for operands of at
  most 14 digits.
\<close>

definition div_half_even :: "int \<Rightarrow> int \<Rightarrow> int" where
  "div_half_even n d =
     (let q = n div d; r = n mod d in
      if 2 * r < d then q else if d < 2 * r then q + 1 else if even q then q else q + 1)"

definition decimal_scale :: "int \<Rightarrow> int \<Rightarrow> nat option" where
  "decimal_scale n d = List.find (\<lambda>k. 10 ^ 27 * d \<le> n * 10 ^ k) [0..<64]"

definition decimal_div :: "int \<Rightarrow> int \<Rightarrow> (int \<times> nat) option" where
  "decimal_div n d = map_option (\<lambda>k. (div_half_even (n * 10 ^ k) d, k)) (decimal_scale n d)"

lemma div_half_even_exact: "0 < d \<Longrightarrow> d dvd n \<Longrightarrow> div_half_even n d * d = n"
  by (auto simp: div_half_even_def Let_def dvd_div_mult_self)

lemma div_half_even_error:
  assumes "0 < d"
  shows "2 * \<bar>div_half_even n d * d - n\<bar> \<le> d"
proof -
  define q r where "q = n div d" and "r = n mod d"
  have n: "n = q * d + r" by (simp add: q_def r_def)
  have r: "0 \<le> r" "r < d" using assms by (simp_all add: r_def)
  have "div_half_even n d = (if 2 * r < d then q else if d < 2 * r then q + 1
      else if even q then q else q + 1)"
    by (simp add: div_half_even_def Let_def q_def r_def)
  moreover have "(q + 1) * d - n = d - r" and "q * d - n = - r"
    by (simp_all add: n algebra_simps)
  ultimately show ?thesis using r by (auto split: if_splits)
qed

lemma decimal_scale_Some:
  assumes "decimal_scale n d = Some k"
  shows "10 ^ 27 * d \<le> n * 10 ^ k"
  using assms by (auto simp: decimal_scale_def find_Some_iff)

lemma decimal_scale_exists:
  assumes "0 < n" and "0 < d" and "d < 10 ^ 14"
  shows "\<exists>k. decimal_scale n d = Some k"
proof -
  have "10 ^ 27 * d \<le> 10 ^ 27 * (10 ^ 14 :: int)" using assms(3) by simp
  also have "\<dots> \<le> 1 * 10 ^ 63" by simp
  also have "\<dots> \<le> n * 10 ^ 63" using assms(1) by (intro mult_right_mono) auto
  finally have "10 ^ 27 * d \<le> n * 10 ^ 63" .
  moreover have "63 \<in> set [0..<64]" by simp
  ultimately have "decimal_scale n d \<noteq> None"
    unfolding decimal_scale_def find_None_iff by blast
  then show ?thesis by blast
qed

text \<open>
  The rounding of the context is invisible once the quotient is rounded again to a few
  places. For operands of \<open>NUMERIC(14,2)\<close> size, the quotient taken in the context,
  times \<open>10^4\<close> and rounded half up, is the exact quotient rounded half up once.
\<close>

theorem decimal_div_half_up:
  assumes "0 < n" and "n < 10 ^ 14" and "0 < d" and "d < 10 ^ 14"
    and div: "decimal_div n d = Some (c, k)"
  shows "div_half_up (c * 10 ^ 4) (10 ^ k) = div_half_up (n * 10 ^ 4) d"
proof -
  from div have k: "decimal_scale n d = Some k" and c: "c = div_half_even (n * 10 ^ k) d"
    by (auto simp: decimal_div_def)
  define P :: int where "P = 10 ^ k"
  have P: "0 < P" by (simp add: P_def)
  have scale: "10 ^ 27 * d \<le> n * P" using decimal_scale_Some [OF k] by (simp add: P_def)
  have k5: "5 \<le> k"
  proof (rule ccontr)
    assume "\<not> 5 \<le> k"
    then have "P \<le> 10 ^ 5" unfolding P_def by (intro power_increasing) auto
    then have "n * P \<le> 10 ^ 14 * 10 ^ 5" using assms(1,2) P by (intro mult_mono) auto
    with scale assms(3) show False by simp
  qed
  have "2 * \<bar>c * d - n * P\<bar> \<le> d"
    using div_half_even_error [OF assms(3), of "n * P"] by (simp add: c P_def)
  then have err: "2 * (c * d) \<le> 2 * (n * P) + d" "2 * (n * P) \<le> 2 * (c * d) + d"
    by (auto simp: abs_if split: if_splits)
  have "0 < n * P" using assms(1) P by simp
  then have "0 < 2 * (c * d) + d" using err(2) by linarith
  then have "0 < (2 * c + 1) * d" by (simp add: algebra_simps)
  then have c0: "0 \<le> c" using assms(3) by (simp add: zero_less_mult_iff)
  define m where "m = div_half_up (n * 10 ^ 4) d"
  have m: "(2 * m - 1) * d \<le> 20000 * n" "20000 * n < (2 * m + 1) * d"
    using div_half_up_iff [of d "n * 10 ^ 4" m] assms(1,3) by (simp_all add: m_def algebra_simps)
  have "10 ^ 27 * d < 10 ^ 14 * P"
    using scale mult_strict_right_mono [OF assms(2) P] by linarith
  then have "10 ^ 13 * d < P" by simp
  moreover have "10000 * d \<le> 10 ^ 13 * d" using assms(3) by (intro mult_right_mono) auto
  ultimately have small: "10000 * d < P" by linarith
  text \<open>The upper end: the exact quotient is at least one part in \<open>2 * d\<close> below it.\<close>
  have "20000 * (n * P) + P \<le> ((2 * m + 1) * P) * d"
    using mult_right_mono [of "20000 * n + 1" "(2 * m + 1) * d" P] m(2) P
    by (simp add: algebra_simps)
  then have "(20000 * c) * d < ((2 * m + 1) * P) * d" using small err(1) by linarith
  then have upper: "20000 * c < (2 * m + 1) * P" using assms(3) by simp
  text \<open>The lower end: a tie is a terminating decimal, which the context keeps exactly.\<close>
  have lower: "(2 * m - 1) * P \<le> 20000 * c"
  proof (cases "20000 * n = (2 * m - 1) * d")
    case True
    have "P = 10 ^ 5 * 10 ^ (k - 5)"
      unfolding P_def power_add [symmetric] using k5 by simp
    then have "P = 20000 * (5 * 10 ^ (k - 5))" by simp
    then obtain Q where Q: "P = 20000 * Q" by blast
    have "n * P = (20000 * n) * Q" by (simp add: Q)
    also have "\<dots> = d * ((2 * m - 1) * Q)" by (simp add: True)
    finally have "n * P = d * ((2 * m - 1) * Q)" .
    then have "c * d = n * P" unfolding c P_def [symmetric]
      using assms(3) by (intro div_half_even_exact) auto
    then have "(20000 * c) * d = (20000 * n) * P" by simp
    also have "\<dots> = ((2 * m - 1) * P) * d" by (simp add: True)
    finally have "(20000 * c) * d = ((2 * m - 1) * P) * d" .
    then show ?thesis using assms(3) by simp
  next
    case False
    then have "(2 * m - 1) * d + 1 \<le> 20000 * n" using m(1) by linarith
    then have "((2 * m - 1) * d + 1) * P \<le> 20000 * n * P" using P by (intro mult_right_mono) auto
    then have "((2 * m - 1) * P) * d + P \<le> 20000 * (n * P)" by (simp add: algebra_simps)
    then have "((2 * m - 1) * P) * d \<le> (20000 * c) * d" using small err(2) by linarith
    then show ?thesis using assms(3) by simp
  qed
  show ?thesis
    using div_half_up_iff [of P "c * 10 ^ 4" m] upper lower c0 P
    by (simp add: P_def m_def algebra_simps)
qed

section \<open>Money in words\<close>

text \<open>
  \<open>words\<close> of figures.py: the amount with two places, thousands separated by commas,
  a negative amount in parentheses.
\<close>

definition pad2 :: "nat \<Rightarrow> string" where
  "pad2 n = [digit_char (n div 10 mod 10), digit_char (n mod 10)]"

definition pad3 :: "nat \<Rightarrow> string" where
  "pad3 n = [digit_char (n div 100 mod 10), digit_char (n div 10 mod 10), digit_char (n mod 10)]"

fun thousands :: "nat \<Rightarrow> string" where
  "thousands n = (if n < 1000 then nat_str n else thousands (n div 1000) @ '','' @ pad3 (n mod 1000))"

declare thousands.simps [simp del]

definition money_text :: "nat \<Rightarrow> string" where
  "money_text c = thousands (c div 100) @ ''.'' @ pad2 (c mod 100)"

definition words :: "cents \<Rightarrow> string" where
  "words a = (let text = money_text (nat \<bar>a\<bar>) in if a < 0 then ''('' @ text @ '')'' else text)"

text \<open>
  \<open>(a / p * HUNDRED).quantize(CENT, ROUND_HALF_UP)\<close> for amounts of either sign: the
  quotient in the context (a zero quotient is exact), then once half up to the hundredth of
  a percent.
\<close>

definition percent_of :: "cents \<Rightarrow> cents \<Rightarrow> hundredths" where
  "percent_of a p = sgn a * sgn p * (case decimal_div \<bar>a\<bar> \<bar>p\<bar> of None \<Rightarrow> 0
     | Some (c, k) \<Rightarrow> div_half_up (c * 10 ^ 4) (10 ^ k))"

lemma percent_of_eq:
  assumes "\<bar>a\<bar> < 10 ^ 14" and "0 < p" and "p < 10 ^ 14"
  shows "percent_of a p = div_half_up (a * 10 ^ 4) p"
proof (cases "a = 0")
  case False
  then obtain k where k: "decimal_scale \<bar>a\<bar> p = Some k"
    using decimal_scale_exists [of "\<bar>a\<bar>" p] assms by auto
  define c where "c = div_half_even (\<bar>a\<bar> * 10 ^ k) p"
  have d: "decimal_div \<bar>a\<bar> p = Some (c, k)" by (simp add: decimal_div_def k c_def)
  have "div_half_up (c * 10 ^ 4) (10 ^ k) = div_half_up (\<bar>a\<bar> * 10 ^ 4) p"
    using decimal_div_half_up [OF _ assms(1) assms(2) assms(3) d] False by simp
  moreover have "percent_of a p = sgn a * div_half_up (c * 10 ^ 4) (10 ^ k)"
    unfolding percent_of_def using d assms(2) by simp
  ultimately have "percent_of a p = sgn a * div_half_up (\<bar>a\<bar> * 10 ^ 4) p" by simp
  then show ?thesis
    using div_half_up_minus [of "a * 10 ^ 4" p] False
    by (cases "0 < a") (simp_all add: sgn_if)
qed (simp add: percent_of_def)

lemma percent_of_nonneg: "0 \<le> a \<Longrightarrow> 0 < p \<Longrightarrow> 0 \<le> percent_of a p"
proof -
  assume "0 \<le> a" "0 < p"
  have half: "0 \<le> n \<Longrightarrow> 0 < d \<Longrightarrow> 0 \<le> div_half_even n d" for n d :: int
    by (simp add: div_half_even_def Let_def pos_imp_zdiv_nonneg_iff)
  have "0 \<le> div_half_up (div_half_even (a * 10 ^ k) p * 10 ^ 4) (10 ^ k)" for k
    using \<open>0 \<le> a\<close> \<open>0 < p\<close> by (intro div_half_up_nonneg mult_nonneg_nonneg half) auto
  then show "0 \<le> percent_of a p"
    using \<open>0 \<le> a\<close> \<open>0 < p\<close>
    by (auto simp: percent_of_def decimal_div_def sgn_if split: option.splits)
qed

text \<open>Reading a printed amount back: its digits, and whether it is in parentheses.\<close>

definition read_digits :: "string \<Rightarrow> nat" where
  "read_digits s = parse_nat (filter is_digit s)"

lemma filter_digits [simp]: "list_all is_digit s \<Longrightarrow> filter is_digit s = s"
  by (simp add: list_all_iff)

lemma pad_digits: "list_all is_digit (pad2 n)" "list_all is_digit (pad3 n)"
  by (simp_all add: pad2_def pad3_def)

lemma parse_pad2: "parse_nat (s @ pad2 n) = 100 * parse_nat s + n mod 100"
proof -
  have "s @ pad2 n = (s @ [digit_char (n div 10 mod 10)]) @ [digit_char (n mod 10)]"
    by (simp add: pad2_def)
  then have "parse_nat (s @ pad2 n) = 10 * (10 * parse_nat s + n div 10 mod 10) + n mod 10"
    by (simp only: parse_nat_snoc) simp
  also have "\<dots> = 100 * parse_nat s + (10 * (n div 10 mod 10) + n mod 10)" by simp
  finally show ?thesis using mod_mult2_eq [of n 10 10] by simp
qed

lemma parse_pad3: "parse_nat (s @ pad3 n) = 1000 * parse_nat s + n mod 1000"
proof -
  have "s @ pad3 n = ((s @ [digit_char (n div 100 mod 10)]) @ [digit_char (n div 10 mod 10)])
      @ [digit_char (n mod 10)]"
    by (simp add: pad3_def)
  then have "parse_nat (s @ pad3 n) =
      10 * (10 * (10 * parse_nat s + n div 100 mod 10) + n div 10 mod 10) + n mod 10"
    by (simp only: parse_nat_snoc) simp
  also have "\<dots> = 1000 * parse_nat s
      + (10 * (10 * (n div 10 div 10 mod 10) + n div 10 mod 10) + n mod 10)"
    by (simp add: div_mult2_eq flip: div_mult2_eq [of n 10 10])
  finally show ?thesis
    using mod_mult2_eq [of n 10 100] mod_mult2_eq [of "n div 10" 10 10] by simp
qed

lemma comma_point_no_digit [simp]:
  "\<not> is_digit (CHR '','')" "\<not> is_digit (CHR ''.'')" "\<not> is_digit (CHR ''('')"
  "\<not> is_digit (CHR '')'')"
  by (simp_all add: is_digit_def)

lemma read_thousands: "read_digits (thousands n) = n"
proof (induction n rule: thousands.induct)
  case (1 n)
  show ?case
  proof (cases "n < 1000")
    case True
    then show ?thesis by (simp add: thousands.simps [of n] read_digits_def)
  next
    case False
    with "1.IH" have "parse_nat (filter is_digit (thousands (n div 1000))) = n div 1000"
      by (simp add: read_digits_def)
    with False show ?thesis
      by (simp add: thousands.simps [of n] read_digits_def pad_digits parse_pad3)
  qed
qed

lemma read_money_text: "read_digits (money_text c) = c"
  using read_thousands [of "c div 100"]
  by (simp add: money_text_def read_digits_def pad_digits parse_pad2)

lemma read_words: "read_digits (words a) = nat \<bar>a\<bar>"
proof -
  have "filter is_digit (words a) = filter is_digit (money_text (nat \<bar>a\<bar>))"
    by (simp add: words_def Let_def del: abs_of_neg)
  then show ?thesis using read_money_text by (simp add: read_digits_def)
qed

lemma thousands_hd: "\<exists>c cs. thousands n = c # cs \<and> is_digit c"
proof (induction n rule: thousands.induct)
  case (1 n)
  show ?case
  proof (cases "n < 1000")
    case True
    obtain c cs where "nat_str n = c # cs" by (cases "nat_str n") auto
    with digits_nat_str [of n] True show ?thesis by (auto simp: thousands.simps [of n])
  next
    case False
    with "1.IH" show ?thesis by (auto simp: thousands.simps [of n])
  qed
qed

lemma words_sign: "hd (words a) = CHR ''('' \<longleftrightarrow> a < 0"
proof -
  obtain c cs where "thousands (nat \<bar>a\<bar> div 100) = c # cs" "is_digit c"
    using thousands_hd by blast
  then show ?thesis by (auto simp: words_def Let_def money_text_def)
qed

text \<open>
  C32: The text of an amount of money (grouped thousands, a negative amount in parentheses)
  determines the amount: two amounts read the same only if they are equal.
\<close>

lemma words_eq_iff: "words a = words b \<longleftrightarrow> a = b"
  by (metis abs_of_neg abs_of_nonneg linorder_not_less minus_equation_iff nat_0_le abs_ge_zero
      read_words words_sign)

end
