(* ===== verification/BillingFigures.thy ===== *)
theory BillingFigures
  imports Money
begin

text \<open>
  The billing figures of one job: \<open>app/domain/billing/figures.py\<close>, and the split of the
  tenant's rows by job that feeds it (\<open>_job_inputs\<close> of \<open>board.py\<close>). Documents, payments
  and their application lines are records with the source's fields; \<open>document_figures\<close>
  is one document, \<open>job_figures\<close> the job, \<open>totals\<close> the board. An undecided policy key
  is \<open>None\<close>, and so is every figure that needs it.
\<close>

section \<open>Rows\<close>

datatype doc_kind = Invoice | Credit_memo | Sales_receipt
datatype payment_kind = Payment_doc | Sales_receipt_doc
datatype revenue_method =
  Fixed_price | Time_and_materials | Recurring_service | No_method | Pool

record line_in =
  line_kind :: string
  item_external_id :: "string option"
  line_amount :: cents
  line_description :: "string option"
  line_id :: "string option"
  line_no :: int
  external_line_id :: "string option"

record doc_in =
  doc_id :: string
  doc_kind :: doc_kind
  doc_external_id :: string
  doc_number :: "string option"
  doc_txn_date :: date
  doc_total :: cents
  doc_tax_total :: cents
  doc_balance :: cents
  doc_voided :: bool
  doc_deleted :: bool
  doc_lines :: "line_in list"

record app_in =
  app_payment_id :: string
  app_payment_kind :: payment_kind
  app_payment_external_id :: string
  app_payment_date :: date
  app_payment_total :: cents
  app_payment_deleted :: bool
  linked_txn_type :: string
  app_billing_id :: "string option"
  app_amount :: cents

record payment_in =
  pay_id :: string
  pay_kind :: payment_kind
  pay_external_id :: string
  pay_txn_date :: date
  pay_total :: cents
  unapplied_amount :: cents
  pay_deleted :: bool
  applications :: "app_in list"

record billing_policy =
  deposit_items :: "string set option"
  surcharge_items :: "string set option"

definition decided :: "billing_policy \<Rightarrow> bool" where
  "decided pol \<longleftrightarrow> deposit_items pol \<noteq> None \<and> surcharge_items pol \<noteq> None"

definition credit_txn_types :: "string set" where
  "credit_txn_types = {''CreditMemo''}"

definition invoice_txn_types :: "string set" where
  "invoice_txn_types = {''Invoice'', ''SalesReceipt''}"

definition typed_txn_types :: "string set" where
  "typed_txn_types = invoice_txn_types \<union> credit_txn_types"

definition sales_item :: string where
  "sales_item = ''SalesItemLineDetail''"

definition deposit_suffix :: string where
  "deposit_suffix = ''_DEP''"

fun sign :: "doc_kind \<Rightarrow> int" where
  "sign Credit_memo = -1"
| "sign _ = 1"

section \<open>Payments: signs, cash and the remainder\<close>

definition signed_application :: "app_in \<Rightarrow> cents" where
  "signed_application a =
     (if linked_txn_type a \<in> credit_txn_types then - app_amount a else app_amount a)"

definition typed :: "app_in \<Rightarrow> bool" where
  "typed a \<longleftrightarrow> linked_txn_type a \<in> typed_txn_types"

definition cash :: "payment_in \<Rightarrow> cents" where
  "cash p = pay_total p - unapplied_amount p"

definition remainder :: "payment_in \<Rightarrow> cents" where
  "remainder p = cash p - (\<Sum>a \<leftarrow> filter typed (applications p). signed_application a)"

definition other_credit :: "payment_in \<Rightarrow> cents" where
  "other_credit p = (let r = remainder p in if r < 0 then - r else 0)"

section \<open>One document\<close>

text \<open>
  Why a document that looks like a deposit is not one: the sentences of
  \<open>_deposit_parts\<close> with their values.
\<close>

datatype deposit_reason =
    Not_an_invoice doc_kind
  | Estimate_not_on_job string
  | Lines_not_on_deposit_item
  | Number_not_deposit

text \<open>\<open>x in items\<close> for an item id that may be \<open>None\<close>.\<close>

fun item_in :: "string option \<Rightarrow> string set \<Rightarrow> bool" where
  "item_in None items = False"
| "item_in (Some i) items = (i \<in> items)"

definition or_empty :: "string option \<Rightarrow> string" where
  "or_empty s = (case s of None \<Rightarrow> [] | Some t \<Rightarrow> t)"

definition ends_with :: "string \<Rightarrow> string \<Rightarrow> bool" where
  "ends_with s suf \<longleftrightarrow> length suf \<le> length s \<and> drop (length s - length suf) s = suf"

definition deposit_parts ::
  "doc_in \<Rightarrow> string set \<Rightarrow> string set \<Rightarrow> string set \<Rightarrow> bool \<times> deposit_reason option" where
  "deposit_parts doc deposits surcharges estimate_numbers =
     (let number = strip (or_empty (doc_number doc));
          dep_number = ends_with number deposit_suffix \<and> length number > length deposit_suffix;
          estimate = take (length number - length deposit_suffix) number;
          sales = filter (\<lambda>ln. line_kind ln = sales_item) (doc_lines doc);
          priced = filter (\<lambda>ln. \<not> item_in (item_external_id ln) surcharges) sales;
          on_deposit_item = priced \<noteq> [] \<and>
            list_all (\<lambda>ln. item_in (item_external_id ln) deposits) priced;
          any_deposit_item = list_ex (\<lambda>ln. item_in (item_external_id ln) deposits) sales
      in if dep_number then
           (if doc_kind doc \<noteq> Invoice then (False, Some (Not_an_invoice (doc_kind doc)))
            else if estimate \<notin> estimate_numbers then (False, Some (Estimate_not_on_job estimate))
            else if \<not> on_deposit_item then (False, Some Lines_not_on_deposit_item)
            else (True, None))
         else if any_deposit_item then (False, Some Number_not_deposit)
         else (False, None))"

record doc_figures =
  df_doc :: doc_in
  df_counted :: bool
  df_sign :: int
  df_tax :: cents
  df_surcharge :: "cents option"
  df_billed :: "cents option"
  df_balance :: cents
  df_is_deposit :: bool
  df_deposit_reason :: "deposit_reason option"

definition surcharge_lines :: "doc_in \<Rightarrow> string set \<Rightarrow> cents" where
  "surcharge_lines doc surcharges =
     (\<Sum>ln \<leftarrow> filter (\<lambda>ln. item_in (item_external_id ln) surcharges) (doc_lines doc). line_amount ln)"

definition document_figures :: "doc_in \<Rightarrow> billing_policy \<Rightarrow> string set \<Rightarrow> doc_figures" where
  "document_figures doc pol estimate_numbers =
     (let counted = (\<not> (doc_voided doc \<or> doc_deleted doc)); s = sign (doc_kind doc) in
      if \<not> counted then
        \<lparr>df_doc = doc, df_counted = False, df_sign = s, df_tax = 0,
         df_surcharge = (if decided pol then Some 0 else None),
         df_billed = (if decided pol then Some 0 else None),
         df_balance = 0, df_is_deposit = False, df_deposit_reason = None\<rparr>
      else (case (deposit_items pol, surcharge_items pol) of
        (Some deposits, Some surcharges) \<Rightarrow>
          (let lines = surcharge_lines doc surcharges;
               (is_deposit, reason) = deposit_parts doc deposits surcharges estimate_numbers
           in \<lparr>df_doc = doc, df_counted = True, df_sign = s, df_tax = s * doc_tax_total doc,
               df_surcharge = Some (s * lines),
               df_billed = Some (s * (doc_total doc - doc_tax_total doc - lines)),
               df_balance = s * doc_balance doc, df_is_deposit = is_deposit,
               df_deposit_reason = reason\<rparr>)
      | _ \<Rightarrow>
          \<lparr>df_doc = doc, df_counted = True, df_sign = s, df_tax = s * doc_tax_total doc,
           df_surcharge = None, df_billed = None, df_balance = s * doc_balance doc,
           df_is_deposit = False, df_deposit_reason = None\<rparr>))"

datatype doc_state = Deleted_doc | Voided_doc | Live_doc

text \<open>\<open>DocFigures.state_label\<close>: the word shown beside a document, none while it counts.\<close>

definition state_label :: "doc_figures \<Rightarrow> doc_state" where
  "state_label f = (if doc_deleted (df_doc f) then Deleted_doc
     else if doc_voided (df_doc f) then Voided_doc else Live_doc)"

section \<open>One job\<close>

record payment_history_row =
  ph_payment_id :: string
  ph_kind :: payment_kind
  ph_external_id :: string
  ph_txn_date :: date
  ph_total :: cents
  ph_applied :: "(string \<times> cents) list"
  ph_unapplied :: "cents option"
  ph_on_this_job :: bool
  ph_deleted :: bool
  ph_other_credit :: "cents option"

record job_figures =
  billed_to_date :: "cents option"
  fuel_surcharge_billed :: "cents option"
  deposit_invoiced :: "cents option"
  deposit_received :: "cents option"
  collected_to_date :: cents
  open_ar :: cents
  unapplied_payments :: cents
  unapplied_count :: nat
  remaining_to_bill :: "cents option"
  tax_billed :: cents
  last_billing_date :: "date option"
  last_payment_date :: "date option"
  days_since_activity :: "int option"
  documents :: "doc_figures list"
  payments :: "payment_history_row list"
  billed_by_month :: "(string, cents) dict"
  collected_by_month :: "(string, cents) dict"
  other_credits_applied :: cents

definition deposit_mismatches :: "job_figures \<Rightarrow> doc_figures list" where
  "deposit_mismatches f = filter (\<lambda>d. df_counted d \<and> df_deposit_reason d \<noteq> None) (documents f)"

definition over_contract :: "job_figures \<Rightarrow> cents option" where
  "over_contract f = (case remaining_to_bill f of None \<Rightarrow> None
     | Some r \<Rightarrow> if r \<ge> 0 then None else Some (- r))"

text \<open>\<open>d.strftime("%Y-%m")\<close>.\<close>

definition month_key :: "date \<Rightarrow> string" where
  "month_key d = nat_str (nat (date_year d)) @ ''-'' @ pad2 (nat (date_month d))"

text \<open>\<open>max(xs, default=None)\<close>, and \<open>sorted(xs, key=k, reverse=True)\<close>, which keeps the
  order of equal keys.\<close>

definition max_default :: "'a::linorder list \<Rightarrow> 'a option" where
  "max_default xs = (case xs of [] \<Rightarrow> None | y # ys \<Rightarrow> Some (foldl max y ys))"

definition sorted_desc :: "('a \<Rightarrow> 'k::linorder) \<Rightarrow> 'a list \<Rightarrow> 'a list" where
  "sorted_desc k xs = rev (sort_key k (rev xs))"

definition opt_the :: "cents option \<Rightarrow> cents" where
  "opt_the v = (case v of None \<Rightarrow> 0 | Some x \<Rightarrow> x)"

text \<open>\<open>_payment_history\<close>: the job's own payments, then the payments of other rows with a
  line against one of its documents, newest first.\<close>

definition app_label :: "(string \<times> doc_figures) list \<Rightarrow> app_in \<Rightarrow> string" where
  "app_label docs a =
     (case map_of docs (or_empty (app_billing_id a)) of
        Some f \<Rightarrow> (let n = or_empty (doc_number (df_doc f)) in
                   if n \<noteq> [] then n else doc_external_id (df_doc f))
      | None \<Rightarrow> strip (linked_txn_type a @ '' '' @ or_empty (app_billing_id a)))"

definition here_or_loose :: "(string \<times> doc_figures) list \<Rightarrow> app_in \<Rightarrow> bool" where
  "here_or_loose docs a = (case app_billing_id a of None \<Rightarrow> True | Some b \<Rightarrow> map_of docs b \<noteq> None)"

definition own_history_row :: "(string \<times> doc_figures) list \<Rightarrow> payment_in \<Rightarrow> payment_history_row" where
  "own_history_row docs p =
     \<lparr>ph_payment_id = pay_id p, ph_kind = pay_kind p, ph_external_id = pay_external_id p,
      ph_txn_date = pay_txn_date p, ph_total = pay_total p,
      ph_applied = map (\<lambda>a. (app_label docs a, signed_application a))
        (filter (here_or_loose docs) (applications p)),
      ph_unapplied = Some (unapplied_amount p), ph_on_this_job = True, ph_deleted = pay_deleted p,
      ph_other_credit = Some (if \<not> pay_deleted p then other_credit p else 0)\<rparr>"

definition other_history_row ::
  "(string \<times> doc_figures) list \<Rightarrow> app_in list \<Rightarrow> app_in \<Rightarrow> payment_history_row" where
  "other_history_row docs incoming a =
     \<lparr>ph_payment_id = app_payment_id a, ph_kind = app_payment_kind a,
      ph_external_id = app_payment_external_id a, ph_txn_date = app_payment_date a,
      ph_total = app_payment_total a,
      ph_applied = map (\<lambda>b. (app_label docs b, signed_application b))
        (filter (\<lambda>b. app_payment_id b = app_payment_id a) incoming),
      ph_unapplied = None, ph_on_this_job = False, ph_deleted = app_payment_deleted a,
      ph_other_credit = None\<rparr>"

definition payment_history ::
  "payment_in list \<Rightarrow> app_in list \<Rightarrow> string set \<Rightarrow> (string \<times> doc_figures) list
    \<Rightarrow> payment_history_row list" where
  "payment_history pays incoming own_ids docs =
     (let own = foldl (\<lambda>rows p. AList.update (pay_id p) (own_history_row docs p) rows) [] pays;
          rows = foldl (\<lambda>rows a.
            if app_payment_id a \<in> own_ids \<or> map_of rows (app_payment_id a) \<noteq> None then rows
            else AList.update (app_payment_id a) (other_history_row docs incoming a) rows) own incoming
      in sorted_desc (\<lambda>r. (ph_txn_date r, ph_external_id r)) (map snd rows))"

text \<open>The additions to the two month tables, in the order the loops make them.\<close>

definition billed_entries :: "doc_figures list \<Rightarrow> (string \<times> cents) list" where
  "billed_entries counted =
     map (\<lambda>f. (month_key (doc_txn_date (df_doc f)), df_sign f * doc_total (df_doc f))) counted"

definition own_collected_entries :: "payment_in \<Rightarrow> (string \<times> cents) list" where
  "own_collected_entries p =
     (let m = month_key (pay_txn_date p) in
      map (\<lambda>a. (m, signed_application a))
        (filter (\<lambda>a. app_billing_id a = None \<and> typed a) (applications p))
      @ (if remainder p \<noteq> 0 then [(m, remainder p)] else [])
      @ (if unapplied_amount p \<noteq> 0 then [(m, unapplied_amount p)] else []))"

definition collected_entries :: "app_in list \<Rightarrow> payment_in list \<Rightarrow> (string \<times> cents) list" where
  "collected_entries live_in own =
     map (\<lambda>a. (month_key (app_payment_date a), signed_application a)) live_in
     @ concat (map own_collected_entries own)"

definition compute_job_figures ::
  "doc_in list \<Rightarrow> payment_in list \<Rightarrow> app_in list \<Rightarrow> billing_policy \<Rightarrow> string set
    \<Rightarrow> revenue_method option \<Rightarrow> cents option \<Rightarrow> date \<Rightarrow> job_figures" where
  "compute_job_figures docs pays incoming pol estimate_numbers method revised_contract today =
     (let figures = map (\<lambda>d. document_figures d pol estimate_numbers) docs;
          counted = filter df_counted figures;
          deposit_ids = set (map (doc_id \<circ> df_doc) (filter df_is_deposit counted));
          live_in = filter (\<lambda>a. \<not> app_payment_deleted a \<and> typed a) incoming;
          own = filter (\<lambda>p. \<not> pay_deleted p) pays;
          loose = concat (map (\<lambda>p. filter (\<lambda>a. app_billing_id a = None \<and> typed a) (applications p)) own);
          collected = (\<Sum>a \<leftarrow> live_in. signed_application a)
            + (\<Sum>a \<leftarrow> loose. signed_application a) + (\<Sum>p \<leftarrow> own. remainder p);
          billed = (if decided pol then Some (\<Sum>f \<leftarrow> counted. opt_the (df_billed f)) else None);
          last_billing = max_default (map (doc_txn_date \<circ> df_doc) counted);
          last_payment = max_default (map app_payment_date live_in @ map pay_txn_date own);
          last = max_default (List.map_filter id [last_billing, last_payment])
      in \<lparr>billed_to_date = billed,
          fuel_surcharge_billed =
            (if decided pol then Some (\<Sum>f \<leftarrow> counted. opt_the (df_surcharge f)) else None),
          deposit_invoiced =
            (if decided pol then Some (\<Sum>f \<leftarrow> filter df_is_deposit counted. opt_the (df_billed f))
             else None),
          deposit_received =
            (if decided pol then Some (\<Sum>a \<leftarrow> filter (\<lambda>a. item_in (app_billing_id a) deposit_ids) live_in.
               signed_application a) else None),
          collected_to_date = collected,
          open_ar = (\<Sum>f \<leftarrow> counted. df_balance f),
          unapplied_payments = (\<Sum>p \<leftarrow> own. unapplied_amount p),
          unapplied_count = length (filter (\<lambda>p. unapplied_amount p \<noteq> 0) own),
          remaining_to_bill =
            (case (revised_contract, billed) of
               (Some contract, Some b) \<Rightarrow>
                 if method = Some Fixed_price then Some (contract - b) else None
             | _ \<Rightarrow> None),
          tax_billed = (\<Sum>f \<leftarrow> counted. df_tax f),
          last_billing_date = last_billing,
          last_payment_date = last_payment,
          days_since_activity = map_option (\<lambda>d. days_between today d) last,
          documents = sorted_desc (\<lambda>f. (doc_txn_date (df_doc f), doc_external_id (df_doc f))) figures,
          payments = payment_history pays incoming (set (map pay_id own))
            (map (\<lambda>f. (doc_id (df_doc f), f)) (rev figures)),
          billed_by_month = dict_add_all [] (billed_entries counted),
          collected_by_month = dict_add_all [] (collected_entries live_in own),
          other_credits_applied = (\<Sum>p \<leftarrow> own. other_credit p)\<rparr>)"

section \<open>Totals of the board\<close>

record board_totals =
  t_billed_to_date :: "cents option"
  t_fuel_surcharge_billed :: "cents option"
  t_deposit_invoiced :: "cents option"
  t_deposit_received :: "cents option"
  t_collected_to_date :: cents
  t_open_ar :: cents
  t_unapplied_payments :: cents
  t_remaining_to_bill :: "cents option"
  t_other_credits_applied :: cents

fun opt_sum_acc :: "cents \<Rightarrow> bool \<Rightarrow> cents option list \<Rightarrow> cents option" where
  "opt_sum_acc acc seen [] = (if seen then Some acc else None)"
| "opt_sum_acc acc seen (None # vs) = opt_sum_acc acc seen vs"
| "opt_sum_acc acc seen (Some v # vs) = opt_sum_acc (acc + v) True vs"

definition opt_sum :: "cents option list \<Rightarrow> cents option" where
  "opt_sum vs = opt_sum_acc 0 False vs"

definition totals :: "job_figures list \<Rightarrow> board_totals" where
  "totals rows =
     \<lparr>t_billed_to_date = opt_sum (map billed_to_date rows),
      t_fuel_surcharge_billed = opt_sum (map fuel_surcharge_billed rows),
      t_deposit_invoiced = opt_sum (map deposit_invoiced rows),
      t_deposit_received = opt_sum (map deposit_received rows),
      t_collected_to_date = (\<Sum>r \<leftarrow> rows. collected_to_date r),
      t_open_ar = (\<Sum>r \<leftarrow> rows. open_ar r),
      t_unapplied_payments = (\<Sum>r \<leftarrow> rows. unapplied_payments r),
      t_remaining_to_bill = opt_sum (map remaining_to_bill rows),
      t_other_credits_applied = (\<Sum>r \<leftarrow> rows. other_credits_applied r)\<rparr>"

definition months_billed :: "job_figures list \<Rightarrow> (string, cents) dict" where
  "months_billed rows = foldl (\<lambda>t r. dict_add_all t (billed_by_month r)) [] rows"

definition months_collected :: "job_figures list \<Rightarrow> (string, cents) dict" where
  "months_collected rows = foldl (\<lambda>t r. dict_add_all t (collected_by_month r)) [] rows"

section \<open>The rows of each job\<close>








section \<open>Documents\<close>

lemma decided_cases:
  "decided pol \<longleftrightarrow> (\<exists>d s. deposit_items pol = Some d \<and> surcharge_items pol = Some s)"
  by (auto simp: decided_def)

lemma document_figures_doc [simp]:
  "df_doc (document_figures d pol n) = d"
  "df_counted (document_figures d pol n) \<longleftrightarrow> \<not> doc_voided d \<and> \<not> doc_deleted d"
  "df_sign (document_figures d pol n) = sign (doc_kind d)"
  by (auto simp: document_figures_def Let_def split: option.splits prod.splits)

lemma document_figures_policy_free:
  "df_tax (document_figures d pol n) = df_tax (document_figures d pol' n')"
  "df_balance (document_figures d pol n) = df_balance (document_figures d pol' n')"
  by (auto simp: document_figures_def Let_def split: option.splits prod.splits)

lemma document_figures_undecided:
  "\<not> decided pol \<Longrightarrow> df_billed (document_figures d pol n) = None"
  "\<not> decided pol \<Longrightarrow> df_surcharge (document_figures d pol n) = None"
  "\<not> decided pol \<Longrightarrow> \<not> df_is_deposit (document_figures d pol n)"
  by (auto simp: document_figures_def Let_def decided_def split: option.splits prod.splits)

lemma document_identity:
  assumes "decided pol" and "\<not> doc_voided d" and "\<not> doc_deleted d"
  shows "sign (doc_kind d) * doc_total d =
    opt_the (df_billed (document_figures d pol n)) + df_tax (document_figures d pol n)
      + opt_the (df_surcharge (document_figures d pol n))"
  using assms
  by (auto simp: document_figures_def Let_def decided_cases opt_the_def algebra_simps
      split: prod.splits)

section \<open>One job's figures\<close>

lemma sum_filter_map_document:
  "(\<Sum>f \<leftarrow> filter df_counted (map (\<lambda>d. document_figures d pol n) docs). g f) =
   (\<Sum>d \<leftarrow> filter (\<lambda>d. \<not> doc_voided d \<and> \<not> doc_deleted d) docs. g (document_figures d pol n))"
  by (induction docs) auto

lemma own_entries_total:
  "(\<Sum>e \<leftarrow> own_collected_entries p. snd e) =
     (\<Sum>a \<leftarrow> filter (\<lambda>a. app_billing_id a = None \<and> typed a) (applications p). signed_application a)
     + remainder p + unapplied_amount p"
  by (simp add: own_collected_entries_def Let_def comp_def)

lemma collected_entries_total:
  "(\<Sum>e \<leftarrow> collected_entries live own. snd e) =
     (\<Sum>a \<leftarrow> live. signed_application a)
     + (\<Sum>a \<leftarrow> concat (map (\<lambda>p. filter (\<lambda>a. app_billing_id a = None \<and> typed a) (applications p)) own).
          signed_application a)
     + (\<Sum>p \<leftarrow> own. remainder p) + (\<Sum>p \<leftarrow> own. unapplied_amount p)"
  by (simp add: collected_entries_def comp_def sum_list_concat_map own_entries_total sum_list_addf)

text \<open>
  What a payment adds besides its lines against documents: its unmatched lines and its
  remainder are its cash less the lines that name a held document.
\<close>

definition held_lines_total :: "payment_in \<Rightarrow> cents" where
  "held_lines_total p =
     (\<Sum>a \<leftarrow> filter (\<lambda>a. app_billing_id a \<noteq> None \<and> typed a) (applications p). signed_application a)"

lemma loose_and_remainder:
  "(\<Sum>a \<leftarrow> filter (\<lambda>a. app_billing_id a = None \<and> typed a) (applications p). signed_application a)
     + remainder p = cash p - held_lines_total p"
  using sum_list_filter_split [of signed_application "filter typed (applications p)"
      "\<lambda>a. app_billing_id a = None"]
  by (simp add: remainder_def held_lines_total_def conj_commute)

lemma collected_to_date_eq:
  "collected_to_date (compute_job_figures docs pays incoming pol n m c t) =
     (\<Sum>a \<leftarrow> filter (\<lambda>a. \<not> app_payment_deleted a \<and> typed a) incoming. signed_application a)
     + (\<Sum>p \<leftarrow> filter (\<lambda>p. \<not> pay_deleted p) pays. cash p - held_lines_total p)"
  by (simp add: compute_job_figures_def Let_def sum_list_concat_map
      loose_and_remainder [symmetric] sum_list_addf)

section \<open>The board: every payment adds exactly its cash\<close>











text \<open>A company with one job: an invoice paid by a payment that also applies a journal entry.\<close>

definition ex_doc :: doc_in where
  "ex_doc = \<lparr>doc_id = ''d1'', doc_kind = Invoice, doc_external_id = ''101'',
     doc_number = Some ''E1_DEP'', doc_txn_date = Date 2026 3 1, doc_total = 11000,
     doc_tax_total = 500, doc_balance = 1000, doc_voided = False, doc_deleted = False,
     doc_lines = [\<lparr>line_kind = ''SalesItemLineDetail'', item_external_id = Some ''7'',
       line_amount = 10500, line_description = None, line_id = Some ''l1'', line_no = 1,
       external_line_id = None\<rparr>]\<rparr>"

definition ex_app :: "string \<Rightarrow> string option \<Rightarrow> cents \<Rightarrow> app_in" where
  "ex_app ty b amt = \<lparr>app_payment_id = ''p1'', app_payment_kind = Payment_doc,
     app_payment_external_id = ''201'', app_payment_date = Date 2026 3 9,
     app_payment_total = 9000, app_payment_deleted = False, linked_txn_type = ty,
     app_billing_id = b, app_amount = amt\<rparr>"

definition ex_payment :: payment_in where
  "ex_payment = \<lparr>pay_id = ''p1'', pay_kind = Payment_doc, pay_external_id = ''201'',
     pay_txn_date = Date 2026 3 9, pay_total = 9000, unapplied_amount = 250, pay_deleted = False,
     applications = [ex_app ''Invoice'' (Some ''d1'') 10000, ex_app ''JournalEntry'' None 700]\<rparr>"





section \<open>Tie-outs and undecided policy\<close>

text \<open>
  The month table ties out. While the policy is decided, billed to date, sales tax and
  the fuel surcharge of a job add up to its billed-by-month table (the signed totals of
  the counted documents), for any documents.
\<close>

theorem billed_months_tie_out:
  assumes "decided pol" and f: "f = compute_job_figures docs pays incoming pol n m c t"
  shows "dict_total (billed_by_month f) =
      opt_the (billed_to_date f) + tax_billed f + opt_the (fuel_surcharge_billed f)"
proof -
  let ?live = "filter (\<lambda>d. \<not> doc_voided d \<and> \<not> doc_deleted d) docs"
  let ?df = "\<lambda>d. document_figures d pol n"
  have "dict_total (billed_by_month f) = (\<Sum>d \<leftarrow> ?live. sign (doc_kind d) * doc_total d)"
    by (simp add: f compute_job_figures_def Let_def dict_simps billed_entries_def comp_def
        sum_filter_map_document)
  also have "\<dots> = (\<Sum>d \<leftarrow> ?live. opt_the (df_billed (?df d)) + df_tax (?df d) + opt_the (df_surcharge (?df d)))"
    using document_identity [OF assms(1)] by (intro arg_cong [of _ _ sum_list] map_cong) auto
  finally show ?thesis
    using assms(1) by (simp add: f compute_job_figures_def Let_def sum_filter_map_document
        sum_list_addf opt_the_def [of "Some _"])
qed

theorem billed_months_tie_out_witness:
  "let pol = \<lparr>deposit_items = Some {''7''}, surcharge_items = Some {}\<rparr>;
       f = compute_job_figures [ex_doc] [ex_payment] [] pol {''E1''} None None (Date 2026 4 1)
   in decided pol \<and> dict_total (billed_by_month f) = 11000 \<and>
      opt_the (billed_to_date f) + tax_billed f + opt_the (fuel_surcharge_billed f) = 11000"
proof -
  define pol where "pol = \<lparr>deposit_items = Some {''7''}, surcharge_items = Some ({} :: string set)\<rparr>"
  define f where "f = compute_job_figures [ex_doc] [ex_payment] [] pol {''E1''} None None (Date 2026 4 1)"
  have d: "decided pol" by (simp add: pol_def decided_def)
  have "dict_total (billed_by_month f) = 11000"
    by (simp add: f_def compute_job_figures_def Let_def ex_doc_def billed_entries_def dict_simps)
  with billed_months_tie_out [OF d f_def] d show ?thesis
    unfolding Let_def pol_def [symmetric] f_def [symmetric] by simp
qed

text \<open>
  The collected table ties out. Collected by month adds up to collected to date plus
  the unapplied payments, for any rows and any policy.
\<close>

theorem collected_months_tie_out:
  "dict_total (collected_by_month (compute_job_figures docs pays incoming pol n m c t)) =
     collected_to_date (compute_job_figures docs pays incoming pol n m c t)
     + unapplied_payments (compute_job_figures docs pays incoming pol n m c t)"
  by (simp add: compute_job_figures_def Let_def dict_simps collected_entries_total)

lemma undecided_none:
  assumes "\<not> decided pol" and f: "f = compute_job_figures docs pays incoming pol n m c t"
  shows "billed_to_date f = None" "fuel_surcharge_billed f = None" "deposit_invoiced f = None"
    "deposit_received f = None" "remaining_to_bill f = None"
  using assms(1) by (simp_all add: f compute_job_figures_def Let_def split: option.splits)

lemma counted_sum_policy_free:
  assumes "\<And>d. g (document_figures d pol n) = g (document_figures d pol' n')"
  shows "(\<Sum>f \<leftarrow> filter df_counted (map (\<lambda>d. document_figures d pol n) docs). g f) =
     (\<Sum>f \<leftarrow> filter df_counted (map (\<lambda>d. document_figures d pol' n') docs). g f)"
  unfolding sum_filter_map_document using assms by simp

lemma policy_free_figures:
  "open_ar (compute_job_figures docs pays incoming pol n m c t) =
     open_ar (compute_job_figures docs pays incoming pol' n' m' c' t)"
  "tax_billed (compute_job_figures docs pays incoming pol n m c t) =
     tax_billed (compute_job_figures docs pays incoming pol' n' m' c' t)"
  unfolding compute_job_figures_def Let_def job_figures.simps
  by (rule counted_sum_policy_free, rule document_figures_policy_free)+

lemma billed_by_month_policy_free:
  "billed_by_month (compute_job_figures docs pays incoming pol n m c t) =
     billed_by_month (compute_job_figures docs pays incoming pol' n' m' c' t)"
proof -
  have "billed_entries (filter df_counted (map (\<lambda>d. document_figures d pol n) docs)) =
      billed_entries (filter df_counted (map (\<lambda>d. document_figures d pol' n') docs))"
    by (induction docs) (simp_all add: billed_entries_def)
  then show ?thesis by (simp add: compute_job_figures_def Let_def)
qed

text \<open>
  Nothing is assumed in the place of an undecided policy key. While either key is
  undecided the figures that need it are not shown and no remaining to bill is given, and
  the figures that do not need it are the ones any policy gives.
\<close>

theorem undecided_policy:
  assumes "\<not> decided pol"
  shows "billed_to_date (compute_job_figures docs pays incoming pol n m c t) = None \<and>
      fuel_surcharge_billed (compute_job_figures docs pays incoming pol n m c t) = None \<and>
      deposit_invoiced (compute_job_figures docs pays incoming pol n m c t) = None \<and>
      deposit_received (compute_job_figures docs pays incoming pol n m c t) = None \<and>
      remaining_to_bill (compute_job_figures docs pays incoming pol n m c t) = None \<and>
      open_ar (compute_job_figures docs pays incoming pol n m c t) =
        open_ar (compute_job_figures docs pays incoming pol' n' m' c' t) \<and>
      collected_to_date (compute_job_figures docs pays incoming pol n m c t) =
        collected_to_date (compute_job_figures docs pays incoming pol' n' m' c' t) \<and>
      tax_billed (compute_job_figures docs pays incoming pol n m c t) =
        tax_billed (compute_job_figures docs pays incoming pol' n' m' c' t) \<and>
      billed_by_month (compute_job_figures docs pays incoming pol n m c t) =
        billed_by_month (compute_job_figures docs pays incoming pol' n' m' c' t)"
  using undecided_none [OF assms refl, of docs pays incoming n m c t]
    policy_free_figures [of docs pays incoming pol n m c t pol' n' m' c']
    billed_by_month_policy_free [of docs pays incoming pol n m c t pol' n' m' c']
  unfolding collected_to_date_eq by blast

theorem undecided_policy_witness:
  "\<not> decided \<lparr>deposit_items = None, surcharge_items = Some {}\<rparr> \<and>
   remaining_to_bill (compute_job_figures [ex_doc] [ex_payment] []
     \<lparr>deposit_items = None, surcharge_items = Some {}\<rparr> {''E1''} (Some Fixed_price) (Some 20000)
     (Date 2026 4 1)) = None"
proof -
  have "\<not> decided \<lparr>deposit_items = None, surcharge_items = Some {}\<rparr>" by (simp add: decided_def)
  from this undecided_policy [OF this] show ?thesis by blast
qed

text \<open>
  What a deposit is. A counted document is the job's deposit exactly when it is an
  invoice numbered \<open><estimate>_DEP\<close> for an estimate of the job and it has priced lines
  besides the surcharge lines, all of them on a deposit item; a document with one of the
  two marks and not the other is reported with a reason (D-02).
\<close>

definition dep_numbered :: "doc_in \<Rightarrow> string \<Rightarrow> bool" where
  "dep_numbered d est \<longleftrightarrow> est \<noteq> [] \<and> strip (or_empty (doc_number d)) = est @ deposit_suffix"

definition priced_lines :: "doc_in \<Rightarrow> string set \<Rightarrow> line_in list" where
  "priced_lines d surcharges =
     filter (\<lambda>ln. line_kind ln = sales_item \<and> \<not> item_in (item_external_id ln) surcharges) (doc_lines d)"

lemma dep_number_iff:
  "ends_with s deposit_suffix \<and> length s > length deposit_suffix \<and>
     take (length s - length deposit_suffix) s = est \<longleftrightarrow> est \<noteq> [] \<and> s = est @ deposit_suffix"
  by (auto simp: ends_with_def deposit_suffix_def) (metis append_take_drop_id)

theorem deposit_iff:
  assumes "deposit_items pol = Some deposits" and "surcharge_items pol = Some surcharges"
    and "\<not> doc_voided d" and "\<not> doc_deleted d"
  shows "(df_is_deposit (document_figures d pol nums) \<longleftrightarrow>
      doc_kind d = Invoice \<and> (\<exists>est \<in> nums. dep_numbered d est) \<and> priced_lines d surcharges \<noteq> [] \<and>
      (\<forall>ln \<in> set (priced_lines d surcharges). item_in (item_external_id ln) deposits))
    \<and> ((\<exists>est. dep_numbered d est) \<and> \<not> df_is_deposit (document_figures d pol nums)
        \<longrightarrow> df_deposit_reason (document_figures d pol nums) \<noteq> None)"
proof -
  let ?s = "strip (or_empty (doc_number d))"
  let ?dep = "ends_with ?s deposit_suffix \<and> length ?s > length deposit_suffix"
  let ?est = "take (length ?s - length deposit_suffix) ?s"
  have dep: "dep_numbered d est \<longleftrightarrow> ?dep \<and> ?est = est" for est
    using dep_number_iff [of ?s est] by (auto simp: dep_numbered_def)
  have priced: "filter (\<lambda>ln. \<not> item_in (item_external_id ln) surcharges)
      (filter (\<lambda>ln. line_kind ln = sales_item) (doc_lines d)) = priced_lines d surcharges"
    by (simp add: priced_lines_def conj_commute)
  have fig: "df_is_deposit (document_figures d pol nums) = fst (deposit_parts d deposits surcharges nums)"
    "df_deposit_reason (document_figures d pol nums) = snd (deposit_parts d deposits surcharges nums)"
    using assms by (simp_all add: document_figures_def Let_def split: prod.splits)
  show ?thesis
    unfolding fig dep deposit_parts_def Let_def priced
    by (auto simp: list_all_iff)
qed

theorem deposit_iff_witness:
  "df_is_deposit (document_figures ex_doc \<lparr>deposit_items = Some {''7''}, surcharge_items = Some {}\<rparr> {''E1''})"
proof -
  let ?pol = "\<lparr>deposit_items = Some {''7''}, surcharge_items = Some {}\<rparr>"
  have "dep_numbered ex_doc ''E1''"
    by (simp add: dep_numbered_def ex_doc_def or_empty_def deposit_suffix_def strip_id is_space_def)
  moreover have "priced_lines ex_doc {} \<noteq> []"
    "\<forall>ln \<in> set (priced_lines ex_doc {}). item_in (item_external_id ln) {''7''}"
    by (simp_all add: priced_lines_def ex_doc_def sales_item_def)
  ultimately show ?thesis
    using deposit_iff [of ?pol "{''7''}" "{}" ex_doc "{''E1''}"] by (simp add: ex_doc_def)
qed

end
