(* ===== verification/Estimates.thy ===== *)
theory Estimates
  imports Money
begin

text \<open>
  One estimate and its versions: the comparison of a version with the baseline
  (\<open>app/domain/estimates/versions.py\<close>) and the totals of a version
  (\<open>app/domain/estimates/totals.py\<close>). Work areas are identified across versions by
  their order number; a cost line counts only under a kept work area priced above 0.00.
\<close>

section \<open>Names\<close>

definition norm_name :: "string \<Rightarrow> string" where
  "norm_name name = casefold (join_space (split_ws name))"

definition same_name :: "string \<Rightarrow> string \<Rightarrow> bool" where
  "same_name a b \<longleftrightarrow> norm_name a = norm_name b"

section \<open>Comparing a version with the baseline\<close>

record work_area_row =
  war_order_no :: int
  war_name :: string
  war_kept :: bool
  war_price :: cents
  war_change_order_suggested :: bool

record comparison =
  new_orders :: "int list"
  deductive :: "(int \<times> cents) list"
  renumbered :: "(int \<times> string \<times> string) list"

text \<open>\<open>{r.order_no: r for r in rows}\<close>, and \<open>sorted(d.items())\<close>.\<close>

definition by_order_no :: "work_area_row list \<Rightarrow> (int, work_area_row) dict" where
  "by_order_no rows = foldl (\<lambda>d r. AList.update (war_order_no r) r d) [] rows"

definition sorted_items :: "('k::linorder, 'v) dict \<Rightarrow> ('k, 'v) dict" where
  "sorted_items d = sort_key fst d"

definition compare_versions :: "work_area_row list \<Rightarrow> work_area_row list \<Rightarrow> comparison" where
  "compare_versions baseline current =
     (let base = by_order_no baseline; now = by_order_no current in
      \<lparr>new_orders = sort (map fst (filter (\<lambda>(o', r). war_kept r \<and> map_of base o' = None) now)),
       deductive = map (\<lambda>(o', r). (o', war_price r))
         (filter (\<lambda>(o', r). war_kept r \<and> \<not> war_change_order_suggested r \<and>
            (case map_of now o' of None \<Rightarrow> True | Some n \<Rightarrow> \<not> war_kept n)) (sorted_items base)),
       renumbered = List.map_filter (\<lambda>(o', r). case map_of base o' of
           Some b \<Rightarrow> if war_kept r \<and> norm_name (war_name b) \<noteq> norm_name (war_name r)
                     then Some (o', war_name b, war_name r) else None
         | None \<Rightarrow> None) (sorted_items now)\<rparr>)"

definition new_orders_flagged ::
  "work_area_row list option \<Rightarrow> work_area_row list \<Rightarrow> work_area_row list" where
  "new_orders_flagged baseline rows =
     (case baseline of None \<Rightarrow> rows
      | Some base \<Rightarrow> (let new = set (new_orders (compare_versions base rows)) in
          map (\<lambda>r. r\<lparr>war_change_order_suggested :=
            war_change_order_suggested r \<or> war_order_no r \<in> new\<rparr>) rows))"

section \<open>Totals of a version\<close>

record cost_line_in =
  cost_code :: string
  cl_slot :: "string option"
  cl_hours :: "hundredths option"
  cl_amount :: cents
  cl_division_id :: "uuid option"
  cl_division_code :: "string option"

record work_area_in =
  wa_order_no :: int
  wa_name :: string
  wa_kept :: bool
  wa_price :: cents
  wa_change_order_suggested :: bool
  wa_lines :: "cost_line_in list"

definition wa_cost :: "work_area_in \<Rightarrow> cents" where
  "wa_cost w = (\<Sum>ln \<leftarrow> wa_lines w. cl_amount ln)"

definition hours_or_0 :: "cost_line_in \<Rightarrow> hundredths" where
  "hours_or_0 ln = (case cl_hours ln of None \<Rightarrow> 0 | Some h \<Rightarrow> h)"

definition wa_hours :: "work_area_in \<Rightarrow> hundredths" where
  "wa_hours w = (\<Sum>ln \<leftarrow> filter (\<lambda>ln. cl_hours ln \<noteq> None) (wa_lines w). hours_or_0 ln)"

definition counts :: "work_area_in \<Rightarrow> bool" where
  "counts w \<longleftrightarrow> wa_kept w \<and> wa_price w > 0"

datatype in_basis = Basis_yes | Basis_no | Basis_not_decided

record category_total =
  ct_slot :: "string option"
  ct_name :: string
  ct_amount :: cents
  ct_hours :: hundredths
  ct_in_basis :: in_basis

record estimate_totals =
  kept_original :: cents
  kept_change_orders :: cents
  et_kept_total :: cents
  omitted :: cents
  kept_hours :: hundredths
  kept_cost :: cents
  by_category :: "category_total list"
  eac_in_basis :: "cents option"
  basis_decided :: bool

definition unknown_code_name :: string where
  "unknown_code_name = ''Unknown cost code''"

definition burden_slot :: string where
  "burden_slot = ''20''"

definition labor_slot :: string where
  "labor_slot = ''10''"

definition kept_total :: "work_area_in list \<Rightarrow> cents" where
  "kept_total ws = (\<Sum>w \<leftarrow> filter wa_kept ws. wa_price w)"

text \<open>The lines that count, and the two tables by slot the loop fills from them.\<close>

definition counting_lines :: "work_area_in list \<Rightarrow> cost_line_in list" where
  "counting_lines ws = concat (map wa_lines (filter counts ws))"

definition slot_amounts :: "work_area_in list \<Rightarrow> (string option, cents) dict" where
  "slot_amounts ws = dict_add_all [] (map (\<lambda>ln. (cl_slot ln, cl_amount ln)) (counting_lines ws))"

definition slot_hours :: "work_area_in list \<Rightarrow> (string option, hundredths) dict" where
  "slot_hours ws = dict_add_all [] (map (\<lambda>ln. (cl_slot ln, hours_or_0 ln))
     (filter (\<lambda>ln. cl_hours ln \<noteq> None) (counting_lines ws)))"

definition compute_totals ::
  "work_area_in list \<Rightarrow> (string \<times> string) list \<Rightarrow> string set option \<Rightarrow> estimate_totals" where
  "compute_totals ws categories basis =
     (let amounts = slot_amounts ws; hours = slot_hours ws;
          original = (\<Sum>w \<leftarrow> filter (\<lambda>w. wa_kept w \<and> \<not> wa_change_order_suggested w) ws. wa_price w);
          co = (\<Sum>w \<leftarrow> filter (\<lambda>w. wa_kept w \<and> wa_change_order_suggested w) ws. wa_price w);
          rows = map (\<lambda>(slot, name).
            \<lparr>ct_slot = Some slot, ct_name = name, ct_amount = dict_at amounts (Some slot),
             ct_hours = dict_at hours (Some slot),
             ct_in_basis = (case basis of None \<Rightarrow> Basis_not_decided
               | Some b \<Rightarrow> if slot \<in> b then Basis_yes else Basis_no)\<rparr>) categories;
          unknown = (if map_of amounts None \<noteq> None then
            [\<lparr>ct_slot = None, ct_name = unknown_code_name, ct_amount = dict_at amounts None,
              ct_hours = dict_at hours None,
              ct_in_basis = (if basis = None then Basis_not_decided else Basis_no)\<rparr>] else [])
      in \<lparr>kept_original = original, kept_change_orders = co, et_kept_total = original + co,
          omitted = (\<Sum>w \<leftarrow> filter (\<lambda>w. \<not> wa_kept w) ws. wa_price w),
          kept_hours = (\<Sum>w \<leftarrow> filter counts ws. wa_hours w),
          kept_cost = (\<Sum>w \<leftarrow> filter counts ws. wa_cost w),
          by_category = rows @ unknown,
          eac_in_basis = (case basis of None \<Rightarrow> None
            | Some b \<Rightarrow> Some (\<Sum>(slot, a) \<leftarrow> filter (\<lambda>(slot, a). case slot of None \<Rightarrow> False
                | Some s \<Rightarrow> s \<in> b) amounts. a)),
          basis_decided = (basis \<noteq> None)\<rparr>)"

record burdened_totals =
  labor_burden :: "cents option"
  bt_kept_cost :: "cents option"
  bt_eac_in_basis :: "cents option"
  eac_not_computed :: bool

definition keyed_burden :: "estimate_totals \<Rightarrow> cents" where
  "keyed_burden t = (case List.find (\<lambda>c. ct_slot c = Some burden_slot) (by_category t) of
     None \<Rightarrow> 0 | Some c \<Rightarrow> ct_amount c)"

definition with_burden ::
  "estimate_totals \<Rightarrow> string set option \<Rightarrow> cents option \<Rightarrow> burdened_totals" where
  "with_burden t basis burden =
     (let keyed = keyed_burden t;
          cost = map_option (\<lambda>b. kept_cost t - keyed + b) burden
      in case (basis, eac_in_basis t) of
        (Some b, Some eac) \<Rightarrow>
          (if burden_slot \<notin> b then
             \<lparr>labor_burden = burden, bt_kept_cost = cost, bt_eac_in_basis = Some eac,
              eac_not_computed = False\<rparr>
           else (case burden of
              None \<Rightarrow> \<lparr>labor_burden = None, bt_kept_cost = None, bt_eac_in_basis = None,
                       eac_not_computed = True\<rparr>
            | Some x \<Rightarrow> \<lparr>labor_burden = burden, bt_kept_cost = cost,
                        bt_eac_in_basis = Some (eac - keyed + x), eac_not_computed = False\<rparr>))
      | _ \<Rightarrow> \<lparr>labor_burden = burden, bt_kept_cost = cost, bt_eac_in_basis = None,
              eac_not_computed = False\<rparr>)"

section \<open>Lemmas: the comparison\<close>

lemma by_order_no_snoc: "by_order_no (rows @ [r]) = AList.update (war_order_no r) r (by_order_no rows)"
  by (simp add: by_order_no_def)

lemma distinct_by_order_no: "distinct (map fst (by_order_no rows))"
  by (induction rows rule: rev_induct)
    (simp_all add: by_order_no_snoc distinct_update, simp add: by_order_no_def)

lemma by_order_no_keys: "fst ` set (by_order_no rows) = war_order_no ` set rows"
  by (induction rows rule: rev_induct)
    (simp_all add: by_order_no_snoc dom_update, simp add: by_order_no_def)

lemma by_order_no_item: "(k, r) \<in> set (by_order_no rows) \<Longrightarrow> r \<in> set rows \<and> war_order_no r = k"
proof (induction rows arbitrary: k r rule: rev_induct)
  case Nil
  then show ?case by (simp add: by_order_no_def)
next
  case (snoc x rows)
  from snoc.prems have "map_of (by_order_no (rows @ [x])) k = Some r"
    using distinct_by_order_no by (simp add: map_of_eq_Some_iff)
  then show ?case
    using snoc.IH [of k r] map_of_SomeD [of "by_order_no rows" k r]
    by (auto simp: by_order_no_snoc map_of_update split: if_splits)
qed

lemma by_order_no_distinct:
  assumes "distinct (map war_order_no rows)" and "r \<in> set rows"
  shows "map_of (by_order_no rows) (war_order_no r) = Some r"
proof -
  from assms(2) obtain r' where "(war_order_no r, r') \<in> set (by_order_no rows)"
    using by_order_no_keys [of rows] by force
  moreover from by_order_no_item [OF this] assms have "r' = r"
    by (auto simp: distinct_map inj_on_def)
  ultimately show ?thesis using distinct_by_order_no by (simp add: map_of_eq_Some_iff)
qed

lemma by_order_no_None: "map_of (by_order_no rows) k = None \<longleftrightarrow> k \<notin> war_order_no ` set rows"
  by (simp add: map_of_eq_None_iff by_order_no_keys)

lemma by_order_no_mem:
  assumes "distinct (map war_order_no rows)"
  shows "(k, r) \<in> set (by_order_no rows) \<longleftrightarrow> r \<in> set rows \<and> war_order_no r = k"
  using by_order_no_item [of k r rows] by_order_no_distinct [OF assms, of r] map_of_SomeD by metis

lemma by_order_no_Some:
  assumes "distinct (map war_order_no rows)"
  shows "map_of (by_order_no rows) k = Some r \<longleftrightarrow> r \<in> set rows \<and> war_order_no r = k"
  using by_order_no_mem [OF assms] distinct_by_order_no [of rows] by (simp add: map_of_eq_Some_iff)

lemma new_orders_sorted: "sorted (new_orders (compare_versions b c))"
  by (simp add: compare_versions_def Let_def)

lemma new_orders_set:
  assumes "distinct (map war_order_no cur)"
  shows "set (new_orders (compare_versions base cur)) =
    war_order_no ` {r \<in> set cur. war_kept r} - war_order_no ` set base" (is "?l = ?r")
proof (rule set_eqI)
  fix k
  have "k \<in> ?l \<longleftrightarrow> (\<exists>r. (k, r) \<in> set (by_order_no cur) \<and> war_kept r \<and> k \<notin> war_order_no ` set base)"
    by (force simp: compare_versions_def Let_def by_order_no_None simp del: map_of_eq_None_iff)
  then show "k \<in> ?l \<longleftrightarrow> k \<in> ?r" unfolding by_order_no_mem [OF assms] by blast
qed

lemma no_longer_kept:
  assumes "distinct (map war_order_no cur)"
  shows "(case map_of (by_order_no cur) k of None \<Rightarrow> True | Some n \<Rightarrow> \<not> war_kept n) \<longleftrightarrow>
      \<not> (\<exists>r \<in> set cur. war_order_no r = k \<and> war_kept r)"
proof (cases "map_of (by_order_no cur) k")
  case None
  then have "k \<notin> war_order_no ` set cur" unfolding by_order_no_None .
  with None show ?thesis by auto
next
  case (Some n)
  then have n: "n \<in> set cur" "war_order_no n = k" unfolding by_order_no_Some [OF assms] by blast+
  have only: "r = n" if "r \<in> set cur" "war_order_no r = k" for r
    using that n assms inj_onD [of war_order_no "set cur" r n] by (simp add: distinct_map)
  have "(\<exists>r \<in> set cur. war_order_no r = k \<and> war_kept r) \<longleftrightarrow> war_kept n"
    using n only by blast
  with Some show ?thesis by simp
qed

lemma deductive_set:
  assumes "distinct (map war_order_no base)" and "distinct (map war_order_no cur)"
  shows "set (deductive (compare_versions base cur)) =
    {(war_order_no b, war_price b) | b. b \<in> set base \<and> war_kept b \<and> \<not> war_change_order_suggested b \<and>
       \<not> (\<exists>r \<in> set cur. war_order_no r = war_order_no b \<and> war_kept r)}" (is "?l = ?r")
proof (rule set_eqI)
  fix x :: "int \<times> cents"
  obtain k p where x: "x = (k, p)" by fastforce
  have "x \<in> ?l \<longleftrightarrow> (\<exists>b. (k, b) \<in> set (by_order_no base) \<and> p = war_price b \<and> war_kept b \<and>
      \<not> war_change_order_suggested b \<and> \<not> (\<exists>r \<in> set cur. war_order_no r = k \<and> war_kept r))"
    by (force simp: x compare_versions_def Let_def sorted_items_def no_longer_kept [OF assms(2)])
  then show "x \<in> ?l \<longleftrightarrow> x \<in> ?r" unfolding by_order_no_mem [OF assms(1)] x by blast
qed

lemma renumbered_set:
  assumes "distinct (map war_order_no base)" and "distinct (map war_order_no cur)"
  shows "set (renumbered (compare_versions base cur)) =
    {(war_order_no r, war_name b, war_name r) | b r. b \<in> set base \<and> r \<in> set cur \<and>
       war_order_no b = war_order_no r \<and> war_kept r \<and> \<not> same_name (war_name b) (war_name r)}"
    (is "?l = ?r")
proof (rule set_eqI)
  fix x :: "int \<times> string \<times> string"
  obtain k old new where x: "x = (k, old, new)" by (cases x) auto
  have "x \<in> ?l \<longleftrightarrow> (\<exists>r b. (k, r) \<in> set (by_order_no cur) \<and> map_of (by_order_no base) k = Some b \<and>
      war_kept r \<and> \<not> same_name (war_name b) (war_name r) \<and> old = war_name b \<and> new = war_name r)"
    by (force simp: x compare_versions_def Let_def sorted_items_def map_filter_def same_name_def
        split: option.splits if_splits)
  then show "x \<in> ?l \<longleftrightarrow> x \<in> ?r"
    unfolding by_order_no_mem [OF assms(2)] by_order_no_Some [OF assms(1)] x by blast
qed

text \<open>
  The comparison with the baseline (D-01). For versions with one row per order number:
  the new orders are the kept numbers the baseline does not carry, in increasing order; the
  deductive changes are the kept originals of the baseline, at their baseline price, that
  the current version no longer keeps; the renumbered are the kept numbers of both whose
  names differ.
\<close>

theorem compare_versions_correct:
  assumes "distinct (map war_order_no base)" and "distinct (map war_order_no cur)"
  shows "set (new_orders (compare_versions base cur)) =
        war_order_no ` {r \<in> set cur. war_kept r} - war_order_no ` set base
    \<and> sorted (new_orders (compare_versions base cur))
    \<and> set (deductive (compare_versions base cur)) =
        {(war_order_no b, war_price b) | b. b \<in> set base \<and> war_kept b \<and> \<not> war_change_order_suggested b \<and>
           \<not> (\<exists>r \<in> set cur. war_order_no r = war_order_no b \<and> war_kept r)}
    \<and> set (renumbered (compare_versions base cur)) =
        {(war_order_no r, war_name b, war_name r) | b r. b \<in> set base \<and> r \<in> set cur \<and>
           war_order_no b = war_order_no r \<and> war_kept r \<and> \<not> same_name (war_name b) (war_name r)}"
  using new_orders_set [OF assms(2)] new_orders_sorted deductive_set [OF assms]
    renumbered_set [OF assms] by blast

definition ex_row :: "int \<Rightarrow> string \<Rightarrow> bool \<Rightarrow> cents \<Rightarrow> work_area_row" where
  "ex_row n name kept price = \<lparr>war_order_no = n, war_name = name, war_kept = kept,
     war_price = price, war_change_order_suggested = False\<rparr>"

theorem compare_versions_correct_witness:
  "new_orders (compare_versions [ex_row 1 ''Patio'' True 500] [ex_row 3 ''Steps'' True 200]) = [3] \<and>
   set (deductive (compare_versions [ex_row 1 ''Patio'' True 500] [ex_row 3 ''Steps'' True 200])) = {(1, 500)}"
proof -
  let ?base = "[ex_row 1 ''Patio'' True 500]" and ?cur = "[ex_row 3 ''Steps'' True 200]"
  have d: "distinct (map war_order_no ?base)" "distinct (map war_order_no ?cur)"
    by (simp_all add: ex_row_def)
  have "set (deductive (compare_versions ?base ?cur)) = {(1, 500)}"
    using compare_versions_correct [OF d] by (simp add: ex_row_def)
  moreover have "new_orders (compare_versions ?base ?cur) = [3]"
    by (simp add: compare_versions_def by_order_no_def ex_row_def)
  ultimately show ?thesis by blast
qed

section \<open>Lemmas: the totals\<close>

lemma slot_amounts_distinct: "distinct (map fst (slot_amounts ws))"
  unfolding slot_amounts_def by (rule dict_add_all_distinct) simp

lemma slot_amounts_keys: "fst ` set (slot_amounts ws) = cl_slot ` set (counting_lines ws)"
  by (simp add: slot_amounts_def dict_simps image_image)

lemma kept_cost_lines: "kept_cost (compute_totals ws cats basis) = (\<Sum>ln \<leftarrow> counting_lines ws. cl_amount ln)"
  by (simp add: compute_totals_def Let_def counting_lines_def sum_list_concat_map wa_cost_def [abs_def])

lemma slot_amounts_total: "dict_total (slot_amounts ws) = (\<Sum>ln \<leftarrow> counting_lines ws. cl_amount ln)"
  by (simp add: slot_amounts_def dict_simps comp_def)

definition item_slot_in :: "cost_line_in \<Rightarrow> string set \<Rightarrow> bool" where
  "item_slot_in ln b = (case cl_slot ln of None \<Rightarrow> False | Some s \<Rightarrow> s \<in> b)"

lemma eac_lines:
  "eac_in_basis (compute_totals ws cats (Some b)) =
     Some (\<Sum>ln \<leftarrow> filter (\<lambda>ln. case cl_slot ln of None \<Rightarrow> False | Some s \<Rightarrow> s \<in> b) (counting_lines ws).
       cl_amount ln)"
proof -
  let ?P = "\<lambda>slot. case slot of None \<Rightarrow> False | Some s \<Rightarrow> s \<in> b"
  have "(\<Sum>(slot, a) \<leftarrow> filter (\<lambda>(slot, a). ?P slot) (slot_amounts ws). a) =
      dict_total_if ?P (slot_amounts ws)"
    by (simp add: dict_total_if_def case_prod_unfold)
  also have "\<dots> = (\<Sum>ln \<leftarrow> filter (\<lambda>ln. ?P (cl_slot ln)) (counting_lines ws). cl_amount ln)"
    unfolding slot_amounts_def dict_total_if_add_all
    by (simp add: dict_total_if_def filter_map comp_def)
  finally show ?thesis by (simp add: compute_totals_def Let_def)
qed

text \<open>
  The totals of an estimate add up. Whatever the slots of its lines, when the tenant's
  categories are distinct and list every slot the grid resolved, the cost by category
  (with the row of unknown codes) adds up to the kept cost; and kept and omitted prices
  add up to the prices of all the work areas.
\<close>

theorem totals_add_up:
  assumes "distinct (map fst categories)"
    and "\<forall>ln \<in> set (counting_lines ws). case cl_slot ln of None \<Rightarrow> True | Some s \<Rightarrow> s \<in> fst ` set categories"
  shows "(\<Sum>c \<leftarrow> by_category (compute_totals ws categories basis). ct_amount c) =
      kept_cost (compute_totals ws categories basis)
    \<and> et_kept_total (compute_totals ws categories basis) + omitted (compute_totals ws categories basis) =
      (\<Sum>w \<leftarrow> ws. wa_price w)
    \<and> et_kept_total (compute_totals ws categories basis) = kept_total ws"
proof -
  let ?t = "slot_amounts ws" and ?ks = "None # map (Some \<circ> fst) categories"
  have "(\<Sum>c \<leftarrow> by_category (compute_totals ws categories basis). ct_amount c) =
      (\<Sum>(slot, name) \<leftarrow> categories. dict_at ?t (Some slot)) + dict_at ?t None"
    using dict_at_absent [of None ?t]
    by (simp add: compute_totals_def Let_def case_prod_unfold comp_def map_of_eq_None_iff)
  also have "\<dots> = (\<Sum>k \<leftarrow> ?ks. dict_at ?t k)"
    by (simp add: case_prod_unfold comp_def)
  also have "\<dots> = dict_total ?t"
  proof (rule dict_total_cover [OF slot_amounts_distinct])
    have "map (Some \<circ> fst) categories = map Some (map fst categories)" by simp
    then show "distinct ?ks" using assms(1) by (auto simp: distinct_map inj_on_def)
    show "fst ` set ?t \<subseteq> set ?ks"
    proof
      fix k
      assume "k \<in> fst ` set ?t"
      then obtain ln where "ln \<in> set (counting_lines ws)" "k = cl_slot ln"
        by (auto simp: slot_amounts_keys)
      then show "k \<in> set ?ks" using assms(2) by (cases k) force+
    qed
  qed
  finally have cost: "(\<Sum>c \<leftarrow> by_category (compute_totals ws categories basis). ct_amount c) =
      kept_cost (compute_totals ws categories basis)"
    by (simp add: kept_cost_lines slot_amounts_total)
  have kept: "et_kept_total (compute_totals ws categories basis) = kept_total ws"
    using sum_list_filter_split [of wa_price "filter wa_kept ws" wa_change_order_suggested]
    by (simp add: compute_totals_def Let_def kept_total_def conj_commute)
  show ?thesis
    using cost kept sum_list_filter_split [of wa_price ws wa_kept]
    by (simp add: compute_totals_def Let_def kept_total_def)
qed

definition ex_area :: work_area_in where
  "ex_area = \<lparr>wa_order_no = 1, wa_name = ''Patio'', wa_kept = True, wa_price = 9000,
     wa_change_order_suggested = False,
     wa_lines = [\<lparr>cost_code = ''410'', cl_slot = Some ''10'', cl_hours = Some 150, cl_amount = 4000,
         cl_division_id = Some 4, cl_division_code = Some ''SNOW''\<rparr>,
       \<lparr>cost_code = ''999'', cl_slot = None, cl_hours = None, cl_amount = 300,
         cl_division_id = None, cl_division_code = None\<rparr>]\<rparr>"

theorem totals_add_up_witness:
  "(\<Sum>c \<leftarrow> by_category (compute_totals [ex_area] [(''10'', ''Labor'')] None). ct_amount c) =
     kept_cost (compute_totals [ex_area] [(''10'', ''Labor'')] None)
   \<and> kept_cost (compute_totals [ex_area] [(''10'', ''Labor'')] None) = 4300"
proof -
  have "distinct (map fst [(''10'', ''Labor'')])"
    "\<forall>ln \<in> set (counting_lines [ex_area]). case cl_slot ln of None \<Rightarrow> True
       | Some s \<Rightarrow> s \<in> fst ` set [(''10'', ''Labor'')]"
    by (simp_all add: counting_lines_def ex_area_def counts_def)
  from totals_add_up [OF this, of None] show ?thesis
    by (simp add: kept_cost_lines) (simp add: counting_lines_def ex_area_def counts_def)
qed

text \<open>
  The column with burden never drifts from the column as estimated. When Labor Burden
  is in the basis and the burden is computed, kept cost and EAC both move by the computed
  burden less the keyed slot-20 lines; when it is in the basis and not computed there is no
  EAC and the estimate says so; when it is outside the basis the EAC is the as-estimated
  figure, which is the sum of the counting lines whose slot is in the basis.
\<close>

definition opt_eac :: "estimate_totals \<Rightarrow> cents" where
  "opt_eac t = (case eac_in_basis t of None \<Rightarrow> 0 | Some x \<Rightarrow> x)"

theorem with_burden_eac:
  fixes ws cats b burden
  shows "let t = compute_totals ws cats (Some b); w = with_burden t (Some b) burden in
      opt_eac t = (\<Sum>ln \<leftarrow> filter (\<lambda>ln. item_slot_in ln b) (counting_lines ws). cl_amount ln)
      \<and> bt_eac_in_basis w =
        (if burden_slot \<notin> b then Some (opt_eac t)
         else map_option (\<lambda>x. opt_eac t - keyed_burden t + x) burden)
      \<and> (eac_not_computed w \<longleftrightarrow> burden_slot \<in> b \<and> burden = None)
      \<and> bt_kept_cost w = map_option (\<lambda>x. kept_cost t - keyed_burden t + x) burden"
  using eac_lines [of ws cats b]
  by (auto simp: Let_def with_burden_def opt_eac_def item_slot_in_def split: option.splits)

theorem with_burden_eac_witness:
  "let t = compute_totals [ex_area] [(''10'', ''Labor'')] (Some {''10'', ''20''});
       w = with_burden t (Some {''10'', ''20''}) (Some 784)
   in bt_eac_in_basis w = Some 4784 \<and> bt_kept_cost w = Some 5084"
  using with_burden_eac [of "[ex_area]" "[(''10'', ''Labor'')]" "{''10'', ''20''}" "Some 784"]
  by (simp add: Let_def burden_slot_def keyed_burden_def compute_totals_def item_slot_in_def
      counting_lines_def ex_area_def counts_def wa_cost_def)

end
