(* ===== verification/Burden.thy ===== *)
theory Burden
  imports Estimates
begin

text \<open>
  Labor burden: the tenant's effective-dated rates (\<open>app/domain/config/burden.py\<close>) and
  the burden of one estimate (\<open>app/domain/estimates/burden.py\<close>). Periods are half open,
  \<open>None\<close> is open ended; the rates of one division never overlap, so the rate in force on
  a day does not depend on the order the rows are read in. A rate is the number of its
  ten-thousandths.
\<close>

section \<open>Burden rates\<close>

record burden_rate =
  br_id :: uuid
  br_division_id :: "uuid option"
  effective_from :: date
  effective_to :: "date option"
  br_rate :: ten_thousandths
  basis_note :: "string option"
  br_active :: bool

datatype burden_event = Burden_rate_added uuid | Burden_rate_deactivated uuid

record burden_state =
  rates :: "burden_rate list"
  rate_audit :: "burden_event list"

text \<open>The rate a caller passes: a finite decimal (coefficient over a power of ten) or not.\<close>

datatype decimal_arg = Finite_decimal int nat | Not_finite

datatype burden_error =
    Rate_not_a_fraction
  | End_before_start
  | Overlaps_rate_from date
  | Burden_rate_not_found

definition overlaps :: "date \<Rightarrow> date option \<Rightarrow> date \<Rightarrow> date option \<Rightarrow> bool" where
  "overlaps a_from a_to b_from b_to \<longleftrightarrow>
     (case b_to of None \<Rightarrow> True | Some t \<Rightarrow> a_from < t) \<and>
     (case a_to of None \<Rightarrow> True | Some t \<Rightarrow> b_from < t)"

definition clean_note :: "string option \<Rightarrow> string option" where
  "clean_note note = (let t = take 500 (strip (case note of None \<Rightarrow> [] | Some s \<Rightarrow> s))
     in if t = [] then None else Some t)"

definition rate_in_range :: "decimal_arg \<Rightarrow> bool" where
  "rate_in_range r = (case r of Not_finite \<Rightarrow> False
     | Finite_decimal c s \<Rightarrow> 0 \<le> c \<and> c < 10 * 10 ^ s)"

definition quantize_rate :: "decimal_arg \<Rightarrow> ten_thousandths" where
  "quantize_rate r = (case r of Not_finite \<Rightarrow> 0
     | Finite_decimal c s \<Rightarrow> div_half_up (c * 10 ^ 4) (10 ^ s))"

definition add_burden_rate ::
  "burden_state \<Rightarrow> uuid \<Rightarrow> uuid option \<Rightarrow> date \<Rightarrow> date option \<Rightarrow> decimal_arg \<Rightarrow> string option
    \<Rightarrow> (burden_error, burden_state) result" where
  "add_burden_rate st new_id division from_d to_d rate note =
     (if \<not> rate_in_range rate then Inl Rate_not_a_fraction
      else if (case to_d of None \<Rightarrow> False | Some t \<Rightarrow> t \<le> from_d) then Inl End_before_start
      else (case List.find (\<lambda>o'. overlaps from_d to_d (effective_from o') (effective_to o'))
              (filter (\<lambda>r. br_active r \<and> br_division_id r = division) (rates st)) of
        Some other \<Rightarrow> Inl (Overlaps_rate_from (effective_from other))
      | None \<Rightarrow> Inr \<lparr>rates = rates st @ [\<lparr>br_id = new_id, br_division_id = division,
            effective_from = from_d, effective_to = to_d, br_rate = quantize_rate rate,
            basis_note = clean_note note, br_active = True\<rparr>],
          rate_audit = rate_audit st @ [Burden_rate_added new_id]\<rparr>))"

definition switch_off :: "uuid \<Rightarrow> burden_rate \<Rightarrow> burden_rate" where
  "switch_off rid r = (if br_id r = rid then r\<lparr>br_active := False\<rparr> else r)"

definition deactivate_burden_rate ::
  "burden_state \<Rightarrow> uuid \<Rightarrow> (burden_error, burden_state) result" where
  "deactivate_burden_rate st rid =
     (case List.find (\<lambda>r. br_id r = rid) (rates st) of
        None \<Rightarrow> Inl Burden_rate_not_found
      | Some row \<Rightarrow>
          if \<not> br_active row then Inl Burden_rate_not_found
          else Inr \<lparr>rates = map (switch_off rid) (rates st),
            rate_audit = rate_audit st @ [Burden_rate_deactivated rid]\<rparr>)"

text \<open>\<open>max(rows, key=k)\<close>: the first of the greatest.\<close>

fun max_by :: "('a \<Rightarrow> 'k::linorder) \<Rightarrow> 'a \<Rightarrow> 'a list \<Rightarrow> 'a" where
  "max_by k m [] = m"
| "max_by k m (x # xs) = max_by k (if k m < k x then x else m) xs"

definition py_max :: "('a \<Rightarrow> 'k::linorder) \<Rightarrow> 'a list \<Rightarrow> 'a option" where
  "py_max k xs = (case xs of [] \<Rightarrow> None | y # ys \<Rightarrow> Some (max_by k y ys))"

definition covers :: "date \<Rightarrow> burden_rate \<Rightarrow> bool" where
  "covers day r \<longleftrightarrow> effective_from r \<le> day \<and>
     (case effective_to r of None \<Rightarrow> True | Some t \<Rightarrow> day < t)"

definition pick_rate :: "burden_rate list \<Rightarrow> date \<Rightarrow> uuid option \<Rightarrow> burden_rate option" where
  "pick_rate rows day division =
     (let covering = filter (covers day) rows;
          own = filter (\<lambda>r. division \<noteq> None \<and> br_division_id r = division) covering;
          company = filter (\<lambda>r. br_division_id r = None) covering
      in if own \<noteq> [] then py_max effective_from own
         else if company \<noteq> [] then py_max effective_from company else None)"

definition active_burden_rates :: "burden_state \<Rightarrow> burden_rate list" where
  "active_burden_rates st = sort_key effective_from (filter br_active (rates st))"

definition burden_rate_on :: "burden_state \<Rightarrow> date \<Rightarrow> uuid option \<Rightarrow> ten_thousandths option" where
  "burden_rate_on st day division =
     map_option br_rate (pick_rate (active_burden_rates st) day division)"

section \<open>The invariant of the rates\<close>

definition period_ok :: "burden_rate \<Rightarrow> bool" where
  "period_ok r \<longleftrightarrow> (case effective_to r of None \<Rightarrow> True | Some t \<Rightarrow> effective_from r < t)"

definition disjoint_rates :: "burden_rate \<Rightarrow> burden_rate \<Rightarrow> bool" where
  "disjoint_rates a b \<longleftrightarrow> (br_active a \<and> br_active b \<and> br_division_id a = br_division_id b
     \<longrightarrow> \<not> overlaps (effective_from a) (effective_to a) (effective_from b) (effective_to b))"

definition rates_inv :: "burden_state \<Rightarrow> bool" where
  "rates_inv st \<longleftrightarrow> distinct (map br_id (rates st)) \<and> list_all period_ok (rates st)
     \<and> list_all (\<lambda>r. 0 \<le> br_rate r \<and> br_rate r \<le> 100000) (rates st)
     \<and> sorted_wrt disjoint_rates (rates st)"

text \<open>The two writes, each as a step that may or may not be refused.\<close>

inductive burden_step :: "burden_state \<Rightarrow> burden_state \<Rightarrow> bool" where
  added: "rid \<notin> br_id ` set (rates st) \<Longrightarrow>
     add_burden_rate st rid division f t rate note = Inr st' \<Longrightarrow> burden_step st st'"
| deactivated: "deactivate_burden_rate st rid = Inr st' \<Longrightarrow> burden_step st st'"

inductive_cases burden_stepE: "burden_step st st'"

lemma overlaps_sym: "overlaps a b c d \<longleftrightarrow> overlaps c d a b"
  by (auto simp: overlaps_def)

lemma covers_overlap: "covers day a \<Longrightarrow> covers day b \<Longrightarrow>
    overlaps (effective_from a) (effective_to a) (effective_from b) (effective_to b)"
  by (auto simp: covers_def overlaps_def split: option.splits)

lemma quantize_rate_range:
  assumes "rate_in_range r"
  shows "0 \<le> quantize_rate r \<and> quantize_rate r \<le> 100000"
proof (cases r)
  case Not_finite
  with assms show ?thesis by (simp add: rate_in_range_def)
next
  case (Finite_decimal c s)
  with assms have c: "0 \<le> c" "c * 10 ^ 4 \<le> 100000 * 10 ^ s" by (simp_all add: rate_in_range_def)
  have "div_half_up (c * 10 ^ 4) (10 ^ s) \<le> div_half_up (100000 * 10 ^ s) (10 ^ s)"
    using c(2) by (intro div_half_up_mono) auto
  moreover have "0 \<le> div_half_up (c * 10 ^ 4) (10 ^ s)"
    using c(1) by (intro div_half_up_nonneg) auto
  moreover have "div_half_up (100000 * 10 ^ s) (10 ^ s) = 100000"
    by (rule div_half_up_exact) simp
  ultimately show ?thesis using Finite_decimal by (simp add: quantize_rate_def)
qed

lemma add_burden_rate_Inr:
  assumes "add_burden_rate st rid division f t rate note = Inr st'"
  obtains row where "rates st' = rates st @ [row]" and "br_id row = rid" and "br_active row"
    and "br_division_id row = division" and "period_ok row" and "0 \<le> br_rate row" "br_rate row \<le> 100000"
    and "\<And>r. r \<in> set (rates st) \<Longrightarrow> disjoint_rates r row"
    and "rate_audit st' = rate_audit st @ [Burden_rate_added rid]"
proof -
  let ?same = "filter (\<lambda>r. br_active r \<and> br_division_id r = division) (rates st)"
  from assms have range: "rate_in_range rate"
    and order: "\<not> (case t of None \<Rightarrow> False | Some x \<Rightarrow> x \<le> f)"
    and none: "List.find (\<lambda>o'. overlaps f t (effective_from o') (effective_to o')) ?same = None"
    by (auto simp: add_burden_rate_def split: if_splits option.splits)
  let ?row = "\<lparr>br_id = rid, br_division_id = division, effective_from = f, effective_to = t,
      br_rate = quantize_rate rate, basis_note = clean_note note, br_active = True\<rparr>"
  have st': "st' = \<lparr>rates = rates st @ [?row], rate_audit = rate_audit st @ [Burden_rate_added rid]\<rparr>"
    using assms range order none by (auto simp: add_burden_rate_def split: if_splits)
  have disj: "disjoint_rates r ?row" if "r \<in> set (rates st)" for r
    using none that overlaps_sym [of "effective_from r"]
    by (auto simp: disjoint_rates_def find_None_iff)
  show thesis
    by (rule that [of ?row])
      (use st' order quantize_rate_range [OF range] disj in
        \<open>auto simp: period_ok_def not_le split: option.splits\<close>)
qed

lemma add_burden_rate_inv:
  assumes "rates_inv st" and "rid \<notin> br_id ` set (rates st)"
    and "add_burden_rate st rid division f t rate note = Inr st'"
  shows "rates_inv st'"
  using assms(3)
proof (rule add_burden_rate_Inr)
  fix row
  assume "rates st' = rates st @ [row]" "br_id row = rid" "br_active row"
    "br_division_id row = division" "period_ok row" "0 \<le> br_rate row" "br_rate row \<le> 100000"
    "\<And>r. r \<in> set (rates st) \<Longrightarrow> disjoint_rates r row"
  with assms(1,2) show ?thesis
    by (auto simp: rates_inv_def sorted_wrt_append)
qed

lemma switch_off_fields [simp]:
  "br_id (switch_off rid r) = br_id r" "br_division_id (switch_off rid r) = br_division_id r"
  "effective_from (switch_off rid r) = effective_from r"
  "effective_to (switch_off rid r) = effective_to r" "br_rate (switch_off rid r) = br_rate r"
  "br_active (switch_off rid r) \<longleftrightarrow> br_active r \<and> br_id r \<noteq> rid"
  by (simp_all add: switch_off_def)

lemma deactivate_inv:
  assumes "rates_inv st" and "deactivate_burden_rate st rid = Inr st'"
  shows "rates_inv st'"
proof -
  from assms(2) have st': "rates st' = map (switch_off rid) (rates st)"
    by (auto simp: deactivate_burden_rate_def split: option.splits if_splits)
  have "sorted_wrt disjoint_rates (map (switch_off rid) (rates st))"
    unfolding sorted_wrt_map
    by (rule sorted_wrt_mono_rel [of _ disjoint_rates])
      (use assms(1) in \<open>simp_all add: rates_inv_def disjoint_rates_def\<close>)
  moreover have "map br_id (map (switch_off rid) (rates st)) = map br_id (rates st)" by simp
  ultimately show ?thesis
    using assms(1) unfolding rates_inv_def st'
    by (simp add: list_all_iff period_ok_def comp_def split: option.splits)
qed

interpretation burden_machine: state_machine "\<lambda>st. rates st = []" burden_step rates_inv
proof unfold_locales
  show "rates st = [] \<Longrightarrow> rates_inv st" for st by (simp add: rates_inv_def)
  show "rates_inv st \<Longrightarrow> burden_step st st' \<Longrightarrow> rates_inv st'" for st st'
    by (erule burden_stepE) (blast intro: add_burden_rate_inv deactivate_inv)+
qed

section \<open>The rate in force\<close>

lemma max_by_mem: "max_by k m xs \<in> insert m (set xs)"
  by (induction xs arbitrary: m) (auto split: if_splits)

lemma sorted_wrt_pair:
  assumes "sorted_wrt P xs" and "x \<in> set xs" and "y \<in> set xs" and "x \<noteq> y"
  shows "P x y \<or> P y x"
  using assms by (induction xs) auto

lemma covering_unique:
  assumes "rates_inv st" and "a \<in> set (rates st)" "b \<in> set (rates st)"
    and "br_active a" "br_active b" and "br_division_id a = br_division_id b"
    and "covers day a" "covers day b"
  shows "a = b"
proof (rule ccontr)
  assume "a \<noteq> b"
  with assms(1,2,3) have "disjoint_rates a b \<or> disjoint_rates b a"
    using sorted_wrt_pair [of disjoint_rates "rates st" a b] by (simp add: rates_inv_def)
  with covers_overlap [OF assms(7,8)] covers_overlap [OF assms(8,7)] assms(4-6) show False
    by (auto simp: disjoint_rates_def)
qed

lemma py_max_unique:
  assumes "\<And>x y. x \<in> set xs \<Longrightarrow> y \<in> set xs \<Longrightarrow> x = y"
  shows "py_max k xs = Some r \<longleftrightarrow> r \<in> set xs"
proof (cases xs)
  case (Cons y ys)
  then have "max_by k y ys \<in> set xs" using max_by_mem [of k y ys] by simp
  then show ?thesis using Cons assms by (auto simp: py_max_def)
qed (simp add: py_max_def)

lemma pick_rate_iff:
  assumes "rates_inv st"
  shows "pick_rate (active_burden_rates st) day d = Some r \<longleftrightarrow>
    r \<in> set (rates st) \<and> br_active r \<and> covers day r \<and>
    (if d \<noteq> None \<and> (\<exists>o' \<in> set (rates st). br_active o' \<and> covers day o' \<and> br_division_id o' = d)
     then br_division_id r = d else br_division_id r = None)"
proof -
  define cov where "cov = filter (covers day) (active_burden_rates st)"
  define own where "own = filter (\<lambda>r. d \<noteq> None \<and> br_division_id r = d) cov"
  define company where "company = filter (\<lambda>r. br_division_id r = None) cov"
  have cov: "x \<in> set cov \<longleftrightarrow> x \<in> set (rates st) \<and> br_active x \<and> covers day x" for x
    by (auto simp: cov_def active_burden_rates_def)
  have one: "x = y" if "x \<in> set cov" "y \<in> set cov" "br_division_id x = br_division_id y" for x y
    using that covering_unique [OF assms, of x y day] unfolding cov by blast
  have own: "py_max effective_from own = Some r \<longleftrightarrow> r \<in> set own"
    by (rule py_max_unique) (auto simp: own_def intro: one)
  have company: "py_max effective_from company = Some r \<longleftrightarrow> r \<in> set company"
    by (rule py_max_unique) (auto simp: company_def intro: one)
  have any: "own \<noteq> [] \<longleftrightarrow>
      d \<noteq> None \<and> (\<exists>o' \<in> set (rates st). br_active o' \<and> covers day o' \<and> br_division_id o' = d)"
    using cov by (auto simp: own_def filter_empty_conv)
  have "pick_rate (active_burden_rates st) day d =
      (if own \<noteq> [] then py_max effective_from own
       else if company \<noteq> [] then py_max effective_from company else None)"
    by (simp add: pick_rate_def Let_def own_def company_def cov_def)
  also have "\<dots> = Some r \<longleftrightarrow> (if own \<noteq> [] then r \<in> set own else r \<in> set company)"
    using own company by auto
  also have "\<dots> \<longleftrightarrow> r \<in> set cov \<and> (if own \<noteq> [] then br_division_id r = d else br_division_id r = None)"
    using any by (auto simp: own_def company_def)
  finally show ?thesis unfolding any cov by blast
qed

text \<open>
  The rate in force is determined. In every state the two writes can reach, at most one
  active row of a division covers a day, and the rate in force is the division's own row
  that covers the day when there is one, else the company's row, else none, whatever order
  the rows are read in.
\<close>

theorem rate_in_force_determined:
  assumes "reachable_from (\<lambda>st. rates st = []) burden_step st"
  shows "pick_rate (active_burden_rates st) day d = Some r \<longleftrightarrow>
    r \<in> set (rates st) \<and> br_active r \<and> covers day r \<and>
    (if d \<noteq> None \<and> (\<exists>o' \<in> set (rates st). br_active o' \<and> covers day o' \<and> br_division_id o' = d)
     then br_division_id r = d else br_division_id r = None)"
  using assms by (intro pick_rate_iff burden_machine.reachable_inv)

text \<open>A company rate for all of 2026 and a rate of division 4 from July.\<close>

definition ex_rates :: burden_state where
  "ex_rates = (let st = \<lparr>rates = [], rate_audit = []\<rparr>;
       st1 = projr (add_burden_rate st 1 None (Date 2026 1 1) None (Finite_decimal 3250 4) None)
     in projr (add_burden_rate st1 2 (Some 4) (Date 2026 7 1) None (Finite_decimal 1959 4) None))"

lemma ex_rates_reachable: "reachable_from (\<lambda>st. rates st = []) burden_step ex_rates"
proof -
  let ?st = "\<lparr>rates = [], rate_audit = []\<rparr>"
  let ?st1 = "projr (add_burden_rate ?st 1 None (Date 2026 1 1) None (Finite_decimal 3250 4) None)"
  have "burden_step ?st ?st1"
    by (rule burden_step.added [of 1 _ None "Date 2026 1 1" None "Finite_decimal 3250 4" None])
      (simp_all add: add_burden_rate_def rate_in_range_def)
  moreover have "burden_step ?st1 ex_rates"
    unfolding ex_rates_def Let_def
    by (rule burden_step.added [of 2 _ "Some 4" "Date 2026 7 1" None "Finite_decimal 1959 4" None])
      (simp_all add: add_burden_rate_def rate_in_range_def)
  ultimately show ?thesis
    by (meson reach_start reach_step burden_state.select_convs(1))
qed

theorem rate_in_force_determined_witness:
  "\<exists>r. pick_rate (active_burden_rates ex_rates) (Date 2026 8 1) (Some 4) = Some r \<and> br_rate r = 1959"
proof -
  let ?r = "\<lparr>br_id = 2, br_division_id = Some 4, effective_from = Date 2026 7 1, effective_to = None,
      br_rate = 1959, basis_note = None, br_active = True\<rparr>"
  have "?r \<in> set (rates ex_rates) \<and> br_active ?r \<and> covers (Date 2026 8 1) ?r"
    by (simp add: ex_rates_def add_burden_rate_def rate_in_range_def quantize_rate_def
        div_half_up_def clean_note_def strip_def lstrip_def covers_def)
  then have "pick_rate (active_burden_rates ex_rates) (Date 2026 8 1) (Some 4) = Some ?r"
    unfolding rate_in_force_determined [OF ex_rates_reachable]
    by (auto intro!: bexI [of _ ?r])
  then show ?thesis by auto
qed

section \<open>The burden of an estimate\<close>

record division_burden =
  db_division_id :: uuid
  db_division_code :: string
  db_labor :: cents
  db_rate :: "burden_rate option"
  db_burden :: "cents option"

record work_area_burden =
  wab_order_no :: int
  wab_divisions :: "division_burden list"

record burden_result =
  bres_day :: "date option"
  bres_work_areas :: "work_area_burden list"
  bres_by_division :: "division_burden list"
  burden_line_orders :: "int list"

definition all_computed :: "division_burden list \<Rightarrow> bool" where
  "all_computed ds = list_all (\<lambda>d. db_burden d \<noteq> None) ds"

definition sum_burden :: "division_burden list \<Rightarrow> cents" where
  "sum_burden ds = (\<Sum>d \<leftarrow> filter (\<lambda>d. db_burden d \<noteq> None) ds. case db_burden d of None \<Rightarrow> 0 | Some b \<Rightarrow> b)"

text \<open>The properties \<open>burden\<close>, \<open>missing\<close>, \<open>total\<close> and the method \<open>burden_for\<close>.\<close>

definition area_burden :: "work_area_burden \<Rightarrow> cents option" where
  "area_burden w = (if list_ex (\<lambda>d. db_burden d = None) (wab_divisions w) then None
     else Some (sum_burden (wab_divisions w)))"

definition burden_missing :: "burden_result \<Rightarrow> string list" where
  "burden_missing r = map db_division_code (filter (\<lambda>d. db_burden d = None) (bres_by_division r))"

definition burden_total :: "burden_result \<Rightarrow> cents option" where
  "burden_total r = (if burden_missing r \<noteq> [] then None else Some (sum_burden (bres_by_division r)))"

definition burden_for :: "burden_result \<Rightarrow> int \<Rightarrow> cents option" where
  "burden_for r order_no = (case List.find (\<lambda>w. wab_order_no w = order_no) (bres_work_areas r) of
     None \<Rightarrow> Some 0 | Some w \<Rightarrow> area_burden w)"

definition quantize_burden :: "cents \<Rightarrow> ten_thousandths \<Rightarrow> cents" where
  "quantize_burden amount rate = div_half_up (amount * rate) 10000"

definition code_or_mark :: "string option \<Rightarrow> string" where
  "code_or_mark c = (case c of None \<Rightarrow> ''?'' | Some s \<Rightarrow> if s = [] then ''?'' else s)"

definition labor_lines :: "work_area_in \<Rightarrow> (uuid \<times> cost_line_in) list" where
  "labor_lines w = List.map_filter (\<lambda>ln. if cl_slot ln = Some burden_slot then None
     else if cl_slot ln = Some labor_slot then map_option (\<lambda>d. (d, ln)) (cl_division_id ln)
     else None) (wa_lines w)"

definition area_labor :: "work_area_in \<Rightarrow> (uuid, cents) dict" where
  "area_labor w = dict_add_all [] (map (\<lambda>(d, ln). (d, cl_amount ln)) (labor_lines w))"

definition area_codes :: "(uuid, string) dict \<Rightarrow> work_area_in \<Rightarrow> (uuid, string) dict" where
  "area_codes codes w = foldl (\<lambda>c (d, ln). AList.update d (code_or_mark (cl_division_code ln)) c)
     codes (labor_lines w)"

definition code_of :: "(uuid, string) dict \<Rightarrow> uuid \<Rightarrow> string" where
  "code_of codes d = dict_get codes d []"

definition division_row ::
  "burden_rate list \<Rightarrow> date option \<Rightarrow> (uuid, string) dict \<Rightarrow> (uuid, cents) dict \<Rightarrow> uuid \<Rightarrow> division_burden" where
  "division_row rows day codes labor d =
     (let rate = (case day of None \<Rightarrow> None | Some x \<Rightarrow> pick_rate rows x (Some d));
          amount = dict_at labor d
      in \<lparr>db_division_id = d, db_division_code = code_of codes d, db_labor = amount, db_rate = rate,
          db_burden = map_option (\<lambda>r. quantize_burden amount (br_rate r)) rate\<rparr>)"

type_synonym burden_scan = "work_area_burden list \<times> int list \<times> (uuid, string) dict"

fun scan_area ::
  "burden_rate list \<Rightarrow> date option \<Rightarrow> burden_scan \<Rightarrow> work_area_in \<Rightarrow> burden_scan" where
  "scan_area rows day (per_area, burden_lines, codes) w =
     (if \<not> counts w then (per_area, burden_lines, codes)
      else (let lines' = (if list_ex (\<lambda>ln. cl_slot ln = Some burden_slot) (wa_lines w)
                            \<and> wa_order_no w \<notin> set burden_lines
                          then burden_lines @ [wa_order_no w] else burden_lines);
                labor = area_labor w; codes' = area_codes codes w
            in if labor = [] then (per_area, lines', codes')
               else (per_area @ [\<lparr>wab_order_no = wa_order_no w,
                 wab_divisions = map (division_row rows day codes' labor)
                   (sort_key (code_of codes') (map fst labor))\<rparr>], lines', codes')))"

definition division_total ::
  "work_area_burden list \<Rightarrow> (uuid, string) dict \<Rightarrow> uuid \<Rightarrow> division_burden" where
  "division_total per_area codes d =
     (let parts = filter (\<lambda>x. db_division_id x = d) (concat (map wab_divisions per_area))
      in \<lparr>db_division_id = d, db_division_code = code_of codes d,
          db_labor = (\<Sum>x \<leftarrow> parts. db_labor x),
          db_rate = (case parts of [] \<Rightarrow> None | x # _ \<Rightarrow> db_rate x),
          db_burden = (if all_computed parts then Some (sum_burden parts) else None)\<rparr>)"

definition compute_burden ::
  "work_area_in list \<Rightarrow> burden_rate list \<Rightarrow> date option \<Rightarrow> burden_result" where
  "compute_burden ws rows day =
     (case foldl (scan_area rows day) ([], [], []) ws of (per_area, burden_lines, codes) \<Rightarrow>
        \<lparr>bres_day = day, bres_work_areas = per_area,
         bres_by_division = map (division_total per_area codes)
           (sort_key (code_of codes) (map fst codes)),
         burden_line_orders = burden_lines\<rparr>)"

subsection \<open>Lemmas\<close>

abbreviation area_rows :: "work_area_burden list \<Rightarrow> division_burden list" where
  "area_rows per_area \<equiv> concat (map wab_divisions per_area)"

definition scan_ok :: "burden_scan \<Rightarrow> bool" where
  "scan_ok s = (case s of (per_area, burden_lines, codes) \<Rightarrow>
     distinct (map fst codes) \<and> distinct burden_lines
     \<and> db_division_id ` set (area_rows per_area) = fst ` set codes)"

lemma area_codes_keys: "fst ` set (area_codes codes w) = fst ` set codes \<union> fst ` set (labor_lines w)"
proof -
  have "fst ` set (foldl (\<lambda>c (d, ln). AList.update d (code_or_mark (cl_division_code ln)) c) codes xs) =
      fst ` set codes \<union> fst ` set xs" for xs :: "(uuid \<times> cost_line_in) list"
  proof (induction xs arbitrary: codes)
    case (Cons x xs)
    then show ?case
      using dom_update [of "fst x" "code_or_mark (cl_division_code (snd x))" codes]
      by (simp add: case_prod_unfold)
  qed simp
  then show ?thesis by (simp add: area_codes_def)
qed

lemma area_codes_distinct: "distinct (map fst codes) \<Longrightarrow> distinct (map fst (area_codes codes w))"
proof -
  have "distinct (map fst codes) \<Longrightarrow>
      distinct (map fst (foldl (\<lambda>c (d, ln). AList.update d (code_or_mark (cl_division_code ln)) c) codes xs))"
    for xs :: "(uuid \<times> cost_line_in) list"
    by (induction xs arbitrary: codes) (auto simp: distinct_update)
  then show "distinct (map fst codes) \<Longrightarrow> ?thesis" by (simp add: area_codes_def)
qed

lemma area_labor_keys: "fst ` set (area_labor w) = fst ` set (labor_lines w)"
  by (simp add: area_labor_def dict_simps image_image case_prod_unfold)

lemma area_labor_distinct: "distinct (map fst (area_labor w))"
  by (simp add: area_labor_def dict_add_all_distinct)

lemma area_labor_total: "dict_total (area_labor w) = (\<Sum>(d, ln) \<leftarrow> labor_lines w. cl_amount ln)"
  by (simp add: area_labor_def dict_simps comp_def case_prod_unfold)

lemma area_labor_at:
  "dict_at (area_labor w) d = (\<Sum>(d', ln) \<leftarrow> filter (\<lambda>x. fst x = d) (labor_lines w). cl_amount ln)"
proof -
  have "(\<Sum>(k, v) \<leftarrow> filter (\<lambda>kv. fst kv = d) (map (\<lambda>(d, ln). (d, cl_amount ln)) xs). v) =
      (\<Sum>(d', ln) \<leftarrow> filter (\<lambda>x. fst x = d) xs. cl_amount ln)" for xs :: "(uuid \<times> cost_line_in) list"
    by (induction xs) auto
  then show ?thesis by (simp add: area_labor_def dict_simps)
qed

lemma division_row_simps [simp]:
  "db_division_id (division_row rows day codes labor d) = d"
  "db_labor (division_row rows day codes labor d) = dict_at labor d"
  by (simp_all add: division_row_def Let_def)

lemma scan_area_ok:
  assumes "scan_ok (a, b, c)"
  shows "scan_ok (scan_area rows day (a, b, c) w)"
proof (cases "counts w")
  case True
  have keys: "fst ` set (area_codes c w) = fst ` set c \<union> fst ` set (area_labor w)"
    by (simp only: area_codes_keys area_labor_keys)
  have "area_labor w = [] \<Longrightarrow> fst ` set (area_codes c w) = fst ` set c" using keys by simp
  with True assms keys show ?thesis
    unfolding scan_ok_def
    by (simp add: Let_def area_codes_distinct image_Un image_image Un_ac)
qed (use assms in simp)

lemma scan_area_labor:
  "counts w \<Longrightarrow> (\<Sum>x \<leftarrow> area_rows (fst (scan_area rows day (a, b, c) w)). db_labor x) =
     (\<Sum>x \<leftarrow> area_rows a. db_labor x) + dict_total (area_labor w)"
  using dict_total_cover [OF area_labor_distinct,
      of "sort_key (code_of (area_codes c w)) (map fst (area_labor w))" w]
  by (simp add: Let_def comp_def distinct_sort area_labor_distinct)
    (simp add: dict_total_def)

lemma scan_all:
  assumes "scan_ok s"
  shows "scan_ok (foldl (scan_area rows day) s ws) \<and>
    (\<Sum>x \<leftarrow> area_rows (fst (foldl (scan_area rows day) s ws)). db_labor x) =
      (\<Sum>x \<leftarrow> area_rows (fst s). db_labor x)
      + (\<Sum>w \<leftarrow> filter counts ws. \<Sum>(d, ln) \<leftarrow> labor_lines w. cl_amount ln)"
  using assms
proof (induction ws arbitrary: s)
  case (Cons w ws)
  obtain a b c where s: "s = (a, b, c)" by (cases s)
  have ok: "scan_ok (scan_area rows day s w)" using Cons.prems scan_area_ok unfolding s by blast
  have "(\<Sum>x \<leftarrow> area_rows (fst (scan_area rows day s w)). db_labor x) =
      (\<Sum>x \<leftarrow> area_rows (fst s). db_labor x)
      + (if counts w then \<Sum>(d, ln) \<leftarrow> labor_lines w. cl_amount ln else 0)"
  proof (cases "counts w")
    case True
    then show ?thesis unfolding s using scan_area_labor area_labor_total by simp
  qed (simp add: s)
  with Cons.IH [OF ok] show ?case by simp
qed simp

text \<open>What a row of a work area says: the area's labor for its division, at the rate in force.\<close>

definition row_of ::
  "burden_rate list \<Rightarrow> date option \<Rightarrow> work_area_in \<Rightarrow> division_burden \<Rightarrow> bool" where
  "row_of rows day w x \<longleftrightarrow> counts w \<and> db_division_id x \<in> fst ` set (labor_lines w)
     \<and> db_labor x = dict_at (area_labor w) (db_division_id x)
     \<and> db_rate x = (case day of None \<Rightarrow> None | Some dt \<Rightarrow> pick_rate rows dt (Some (db_division_id x)))
     \<and> db_burden x = map_option (\<lambda>r. quantize_burden (db_labor x) (br_rate r)) (db_rate x)"

lemma row_of_division_row:
  "counts w \<Longrightarrow> d \<in> fst ` set (labor_lines w) \<Longrightarrow>
    row_of rows day w (division_row rows day codes (area_labor w) d)"
  unfolding row_of_def division_row_simps by (simp add: division_row_def Let_def)

lemma scan_area_rows:
  assumes "x \<in> set (area_rows (fst (scan_area rows day s w)))"
  shows "x \<in> set (area_rows (fst s)) \<or> row_of rows day w x"
proof -
  obtain a b c where s: "s = (a, b, c)" by (cases s)
  have "x \<in> set (area_rows (fst s)) \<or>
      (counts w \<and> x \<in> division_row rows day (area_codes c w) (area_labor w) ` fst ` set (area_labor w))"
    using assms unfolding s by (auto simp: Let_def split: if_splits)
  then show ?thesis using row_of_division_row unfolding area_labor_keys by blast
qed

lemma area_row_shape:
  assumes "x \<in> set (area_rows (fst (foldl (scan_area rows day) s ws)))"
  shows "x \<in> set (area_rows (fst s)) \<or> (\<exists>w\<in>set ws. row_of rows day w x)"
  using assms
proof (induction ws arbitrary: s)
  case (Cons w ws)
  then have "x \<in> set (area_rows (fst (scan_area rows day s w))) \<or> (\<exists>w\<in>set ws. row_of rows day w x)"
    by simp
  with scan_area_rows [of x rows day s w] show ?case by auto
qed simp

lemma burden_scan_facts:
  assumes "foldl (scan_area rows day) ([], [], []) ws = (a, b, c)"
  shows "distinct (map fst c)" and "distinct b"
    and "db_division_id ` set (area_rows a) = fst ` set c"
    and "(\<Sum>x \<leftarrow> area_rows a. db_labor x) =
      (\<Sum>w \<leftarrow> filter counts ws. \<Sum>(d, ln) \<leftarrow> labor_lines w. cl_amount ln)"
  using scan_all [of "([], [], [])" rows day ws] assms by (simp_all add: scan_ok_def)

text \<open>A figure summed per division is the figure summed over the rows: each row has one division.\<close>

lemma sum_by_division:
  fixes f :: "division_burden \<Rightarrow> int"
  assumes "distinct ks" and "\<And>x. x \<in> set xs \<Longrightarrow> db_division_id x \<in> set ks"
  shows "(\<Sum>d \<leftarrow> ks. \<Sum>x \<leftarrow> filter (\<lambda>x. db_division_id x = d) xs. f x) = (\<Sum>x \<leftarrow> xs. f x)"
proof -
  have "(\<Sum>d \<leftarrow> ks. \<Sum>x \<leftarrow> filter (\<lambda>x. db_division_id x = d) xs. f x) =
      (\<Sum>x \<leftarrow> xs. \<Sum>d \<leftarrow> ks. if db_division_id x = d then f x else 0)"
    by (simp only: sum_list_filter_if) (rule sum_list_swap)
  also have "\<dots> = (\<Sum>x \<leftarrow> xs. f x)"
    using assms by (intro arg_cong [of _ _ sum_list] map_cong refl sum_list_one_class) auto
  finally show ?thesis .
qed

lemma sum_burden_if:
  "sum_burden ds = (\<Sum>d \<leftarrow> ds. case db_burden d of None \<Rightarrow> 0 | Some b \<Rightarrow> b)"
  unfolding sum_burden_def by (induction ds) auto

lemma sum_burden_filter:
  "sum_burden (filter P ds) = (\<Sum>d \<leftarrow> filter P ds. case db_burden d of None \<Rightarrow> 0 | Some b \<Rightarrow> b)"
  by (rule sum_burden_if)

lemma division_total_simps [simp]:
  "db_labor (division_total a c d) = (\<Sum>x \<leftarrow> filter (\<lambda>x. db_division_id x = d) (area_rows a). db_labor x)"
  "db_burden (division_total a c d) = (if all_computed (filter (\<lambda>x. db_division_id x = d) (area_rows a))
     then Some (sum_burden (filter (\<lambda>x. db_division_id x = d) (area_rows a))) else None)"
  "db_division_id (division_total a c d) = d"
  by (simp_all add: division_total_def Let_def)

lemma by_division_missing:
  assumes "db_division_id ` set (area_rows a) = set ks"
  shows "(\<exists>y \<in> set (map (division_total a c) ks). db_burden y = None) \<longleftrightarrow>
    (\<exists>x \<in> set (area_rows a). db_burden x = None)"
  using assms by (auto simp: all_computed_def list_all_iff split: if_splits)

section \<open>Properties of the burden\<close>

text \<open>
  The labor burden of an estimate. The labor reported per division adds up to every
  labor line with a division under the counting work areas, no line lost or counted
  twice; the estimate's burden is not computed exactly when some row of some work area
  has no rate, and otherwise is the sum of the per-area row burdens, so the
  per-division and the per-area views agree to the cent.
\<close>

theorem compute_burden_total:
  fixes ws :: "work_area_in list" and rows :: "burden_rate list" and day :: "date option"
  defines "r \<equiv> compute_burden ws rows day"
  shows "(\<Sum>d \<leftarrow> bres_by_division r. db_labor d) =
      (\<Sum>w \<leftarrow> filter counts ws. \<Sum>(d, ln) \<leftarrow> labor_lines w. cl_amount ln)
    \<and> burden_total r =
      (if list_ex (\<lambda>x. db_burden x = None) (concat (map wab_divisions (bres_work_areas r))) then None
       else Some (\<Sum>x \<leftarrow> concat (map wab_divisions (bres_work_areas r)).
         case db_burden x of None \<Rightarrow> 0 | Some b \<Rightarrow> b))"
proof -
  obtain a b c where abc: "foldl (scan_area rows day) ([], [], []) ws = (a, b, c)"
    by (cases "foldl (scan_area rows day) ([], [], []) ws")
  define ks where "ks = sort_key (code_of c) (map fst c)"
  note facts = burden_scan_facts [OF abc]
  have ks: "distinct ks" "db_division_id ` set (area_rows a) = set ks"
    unfolding ks_def using facts by (simp_all add: distinct_sort)
  have r: "bres_work_areas r = a" "bres_by_division r = map (division_total a c) ks"
    unfolding r_def compute_burden_def abc by (simp_all add: ks_def)
  have labor: "(\<Sum>d \<leftarrow> ks. \<Sum>x \<leftarrow> filter (\<lambda>x. db_division_id x = d) (area_rows a). db_labor x) =
      (\<Sum>x \<leftarrow> area_rows a. db_labor x)"
    using ks by (intro sum_by_division) auto
  have burden: "(\<Sum>d \<leftarrow> ks. sum_burden (filter (\<lambda>x. db_division_id x = d) (area_rows a))) =
      (\<Sum>x \<leftarrow> area_rows a. case db_burden x of None \<Rightarrow> 0 | Some b \<Rightarrow> b)"
    unfolding sum_burden_filter using ks by (intro sum_by_division) auto
  have missing: "burden_missing r \<noteq> [] \<longleftrightarrow> list_ex (\<lambda>x. db_burden x = None) (area_rows a)"
    using by_division_missing [OF ks(2)] unfolding burden_missing_def r
    by (simp add: filter_empty_conv list_ex_iff)
  have "sum_burden (bres_by_division r) = (\<Sum>d \<leftarrow> ks. sum_burden (filter (\<lambda>x. db_division_id x = d) (area_rows a)))"
    if none: "\<not> list_ex (\<lambda>x. db_burden x = None) (area_rows a)"
  proof -
    have "all_computed (filter (\<lambda>x. db_division_id x = d) (area_rows a))" for d
      using none by (auto simp: all_computed_def list_all_iff list_ex_iff)
    then show ?thesis unfolding r sum_burden_if [of "map _ _"] by (simp add: comp_def)
  qed
  with missing burden show ?thesis
    unfolding burden_total_def using labor facts(4) by (simp add: r comp_def)
qed

text \<open>
  Each row of the burden states a division that carries labor under a counting work
  area, that area's labor for it, the rate in force for the division on the pricing day,
  and the labor at that rate rounded half-up once; the row has no burden exactly when no
  rate is in force or there is no pricing day.
\<close>

theorem compute_burden_row:
  assumes "x \<in> set (concat (map wab_divisions (bres_work_areas (compute_burden ws rows day))))"
  shows "\<exists>w\<in>set ws. counts w
    \<and> db_labor x = (\<Sum>(d, ln) \<leftarrow> filter (\<lambda>y. fst y = db_division_id x) (labor_lines w). cl_amount ln)
    \<and> db_burden x = map_option (\<lambda>r. div_half_up (db_labor x * br_rate r) 10000)
        (case day of None \<Rightarrow> None | Some dt \<Rightarrow> pick_rate rows dt (Some (db_division_id x)))"
proof -
  obtain a b c where abc: "foldl (scan_area rows day) ([], [], []) ws = (a, b, c)"
    by (cases "foldl (scan_area rows day) ([], [], []) ws")
  have "x \<in> set (area_rows (fst (foldl (scan_area rows day) ([], [], []) ws)))"
    using assms unfolding compute_burden_def abc by simp
  then obtain w where "w \<in> set ws" "row_of rows day w x"
    using area_row_shape by fastforce
  then show ?thesis unfolding row_of_def area_labor_at quantize_burden_def by auto
qed

definition ex_labor_area :: work_area_in where
  "ex_labor_area = \<lparr>wa_order_no = 1, wa_name = ''Planting'', wa_kept = True, wa_price = 900000,
     wa_change_order_suggested = False,
     wa_lines = [\<lparr>cost_code = ''10-100'', cl_slot = Some ''10'', cl_hours = Some 800, cl_amount = 120050,
       cl_division_id = Some 4, cl_division_code = Some ''40''\<rparr>]\<rparr>"

definition ex_rate_row :: burden_rate where
  "ex_rate_row = \<lparr>br_id = 2, br_division_id = Some 4, effective_from = Date 2026 7 1,
     effective_to = None, br_rate = 1959, basis_note = None, br_active = True\<rparr>"

theorem compute_burden_row_witness:
  "\<exists>x. set (concat (map wab_divisions (bres_work_areas
      (compute_burden [ex_labor_area] [ex_rate_row] (Some (Date 2026 8 1)))))) = {x}
    \<and> db_burden x = Some 23518"
proof -
  let ?rows = "concat (map wab_divisions (bres_work_areas
      (compute_burden [ex_labor_area] [ex_rate_row] (Some (Date 2026 8 1)))))"
  have counts: "counts ex_labor_area" by (simp add: ex_labor_area_def counts_def)
  have lines: "labor_lines ex_labor_area = [(4, hd (wa_lines ex_labor_area))]"
    by (simp add: labor_lines_def ex_labor_area_def burden_slot_def labor_slot_def
        List.map_filter_def)
  have labor: "area_labor ex_labor_area = [(4, 120050)]"
    unfolding area_labor_def lines
    by (simp add: ex_labor_area_def dict_add_all_def dict_add_def dict_at_def dict_get_def)
  have len: "\<exists>x. ?rows = [x] \<and> db_division_id x = 4"
    unfolding compute_burden_def
    using counts labor by (simp add: Let_def)
  have rate: "pick_rate [ex_rate_row] (Date 2026 8 1) (Some 4) = Some ex_rate_row"
    by (simp add: pick_rate_def covers_def ex_rate_row_def py_max_def)
  obtain x where x: "?rows = [x]" "db_division_id x = 4" using len by blast
  then have "x \<in> set ?rows" by simp
  from compute_burden_row [OF this] have "db_burden x = Some 23518"
    using x(2) lines rate by (simp add: ex_labor_area_def ex_rate_row_def div_half_up_def)
  with x(1) show ?thesis by simp
qed

end
