(* ===== verification/WorkAreas.thy ===== *)
theory WorkAreas
  imports BillingFigures Estimates
begin

text \<open>
  Billed to date per work area: \<open>app/domain/billing/work_areas.py\<close>. A document line is tied
  to a work area by its pay application, by the number at the start of its description, or
  by a person's assignment rows, in that order (\<open>tie_line\<close>); \<open>job_work_areas\<close> sums the
  parts per work area and leaves the rest of the job's billed to date as not assigned.
  Sentences shown to a person are constructors that carry the code and the values.
\<close>

section \<open>Rows\<close>

datatype area_role = Role_original | Role_change_order

type_synonym area_key = "string \<times> int"

record app_tie =
  at_billing_id :: string
  at_number :: nat
  at_allocations :: "(area_key, cents) dict"

record area_ref =
  ar_estimate_id :: string
  ar_estimate_number :: string
  ar_role :: area_role
  ar_work_area_id :: string
  ar_order_no :: int
  ar_name :: string
  ar_kept :: bool
  ar_price :: cents
  ar_kind :: "string option"
  ar_approved :: bool

definition area_key :: "area_ref \<Rightarrow> area_key" where
  "area_key a = (ar_estimate_id a, ar_order_no a)"

definition is_change_order :: "area_ref \<Rightarrow> bool" where
  "is_change_order a =
     (if \<not> ar_kept a then False
      else if ar_role a = Role_original then ar_kind a = Some ''change_order'' else True)"

definition area_label :: "area_ref \<Rightarrow> string" where
  "area_label a =
     (if ar_role a = Role_original then CHR ''#'' # int_str (ar_order_no a)
      else CHR ''#'' # int_str (ar_order_no a) @ '' of '' @ ar_estimate_number a)"

record assignment_in =
  as_id :: string
  as_billing_line_id :: string
  as_estimate_id :: string
  as_order_no :: int
  as_work_area_name :: string
  as_recorded_by :: string
  as_recorded_at :: int
  as_amount :: cents
  as_note :: "string option"

definition assignment_key :: "assignment_in \<Rightarrow> area_key" where
  "assignment_key a = (as_estimate_id a, as_order_no a)"

record line_part =
  lp_area :: area_ref
  lp_amount :: cents

datatype tie_how = By_application | By_number | By_assignment | Not_tied

datatype tie_sentence =
    Not_on_original nat
  | On_several_estimates nat "string list"
  | Not_on_latest int string "string option"
  | Renumbered int string string
  | Parts_differ cents cents

datatype not_offered_reason =
    Waits_for_policy
  | Not_counted doc_state
  | Not_priced
  | Is_surcharge
  | Is_deposit

record line_tie =
  lt_doc :: doc_figures
  lt_line :: line_in
  lt_amount :: cents
  lt_offered :: bool
  lt_not_offered :: "not_offered_reason option"
  lt_area :: "area_ref option"
  lt_how :: tie_how
  lt_assignment :: "assignment_in option"
  lt_note :: "tie_sentence list"
  lt_suggested :: "area_ref option"
  lt_parts :: "line_part list"
  lt_assignments :: "assignment_in list"

definition tie_split :: "line_tie \<Rightarrow> bool" where
  "tie_split t \<longleftrightarrow> length (lt_parts t) > 1"

section \<open>The number at the start of a description\<close>

text \<open>
  \<open>^\s*#(\d+)(?:\s|$)\<close>: the number is the whole run of digits after the sign, since a
  shorter run would be followed by a digit, which neither ends the text nor is a space.
\<close>

definition hash_number :: "string option \<Rightarrow> nat option" where
  "hash_number description =
     (case lstrip (or_empty description) of
        [] \<Rightarrow> None
      | c # rest \<Rightarrow>
          (let digits = takeWhile is_digit rest; after = dropWhile is_digit rest
           in if c = CHR ''#'' \<and> digits \<noteq> [] \<and> (after = [] \<or> is_space (hd after))
              then Some (parse_nat digits) else None))"

definition by_order :: "area_ref list \<Rightarrow> nat \<Rightarrow> area_ref list" where
  "by_order areas n = filter (\<lambda>a. ar_order_no a = int n) areas"

definition resolve_hash :: "nat \<Rightarrow> area_ref list \<Rightarrow> (tie_sentence, area_ref) result" where
  "resolve_hash n areas =
     (let carrying = by_order areas n;
          on_original = filter (\<lambda>a. ar_role a = Role_original) carrying
      in if on_original = [] then Inl (Not_on_original n)
         else if length carrying > 1 then
           Inl (On_several_estimates n (sort (remdups (map ar_estimate_number carrying))))
         else Inr (hd on_original))"

definition suggest_work_area :: "string option \<Rightarrow> area_ref list \<Rightarrow> area_ref option" where
  "suggest_work_area description areas =
     (if strip (or_empty description) = [] then None
      else (case filter (\<lambda>a. ar_kept a \<and> same_name (ar_name a) (or_empty description)) areas of
              [a] \<Rightarrow> Some a | _ \<Rightarrow> None))"

text \<open>Whether a person may assign the line: \<open>None\<close>, or why not.\<close>

definition offered ::
  "doc_figures \<Rightarrow> line_in \<Rightarrow> string set option \<Rightarrow> not_offered_reason option" where
  "offered doc line surcharges =
     (case surcharges of None \<Rightarrow> Some Waits_for_policy
      | Some items \<Rightarrow>
          if \<not> df_counted doc then Some (Not_counted (state_label doc))
          else if line_kind line \<noteq> sales_item then Some Not_priced
          else if item_in (item_external_id line) items then Some Is_surcharge
          else if df_is_deposit doc then Some Is_deposit
          else None)"

section \<open>One line\<close>

definition area_order :: "area_ref \<Rightarrow> bool \<times> string \<times> int" where
  "area_order a = (ar_role a \<noteq> Role_original, ar_estimate_number a, ar_order_no a)"

text \<open>
  \<open>_assigned\<close>: the rows are looked up one by one; the first row without its work area
  leaves the whole line untied. The result is the sentence, or the notes and the parts.
\<close>

fun assigned_parts ::
  "(area_key \<Rightarrow> area_ref option) \<Rightarrow> (string \<Rightarrow> string option) \<Rightarrow> (assignment_in \<Rightarrow> cents) \<Rightarrow>
    assignment_in list \<Rightarrow> (tie_sentence, tie_sentence list \<times> line_part list) result" where
  "assigned_parts by_key numbers amount_of [] = Inr ([], [])"
| "assigned_parts by_key numbers amount_of (row # rows) =
     (case by_key (assignment_key row) of
        None \<Rightarrow> Inl (Not_on_latest (as_order_no row) (as_work_area_name row)
          (case numbers (as_estimate_id row) of None \<Rightarrow> None | Some e \<Rightarrow> if e = [] then None else Some e))
      | Some area \<Rightarrow>
          (case assigned_parts by_key numbers amount_of rows of
             Inl s \<Rightarrow> Inl s
           | Inr (notes, parts) \<Rightarrow>
               Inr ((if same_name (ar_name area) (as_work_area_name row) then []
                     else [Renumbered (ar_order_no area) (as_work_area_name row) (ar_name area)]) @ notes,
                    \<lparr>lp_area = area, lp_amount = amount_of row\<rparr> # parts)))"

text \<open>The inner function \<open>tie\<close> of \<open>tie_line\<close>, with what it closes over as arguments.\<close>

definition make_tie ::
  "doc_figures \<Rightarrow> line_in \<Rightarrow> area_ref list \<Rightarrow> assignment_in list \<Rightarrow> not_offered_reason option \<Rightarrow> cents \<Rightarrow>
    area_ref option \<Rightarrow> tie_how \<Rightarrow> tie_sentence list \<Rightarrow> bool \<Rightarrow> line_part list option \<Rightarrow> line_tie" where
  "make_tie doc line areas rows why amount area how note suggested parts =
     \<lparr>lt_doc = doc, lt_line = line, lt_amount = amount, lt_offered = (why = None),
      lt_not_offered = why, lt_area = area, lt_how = how,
      lt_assignment = (case rows of [] \<Rightarrow> None | r # _ \<Rightarrow> Some r), lt_note = note,
      lt_suggested = (if suggested then suggest_work_area (line_description line) areas else None),
      lt_parts = (case parts of Some ps \<Rightarrow> ps
        | None \<Rightarrow> (case area of None \<Rightarrow> [] | Some a \<Rightarrow> [\<lparr>lp_area = a, lp_amount = amount\<rparr>])),
      lt_assignments = rows\<rparr>"

definition key_index :: "area_ref list \<Rightarrow> area_key \<Rightarrow> area_ref option" where
  "key_index areas = map_of (rev (map (\<lambda>a. (area_key a, a)) areas))"

definition assigned_tie ::
  "(area_ref option \<Rightarrow> tie_how \<Rightarrow> tie_sentence list \<Rightarrow> bool \<Rightarrow> line_part list option \<Rightarrow> line_tie) \<Rightarrow>
    assignment_in list \<Rightarrow> (area_key \<Rightarrow> area_ref option) \<Rightarrow> (string \<Rightarrow> string option) \<Rightarrow> cents \<Rightarrow> line_tie" where
  "assigned_tie tie rows by_key numbers amt =
     (case assigned_parts by_key numbers
         (\<lambda>row. if length rows > 1 then as_amount row else amt) rows of
        Inl s \<Rightarrow> tie None Not_tied [s] True None
      | Inr (notes, parts) \<Rightarrow>
          if length parts > 1 then
            (let sorted_parts = sort_key (\<lambda>p. area_order (lp_area p)) parts;
                 total_parts = (\<Sum>p \<leftarrow> sorted_parts. lp_amount p);
                 notes' = notes @ (if total_parts \<noteq> amt
                   then [Parts_differ total_parts amt] else [])
             in tie None By_assignment notes' False (Some sorted_parts))
          else tie (Some (lp_area (hd parts))) By_assignment notes False None)"

definition tie_line ::
  "doc_figures \<Rightarrow> line_in \<Rightarrow> area_ref list \<Rightarrow> assignment_in list \<Rightarrow> string set option \<Rightarrow>
    (string \<Rightarrow> string option) \<Rightarrow> app_tie option \<Rightarrow> line_tie" where
  "tie_line doc line areas rows surcharges numbers application =
     (let amount = (if df_counted doc then df_sign doc * line_amount line else 0);
          why = offered doc line surcharges;
          tie = make_tie doc line areas rows why amount;
          assigned = assigned_tie tie rows (key_index areas) numbers amount
      in if why \<noteq> None then tie None Not_tied [] False None
         else if application \<noteq> None then tie None By_application [] False None
         else (case hash_number (line_description line) of
             Some n \<Rightarrow>
               (case resolve_hash n areas of
                  Inr area \<Rightarrow> tie (Some area) By_number [] False None
                | Inl note \<Rightarrow> if rows = [] then tie None Not_tied [note] True None else assigned)
           | None \<Rightarrow> if rows \<noteq> [] then assigned else tie None Not_tied [] True None))"

section \<open>The job\<close>

record job_work_areas =
  jw_lines :: "line_tie list"
  jw_billed :: "(area_key, cents) dict"
  jw_not_assigned :: "cents option"
  unapproved_billed :: cents
  unapproved_labels :: "string list"
  jw_suggested :: nat
  billed_lines :: "(area_key, cents) dict"
  application_of :: "(string, nat) dict"

definition billed_on :: "job_work_areas \<Rightarrow> area_ref \<Rightarrow> cents" where
  "billed_on jw a = dict_at (jw_billed jw) (area_key a)"

definition left_to_bill :: "job_work_areas \<Rightarrow> area_ref \<Rightarrow> cents option" where
  "left_to_bill jw a =
     (if \<not> ar_kept a \<or> (is_change_order a \<and> \<not> ar_approved a) then None
      else Some (ar_price a - billed_on jw a))"

definition percent_billed :: "job_work_areas \<Rightarrow> area_ref \<Rightarrow> hundredths option" where
  "percent_billed jw a =
     (if left_to_bill jw a = None \<or> ar_price a = 0 then None
      else Some (percent_of (billed_on jw a) (ar_price a)))"

definition job_lines ::
  "doc_figures list \<Rightarrow> area_ref list \<Rightarrow> (string, assignment_in list) dict \<Rightarrow> string set option \<Rightarrow>
    app_tie list \<Rightarrow> line_tie list" where
  "job_lines docs areas assignments surcharges apps =
     (let numbers = map_of (rev (map (\<lambda>a. (ar_estimate_id a, ar_estimate_number a)) areas));
          by_doc = map_of (rev (map (\<lambda>a. (at_billing_id a, a)) apps))
      in concat (map (\<lambda>d. map (\<lambda>ln. tie_line d ln areas
             (dict_get assignments (or_empty (line_id ln)) []) surcharges numbers
             (by_doc (doc_id (df_doc d)))) (doc_lines (df_doc d)))
           (sort_key (\<lambda>f. (doc_txn_date (df_doc f), doc_external_id (df_doc f))) docs)))"

text \<open>\<open>{a.key: ZERO for a in areas}\<close> and the two loops of additions.\<close>

definition zero_table :: "area_ref list \<Rightarrow> (area_key, cents) dict" where
  "zero_table areas = foldl (\<lambda>t a. AList.update (area_key a) 0 t) [] areas"

definition part_entries :: "line_tie list \<Rightarrow> (area_key \<times> cents) list" where
  "part_entries ties = concat (map (\<lambda>t. map (\<lambda>p. (area_key (lp_area p), lp_amount p)) (lt_parts t)) ties)"

definition app_entries :: "app_tie list \<Rightarrow> (area_key \<times> cents) list" where
  "app_entries apps = concat (map at_allocations apps)"

definition compute_work_areas ::
  "doc_figures list \<Rightarrow> cents option \<Rightarrow> area_ref list \<Rightarrow> (string, assignment_in list) dict \<Rightarrow>
    string set option \<Rightarrow> app_tie list \<Rightarrow> job_work_areas" where
  "compute_work_areas docs btd areas assignments surcharges apps =
     (let lines = job_lines docs areas assignments surcharges apps;
          from_lines = dict_add_all (zero_table areas) (part_entries lines);
          billed = dict_add_all from_lines (app_entries apps);
          tied = (\<Sum>e \<leftarrow> part_entries lines. snd e) + (\<Sum>e \<leftarrow> app_entries apps. snd e);
          unapproved = sort_key area_order
            (filter (\<lambda>a. is_change_order a \<and> \<not> ar_approved a \<and> dict_at billed (area_key a) > 0) areas)
      in \<lparr>jw_lines = lines, jw_billed = billed,
          jw_not_assigned = map_option (\<lambda>b. b - tied) btd,
          unapproved_billed = (\<Sum>a \<leftarrow> unapproved. dict_at billed (area_key a)),
          unapproved_labels = map area_label unapproved,
          jw_suggested = length (filter (\<lambda>t. lt_offered t \<and> lt_parts t = [] \<and> lt_suggested t \<noteq> None) lines),
          billed_lines = from_lines,
          application_of = foldl (\<lambda>d a. AList.update (at_billing_id a) (at_number a) d) [] apps\<rparr>)"

section \<open>The number of a description\<close>

lemma span_digits:
  assumes "list_all is_digit ds" and "rest = [] \<or> is_space (hd rest)"
  shows "takeWhile is_digit (ds @ rest) = ds" and "dropWhile is_digit (ds @ rest) = rest"
proof -
  have "rest = [] \<or> \<not> is_digit (hd rest)" using assms(2) digit_not_space by blast
  then have "takeWhile is_digit rest = []" and "dropWhile is_digit rest = rest"
    by (cases rest; simp)+
  then show "takeWhile is_digit (ds @ rest) = ds" and "dropWhile is_digit (ds @ rest) = rest"
    using assms(1) by (simp_all add: list_all_iff takeWhile_append2 dropWhile_append2)
qed

lemma lstrip_split:
  "lstrip s = c # r \<longleftrightarrow> (\<exists>ws. s = ws @ c # r \<and> list_all is_space ws) \<and> \<not> is_space c"
proof
  assume *: "lstrip s = c # r"
  have "s = takeWhile is_space s @ c # r" using * by (metis lstrip_def takeWhile_dropWhile_id)
  moreover have "list_all is_space (takeWhile is_space s)"
    by (auto simp: list_all_iff dest: set_takeWhileD)
  ultimately show "(\<exists>ws. s = ws @ c # r \<and> list_all is_space ws) \<and> \<not> is_space c"
    using lstrip_hd [of s] * by fastforce
qed (auto simp: lstrip_def list_all_iff dropWhile_append2)

lemma hash_not_space: "\<not> is_space (CHR ''#'')"
  by (simp add: is_space_def)

text \<open>
  The number of a description is what the expression "white space, a number sign,
  digits, then white space or the end" says: a description has the number n exactly when it
  is such a text with digits that read n.
\<close>

theorem hash_number_iff:
  "hash_number (Some s) = Some n \<longleftrightarrow>
    (\<exists>ws ds rest. s = ws @ CHR ''#'' # ds @ rest \<and> list_all is_space ws
      \<and> ds \<noteq> [] \<and> list_all is_digit ds \<and> (rest = [] \<or> is_space (hd rest)) \<and> n = parse_nat ds)"
  (is "?l \<longleftrightarrow> ?r")
proof
  assume ?l
  then obtain r where r: "lstrip s = CHR ''#'' # r" "takeWhile is_digit r \<noteq> []"
      "dropWhile is_digit r = [] \<or> is_space (hd (dropWhile is_digit r))"
      "n = parse_nat (takeWhile is_digit r)"
    by (auto simp: hash_number_def or_empty_def Let_def split: list.splits if_splits)
  obtain ws where "s = ws @ CHR ''#'' # r" "list_all is_space ws"
    using r(1) unfolding lstrip_split by blast
  moreover have "r = takeWhile is_digit r @ dropWhile is_digit r" by simp
  moreover have "list_all is_digit (takeWhile is_digit r)"
    by (auto simp: list_all_iff dest: set_takeWhileD)
  ultimately show ?r using r by metis
next
  assume ?r
  then obtain ws ds rest where s: "s = ws @ CHR ''#'' # ds @ rest" "list_all is_space ws"
      "ds \<noteq> []" "list_all is_digit ds" "rest = [] \<or> is_space (hd rest)" "n = parse_nat ds"
    by blast
  have "lstrip s = CHR ''#'' # ds @ rest" using s(1,2) hash_not_space unfolding lstrip_split by blast
  then show ?l
    using s(3,5,6) unfolding hash_number_def or_empty_def
    by (simp only: list.case option.case Let_def span_digits [OF s(4,5)]) simp
qed

section \<open>One line\<close>

lemma resolve_hash_Inr:
  "resolve_hash n areas = Inr a \<longleftrightarrow> by_order areas n = [a] \<and> ar_role a = Role_original"
proof (cases "by_order areas n")
  case (Cons b bs)
  then show ?thesis by (cases bs) (auto simp: resolve_hash_def Let_def)
qed (simp add: resolve_hash_def)

lemma key_index_mem: "key_index areas k = Some a \<Longrightarrow> a \<in> set areas \<and> area_key a = k"
  unfolding key_index_def by (auto dest!: map_of_SomeD)

lemma assigned_parts_areas:
  assumes "assigned_parts by_key numbers f rows = Inr (ns, parts)"
  shows "map (\<lambda>p. (Some (lp_area p), lp_amount p)) parts =
      map (\<lambda>row. (by_key (assignment_key row), f row)) rows"
  using assms by (induction rows arbitrary: ns parts) (auto split: option.splits sum.splits)

lemma assigned_parts_facts:
  assumes "assigned_parts by_key numbers f rows = Inr (ns, parts)"
  shows "length parts = length rows"
    and "p \<in> set parts \<Longrightarrow> \<exists>row\<in>set rows. by_key (assignment_key row) = Some (lp_area p) \<and> lp_amount p = f row"
proof -
  note eq = assigned_parts_areas [OF assms]
  then show "length parts = length rows" using map_eq_imp_length_eq by blast
  assume "p \<in> set parts"
  then have "(Some (lp_area p), lp_amount p) \<in> set (map (\<lambda>row. (by_key (assignment_key row), f row)) rows)"
    unfolding eq [symmetric] by force
  then show "\<exists>row\<in>set rows. by_key (assignment_key row) = Some (lp_area p) \<and> lp_amount p = f row"
    by auto
qed

lemma make_tie_simps [simp]:
  "lt_how (make_tie doc line areas rows why amt area how note sug parts) = how"
  "lt_amount (make_tie doc line areas rows why amt area how note sug parts) = amt"
  "lt_offered (make_tie doc line areas rows why amt area how note sug parts) \<longleftrightarrow> why = None"
  "lt_note (make_tie doc line areas rows why amt area how note sug parts) = note"
  "lt_area (make_tie doc line areas rows why amt area how note sug parts) = area"
  "lt_suggested (make_tie doc line areas rows why amt area how note sug parts) =
     (if sug then suggest_work_area (line_description line) areas else None)"
  "lt_parts (make_tie doc line areas rows why amt area how note sug (Some ps)) = ps"
  "lt_parts (make_tie doc line areas rows why amt (Some a) how note sug None) =
     [\<lparr>lp_area = a, lp_amount = amt\<rparr>]"
  "lt_parts (make_tie doc line areas rows why amt None how note sug None) = []"
  by (simp_all add: make_tie_def)

definition tie_ok :: "area_ref list \<Rightarrow> assignment_in list \<Rightarrow> line_tie \<Rightarrow> bool" where
  "tie_ok areas rows t \<longleftrightarrow>
     (lt_parts t \<noteq> [] \<longleftrightarrow> lt_how t \<in> {By_number, By_assignment})
     \<and> (lt_parts t \<noteq> [] \<longrightarrow> lp_area ` set (lt_parts t) \<subseteq> set areas \<and> lt_suggested t = None
        \<and> ((\<Sum>p \<leftarrow> lt_parts t. lp_amount p) = lt_amount t
           \<or> length rows > 1 \<and> lt_how t = By_assignment
             \<and> Parts_differ (\<Sum>p \<leftarrow> lt_parts t. lp_amount p) (lt_amount t) \<in> set (lt_note t)))"

lemma assigned_tie_ok:
  assumes "rows \<noteq> []"
  shows "tie_ok areas rows
      (assigned_tie (make_tie doc line areas rows why amt) rows (key_index areas) numbers amt)
    \<and> lt_how (assigned_tie (make_tie doc line areas rows why amt) rows (key_index areas) numbers amt)
      \<in> {By_assignment, Not_tied}"
proof (cases "assigned_parts (key_index areas) numbers
    (\<lambda>row. if length rows > 1 then as_amount row else amt) rows")
  case (Inr r)
  obtain ns parts where r: "r = (ns, parts)" by (cases r)
  note eq = Inr [unfolded r]
  have in_areas: "lp_area ` set parts \<subseteq> set areas"
    using assigned_parts_facts(2) [OF eq] key_index_mem by fastforce
  have len: "length parts = length rows" using assigned_parts_facts(1) [OF eq] .
  then have ne: "parts \<noteq> []" using assms by auto
  then have hd: "lp_area (hd parts) \<in> set areas" using in_areas by (meson hd_in_set image_subset_iff)
  define qs where "qs = sort_key (\<lambda>p. area_order (lp_area p)) parts"
  have qs: "set qs = set parts" "qs \<noteq> []"
    using ne unfolding qs_def by (simp, metis length_0_conv length_sort)
  show ?thesis
    using in_areas hd len ne qs
    unfolding assigned_tie_def eq sum.case prod.case qs_def [symmetric]
    by (auto simp: tie_ok_def Let_def)
qed (simp add: assigned_tie_def tie_ok_def)

lemma make_tie_ok:
  "h \<in> {By_application, Not_tied} \<Longrightarrow> tie_ok areas rows (make_tie doc line areas rows why amt None h s b None)"
  "a \<in> set areas \<Longrightarrow> tie_ok areas rows (make_tie doc line areas rows why amt (Some a) By_number s False None)"
  by (auto simp: tie_ok_def)

lemma assigned_tie_amount:
  "lt_amount (assigned_tie (make_tie doc line areas rows why amt) rows by_key numbers amt) = amt"
  by (simp add: assigned_tie_def Let_def split: sum.splits prod.splits)

lemma offered_counted: "offered doc line surcharges = None \<Longrightarrow> df_counted doc"
  by (simp add: offered_def split: option.splits if_splits)

text \<open>The five ways through \<open>tie_line\<close>.\<close>

definition line_signed :: "doc_figures \<Rightarrow> line_in \<Rightarrow> cents" where
  "line_signed doc line = (if df_counted doc then df_sign doc * line_amount line else 0)"

abbreviation the_tie where
  "the_tie doc line areas rows surcharges \<equiv>
     make_tie doc line areas rows (offered doc line surcharges) (line_signed doc line)"

abbreviation the_assigned where
  "the_assigned doc line areas rows surcharges numbers \<equiv>
     assigned_tie (the_tie doc line areas rows surcharges) rows (key_index areas) numbers
       (line_signed doc line)"

lemma tie_line_cases:
  obtains (Not_offered) "offered doc line surcharges \<noteq> None"
      "tie_line doc line areas rows surcharges numbers app =
         the_tie doc line areas rows surcharges None Not_tied [] False None"
  | (Application) "offered doc line surcharges = None" "app \<noteq> None"
      "tie_line doc line areas rows surcharges numbers app =
         the_tie doc line areas rows surcharges None By_application [] False None"
  | (Number) n a where "offered doc line surcharges = None" "app = None"
      "hash_number (line_description line) = Some n" "resolve_hash n areas = Inr a"
      "tie_line doc line areas rows surcharges numbers app =
         the_tie doc line areas rows surcharges (Some a) By_number [] False None"
  | (Rows) "offered doc line surcharges = None" "app = None" "rows \<noteq> []"
      "\<nexists>n a. hash_number (line_description line) = Some n \<and> resolve_hash n areas = Inr a"
      "tie_line doc line areas rows surcharges numbers app =
         the_assigned doc line areas rows surcharges numbers"
  | (Untied) s where "offered doc line surcharges = None" "app = None" "rows = []"
      "\<nexists>n a. hash_number (line_description line) = Some n \<and> resolve_hash n areas = Inr a"
      "tie_line doc line areas rows surcharges numbers app =
         the_tie doc line areas rows surcharges None Not_tied s True None"
proof (cases "offered doc line surcharges = None")
  case False
  then show thesis using Not_offered by (simp add: tie_line_def line_signed_def Let_def)
next
  case can: True
  show thesis
  proof (cases "app = None")
    case False
    then show thesis using Application can by (simp add: tie_line_def line_signed_def Let_def)
  next
    case app: True
    note unfold = tie_line_def line_signed_def [symmetric] Let_def
    show thesis
    proof (cases "hash_number (line_description line)")
      case None
      have "tie_line doc line areas rows surcharges numbers app =
          (if rows \<noteq> [] then the_assigned doc line areas rows surcharges numbers
           else the_tie doc line areas rows surcharges None Not_tied [] True None)"
        using can app None by (simp only: unfold simp_thms if_True if_False option.case)
      then show thesis using Rows Untied can app None by (cases "rows = []") auto
    next
      case (Some n)
      have eq: "tie_line doc line areas rows surcharges numbers app =
          (case resolve_hash n areas of
             Inr area \<Rightarrow> the_tie doc line areas rows surcharges (Some area) By_number [] False None
           | Inl s \<Rightarrow> if rows = [] then the_tie doc line areas rows surcharges None Not_tied [s] True None
               else the_assigned doc line areas rows surcharges numbers)"
        using can app Some by (simp only: unfold simp_thms if_True if_False option.case)
      show thesis
      proof (cases "resolve_hash n areas")
        case (Inl s)
        then show thesis using eq Rows Untied can app Some by (cases "rows = []") auto
      next
        case (Inr a)
        then show thesis using eq Number can app Some by auto
      qed
    qed
  qed
qed

lemma tie_line_ok: "tie_ok areas rows (tie_line doc line areas rows surcharges numbers app)"
proof (cases rule: tie_line_cases [of doc line surcharges areas rows numbers app])
  case (Number n a)
  have "a \<in> set areas"
    using Number(4) filter_is_subset [of "\<lambda>a. ar_order_no a = int n" areas]
    by (auto simp: resolve_hash_Inr by_order_def)
  then show ?thesis unfolding Number(5) by (rule make_tie_ok(2))
next
  case Rows
  then show ?thesis using assigned_tie_ok [OF Rows(3)] by (simp only:)
qed (simp_all only:, simp_all add: make_tie_ok)

text \<open>
  A line is tied by its number exactly when a person could assign it, no pay
  application ties its document, and the number its description starts with is carried by
  one work area of the attached estimates, which is on the original; an assignment row of
  the line then changes nothing.
\<close>

theorem tied_by_number_iff:
  "lt_how (tie_line doc line areas rows surcharges numbers app) = By_number \<longleftrightarrow>
     offered doc line surcharges = None \<and> app = None
     \<and> (\<exists>n a. hash_number (line_description line) = Some n
          \<and> by_order areas n = [a] \<and> ar_role a = Role_original)"
proof (cases rule: tie_line_cases [of doc line surcharges areas rows numbers app])
  case (Number n a)
  then show ?thesis by (auto simp: resolve_hash_Inr)
next
  case Rows
  have "lt_how (tie_line doc line areas rows surcharges numbers app) \<noteq> By_number"
    using assigned_tie_ok [OF Rows(3)] unfolding Rows(5) by (metis insertE singletonD tie_how.simps)
  then show ?thesis using Rows(4) unfolding resolve_hash_Inr by blast
next
  case (Untied s)
  then show ?thesis unfolding Untied(5) using Untied(4) by (simp add: resolve_hash_Inr)
qed simp_all

text \<open>
  What a tied line counts for: it is a line a person could assign, its parts are on
  work areas of the job, nothing is suggested for it, and the parts add up to the line's
  signed amount; only an assignment split over several rows whose stored amounts disagree
  with the line departs from it, and then the difference is stated beside the line.
\<close>

theorem tied_line_parts:
  assumes "lt_parts (tie_line doc line areas rows surcharges numbers app) \<noteq> []"
  shows "offered doc line surcharges = None \<and> app = None
    \<and> lt_how (tie_line doc line areas rows surcharges numbers app) \<in> {By_number, By_assignment}
    \<and> lt_suggested (tie_line doc line areas rows surcharges numbers app) = None
    \<and> lp_area ` set (lt_parts (tie_line doc line areas rows surcharges numbers app)) \<subseteq> set areas
    \<and> (let t = tie_line doc line areas rows surcharges numbers app;
           s = (\<Sum>p \<leftarrow> lt_parts t. lp_amount p)
       in s = df_sign doc * line_amount line
          \<or> length rows > 1 \<and> lt_how t = By_assignment
            \<and> Parts_differ s (df_sign doc * line_amount line) \<in> set (lt_note t))"
proof -
  define t where "t = tie_line doc line areas rows surcharges numbers app"
  have ok: "tie_ok areas rows t" unfolding t_def by (rule tie_line_ok)
  have parts: "lt_parts t \<noteq> []" using assms by (simp add: t_def)
  have none: "offered doc line surcharges = None \<and> app = None \<and> lt_amount t = line_signed doc line"
    using parts
  proof (cases rule: tie_line_cases [of doc line surcharges areas rows numbers app])
    case Rows
    then show ?thesis unfolding t_def by (simp only: assigned_tie_amount simp_thms)
  qed (simp_all add: t_def)
  then have "df_counted doc" using offered_counted by blast
  then have amount: "lt_amount t = df_sign doc * line_amount line" using none by (simp add: line_signed_def)
  have how: "lt_how t \<in> {By_number, By_assignment}" using ok parts unfolding tie_ok_def by blast
  have rest: "lp_area ` set (lt_parts t) \<subseteq> set areas \<and> lt_suggested t = None
      \<and> ((\<Sum>p \<leftarrow> lt_parts t. lp_amount p) = lt_amount t \<or> length rows > 1 \<and> lt_how t = By_assignment
        \<and> Parts_differ (\<Sum>p \<leftarrow> lt_parts t. lp_amount p) (lt_amount t) \<in> set (lt_note t))"
    using ok parts unfolding tie_ok_def by (elim conjE) (erule mp)
  show ?thesis
    unfolding t_def [symmetric] Let_def amount [symmetric]
    by (intro conjI none [THEN conjunct1] none [THEN conjunct2, THEN conjunct1] how
        rest [THEN conjunct1] rest [THEN conjunct2, THEN conjunct1] rest [THEN conjunct2, THEN conjunct2])
qed

definition ex_areas :: "area_ref list" where
  "ex_areas = [\<lparr>ar_estimate_id = ''e1'', ar_estimate_number = ''EST1'', ar_role = Role_original,
     ar_work_area_id = ''w18'', ar_order_no = 18, ar_name = ''Planting'', ar_kept = True,
     ar_price = 900000, ar_kind = Some ''original'', ar_approved = False\<rparr>]"

definition ex_tie_line :: line_in where
  "ex_tie_line = \<lparr>line_kind = sales_item, item_external_id = Some ''7'', line_amount = 250000,
     line_description = Some ''#18 Planting'', line_id = Some ''l1'', line_no = 1,
     external_line_id = None\<rparr>"

definition ex_tie_doc :: doc_figures where
  "ex_tie_doc = document_figures
     \<lparr>doc_id = ''d1'', doc_kind = Credit_memo, doc_external_id = ''1'', doc_number = Some ''C1'',
      doc_txn_date = Date 2026 7 1, doc_total = 250000, doc_tax_total = 0, doc_balance = 0,
      doc_voided = False, doc_deleted = False, doc_lines = [ex_tie_line]\<rparr>
     \<lparr>deposit_items = Some {}, surcharge_items = Some {''9''}\<rparr> {}"

theorem tied_line_parts_witness:
  "(\<Sum>p \<leftarrow> lt_parts (tie_line ex_tie_doc ex_tie_line ex_areas [] (Some {''9''}) (\<lambda>_. None) None).
     lp_amount p) = - 250000"
proof -
  let ?t = "tie_line ex_tie_doc ex_tie_line ex_areas [] (Some {''9''}) (\<lambda>_. None) None"
  have "lt_how ?t = By_number"
    by code_simp
  then have "lt_parts ?t \<noteq> []"
    using tie_line_ok by (simp add: tie_ok_def)
  moreover have "df_sign ex_tie_doc * line_amount ex_tie_line = - 250000" by code_simp
  ultimately show ?thesis using tied_line_parts by (fastforce simp: Let_def)
qed

section \<open>The job\<close>

lemma zero_table_facts:
  "dict_total (zero_table areas) = 0"
  "dict_at (zero_table areas) k = 0"
  "fst ` set (zero_table areas) = area_key ` set areas"
proof -
  have gen: "dict_total (foldl (\<lambda>t a. AList.update (area_key a) 0 t) t areas) = 0
      \<and> dict_at (foldl (\<lambda>t a. AList.update (area_key a) 0 t) t areas) k = 0
      \<and> fst ` set (foldl (\<lambda>t a. AList.update (area_key a) 0 t) t areas) =
          fst ` set t \<union> area_key ` set areas"
    if "\<forall>v \<in> snd ` set t. v = 0" for t :: "(area_key, cents) dict" and k
    using that
  proof (induction areas arbitrary: t)
    case Nil
    then have "\<forall>v \<in> set (map snd t). v = 0" by simp
    then have "sum_list (map snd t) = 0" by (induction t) auto
    moreover have "map_of t k = Some v \<Longrightarrow> v = 0" for v
      using Nil by (force dest: map_of_SomeD)
    ultimately show ?case
      by (auto simp: dict_total_def dict_at_def dict_get_def split: option.splits)
  next
    case (Cons a areas)
    have "\<forall>v \<in> snd ` set (AList.update (area_key a) 0 t). v = 0"
      using Cons.prems by (induction t) auto
    from Cons.IH [OF this] show ?case using dom_update [of "area_key a" 0 t] by simp
  qed
  from gen [of "[]" k] show "dict_total (zero_table areas) = 0"
    and "dict_at (zero_table areas) k = 0"
    and "fst ` set (zero_table areas) = area_key ` set areas"
    by (simp_all add: zero_table_def)
qed

lemma part_entries_sums:
  "(\<Sum>e \<leftarrow> part_entries ties. snd e) = (\<Sum>t \<leftarrow> ties. \<Sum>p \<leftarrow> lt_parts t. lp_amount p)"
  "(\<Sum>(k', v) \<leftarrow> filter (\<lambda>e. fst e = k) (part_entries ties). v) =
     (\<Sum>t \<leftarrow> ties. \<Sum>p \<leftarrow> filter (\<lambda>p. area_key (lp_area p) = k) (lt_parts t). lp_amount p)"
proof -
  have *: "(\<Sum>(k', v) \<leftarrow> filter (\<lambda>e. fst e = k) (map (\<lambda>p. (area_key (lp_area p), lp_amount p)) ps). v) =
      (\<Sum>p \<leftarrow> filter (\<lambda>p. area_key (lp_area p) = k) ps. lp_amount p)" for ps :: "line_part list"
    by (induction ps) auto
  show "(\<Sum>(k', v) \<leftarrow> filter (\<lambda>e. fst e = k) (part_entries ties). v) =
     (\<Sum>t \<leftarrow> ties. \<Sum>p \<leftarrow> filter (\<lambda>p. area_key (lp_area p) = k) (lt_parts t). lp_amount p)"
    unfolding part_entries_def by (induction ties) (simp_all add: *)
qed (simp add: part_entries_def sum_list_concat_map comp_def)

text \<open>
  C11: The identity of the work-area board. Whatever the assignments and pay applications,
  what is billed per work area and what is not assigned to any add up to the job's billed to
  date (and both wait together for the policy); the figure of a work area is the sum of
  the parts of its tied lines and of the amounts its pay applications billed on it.
\<close>

theorem work_area_identity:
  "map_option (\<lambda>n. dict_total (jw_billed (compute_work_areas docs btd areas assignments surcharges apps)) + n)
      (jw_not_assigned (compute_work_areas docs btd areas assignments surcharges apps)) = btd
   \<and> billed_on (compute_work_areas docs btd areas assignments surcharges apps) a =
      (\<Sum>t \<leftarrow> jw_lines (compute_work_areas docs btd areas assignments surcharges apps).
         \<Sum>p \<leftarrow> filter (\<lambda>p. area_key (lp_area p) = area_key a) (lt_parts t). lp_amount p)
      + (\<Sum>app \<leftarrow> apps. \<Sum>(k, v) \<leftarrow> filter (\<lambda>e. fst e = area_key a) (at_allocations app). v)"
proof -
  have apps: "(\<Sum>(k', v) \<leftarrow> filter (\<lambda>e. fst e = k) (app_entries apps). v) =
      (\<Sum>app \<leftarrow> apps. \<Sum>(k, v) \<leftarrow> filter (\<lambda>e. fst e = k) (at_allocations app). v)" for k
    unfolding app_entries_def by (induction apps) simp_all
  show ?thesis
    unfolding billed_on_def compute_work_areas_def Let_def
    by (cases btd) (simp_all add: dict_simps zero_table_facts part_entries_sums apps)
qed

text \<open>
  The flag on change orders nobody approved: the amount is above zero exactly when
  some kept change-order work area without an approval has billing above zero, and it then
  names at least one work area.
\<close>

theorem unapproved_flag:
  fixes docs :: "doc_figures list" and btd :: "cents option" and areas :: "area_ref list"
    and assignments :: "(string, assignment_in list) dict" and surcharges :: "string set option"
    and apps :: "app_tie list"
  defines "jw \<equiv> compute_work_areas docs btd areas assignments surcharges apps"
  shows "(unapproved_billed jw > 0 \<longleftrightarrow>
      (\<exists>a \<in> set areas. is_change_order a \<and> \<not> ar_approved a \<and> billed_on jw a > 0))
    \<and> (unapproved_billed jw > 0 \<longleftrightarrow> unapproved_labels jw \<noteq> []) \<and> unapproved_billed jw \<ge> 0"
proof -
  define us where "us = sort_key area_order
    (filter (\<lambda>a. is_change_order a \<and> \<not> ar_approved a \<and> billed_on jw a > 0) areas)"
  have us: "set us = {a \<in> set areas. is_change_order a \<and> \<not> ar_approved a \<and> billed_on jw a > 0}"
    unfolding us_def by auto
  have jw: "unapproved_billed jw = (\<Sum>a \<leftarrow> us. billed_on jw a)" "unapproved_labels jw = map area_label us"
    unfolding us_def jw_def billed_on_def compute_work_areas_def Let_def by simp_all
  have "0 < billed_on jw a" if "a \<in> set us" for a using that us by simp
  then have "(us = [] \<or> 0 < (\<Sum>a \<leftarrow> us. billed_on jw a)) \<and> 0 \<le> (\<Sum>a \<leftarrow> us. billed_on jw a)"
    by (induction us) (fastforce intro: add_pos_nonneg)+
  then show ?thesis unfolding jw using us by (cases us) auto
qed

end
