(* ===== verification/PayApplications.thy ===== *)
theory PayApplications
  imports WorkAreas
begin

text \<open>
  The pay application: \<open>app/domain/billing/pay_applications.py\<close>. Numbering
  (\<open>pmt_number\<close>, \<open>next_number\<close>), the amounts of a line (\<open>earned\<close>, \<open>prefill_percent\<close>), the
  schedule of values, the draft made from a billing request, the lines as shown
  (\<open>line_views\<close>), the summary, and the tie of an issued application to its invoice.
  Percents are hundredths, rates ten-thousandths, amounts cents. Exceptions carry their code
  as a constructor and the values of their sentence.
\<close>

section \<open>Numbers\<close>

definition pmt_mark :: string where
  "pmt_mark = ''_PMT''"

text \<open>
  \<open>^(?P<estimate>.+)_PMT(?P<n>\d+)$\<close> on the stripped number. The digits run to the end and
  the mark does not end in a digit, so the digits are the longest run of digits at the end;
  the estimate is what stands before the mark, on one line.
\<close>

definition pmt_number :: "string option \<Rightarrow> (string \<times> nat) option" where
  "pmt_number dn =
     (let s = strip (or_empty dn);
          digits = rev (takeWhile is_digit (rev s));
          before = rev (dropWhile is_digit (rev s));
          estimate = take (length before - length pmt_mark) before
      in if digits \<noteq> [] \<and> ends_with before pmt_mark \<and> estimate \<noteq> []
            \<and> CHR 0x0A \<notin> set estimate
         then Some (estimate, parse_nat digits) else None)"

definition invoice_number :: "string \<Rightarrow> nat \<Rightarrow> string" where
  "invoice_number estimate n = estimate @ pmt_mark @ nat_str n"

definition next_number :: "string option list \<Rightarrow> string set \<Rightarrow> nat list \<Rightarrow> nat" where
  "next_number doc_numbers estimate_numbers taken =
     (let highest = foldl (\<lambda>h d. case pmt_number d of None \<Rightarrow> h
            | Some (e, n) \<Rightarrow> if e \<in> estimate_numbers then max h n else h) 0 doc_numbers
      in foldl max highest (taken @ [0]) + 1)"

section \<open>Amounts of a line\<close>

definition earned :: "cents \<Rightarrow> hundredths \<Rightarrow> cents" where
  "earned scheduled_value percent = div_half_up (scheduled_value * percent) 10000"

definition surcharge_amount :: "cents \<Rightarrow> ten_thousandths \<Rightarrow> cents" where
  "surcharge_amount due rate = div_half_up (due * rate) 10000"

definition hundred :: hundredths where
  "hundred = 10000"

definition prefill_percent :: "cents \<Rightarrow> cents \<Rightarrow> hundredths" where
  "prefill_percent scheduled_value amount =
     (if scheduled_value \<le> 0 \<or> amount \<le> 0 then 0
      else min (percent_of amount scheduled_value) hundred)"

section \<open>The schedule and the request\<close>

definition on_schedule :: "date \<Rightarrow> (area_key \<Rightarrow> date option) \<Rightarrow> area_ref \<Rightarrow> bool" where
  "on_schedule day approved_on a =
     (if \<not> ar_kept a then False
      else if ar_role a = Role_original \<and> ar_kind a = Some ''original'' then True
      else is_change_order a \<and> ar_approved a
        \<and> (case approved_on (area_key a) of None \<Rightarrow> day | Some d \<Rightarrow> d) \<le> day)"

definition schedule :: "area_ref list \<Rightarrow> date \<Rightarrow> (area_key \<Rightarrow> date option) \<Rightarrow> area_ref list" where
  "schedule areas day approved_on = sort_key area_order (filter (on_schedule day approved_on) areas)"

record percent_in =
  pi_work_area_id :: string
  pi_percent :: hundredths

record request_in =
  rq_application_date :: date
  rq_surcharge_applies :: "bool option"
  rq_percents :: "percent_in list"
  rq_apply_all :: "hundredths option"

record previous_in =
  prev_percent :: "hundredths option"
  prev_earned :: cents
  prev_number :: "nat option"

datatype billing_issue =
    Billing_negative int string hundredths cents cents "nat option" hundredths
  | Billing_omitted_area int string
  | Billing_over_100 int string hundredths
  | Billing_unpriced_co int string

record draft_line =
  dl_area :: area_ref
  dl_percent :: hundredths
  dl_issue :: "billing_issue option"

record draft =
  draft_line_list :: "draft_line list"
  draft_issues :: "billing_issue list"

datatype not_on_schedule = Not_on_an_estimate | Not_on_the_schedule int

definition negative_issue ::
  "area_ref \<Rightarrow> hundredths \<Rightarrow> previous_in option \<Rightarrow> hundredths \<times> billing_issue option" where
  "negative_issue a percent prev =
     (case prev of None \<Rightarrow> (percent, None)
      | Some p \<Rightarrow>
          (case prev_percent p of None \<Rightarrow> (percent, None)
           | Some stays \<Rightarrow>
               if earned (ar_price a) percent \<ge> prev_earned p then (percent, None)
               else (stays, Some (Billing_negative (ar_order_no a) (ar_name a) percent
                 (earned (ar_price a) percent) (prev_earned p) (prev_number p) stays))))"

text \<open>The loop over the named percents: a repeated work area keeps its last percent.\<close>

fun named_percents ::
  "(string \<Rightarrow> area_ref option) \<Rightarrow> area_key set \<Rightarrow> percent_in list \<Rightarrow>
    (area_key, hundredths) dict \<times> billing_issue list \<Rightarrow>
    (not_on_schedule, (area_key, hundredths) dict \<times> billing_issue list) result" where
  "named_percents by_id listed [] acc = Inr acc"
| "named_percents by_id listed (p # ps) (named, issues) =
     (case by_id (pi_work_area_id p) of
        None \<Rightarrow> Inl Not_on_an_estimate
      | Some a \<Rightarrow>
          if \<not> ar_kept a then
            named_percents by_id listed ps
              (named, issues @ [Billing_omitted_area (ar_order_no a) (ar_name a)])
          else if area_key a \<notin> listed then Inl (Not_on_the_schedule (ar_order_no a))
          else named_percents by_id listed ps
            (AList.update (area_key a) (pi_percent p) named, issues))"

text \<open>One turn of the loop over the listed work areas: its line and its exception.\<close>

definition listed_line ::
  "request_in \<Rightarrow> (area_key, hundredths) dict \<Rightarrow> (area_key \<Rightarrow> previous_in option) \<Rightarrow> area_ref \<Rightarrow>
    draft_line option \<times> billing_issue option" where
  "listed_line request named previous a =
     (let prev = previous (area_key a);
          (percent, requested) =
            (case map_of named (area_key a) of Some p \<Rightarrow> (p, True)
             | None \<Rightarrow> (case rq_apply_all request of Some p \<Rightarrow> (p, True)
               | None \<Rightarrow> (case prev of None \<Rightarrow> 0 | Some p \<Rightarrow>
                   (case prev_percent p of None \<Rightarrow> 0 | Some x \<Rightarrow> x), False)))
      in if percent > hundred then
           (None, Some (Billing_over_100 (ar_order_no a) (ar_name a) percent))
         else if ar_price a = 0 then
           (None, if requested then Some (Billing_unpriced_co (ar_order_no a) (ar_name a)) else None)
         else (let issue = snd (negative_issue a percent prev)
               in (Some \<lparr>dl_area = a, dl_percent = percent, dl_issue = issue\<rparr>, issue)))"

definition draft_lines ::
  "request_in \<Rightarrow> area_ref list \<Rightarrow> area_ref list \<Rightarrow> (area_key \<Rightarrow> previous_in option) \<Rightarrow>
    (not_on_schedule, draft) result" where
  "draft_lines request listed all_areas previous =
     (let by_id = map_of (rev (map (\<lambda>a. (ar_work_area_id a, a)) all_areas))
      in case named_percents by_id (set (map area_key listed)) (rq_percents request) ([], []) of
           Inl e \<Rightarrow> Inl e
         | Inr (named, issues) \<Rightarrow>
             (let turns = map (listed_line request named previous) listed
              in Inr \<lparr>draft_line_list = List.map_filter fst turns,
                      draft_issues = issues @ List.map_filter snd turns\<rparr>))"

section \<open>The application as shown\<close>

record stored_line =
  sl_estimate_id :: string
  sl_estimate_number :: string
  sl_role :: area_role
  sl_work_area_id :: string
  sl_order_no :: int
  sl_name :: string
  sl_scheduled_value :: cents
  sl_percent :: hundredths

record line_view =
  lv_estimate_id :: string
  lv_estimate_number :: string
  lv_role :: area_role
  lv_work_area_id :: string
  lv_order_no :: int
  lv_name :: string
  lv_scheduled_value :: cents
  lv_percent :: hundredths
  lv_earned_to_date :: cents
  lv_previous :: cents
  lv_this_application :: cents
  lv_balance :: cents
  lv_issue :: "billing_issue option"

definition lv_key :: "line_view \<Rightarrow> area_key" where
  "lv_key v = (lv_estimate_id v, lv_order_no v)"

definition lv_label :: "line_view \<Rightarrow> string" where
  "lv_label v =
     (if lv_role v = Role_original then CHR ''#'' # int_str (lv_order_no v)
      else CHR ''#'' # int_str (lv_order_no v) @ '' of '' @ lv_estimate_number v)"

definition area_of :: "stored_line \<Rightarrow> area_ref" where
  "area_of ln = \<lparr>ar_estimate_id = sl_estimate_id ln, ar_estimate_number = sl_estimate_number ln,
     ar_role = sl_role ln, ar_work_area_id = sl_work_area_id ln, ar_order_no = sl_order_no ln,
     ar_name = sl_name ln, ar_kept = True, ar_price = sl_scheduled_value ln, ar_kind = None,
     ar_approved = False\<rparr>"

definition line_view_of :: "(area_key \<Rightarrow> previous_in option) \<Rightarrow> bool \<Rightarrow> stored_line \<Rightarrow> line_view" where
  "line_view_of previous is_draft ln =
     (let prev = previous (sl_estimate_id ln, sl_order_no ln);
          (percent, issue) = (if is_draft then negative_issue (area_of ln) (sl_percent ln) prev
                              else (sl_percent ln, None));
          to_date = earned (sl_scheduled_value ln) percent;
          before = (case prev of None \<Rightarrow> 0 | Some p \<Rightarrow> prev_earned p)
      in \<lparr>lv_estimate_id = sl_estimate_id ln, lv_estimate_number = sl_estimate_number ln,
          lv_role = sl_role ln, lv_work_area_id = sl_work_area_id ln, lv_order_no = sl_order_no ln,
          lv_name = sl_name ln, lv_scheduled_value = sl_scheduled_value ln, lv_percent = percent,
          lv_earned_to_date = to_date, lv_previous = before, lv_this_application = to_date - before,
          lv_balance = sl_scheduled_value ln - to_date, lv_issue = issue\<rparr>)"

definition line_views ::
  "stored_line list \<Rightarrow> (area_key \<Rightarrow> previous_in option) \<Rightarrow> bool \<Rightarrow> line_view list" where
  "line_views lines previous is_draft = map (line_view_of previous is_draft) lines"

definition held_lines :: "line_view list \<Rightarrow> billing_issue list" where
  "held_lines views = List.map_filter lv_issue views"

record summary =
  sm_earned_to_date :: cents
  sm_billed_before :: cents
  amount_due :: cents
  billed_ahead :: "cents option"
  sm_surcharge_applies :: "bool option"
  surcharge_rate :: "ten_thousandths option"
  surcharge :: "cents option"
  total_to_invoice :: "cents option"

definition no_invoice_due :: "summary \<Rightarrow> bool" where
  "no_invoice_due s \<longleftrightarrow> amount_due s \<le> 0"

definition make_summary ::
  "cents \<Rightarrow> cents \<Rightarrow> bool option \<Rightarrow> ten_thousandths option \<Rightarrow> summary" where
  "make_summary earned_total before applies rate =
     (let due0 = earned_total - before;
          ahead = (if due0 < 0 then Some (- due0) else None);
          due = max due0 0;
          charge = (if applies = Some True \<and> due > 0 then map_option (surcharge_amount due) rate
                    else None);
          total_due = (if due \<le> 0 then None
            else Some (due + (case charge of None \<Rightarrow> 0 | Some c \<Rightarrow> c)))
      in \<lparr>sm_earned_to_date = earned_total, sm_billed_before = before, amount_due = due,
          billed_ahead = ahead, sm_surcharge_applies = applies,
          surcharge_rate = (if applies = Some True then rate else None),
          surcharge = charge, total_to_invoice = total_due\<rparr>)"

text \<open>\<open>billed_before\<close>: an undecided document that counts makes the whole figure wait.\<close>

definition is_own_or_later :: "string set \<Rightarrow> nat \<Rightarrow> doc_figures \<Rightarrow> bool" where
  "is_own_or_later estimate_numbers number d =
     (case pmt_number (doc_number (df_doc d)) of None \<Rightarrow> False
      | Some (e, n) \<Rightarrow> e \<in> estimate_numbers \<and> n \<ge> number)"

fun billed_before_acc ::
  "date \<Rightarrow> string set \<Rightarrow> nat \<Rightarrow> doc_figures list \<Rightarrow> cents \<Rightarrow> cents option" where
  "billed_before_acc day numbers number [] acc = Some acc"
| "billed_before_acc day numbers number (d # ds) acc =
     (if \<not> df_counted d \<or> doc_txn_date (df_doc d) > day then
        billed_before_acc day numbers number ds acc
      else if is_own_or_later numbers number d then billed_before_acc day numbers number ds acc
      else (case df_billed d of None \<Rightarrow> None
            | Some b \<Rightarrow> billed_before_acc day numbers number ds (acc + b)))"

definition billed_before :: "doc_figures list \<Rightarrow> date \<Rightarrow> string set \<Rightarrow> nat \<Rightarrow> cents option" where
  "billed_before docs day numbers number = billed_before_acc day numbers number docs 0"

datatype app_status = Status_draft | Status_issued | Status_void

record application_view =
  av_id :: string
  av_number :: nat
  av_estimate_number :: string
  av_application_date :: date
  av_status :: app_status
  av_surcharge_applies :: "bool option"
  av_lines :: "line_view list"
  av_summary :: summary
  billed_before_undecided :: bool
  rate_undecided :: bool
  av_issues :: "billing_issue list"
  av_invoice :: "doc_figures option"

definition av_invoice_number :: "application_view \<Rightarrow> string option" where
  "av_invoice_number v = (if no_invoice_due (av_summary v) then None
     else Some (invoice_number (av_estimate_number v) (av_number v)))"

definition total_this_application :: "application_view \<Rightarrow> cents" where
  "total_this_application v = (\<Sum>ln \<leftarrow> av_lines v. lv_this_application ln)"

definition view_allocations :: "application_view \<Rightarrow> (area_key, cents) dict" where
  "view_allocations v =
     foldl (\<lambda>d ln. AList.update (lv_key ln) (lv_this_application ln) d) [] (av_lines v)"

section \<open>The tie to the invoice\<close>

definition match_invoice :: "application_view \<Rightarrow> doc_figures list \<Rightarrow> doc_figures option" where
  "match_invoice v docs =
     (let number = invoice_number (av_estimate_number v) (av_number v)
      in List.find (\<lambda>d. df_counted d \<and> doc_kind (df_doc d) = Invoice
           \<and> strip (or_empty (doc_number (df_doc d))) = number) docs)"

datatype mismatch_part = Amount_differs cents cents cents | Surcharge_differs cents cents

datatype tie_issue =
    Payapp_not_invoiced string nat date cents string
  | Payapp_invoice_mismatch string string "string option" nat "mismatch_part list" cents
  | Invoice_no_payapp string "string option" string date date

definition mismatch_parts :: "application_view \<Rightarrow> doc_figures \<Rightarrow> mismatch_part list" where
  "mismatch_parts v bill =
     (let printed = opt_the (surcharge (av_summary v));
          lines = opt_the (df_surcharge bill);
          total_less = doc_total (df_doc bill) - lines;
          due = amount_due (av_summary v)
      in (if total_less \<noteq> due then [Amount_differs total_less due (total_less - due)] else [])
         @ (if lines \<noteq> printed then [Surcharge_differs lines printed] else []))"

definition application_issues :: "application_view \<Rightarrow> tie_issue list" where
  "application_issues v =
     (case av_invoice v of
        None \<Rightarrow>
          (if no_invoice_due (av_summary v) then []
           else [Payapp_not_invoiced (av_id v) (av_number v) (av_application_date v)
             (case total_to_invoice (av_summary v) of None \<Rightarrow> amount_due (av_summary v)
              | Some t \<Rightarrow> if t = 0 then amount_due (av_summary v) else t)
             (invoice_number (av_estimate_number v) (av_number v))])
      | Some bill \<Rightarrow>
          (let parts = mismatch_parts v bill in if parts = [] then []
           else [Payapp_invoice_mismatch (av_id v) (doc_id (df_doc bill)) (doc_number (df_doc bill))
             (av_number v) parts
             (doc_total (df_doc bill) - opt_the (df_surcharge bill) - amount_due (av_summary v))]))"

definition unmatched_invoice :: "date \<Rightarrow> string set \<Rightarrow> doc_figures \<Rightarrow> bool" where
  "unmatched_invoice first matched d \<longleftrightarrow>
     df_counted d \<and> doc_kind (df_doc d) = Invoice \<and> doc_txn_date (df_doc d) \<ge> first
     \<and> doc_id (df_doc d) \<notin> matched \<and> \<not> df_is_deposit d
     \<and> \<not> ends_with (strip (or_empty (doc_number (df_doc d)))) deposit_suffix"

definition tie_issues :: "application_view list \<Rightarrow> doc_figures list \<Rightarrow> tie_issue list" where
  "tie_issues views docs =
     (let issued = filter (\<lambda>v. av_status v = Status_issued) views;
          matched = set (List.map_filter (\<lambda>v. map_option (\<lambda>d. doc_id (df_doc d)) (av_invoice v)) issued)
      in concat (map application_issues (sort_key av_number issued))
         @ (case map av_application_date issued of [] \<Rightarrow> []
            | d # ds \<Rightarrow>
                (let first = foldl min d ds
                 in map (\<lambda>f. Invoice_no_payapp (doc_id (df_doc f)) (doc_number (df_doc f))
                        (doc_external_id (df_doc f)) (doc_txn_date (df_doc f)) first)
                      (filter (unmatched_invoice first matched) docs))))"

definition application_allocations :: "application_view list \<Rightarrow> app_tie list" where
  "application_allocations views = List.map_filter (\<lambda>v.
     if av_status v = Status_issued then
       map_option (\<lambda>d. \<lparr>at_billing_id = doc_id (df_doc d), at_number = av_number v,
         at_allocations = view_allocations v\<rparr>) (av_invoice v)
     else None) views"

section \<open>Facts about numbers\<close>

lemma trailing_digits:
  assumes "list_all is_digit ds" and "\<not> is_digit c"
  shows "takeWhile is_digit (rev (xs @ c # ds)) = rev ds"
    and "dropWhile is_digit (rev (xs @ c # ds)) = c # rev xs"
  using assms takeWhile_append2 [of "rev ds" is_digit "c # rev xs"]
    dropWhile_append2 [of "rev ds" is_digit "c # rev xs"]
  by (simp_all add: list_all_iff)

lemma pmt_mark_facts: "pmt_mark = ''_PM'' @ [CHR ''T'']" "\<not> is_digit CHR ''T''" "length pmt_mark = 4"
  by (simp_all add: pmt_mark_def is_digit_def)

lemma ends_with_iff: "ends_with s t \<longleftrightarrow> (\<exists>p. s = p @ t)"
proof
  assume "ends_with s t"
  then show "\<exists>p. s = p @ t"
    unfolding ends_with_def by (metis append_take_drop_id)
qed (auto simp: ends_with_def)

text \<open>The number a document carries, in the words of the expression.\<close>

lemma pmt_number_iff:
  "pmt_number dn = Some (e, n) \<longleftrightarrow>
    (\<exists>ds. strip (or_empty dn) = e @ pmt_mark @ ds \<and> ds \<noteq> [] \<and> list_all is_digit ds \<and> e \<noteq> []
      \<and> CHR 0x0A \<notin> set e \<and> n = parse_nat ds)" (is "?l \<longleftrightarrow> ?r")
proof
  define s where "s = strip (or_empty dn)"
  {
    assume ?l
    then have *: "rev (takeWhile is_digit (rev s)) \<noteq> []"
        "ends_with (rev (dropWhile is_digit (rev s))) pmt_mark"
        "e = take (length (rev (dropWhile is_digit (rev s))) - length pmt_mark) (rev (dropWhile is_digit (rev s)))"
        "e \<noteq> []" "CHR 0x0A \<notin> set e" "n = parse_nat (rev (takeWhile is_digit (rev s)))"
      unfolding pmt_number_def Let_def s_def by (auto split: if_splits)
    obtain q where q: "rev (dropWhile is_digit (rev s)) = q @ pmt_mark"
      using *(2) unfolding ends_with_iff by blast
    then have "e = q" using *(3) by simp
    moreover have "s = rev (dropWhile is_digit (rev s)) @ rev (takeWhile is_digit (rev s))"
      by (metis rev_append rev_rev_ident takeWhile_dropWhile_id)
    moreover have "list_all is_digit (rev (takeWhile is_digit (rev s)))"
      by (auto simp: list_all_iff dest: set_takeWhileD)
    ultimately show ?r using q * unfolding s_def [symmetric] by (metis append_assoc)
  }
  assume ?r
  then obtain ds where ds: "s = e @ pmt_mark @ ds" "ds \<noteq> []" "list_all is_digit ds" "e \<noteq> []"
      "CHR 0x0A \<notin> set e" "n = parse_nat ds"
    unfolding s_def by blast
  have s: "s = (e @ ''_PM'') @ CHR ''T'' # ds" using ds(1) pmt_mark_facts(1) by simp
  have "takeWhile is_digit (rev s) = rev ds" and d: "dropWhile is_digit (rev s) = CHR ''T'' # rev (e @ ''_PM'')"
    unfolding s using trailing_digits [OF ds(3) pmt_mark_facts(2)] by blast+
  moreover have "rev (CHR ''T'' # rev (e @ ''_PM'')) = e @ pmt_mark" using pmt_mark_facts(1) by simp
  moreover have "ends_with (e @ pmt_mark) pmt_mark" unfolding ends_with_iff by blast
  ultimately show ?l
    using ds unfolding pmt_number_def s_def [symmetric] Let_def by simp
qed

lemma nat_str_inj: "nat_str m = nat_str n \<longleftrightarrow> m = n"
  by (metis parse_nat_str)

definition estimate_text :: "string \<Rightarrow> bool" where
  "estimate_text e \<longleftrightarrow> e \<noteq> [] \<and> \<not> is_space (hd e) \<and> CHR 0x0A \<notin> set e"

lemma invoice_number_strip: "estimate_text e \<Longrightarrow> strip (invoice_number e n) = invoice_number e n"
proof (rule strip_id)
  have "last (nat_str n) \<in> set (nat_str n)" by simp
  then have "is_digit (last (nat_str n))" using digits_nat_str [of n] by (auto simp: list_all_iff)
  then show "\<not> is_space (last (invoice_number e n))" by (simp add: invoice_number_def digit_not_space)
qed (auto simp: invoice_number_def estimate_text_def)

lemma pmt_invoice_number:
  assumes "estimate_text e" and "strip (or_empty dn) = invoice_number e n"
  shows "pmt_number dn = Some (e, n)"
  unfolding pmt_number_iff
  using assms by (intro exI [of _ "nat_str n"]) (simp add: invoice_number_def estimate_text_def)

lemma foldl_max: "foldl max (h :: nat) xs \<ge> h \<and> (x \<in> set xs \<longrightarrow> x \<le> foldl max h xs)
    \<and> (foldl max h xs = h \<or> foldl max h xs \<in> set xs)"
proof (induction xs arbitrary: h)
  case (Cons y ys)
  from Cons [of "max h y"] show ?case by (auto simp: max_def split: if_splits)
qed simp

definition doc_numbers_of :: "string option list \<Rightarrow> string set \<Rightarrow> nat list" where
  "doc_numbers_of docs estimate_numbers = List.map_filter (\<lambda>d. case pmt_number d of None \<Rightarrow> None
     | Some (e, n) \<Rightarrow> if e \<in> estimate_numbers then Some n else None) docs"

lemma next_number_max:
  "next_number docs ests taken = Suc (foldl max 0 (doc_numbers_of docs ests @ taken @ [0]))"
proof -
  have "foldl (\<lambda>h d. case pmt_number d of None \<Rightarrow> h
      | Some (e, n) \<Rightarrow> if e \<in> ests then max h n else h) k docs = foldl max k (doc_numbers_of docs ests)" for k
    by (induction docs arbitrary: k) (auto simp: doc_numbers_of_def List.map_filter_def split: option.splits)
  then show ?thesis by (simp add: next_number_def Let_def)
qed

lemma doc_numbers_of_mem:
  "n \<in> set (doc_numbers_of docs ests) \<longleftrightarrow> (\<exists>d\<in>set docs. \<exists>e\<in>ests. pmt_number d = Some (e, n))"
  unfolding doc_numbers_of_def set_map_filter by (auto split: option.splits if_splits) force

text \<open>
  C12: The number of a new pay application is new: no application of the job has it and no
  document of the job carries the invoice number it will print, for any of the job's
  estimates; and it continues the sequence, since the number before it is taken, on a
  document, or zero.
\<close>

theorem next_number_fresh:
  assumes "e \<in> ests" and "estimate_text e"
  shows "next_number docs ests taken \<notin> set taken
    \<and> invoice_number e (next_number docs ests taken) \<notin> (\<lambda>d. strip (or_empty d)) ` set docs
    \<and> (\<exists>k. next_number docs ests taken = Suc k \<and>
        (k = 0 \<or> k \<in> set taken \<or> (\<exists>d\<in>set docs. \<exists>e\<in>ests. pmt_number d = Some (e, k))))"
proof -
  define k where "k = foldl max 0 (doc_numbers_of docs ests @ taken @ [0])"
  have upper: "x \<in> set (doc_numbers_of docs ests) \<union> set taken \<Longrightarrow> x \<le> k" for x
    using foldl_max [of 0 "doc_numbers_of docs ests @ taken @ [0]" x] by (auto simp: k_def)
  have n: "next_number docs ests taken = Suc k" by (simp add: next_number_max k_def)
  have "strip (or_empty d) \<noteq> invoice_number e (Suc k)" if "d \<in> set docs" for d
  proof
    assume "strip (or_empty d) = invoice_number e (Suc k)"
    then have "pmt_number d = Some (e, Suc k)" using assms(2) by (rule pmt_invoice_number [rotated])
    then have "Suc k \<in> set (doc_numbers_of docs ests)"
      using that assms(1) unfolding doc_numbers_of_mem by blast
    then show False using upper by fastforce
  qed
  moreover have "k = 0 \<or> k \<in> set taken \<or> k \<in> set (doc_numbers_of docs ests)"
    using foldl_max [of 0 "doc_numbers_of docs ests @ taken @ [0]" k] by (auto simp: k_def)
  ultimately show ?thesis
    using upper [of "Suc k"] unfolding n doc_numbers_of_mem by fastforce
qed

definition ex_doc_numbers :: "string option list" where
  "ex_doc_numbers = [Some ''EST9_PMT3'', None, Some '' EST9_PMT11 '', Some ''INV_PMT40'']"

theorem next_number_fresh_witness:
  "next_number ex_doc_numbers {''EST9''} [2] = 12
    \<and> invoice_number ''EST9'' 12 \<notin> (\<lambda>d. strip (or_empty d)) ` set ex_doc_numbers"
proof -
  have n: "next_number ex_doc_numbers {''EST9''} [2] = 12" by code_simp
  have "''EST9'' \<in> {''EST9''}" and "estimate_text ''EST9''" by (simp_all add: estimate_text_def is_space_def)
  from next_number_fresh [OF this, of ex_doc_numbers "[2]"] show ?thesis unfolding n by simp
qed

section \<open>Amounts\<close>

lemma earned_0 [simp]: "earned sv 0 = 0"
  by (simp add: earned_def)

lemma earned_full [simp]: "earned sv hundred = sv"
  by (simp add: earned_def hundred_def)

lemma earned_mono: "0 \<le> sv \<Longrightarrow> p \<le> q \<Longrightarrow> earned sv p \<le> earned sv q"
  unfolding earned_def by (intro div_half_up_mono mult_left_mono) auto

text \<open>
  The percent that stands for an earlier billing. For a scheduled value and a billing
  of money size it lies between 0.00 and 100.00; the amount it earns lies between nothing
  and the scheduled value and, when the billing does not exceed the scheduled value, is
  within half a hundredth of a percent of that value, plus half a cent, of the billing.
\<close>

theorem prefill_percent_close:
  assumes "0 < sv" and "sv < 10 ^ 14" and "\<bar>b\<bar> < 10 ^ 14"
  shows "0 \<le> prefill_percent sv b \<and> prefill_percent sv b \<le> hundred
    \<and> 0 \<le> earned sv (prefill_percent sv b) \<and> earned sv (prefill_percent sv b) \<le> sv
    \<and> (b \<in> {0..sv} \<longrightarrow> 20000 * \<bar>earned sv (prefill_percent sv b) - b\<bar> \<le> sv + 10000)"
proof -
  define p where "p = prefill_percent sv b"
  have eq: "percent_of b sv = div_half_up (b * 10000) sv"
    using percent_of_eq [OF assms(3) assms(1) assms(2)] by simp
  have range: "0 \<le> p" "p \<le> hundred"
    using div_half_up_nonneg [of sv "b * 10000"] assms(1)
    by (auto simp: p_def prefill_percent_def eq hundred_def)
  have sv: "0 \<le> earned sv p" "earned sv p \<le> sv"
    using earned_mono [of sv 0 p] earned_mono [of sv p hundred] range assms(1) by auto
  have close: "20000 * \<bar>earned sv p - b\<bar> \<le> sv + 10000" if "b \<in> {0..sv}"
  proof (cases "b = 0")
    case False
    then have b: "0 < b" "b \<le> sv" using that by auto
    have "div_half_up (b * 10000) sv \<le> div_half_up (10000 * sv) sv"
      using assms(1) b by (intro div_half_up_mono) auto
    then have "p = div_half_up (b * 10000) sv"
      using b assms(1) by (simp add: p_def prefill_percent_def eq hundred_def)
    then have "2 * \<bar>p * sv - b * 10000\<bar> \<le> sv"
      using div_half_up_error [of sv "b * 10000"] assms(1) by simp
    moreover have "2 * \<bar>earned sv p * 10000 - sv * p\<bar> \<le> 10000"
      using div_half_up_error [of 10000 "sv * p"] by (simp add: earned_def)
    ultimately show ?thesis by (simp add: abs_if mult.commute split: if_splits)
  qed (use assms(1) in \<open>simp add: p_def prefill_percent_def\<close>)
  then show ?thesis using range sv unfolding p_def by blast
qed

theorem prefill_percent_close_witness:
  "prefill_percent 300000 100000 = 3333 \<and> earned 300000 3333 \<le> 300000
    \<and> 20000 * \<bar>earned 300000 3333 - 100000\<bar> \<le> 310000"
proof -
  have p: "prefill_percent 300000 100000 = 3333" by code_simp
  show ?thesis using prefill_percent_close [of 300000 100000] p by simp
qed

lemma prefill_percent_range: "0 \<le> prefill_percent sv b \<and> prefill_percent sv b \<le> hundred"
  using percent_of_nonneg [of b sv] by (simp add: prefill_percent_def hundred_def)

section \<open>The summary and what was billed before\<close>

text \<open>
  The summary of an application. Amount due less the amount billed ahead is what is
  earned less what was billed before; the amount due is never negative and the two never
  both stand; there is a total to invoice exactly when something is due, and it is the
  amount due plus the printed surcharge, which is printed only when the person said it
  applies, the rate is decided and something is due.
\<close>

theorem summary_correct:
  "amount_due (make_summary e b applies rate) - opt_the (billed_ahead (make_summary e b applies rate)) = e - b
   \<and> amount_due (make_summary e b applies rate) \<ge> 0
   \<and> (billed_ahead (make_summary e b applies rate) \<noteq> None \<longleftrightarrow> e < b)
   \<and> (total_to_invoice (make_summary e b applies rate) =
        (if no_invoice_due (make_summary e b applies rate) then None
         else Some (amount_due (make_summary e b applies rate)
           + opt_the (surcharge (make_summary e b applies rate)))))
   \<and> surcharge (make_summary e b applies rate) =
        (if applies = Some True \<and> e > b
         then map_option (\<lambda>r. div_half_up ((e - b) * r) 10000) rate else None)"
  by (auto simp: make_summary_def Let_def opt_the_def no_invoice_due_def surcharge_amount_def [abs_def])

lemma billed_before_acc_append:
  "billed_before_acc day numbers n (xs @ ys) acc =
     Option.bind (billed_before_acc day numbers n xs acc) (billed_before_acc day numbers n ys)"
  by (induction xs arbitrary: acc) (auto split: option.splits)

text \<open>
  Keying the invoice of an application changes nothing in it: billed before is the
  same with and without a document numbered for this application or a later one of an
  estimate of the job, wherever it stands among the job's documents.
\<close>

theorem billed_before_keyed:
  assumes "e \<in> numbers" and "estimate_text e" and "m \<ge> n"
    and "strip (or_empty (doc_number (df_doc d))) = invoice_number e m"
  shows "billed_before (xs @ d # ys) day numbers n = billed_before (xs @ ys) day numbers n"
proof -
  have "is_own_or_later numbers n d"
    using assms pmt_invoice_number [OF assms(2,4)] by (simp add: is_own_or_later_def)
  then have "billed_before_acc day numbers n (d # ys) acc = billed_before_acc day numbers n ys acc" for acc
    by simp
  then show ?thesis
    unfolding billed_before_def billed_before_acc_append by presburger
qed

definition ex_pmt_doc :: "string \<Rightarrow> string \<Rightarrow> cents \<Rightarrow> doc_figures" where
  "ex_pmt_doc i number amt = document_figures
     \<lparr>doc_id = i, doc_kind = Invoice, doc_external_id = i, doc_number = Some number,
      doc_txn_date = Date 2026 6 30, doc_total = amt, doc_tax_total = 0, doc_balance = amt,
      doc_voided = False, doc_deleted = False, doc_lines = []\<rparr>
     \<lparr>deposit_items = Some {}, surcharge_items = Some {}\<rparr> {}"

theorem billed_before_keyed_witness:
  "billed_before [ex_pmt_doc ''1'' ''EST9_PMT1'' 5000, ex_pmt_doc ''2'' ''EST9_PMT2'' 7000]
     (Date 2026 7 1) {''EST9''} 2 = Some 5000"
proof -
  have "billed_before ([ex_pmt_doc ''1'' ''EST9_PMT1'' 5000] @ ex_pmt_doc ''2'' ''EST9_PMT2'' 7000 # [])
      (Date 2026 7 1) {''EST9''} 2 =
    billed_before ([ex_pmt_doc ''1'' ''EST9_PMT1'' 5000] @ []) (Date 2026 7 1) {''EST9''} 2"
  proof (rule billed_before_keyed)
    show "strip (or_empty (doc_number (df_doc (ex_pmt_doc ''2'' ''EST9_PMT2'' 7000)))) =
        invoice_number ''EST9'' 2"
      by code_simp
  qed (simp_all add: estimate_text_def is_space_def)
  moreover have "billed_before [ex_pmt_doc ''1'' ''EST9_PMT1'' 5000] (Date 2026 7 1) {''EST9''} 2 = Some 5000"
    by code_simp
  ultimately show ?thesis by simp
qed

section \<open>The draft of a request\<close>

text \<open>
  What a request asks of a listed work area: the last percent it names for it, else the one
  percent for all, else the previous percent, else zero.
\<close>

definition named_for :: "(string \<Rightarrow> area_ref option) \<Rightarrow> percent_in list \<Rightarrow> area_key \<Rightarrow> hundredths option" where
  "named_for by_id ps k =
     map_option pi_percent (List.find (\<lambda>p. case by_id (pi_work_area_id p) of None \<Rightarrow> False
       | Some a \<Rightarrow> ar_kept a \<and> area_key a = k) (rev ps))"

definition asked_percent ::
  "request_in \<Rightarrow> (string \<Rightarrow> area_ref option) \<Rightarrow> (area_key \<Rightarrow> previous_in option) \<Rightarrow> area_ref \<Rightarrow> hundredths" where
  "asked_percent request by_id previous a =
     (case named_for by_id (rq_percents request) (area_key a) of Some p \<Rightarrow> p
      | None \<Rightarrow> (case rq_apply_all request of Some p \<Rightarrow> p
        | None \<Rightarrow> (case previous (area_key a) of None \<Rightarrow> 0
          | Some p \<Rightarrow> (case prev_percent p of None \<Rightarrow> 0 | Some x \<Rightarrow> x))))"

lemma named_percents_named:
  assumes "named_percents by_id listed ps (named0, issues0) = Inr (named, issues)"
  shows "map_of named k = (case named_for by_id ps k of Some p \<Rightarrow> Some p | None \<Rightarrow> map_of named0 k)"
  using assms
proof (induction ps arbitrary: named0 issues0)
  case (Cons p ps)
  have app: "List.find P (xs @ [y]) =
      (case List.find P xs of Some x \<Rightarrow> Some x | None \<Rightarrow> if P y then Some y else None)" for P and xs :: "'z list" and y
    by (induction xs) auto
  obtain a where a: "by_id (pi_work_area_id p) = Some a"
    using Cons.prems by (auto split: option.splits)
  show ?case
  proof (cases "ar_kept a")
    case False
    then show ?thesis
      using Cons.IH [of named0] Cons.prems a by (auto simp: named_for_def app split: option.splits)
  next
    case True
    then have "map_of named k = (case named_for by_id ps k of Some q \<Rightarrow> Some q
        | None \<Rightarrow> map_of (AList.update (area_key a) (pi_percent p) named0) k)"
      using Cons a by (auto split: if_splits)
    then show ?thesis
      using a True by (auto simp: named_for_def app map_of_update split: option.splits)
  qed
qed (simp add: named_for_def)

lemma listed_line_eq:
  assumes "map_of named (area_key a) = named_for by_id (rq_percents request) (area_key a)"
  shows "fst (listed_line request named previous a) =
    (let pct = asked_percent request by_id previous a in
     if pct \<le> hundred \<and> ar_price a \<noteq> 0
     then Some \<lparr>dl_area = a, dl_percent = pct,
       dl_issue = snd (negative_issue a pct (previous (area_key a)))\<rparr> else None)"
  using assms by (auto simp: listed_line_def asked_percent_def Let_def split: option.splits)

lemma map_filter_map: "List.map_filter f (map g xs) = List.map_filter (\<lambda>x. f (g x)) xs"
  by (induction xs) (simp_all add: List.map_filter_simps split: option.split)

lemma map_filter_if:
  "List.map_filter (\<lambda>x. if P x then Some (f x) else None) xs = map f (filter P xs)"
  by (induction xs) (simp_all add: List.map_filter_simps)

lemma draft_lines_eq:
  assumes "draft_lines request listed areas previous = Inr d"
  shows "draft_line_list d =
    (let by_id = map_of (rev (map (\<lambda>a. (ar_work_area_id a, a)) areas));
         asked = asked_percent request by_id previous
     in map (\<lambda>a. \<lparr>dl_area = a, dl_percent = asked a,
              dl_issue = snd (negative_issue a (asked a) (previous (area_key a)))\<rparr>)
          (filter (\<lambda>a. asked a \<le> hundred \<and> ar_price a \<noteq> 0) listed))"
proof -
  define by_id where "by_id = map_of (rev (map (\<lambda>a. (ar_work_area_id a, a)) areas))"
  obtain named issues where n:
      "named_percents by_id (set (map area_key listed)) (rq_percents request) ([], []) = Inr (named, issues)"
      "draft_line_list d = List.map_filter fst (map (listed_line request named previous) listed)"
    using assms by (auto simp: draft_lines_def by_id_def Let_def split: sum.splits)
  have named: "map_of named k = named_for by_id (rq_percents request) k" for k
    using named_percents_named [OF n(1), of k] by (simp split: option.splits)
  have "fst (listed_line request named previous a) =
      (if asked_percent request by_id previous a \<le> hundred \<and> ar_price a \<noteq> 0
       then Some \<lparr>dl_area = a, dl_percent = asked_percent request by_id previous a,
         dl_issue = snd (negative_issue a (asked_percent request by_id previous a) (previous (area_key a)))\<rparr>
       else None)" for a
    using listed_line_eq [OF named] by (simp add: Let_def)
  then have "List.map_filter fst (map (listed_line request named previous) listed) =
      List.map_filter (\<lambda>a. if asked_percent request by_id previous a \<le> hundred \<and> ar_price a \<noteq> 0
       then Some \<lparr>dl_area = a, dl_percent = asked_percent request by_id previous a,
         dl_issue = snd (negative_issue a (asked_percent request by_id previous a) (previous (area_key a)))\<rparr>
       else None) listed"
    unfolding map_filter_map by simp
  then show ?thesis unfolding n(2) map_filter_if by (simp add: Let_def by_id_def [symmetric])
qed

text \<open>
  The lines of a draft. They are the listed work areas in the schedule's order, less
  those asked to stand above 100.00 percent or priced 0.00; each stands at the percent asked
  for it, and carries the exception that its earned to date would fall exactly when it would.
\<close>

theorem draft_lines_correct:
  assumes "draft_lines request listed areas previous = Inr d"
  shows "draft_line_list d =
    (let by_id = map_of (rev (map (\<lambda>a. (ar_work_area_id a, a)) areas));
         asked = asked_percent request by_id previous
     in map (\<lambda>a. \<lparr>dl_area = a, dl_percent = asked a,
              dl_issue = snd (negative_issue a (asked a) (previous (area_key a)))\<rparr>)
          (filter (\<lambda>a. asked a \<le> hundred \<and> ar_price a \<noteq> 0) listed))"
  using assms by (rule draft_lines_eq)

definition ex_request :: request_in where
  "ex_request = \<lparr>rq_application_date = Date 2026 7 31, rq_surcharge_applies = Some False,
     rq_percents = [\<lparr>pi_work_area_id = ''w18'', pi_percent = 4000\<rparr>,
       \<lparr>pi_work_area_id = ''w18'', pi_percent = 5000\<rparr>], rq_apply_all = None\<rparr>"

theorem draft_lines_correct_witness:
  "\<exists>d. draft_lines ex_request ex_areas ex_areas (\<lambda>_. None) = Inr d
    \<and> map dl_percent (draft_line_list d) = [5000]"
proof -
  obtain d where d: "draft_lines ex_request ex_areas ex_areas (\<lambda>_. None) = Inr d"
    by (cases "draft_lines ex_request ex_areas ex_areas (\<lambda>_. None)")
      (simp_all add: draft_lines_def ex_request_def ex_areas_def area_key_def Let_def)
  have "draft_line_list d = [\<lparr>dl_area = hd ex_areas, dl_percent = 5000, dl_issue = None\<rparr>]"
    unfolding draft_lines_correct [OF d]
    by (simp add: Let_def asked_percent_def named_for_def ex_request_def ex_areas_def area_key_def
        hundred_def negative_issue_def)
  then show ?thesis using d by simp
qed

section \<open>The lines as shown\<close>

lemma negative_issue_cases:
  "negative_issue a pct prev =
    (case prev of None \<Rightarrow> (pct, None)
     | Some p \<Rightarrow> (case prev_percent p of None \<Rightarrow> (pct, None)
       | Some q \<Rightarrow> if prev_earned p \<le> earned (ar_price a) pct then (pct, None)
         else (q, Some (Billing_negative (ar_order_no a) (ar_name a) pct (earned (ar_price a) pct)
                (prev_earned p) (prev_number p) q))))"
  by (simp add: negative_issue_def split: option.splits)

text \<open>
  No negative earned this application while prices stand. On a draft, where what was
  earned before is what the previous percent earns at the line's scheduled value, every line
  earns at least nothing this application; a line whose entered percent would earn less
  than before stands at the previous percent, earns exactly 0.00 and carries the exception;
  any other line stands at its entered percent with none.
\<close>

theorem draft_line_not_negative:
  assumes "previous (sl_estimate_id ln, sl_order_no ln) = Some p"
    and "prev_percent p = Some q" and "prev_earned p = earned (sl_scheduled_value ln) q"
  shows "0 \<le> lv_this_application (line_view_of previous True ln)
    \<and> (if earned (sl_scheduled_value ln) (sl_percent ln) < prev_earned p
       then lv_percent (line_view_of previous True ln) = q
         \<and> lv_this_application (line_view_of previous True ln) = 0
         \<and> lv_issue (line_view_of previous True ln) \<noteq> None
       else lv_percent (line_view_of previous True ln) = sl_percent ln
         \<and> lv_issue (line_view_of previous True ln) = None)"
  using assms by (simp add: line_view_of_def Let_def negative_issue_cases area_of_def)

definition ex_stored :: "hundredths \<Rightarrow> cents \<Rightarrow> stored_line" where
  "ex_stored pct price = \<lparr>sl_estimate_id = ''e1'', sl_estimate_number = ''EST1'', sl_role = Role_original,
     sl_work_area_id = ''w18'', sl_order_no = 18, sl_name = ''Planting'', sl_scheduled_value = price,
     sl_percent = pct\<rparr>"

definition ex_previous :: "area_key \<Rightarrow> previous_in option" where
  "ex_previous k = (if k = (''e1'', 18)
     then Some \<lparr>prev_percent = Some 6000, prev_earned = 540000, prev_number = Some 1\<rparr> else None)"

theorem draft_line_not_negative_witness:
  "lv_this_application (line_view_of ex_previous True (ex_stored 5000 900000)) = 0"
  using draft_line_not_negative [of ex_previous "ex_stored 5000 900000"
      "\<lparr>prev_percent = Some 6000, prev_earned = 540000, prev_number = Some 1\<rparr>" 6000]
  by (simp add: ex_previous_def ex_stored_def earned_def div_half_up_def)


section \<open>The invoice of an application\<close>

lemma match_invoice_number:
  assumes "match_invoice v docs = Some d"
  shows "d \<in> set docs \<and> df_counted d
    \<and> strip (or_empty (doc_number (df_doc d))) = invoice_number (av_estimate_number v) (av_number v)"
  using assms by (auto simp: match_invoice_def Let_def find_Some_iff)

text \<open>
  One document is never the invoice of two applications of a job: applications of one
  estimate that match the same document have the same number.
\<close>

theorem matched_invoice_is_of_one_application:
  assumes "match_invoice v docs = Some d" and "match_invoice w docs = Some d"
    and "av_estimate_number v = av_estimate_number w"
  shows "av_number v = av_number w"
  using match_invoice_number [OF assms(1)] match_invoice_number [OF assms(2)] assms(3)
  by (simp add: invoice_number_def nat_str_inj)

text \<open>
  An issued application raises nothing exactly when no invoice is due and none is held,
  or the invoice it is keyed on agrees with it: its fuel surcharge lines are the printed
  surcharge and its total less those lines the amount due, and then the invoice's total
  is the application's total to invoice whenever one is due.
\<close>

theorem application_tied_iff:
  fixes v :: application_view
  assumes "av_summary v = make_summary e b applies rate"
  shows "application_issues v = [] \<longleftrightarrow>
    (case av_invoice v of None \<Rightarrow> no_invoice_due (av_summary v)
     | Some bill \<Rightarrow>
        opt_the (df_surcharge bill) = opt_the (surcharge (av_summary v))
        \<and> doc_total (df_doc bill) - opt_the (df_surcharge bill) = amount_due (av_summary v)
        \<and> (\<not> no_invoice_due (av_summary v) \<longrightarrow>
             total_to_invoice (av_summary v) = Some (doc_total (df_doc bill))))"
  unfolding application_issues_def mismatch_parts_def Let_def
  by (cases "av_invoice v")
    (auto simp: assms make_summary_def no_invoice_due_def opt_the_def Let_def split: if_splits option.splits)

definition ex_view :: "doc_figures option \<Rightarrow> application_view" where
  "ex_view bill = \<lparr>av_id = ''a2'', av_number = 2, av_estimate_number = ''EST9'',
     av_application_date = Date 2026 6 30, av_status = Status_issued, av_surcharge_applies = Some True,
     av_lines = [], av_summary = make_summary 12000 5000 (Some True) (Some 350),
     billed_before_undecided = False, rate_undecided = False, av_issues = [], av_invoice = bill\<rparr>"

theorem matched_invoice_is_of_one_application_witness:
  "match_invoice (ex_view None) [ex_pmt_doc ''2'' ''EST9_PMT2'' 7000] = Some (ex_pmt_doc ''2'' ''EST9_PMT2'' 7000)
    \<and> av_number (ex_view None) = av_number ((ex_view None)\<lparr>av_id := ''a3''\<rparr>)"
proof -
  have m: "match_invoice (ex_view None) [ex_pmt_doc ''2'' ''EST9_PMT2'' 7000] = Some (ex_pmt_doc ''2'' ''EST9_PMT2'' 7000)"
    by code_simp
  moreover have "match_invoice ((ex_view None)\<lparr>av_id := ''a3''\<rparr>) [ex_pmt_doc ''2'' ''EST9_PMT2'' 7000] =
      Some (ex_pmt_doc ''2'' ''EST9_PMT2'' 7000)"
    by code_simp
  moreover have "av_estimate_number (ex_view None) = av_estimate_number ((ex_view None)\<lparr>av_id := ''a3''\<rparr>)"
    by (simp add: ex_view_def)
  ultimately show ?thesis using matched_invoice_is_of_one_application by blast
qed

theorem application_tied_iff_witness:
  "application_issues (ex_view None) \<noteq> [] \<and> av_summary (ex_view None) = make_summary 12000 5000 (Some True) (Some 350)"
proof -
  have s: "av_summary (ex_view None) = make_summary 12000 5000 (Some True) (Some 350)" by (simp add: ex_view_def)
  have i: "av_invoice (ex_view None) = None" by (simp add: ex_view_def)
  show ?thesis
    using application_tied_iff [OF s] unfolding i s
    by (simp add: make_summary_def no_invoice_due_def Let_def)
qed

end
