(* ===== verification/PayApplicationService.thy ===== *)
theory PayApplicationService
  imports PayApplications
begin

text \<open>
  The pay applications of the database: \<open>app/domain/billing/pay_application_service.py\<close>. The
  state is the rows of \<open>pay_application\<close> (each with its rows of \<open>pay_application_line\<close>) and
  the audit rows; the four writes are draft, issue, discard and void, each with the guards
  in the order of the code. What the service reads of a job (its estimates, work areas,
  documents, policy) is the record \<open>job_ctx\<close>, which may change between any two writes. The
  CHECK and UNIQUE constraints of the two tables are \<open>constraints_ok\<close>.
\<close>

section \<open>Rows\<close>

record line_row =
  lr_estimate_id :: string
  lr_order_no :: int
  lr_name :: string
  lr_work_area_id :: string
  lr_scheduled_value :: cents
  lr_percent :: hundredths

record app_row =
  ap_id :: uuid
  ap_job :: uuid
  ap_number :: nat
  ap_date :: date
  ap_status :: app_status
  ap_surcharge_applies :: "bool option"
  ap_surcharge_rate :: "ten_thousandths option"
  ap_billed_before :: "cents option"
  ap_amount_due :: "cents option"
  ap_created_by :: uuid
  ap_issued_by :: "uuid option"
  ap_issued_at :: "int option"
  ap_voided_by :: "uuid option"
  ap_voided_at :: "int option"
  ap_void_reason :: "string option"
  ap_lines :: "line_row list"

definition lr_key :: "line_row \<Rightarrow> area_key" where
  "lr_key r = (lr_estimate_id r, lr_order_no r)"

text \<open>\<open>_fields\<close>: what an audit row says of an application.\<close>

record app_fields =
  fd_number :: nat
  fd_status :: app_status
  fd_date :: date
  fd_surcharge_applies :: "bool option"
  fd_surcharge_rate :: "ten_thousandths option"
  fd_billed_before :: "cents option"
  fd_amount_due :: "cents option"

definition fields_of :: "app_row \<Rightarrow> app_fields" where
  "fields_of a = \<lparr>fd_number = ap_number a, fd_status = ap_status a, fd_date = ap_date a,
     fd_surcharge_applies = ap_surcharge_applies a, fd_surcharge_rate = ap_surcharge_rate a,
     fd_billed_before = ap_billed_before a, fd_amount_due = ap_amount_due a\<rparr>"

datatype app_event =
    Drafted "app_fields option" app_fields nat "billing_issue list"
  | Issued app_fields app_fields cents "cents option" "cents option" "string option" "string list"
  | Discarded app_fields "(int \<times> string \<times> hundredths) list"
  | Voided app_fields app_fields string

record app_audit =
  aa_job :: uuid
  aa_app :: uuid
  aa_actor :: uuid
  aa_event :: app_event

record pa_db =
  pa_rows :: "app_row list"
  pa_audits :: "app_audit list"

record job_ctx =
  jc_job :: uuid
  jc_revenue_method :: revenue_method
  jc_areas :: "area_ref list"
  jc_billed_lines :: "(area_key, cents) dict"
  jc_documents :: "doc_figures list"
  jc_numbers :: "(string, string) dict"
  jc_estimate_number :: string
  jc_request_numbers :: "string set"
  jc_approved_on :: "area_key \<Rightarrow> date option"
  jc_rate :: "ten_thousandths option"

datatype pa_error =
    Not_fixed_price
  | App_not_found
  | Request_refused not_on_schedule
  | Wrong_status nat app_status
  | Choice_unanswered
  | Rate_undecided
  | Waits_for_keys
  | No_work_area
  | No_reason
  | Integrity_error

text \<open>The constraints of \<open>pay_application\<close> and \<open>pay_application_line\<close> on one application.\<close>

definition constraints_ok :: "app_row \<Rightarrow> bool" where
  "constraints_ok a \<longleftrightarrow>
     (ap_status a = Status_draft \<or> ap_issued_by a \<noteq> None \<and> ap_issued_at a \<noteq> None
        \<and> ap_billed_before a \<noteq> None \<and> ap_amount_due a \<noteq> None)
     \<and> ((ap_status a = Status_void) = (ap_voided_by a \<noteq> None \<and> ap_voided_at a \<noteq> None
        \<and> (case ap_void_reason a of None \<Rightarrow> False | Some r \<Rightarrow> list_ex (\<lambda>c. c \<noteq> CHR '' '') r)))
     \<and> list_all (\<lambda>r. 0 \<le> lr_percent r \<and> lr_percent r \<le> hundred) (ap_lines a)
     \<and> distinct (map lr_key (ap_lines a))"

text \<open>Writing a row, new or by its id; the number of an application is unique in its job.\<close>

definition store :: "pa_db \<Rightarrow> app_row \<Rightarrow> (pa_error, pa_db) result" where
  "store st a =
     (if constraints_ok a
         \<and> list_all (\<lambda>b. ap_id b = ap_id a \<or> ap_job b \<noteq> ap_job a \<or> ap_number b \<noteq> ap_number a) (pa_rows st)
      then Inr (st\<lparr>pa_rows :=
        (if ap_id a \<in> ap_id ` set (pa_rows st)
         then map (\<lambda>b. if ap_id b = ap_id a then a else b) (pa_rows st) else pa_rows st @ [a])\<rparr>)
      else Inl Integrity_error)"

definition audit :: "pa_db \<Rightarrow> uuid \<Rightarrow> uuid \<Rightarrow> uuid \<Rightarrow> app_event \<Rightarrow> pa_db" where
  "audit st job app actor e = st\<lparr>pa_audits := pa_audits st @
     [\<lparr>aa_job = job, aa_app = app, aa_actor = actor, aa_event = e\<rparr>]\<rparr>"

section \<open>Reads\<close>

definition load_applications :: "pa_db \<Rightarrow> uuid \<Rightarrow> app_row list" where
  "load_applications st job =
     map (\<lambda>a. a\<lparr>ap_lines := sort_key lr_order_no (ap_lines a)\<rparr>)
       (sort_key ap_number (filter (\<lambda>a. ap_job a = job) (pa_rows st)))"

definition stored_line_of ::
  "(area_key \<Rightarrow> area_ref option) \<Rightarrow> (string, string) dict \<Rightarrow> line_row \<Rightarrow> stored_line" where
  "stored_line_of areas numbers r =
     (let ref = areas (lr_key r)
      in \<lparr>sl_estimate_id = lr_estimate_id r,
          sl_estimate_number = dict_get numbers (lr_estimate_id r)
            (case ref of None \<Rightarrow> [] | Some a \<Rightarrow> ar_estimate_number a),
          sl_role = (case ref of None \<Rightarrow> Role_original | Some a \<Rightarrow> ar_role a),
          sl_work_area_id = lr_work_area_id r, sl_order_no = lr_order_no r, sl_name = lr_name r,
          sl_scheduled_value = lr_scheduled_value r, sl_percent = lr_percent r\<rparr>)"

definition stored_lines ::
  "line_row list \<Rightarrow> (area_key \<Rightarrow> area_ref option) \<Rightarrow> (string, string) dict \<Rightarrow> stored_line list" where
  "stored_lines rows areas numbers =
     sort_key (\<lambda>s. (sl_role s \<noteq> Role_original, sl_estimate_number s, sl_order_no s))
       (map (stored_line_of areas numbers) rows)"

definition prefilled :: "area_ref list \<Rightarrow> area_key \<times> cents \<Rightarrow> area_key \<times> previous_in" where
  "prefilled areas ka =
     (let price = dict_at (rev (map (\<lambda>a. (area_key a, ar_price a)) areas)) (fst ka);
          pct = prefill_percent price (snd ka)
      in (fst ka, \<lparr>prev_percent = Some pct, prev_earned = earned price pct, prev_number = None\<rparr>))"

definition issued_line :: "nat \<Rightarrow> line_row \<Rightarrow> area_key \<times> previous_in" where
  "issued_line n r = (lr_key r, \<lparr>prev_percent = Some (lr_percent r),
     prev_earned = earned (lr_scheduled_value r) (lr_percent r), prev_number = Some n\<rparr>)"

definition issued_before :: "nat \<Rightarrow> app_row list \<Rightarrow> (area_key \<times> previous_in) list" where
  "issued_before number earlier =
     concat (map (\<lambda>a. map (issued_line (ap_number a)) (ap_lines a))
       (filter (\<lambda>a. ap_status a = Status_issued \<and> ap_number a < number) (sort_key ap_number earlier)))"

definition previous_for ::
  "nat \<Rightarrow> app_row list \<Rightarrow> (area_key, cents) dict \<Rightarrow> area_ref list \<Rightarrow> (area_key, previous_in) dict" where
  "previous_for number earlier lines_billed areas =
     foldl (\<lambda>d (k, p). AList.update k p d) (map (prefilled areas) lines_billed)
       (issued_before number earlier)"

definition application_view_of :: "job_ctx \<Rightarrow> app_row list \<Rightarrow> app_row \<Rightarrow> application_view" where
  "application_view_of ctx apps app =
     (let is_draft = (ap_status app = Status_draft);
          prev = map_of (previous_for (ap_number app) apps (jc_billed_lines ctx) (jc_areas ctx));
          lines = line_views (stored_lines (ap_lines app) (key_index (jc_areas ctx)) (jc_numbers ctx))
            prev is_draft;
          earned_total = (\<Sum>ln \<leftarrow> lines. lv_earned_to_date ln);
          before = billed_before (jc_documents ctx) (ap_date app) (snd ` set (jc_numbers ctx)) (ap_number app);
          s = (if is_draft then make_summary earned_total (opt_the before) (ap_surcharge_applies app) (jc_rate ctx)
               else make_summary earned_total (opt_the (ap_billed_before app)) (ap_surcharge_applies app)
                 (ap_surcharge_rate app));
          v = \<lparr>av_id = nat_str (ap_id app), av_number = ap_number app,
            av_estimate_number = jc_estimate_number ctx, av_application_date = ap_date app,
            av_status = ap_status app, av_surcharge_applies = ap_surcharge_applies app,
            av_lines = lines, av_summary = s,
            billed_before_undecided = (is_draft \<and> before = None),
            rate_undecided = (ap_surcharge_applies app = Some True \<and> is_draft \<and> jc_rate ctx = None),
            av_issues = held_lines lines, av_invoice = None\<rparr>
      in v\<lparr>av_invoice := (if ap_status app = Status_issued then match_invoice v (jc_documents ctx) else None)\<rparr>)"

definition application_views :: "job_ctx \<Rightarrow> app_row list \<Rightarrow> application_view list" where
  "application_views ctx apps = map (application_view_of ctx apps) apps"

section \<open>Writes\<close>

definition job_guard :: "job_ctx \<Rightarrow> bool" where
  "job_guard ctx \<longleftrightarrow> jc_revenue_method ctx = Fixed_price"

definition find_application :: "pa_db \<Rightarrow> uuid \<Rightarrow> uuid \<Rightarrow> app_row option" where
  "find_application st job app_id = List.find (\<lambda>a. ap_id a = app_id \<and> ap_job a = job) (pa_rows st)"

definition line_row_of :: "draft_line \<Rightarrow> line_row" where
  "line_row_of ln = \<lparr>lr_estimate_id = ar_estimate_id (dl_area ln), lr_order_no = ar_order_no (dl_area ln),
     lr_name = ar_name (dl_area ln), lr_work_area_id = ar_work_area_id (dl_area ln),
     lr_scheduled_value = ar_price (dl_area ln), lr_percent = dl_percent ln\<rparr>"

definition draft_number :: "job_ctx \<Rightarrow> app_row list \<Rightarrow> nat" where
  "draft_number ctx apps =
     (case List.find (\<lambda>a. ap_status a = Status_draft) apps of
        Some a \<Rightarrow> ap_number a
      | None \<Rightarrow> next_number (map (\<lambda>d. doc_number (df_doc d))
          (filter (\<lambda>d. \<not> doc_deleted (df_doc d)) (jc_documents ctx)))
          (jc_request_numbers ctx) (map ap_number apps))"

text \<open>The open draft with the request written over it, or a new row.\<close>

definition draft_row ::
  "job_ctx \<Rightarrow> request_in \<Rightarrow> uuid \<Rightarrow> uuid \<Rightarrow> app_row list \<Rightarrow> draft \<Rightarrow> app_row" where
  "draft_row ctx request new_id actor apps d =
     (case List.find (\<lambda>a. ap_status a = Status_draft) apps of
        Some a \<Rightarrow> a
      | None \<Rightarrow> \<lparr>ap_id = new_id, ap_job = jc_job ctx, ap_number = draft_number ctx apps,
          ap_date = rq_application_date request, ap_status = Status_draft,
          ap_surcharge_applies = None, ap_surcharge_rate = None,
          ap_billed_before = None, ap_amount_due = None, ap_created_by = actor,
          ap_issued_by = None, ap_issued_at = None, ap_voided_by = None,
          ap_voided_at = None, ap_void_reason = None, ap_lines = []\<rparr>)
     \<lparr>ap_date := rq_application_date request, ap_surcharge_applies := rq_surcharge_applies request,
      ap_lines := map line_row_of (draft_line_list d)\<rparr>"

definition request_lines :: "job_ctx \<Rightarrow> request_in \<Rightarrow> app_row list \<Rightarrow> (not_on_schedule, draft) result" where
  "request_lines ctx request apps =
     draft_lines request (schedule (jc_areas ctx) (rq_application_date request) (jc_approved_on ctx))
       (jc_areas ctx)
       (map_of (previous_for (draft_number ctx apps) apps (jc_billed_lines ctx) (jc_areas ctx)))"

definition draft_application ::
  "pa_db \<Rightarrow> job_ctx \<Rightarrow> request_in \<Rightarrow> uuid \<Rightarrow> uuid \<Rightarrow> (pa_error, pa_db \<times> app_row \<times> draft) result" where
  "draft_application st ctx request new_id actor =
     (if \<not> job_guard ctx then Inl Not_fixed_price
      else (let apps = load_applications st (jc_job ctx);
                existing = List.find (\<lambda>a. ap_status a = Status_draft) apps
            in case request_lines ctx request apps of
                 Inl e \<Rightarrow> Inl (Request_refused e)
               | Inr d \<Rightarrow>
                   (let app = draft_row ctx request new_id actor apps d
                    in case store st app of Inl e \<Rightarrow> Inl e
                       | Inr st' \<Rightarrow> Inr (audit st' (jc_job ctx) (ap_id app) actor
                           (Drafted (map_option fields_of existing) (fields_of app)
                             (length (draft_line_list d)) (draft_issues d)), app, d))))"

text \<open>\<open>_hold_lines\<close>: the rows at the percent the draft showed, and the labels held.\<close>

definition held_row :: "application_view \<Rightarrow> line_row \<Rightarrow> line_row \<times> string option" where
  "held_row view r =
     (case map_of (rev (map (\<lambda>v. (lv_key v, v)) (av_lines view))) (lr_key r) of
        Some v \<Rightarrow> (if lv_issue v \<noteq> None \<and> lr_percent r \<noteq> lv_percent v
          then (r\<lparr>lr_percent := lv_percent v\<rparr>, Some (lv_label v)) else (r, None))
      | None \<Rightarrow> (r, None))"

definition issued_row :: "app_row \<Rightarrow> application_view \<Rightarrow> uuid \<Rightarrow> int \<Rightarrow> app_row" where
  "issued_row app view actor now =
     app\<lparr>ap_lines := map (fst \<circ> held_row view) (ap_lines app), ap_status := Status_issued,
         ap_issued_by := Some actor, ap_issued_at := Some now,
         ap_surcharge_rate := (if ap_surcharge_applies app = Some True
           then surcharge_rate (av_summary view) else None),
         ap_billed_before := Some (sm_billed_before (av_summary view)),
         ap_amount_due := Some (amount_due (av_summary view))\<rparr>"

definition issue_application ::
  "pa_db \<Rightarrow> job_ctx \<Rightarrow> uuid \<Rightarrow> application_view \<Rightarrow> uuid \<Rightarrow> int \<Rightarrow> (pa_error, pa_db \<times> app_row) result" where
  "issue_application st ctx app_id view actor now =
     (if \<not> job_guard ctx then Inl Not_fixed_price
      else (case find_application st (jc_job ctx) app_id of
        None \<Rightarrow> Inl App_not_found
      | Some app \<Rightarrow>
          if ap_status app \<noteq> Status_draft then Inl (Wrong_status (ap_number app) (ap_status app))
          else if ap_surcharge_applies app = None then Inl Choice_unanswered
          else if ap_surcharge_applies app = Some True \<and> rate_undecided view then Inl Rate_undecided
          else if billed_before_undecided view then Inl Waits_for_keys
          else if av_lines view = [] then Inl No_work_area
          else (let app' = issued_row app view actor now
                in case store st app' of Inl e \<Rightarrow> Inl e
                   | Inr st' \<Rightarrow> Inr (audit st' (jc_job ctx) app_id actor
                       (Issued (fields_of app) (fields_of app') (sm_earned_to_date (av_summary view))
                         (surcharge (av_summary view)) (total_to_invoice (av_summary view))
                         (av_invoice_number view)
                         (List.map_filter (snd \<circ> held_row view) (ap_lines app))), app'))))"

definition discard_application ::
  "pa_db \<Rightarrow> job_ctx \<Rightarrow> uuid \<Rightarrow> uuid \<Rightarrow> (pa_error, pa_db) result" where
  "discard_application st ctx app_id actor =
     (if \<not> job_guard ctx then Inl Not_fixed_price
      else (case find_application st (jc_job ctx) app_id of
        None \<Rightarrow> Inl App_not_found
      | Some app \<Rightarrow>
          if ap_status app \<noteq> Status_draft then Inl (Wrong_status (ap_number app) (ap_status app))
          else Inr (audit (st\<lparr>pa_rows := filter (\<lambda>a. ap_id a \<noteq> app_id) (pa_rows st)\<rparr>)
            (jc_job ctx) app_id actor
            (Discarded (fields_of app) (map (\<lambda>r. (lr_order_no r, lr_estimate_id r, lr_percent r))
              (sort_key lr_order_no (ap_lines app)))))))"

definition clean_reason :: "string option \<Rightarrow> string option" where
  "clean_reason t = (let cleaned = take 2000 (join_space (split_ws (or_empty t)))
     in if cleaned = [] then None else Some cleaned)"

definition voided_row :: "app_row \<Rightarrow> string \<Rightarrow> uuid \<Rightarrow> int \<Rightarrow> app_row" where
  "voided_row app why actor now = app\<lparr>ap_status := Status_void, ap_voided_by := Some actor,
     ap_voided_at := Some now, ap_void_reason := Some why\<rparr>"

definition void_application ::
  "pa_db \<Rightarrow> job_ctx \<Rightarrow> uuid \<Rightarrow> string option \<Rightarrow> uuid \<Rightarrow> int \<Rightarrow> (pa_error, pa_db \<times> app_row) result" where
  "void_application st ctx app_id reason actor now =
     (if \<not> job_guard ctx then Inl Not_fixed_price
      else (case find_application st (jc_job ctx) app_id of
        None \<Rightarrow> Inl App_not_found
      | Some app \<Rightarrow>
          (case clean_reason reason of
             None \<Rightarrow> Inl No_reason
           | Some why \<Rightarrow>
               if ap_status app = Status_void then Inl (Wrong_status (ap_number app) Status_void)
               else if ap_status app = Status_draft then Inl (Wrong_status (ap_number app) Status_draft)
               else (let app' = voided_row app why actor now
                     in case store st app' of Inl e \<Rightarrow> Inl e
                        | Inr st' \<Rightarrow> Inr (audit st' (jc_job ctx) app_id actor
                            (Voided (fields_of app) (fields_of app') why), app')))))"

section \<open>The machine\<close>

text \<open>
  One write by anyone, on any job, with whatever the job's estimates, documents and policy
  are at that moment. The routes hand \<open>issue_application\<close> the view computed from the same
  rows.
\<close>

definition shown_view :: "pa_db \<Rightarrow> job_ctx \<Rightarrow> app_row \<Rightarrow> application_view" where
  "shown_view st ctx app = application_view_of ctx (load_applications st (jc_job ctx))
     (app\<lparr>ap_lines := sort_key lr_order_no (ap_lines app)\<rparr>)"

inductive pa_step :: "pa_db \<Rightarrow> pa_db \<Rightarrow> bool" where
  drafted: "new_id \<notin> ap_id ` set (pa_rows st) \<Longrightarrow>
    draft_application st ctx request new_id actor = Inr (st', app, d) \<Longrightarrow> pa_step st st'"
| issued: "find_application st (jc_job ctx) app_id = Some app \<Longrightarrow>
    issue_application st ctx app_id (shown_view st ctx app) actor now = Inr (st', app') \<Longrightarrow> pa_step st st'"
| discarded: "discard_application st ctx app_id actor = Inr st' \<Longrightarrow> pa_step st st'"
| voided: "void_application st ctx app_id reason actor now = Inr (st', app') \<Longrightarrow> pa_step st st'"

inductive_cases pa_stepE: "pa_step st st'"

definition pa_inv :: "pa_db \<Rightarrow> bool" where
  "pa_inv st \<longleftrightarrow> distinct (map ap_id (pa_rows st))
     \<and> (\<forall>a \<in> set (pa_rows st). \<forall>b \<in> set (pa_rows st).
          ap_job a = ap_job b \<and> ap_number a = ap_number b \<longrightarrow> a = b)
     \<and> (\<forall>a \<in> set (pa_rows st). \<forall>b \<in> set (pa_rows st).
          ap_job a = ap_job b \<and> ap_status a = Status_draft \<and> b \<noteq> a \<longrightarrow> ap_number b < ap_number a)
     \<and> (\<forall>a \<in> set (pa_rows st). constraints_ok a)"

lemma audit_rows [simp]: "pa_rows (audit st job app actor e) = pa_rows st"
  by (simp add: audit_def)

lemma store_Inr:
  assumes "store st a = Inr st'" and "distinct (map ap_id (pa_rows st))"
  shows "constraints_ok a"
    and "b \<in> set (pa_rows st) \<Longrightarrow> ap_job b = ap_job a \<Longrightarrow> ap_number b = ap_number a \<Longrightarrow> ap_id b = ap_id a"
    and "set (pa_rows st') = insert a {b \<in> set (pa_rows st). ap_id b \<noteq> ap_id a}"
    and "distinct (map ap_id (pa_rows st'))"
proof -
  let ?new = "if ap_id a \<in> ap_id ` set (pa_rows st)
    then map (\<lambda>b. if ap_id b = ap_id a then a else b) (pa_rows st) else pa_rows st @ [a]"
  have c: "constraints_ok a" "list_all (\<lambda>b. ap_id b = ap_id a \<or> ap_job b \<noteq> ap_job a \<or> ap_number b \<noteq> ap_number a) (pa_rows st)"
      and st': "st' = st\<lparr>pa_rows := ?new\<rparr>"
    using assms(1) unfolding store_def by (auto split: if_splits)
  show "constraints_ok a" by (rule c)
  show "b \<in> set (pa_rows st) \<Longrightarrow> ap_job b = ap_job a \<Longrightarrow> ap_number b = ap_number a \<Longrightarrow> ap_id b = ap_id a"
    using c(2) by (auto simp: list_all_iff)
  show "set (pa_rows st') = insert a {b \<in> set (pa_rows st). ap_id b \<noteq> ap_id a}"
    unfolding st' by (auto simp: image_iff)
  have "map ap_id (map (\<lambda>b. if ap_id b = ap_id a then a else b) (pa_rows st)) = map ap_id (pa_rows st)"
    by simp
  then show "distinct (map ap_id (pa_rows st'))"
    unfolding st' using assms(2) by (auto simp del: map_map)
qed

lemma find_application_Some:
  "find_application st job i = Some a \<Longrightarrow> a \<in> set (pa_rows st) \<and> ap_id a = i \<and> ap_job a = job"
  by (auto simp: find_application_def find_Some_iff)

lemma load_applications_mem:
  "a \<in> set (load_applications st job) \<Longrightarrow>
    \<exists>b \<in> set (pa_rows st). ap_job b = job \<and> a = b\<lparr>ap_lines := sort_key lr_order_no (ap_lines b)\<rparr>"
  by (auto simp: load_applications_def)

lemma load_applications_numbers:
  "b \<in> set (pa_rows st) \<Longrightarrow> ap_job b = job \<Longrightarrow> ap_number b \<in> set (map ap_number (load_applications st job))"
  by (force simp: load_applications_def)

lemma next_number_gt: "n \<in> set taken \<Longrightarrow> n < next_number docs ests taken"
  using foldl_max [of 0 "doc_numbers_of docs ests @ taken @ [0]" n] by (simp add: next_number_max)

text \<open>What each write stores, and that it otherwise refuses.\<close>

lemma issued_row_simps [simp]:
  "ap_id (issued_row a v u n) = ap_id a" "ap_job (issued_row a v u n) = ap_job a"
  "ap_number (issued_row a v u n) = ap_number a" "ap_date (issued_row a v u n) = ap_date a"
  "ap_status (issued_row a v u n) = Status_issued"
  "ap_surcharge_applies (issued_row a v u n) = ap_surcharge_applies a"
  "ap_lines (issued_row a v u n) = map (fst \<circ> held_row v) (ap_lines a)"
  "ap_billed_before (issued_row a v u n) = Some (sm_billed_before (av_summary v))"
  "ap_surcharge_rate (issued_row a v u n) = (if ap_surcharge_applies a = Some True
     then surcharge_rate (av_summary v) else None)"
  by (simp_all add: issued_row_def)

lemma voided_row_simps [simp]:
  "ap_id (voided_row a w u n) = ap_id a" "ap_job (voided_row a w u n) = ap_job a"
  "ap_number (voided_row a w u n) = ap_number a" "ap_status (voided_row a w u n) = Status_void"
  by (simp_all add: voided_row_def)

lemma draft_row_facts:
  fixes st ctx request new_id actor d
  defines "app \<equiv> draft_row ctx request new_id actor (load_applications st (jc_job ctx)) d"
  shows "ap_status app = Status_draft" and "ap_job app = jc_job ctx"
    and "ap_number app = draft_number ctx (load_applications st (jc_job ctx))"
    and "ap_lines app = map line_row_of (draft_line_list d)"
    and "(\<exists>b \<in> set (pa_rows st). ap_job b = jc_job ctx \<and> ap_status b = Status_draft \<and> ap_id b = ap_id app
          \<and> ap_number b = ap_number app \<and> ap_voided_by app = ap_voided_by b
          \<and> ap_voided_at app = ap_voided_at b \<and> ap_void_reason app = ap_void_reason b)
       \<or> ap_id app = new_id \<and> ap_voided_by app = None
          \<and> (\<forall>b \<in> set (pa_rows st). ap_job b = jc_job ctx \<longrightarrow>
               ap_number b < ap_number app \<and> ap_status b \<noteq> Status_draft)"
proof -
  let ?apps = "load_applications st (jc_job ctx)"
  show "ap_status app = Status_draft"
    by (auto simp: app_def draft_row_def find_Some_iff split: option.splits)
  show "ap_lines app = map line_row_of (draft_line_list d)" by (simp add: app_def draft_row_def)
  have "ap_job a = jc_job ctx" if "List.find P ?apps = Some a" for a P
    using that load_applications_mem [of a st "jc_job ctx"] by (auto simp: find_Some_iff)
  then show "ap_job app = jc_job ctx" by (auto simp: app_def draft_row_def split: option.splits)
  show number: "ap_number app = draft_number ctx ?apps"
    by (auto simp: app_def draft_row_def draft_number_def split: option.splits)
  show "(\<exists>b \<in> set (pa_rows st). ap_job b = jc_job ctx \<and> ap_status b = Status_draft \<and> ap_id b = ap_id app
          \<and> ap_number b = ap_number app \<and> ap_voided_by app = ap_voided_by b
          \<and> ap_voided_at app = ap_voided_at b \<and> ap_void_reason app = ap_void_reason b)
       \<or> ap_id app = new_id \<and> ap_voided_by app = None
          \<and> (\<forall>b \<in> set (pa_rows st). ap_job b = jc_job ctx \<longrightarrow>
               ap_number b < ap_number app \<and> ap_status b \<noteq> Status_draft)"
  proof (cases "List.find (\<lambda>a. ap_status a = Status_draft) ?apps")
    case None
    have "\<forall>b \<in> set (pa_rows st). ap_job b = jc_job ctx \<longrightarrow> ap_number b < ap_number app"
      using load_applications_numbers next_number_gt unfolding number draft_number_def None by fastforce
    moreover have "\<forall>b \<in> set (pa_rows st). ap_job b = jc_job ctx \<longrightarrow> ap_status b \<noteq> Status_draft"
      using None by (force simp: find_None_iff load_applications_def)
    ultimately show ?thesis by (simp add: app_def draft_row_def None)
  next
    case (Some a)
    then have a: "a \<in> set ?apps" "ap_status a = Status_draft" by (auto simp: find_Some_iff)
    then obtain b where b: "b \<in> set (pa_rows st)" "ap_job b = jc_job ctx"
        "a = b\<lparr>ap_lines := sort_key lr_order_no (ap_lines b)\<rparr>"
      using load_applications_mem by blast
    then show ?thesis using a(2) by (auto simp: app_def draft_row_def Some intro!: bexI [of _ b])
  qed
qed

lemma draft_application_Inr:
  assumes "draft_application st ctx request new_id actor = Inr (st', app, d)"
  obtains st1 where "store st app = Inr st1" "pa_rows st' = pa_rows st1"
      "app = draft_row ctx request new_id actor (load_applications st (jc_job ctx)) d"
  using assms by (auto simp: draft_application_def Let_def split: if_splits sum.splits)

lemma draft_application_Integrity:
  assumes "draft_application st ctx request new_id actor = Inl Integrity_error"
  obtains d where "request_lines ctx request (load_applications st (jc_job ctx)) = Inr d"
      "store st (draft_row ctx request new_id actor (load_applications st (jc_job ctx)) d) = Inl Integrity_error"
  using assms by (auto simp: draft_application_def Let_def split: if_splits sum.splits)

lemma issue_application_Inr:
  assumes "issue_application st ctx i view actor now = Inr (st', app')"
    and "find_application st (jc_job ctx) i = Some app"
  obtains st1 where "ap_status app = Status_draft" "app' = issued_row app view actor now"
      "store st app' = Inr st1" "pa_rows st' = pa_rows st1"
  using assms by (auto simp: issue_application_def Let_def split: if_splits sum.splits)

lemma issue_application_Integrity:
  assumes "issue_application st ctx i view actor now = Inl Integrity_error"
  obtains app where "find_application st (jc_job ctx) i = Some app" "ap_status app = Status_draft"
      "store st (issued_row app view actor now) = Inl Integrity_error"
  using assms by (auto simp: issue_application_def Let_def split: if_splits option.splits sum.splits)

lemma void_application_cases:
  assumes "void_application st ctx i reason actor now = r" and "r = Inr (st', app') \<or> r = Inl Integrity_error"
  obtains app why where "find_application st (jc_job ctx) i = Some app" "ap_status app = Status_issued"
      "clean_reason reason = Some why"
      "r = Inl Integrity_error \<and> store st (voided_row app why actor now) = Inl Integrity_error
       \<or> r = Inr (st', app') \<and> app' = voided_row app why actor now \<and> (\<exists>st1. store st app' = Inr st1 \<and> pa_rows st' = pa_rows st1)"
proof (cases "find_application st (jc_job ctx) i")
  case (Some app)
  then obtain why where why: "clean_reason reason = Some why"
    using assms by (auto simp: void_application_def split: if_splits option.splits)
  have "ap_status app = Status_issued"
    using assms Some why by (cases "ap_status app") (auto simp: void_application_def split: if_splits)
  with that [OF Some this why] Some why assms show ?thesis
    by (auto simp: void_application_def Let_def split: if_splits sum.splits)
qed (use assms in \<open>auto simp: void_application_def split: if_splits\<close>)

lemma discard_application_Inr:
  assumes "discard_application st ctx i actor = Inr st'"
  obtains app where "find_application st (jc_job ctx) i = Some app" "ap_status app = Status_draft"
      "pa_rows st' = filter (\<lambda>a. ap_id a \<noteq> i) (pa_rows st)"
  using assms unfolding discard_application_def
  by (auto split: if_splits option.splits)

subsection \<open>The invariant\<close>

lemma pa_inv_store:
  assumes "pa_inv st" and store: "store st a = Inr st1" and "pa_rows st' = pa_rows st1"
    and order: "\<And>b. b \<in> set (pa_rows st) \<Longrightarrow> ap_job b = ap_job a \<Longrightarrow> ap_id b \<noteq> ap_id a \<Longrightarrow>
      (ap_status b = Status_draft \<longrightarrow> ap_number a < ap_number b)
      \<and> (ap_status a = Status_draft \<longrightarrow> ap_number b < ap_number a)"
  shows "pa_inv st'"
proof -
  have d: "distinct (map ap_id (pa_rows st))" using assms(1) by (simp add: pa_inv_def)
  note s = store_Inr [OF store d]
  have rows: "set (pa_rows st') = insert a {b \<in> set (pa_rows st). ap_id b \<noteq> ap_id a}"
    using s(3) assms(3) by simp
  show ?thesis
    unfolding pa_inv_def
  proof (intro conjI)
    show "distinct (map ap_id (pa_rows st'))" using s(4) assms(3) by simp
    show "\<forall>x\<in>set (pa_rows st'). \<forall>b\<in>set (pa_rows st').
        ap_job x = ap_job b \<and> ap_number x = ap_number b \<longrightarrow> x = b"
      using assms(1) s(2) unfolding rows pa_inv_def by auto
    show "\<forall>x\<in>set (pa_rows st'). \<forall>b\<in>set (pa_rows st').
        ap_job x = ap_job b \<and> ap_status x = Status_draft \<and> b \<noteq> x \<longrightarrow> ap_number b < ap_number x"
      using assms(1) order unfolding rows pa_inv_def by auto
    show "\<forall>x\<in>set (pa_rows st'). constraints_ok x"
      using assms(1) s(1) unfolding rows pa_inv_def by auto
  qed
qed

lemma pa_inv_facts:
  assumes "pa_inv st" and "a \<in> set (pa_rows st)"
  shows "constraints_ok a"
    and "b \<in> set (pa_rows st) \<Longrightarrow> ap_id b = ap_id a \<Longrightarrow> b = a"
    and "b \<in> set (pa_rows st) \<Longrightarrow> ap_job b = ap_job a \<Longrightarrow> ap_status a = Status_draft \<Longrightarrow> ap_id b \<noteq> ap_id a \<Longrightarrow>
      ap_number b < ap_number a \<and> ap_status b \<noteq> Status_draft"
proof -
  show "constraints_ok a" using assms by (simp add: pa_inv_def)
  have "distinct (map ap_id (pa_rows st))" using assms(1) by (simp add: pa_inv_def)
  then show "b \<in> set (pa_rows st) \<Longrightarrow> ap_id b = ap_id a \<Longrightarrow> b = a"
    using assms(2) by (auto simp: distinct_map dest: inj_onD)
  have lt: "\<forall>x\<in>set (pa_rows st). \<forall>y\<in>set (pa_rows st).
      ap_job x = ap_job y \<and> ap_status x = Status_draft \<and> y \<noteq> x \<longrightarrow> ap_number y < ap_number x"
    using assms(1) by (simp add: pa_inv_def)
  show "ap_number b < ap_number a \<and> ap_status b \<noteq> Status_draft"
    if "b \<in> set (pa_rows st)" "ap_job b = ap_job a" "ap_status a = Status_draft" "ap_id b \<noteq> ap_id a"
    using lt assms(2) that by (metis less_asym)
qed

lemma pa_inv_step:
  assumes "pa_inv st" and "pa_step st st'"
  shows "pa_inv st'"
  using assms(2)
proof (cases rule: pa_step.cases)
  case (drafted new_id ctx request actor app d)
  obtain st1 where d: "store st app = Inr st1" "pa_rows st' = pa_rows st1"
      "app = draft_row ctx request new_id actor (load_applications st (jc_job ctx)) d"
    by (rule draft_application_Inr [OF drafted(2)])
  note f = draft_row_facts [where st = st and ctx = ctx and request = request and new_id = new_id and actor = actor and d = d, folded d(3)]
  show ?thesis
    using f(2,5) by (intro pa_inv_store [OF assms(1) d(1,2)]) (metis pa_inv_facts(3) [OF assms(1)])
next
  case (issued ctx app_id app actor now app')
  obtain st1 where i: "ap_status app = Status_draft" "app' = issued_row app (shown_view st ctx app) actor now"
      "store st app' = Inr st1" "pa_rows st' = pa_rows st1"
    by (rule issue_application_Inr [OF issued(2,1)])
  have m: "app \<in> set (pa_rows st)" using find_application_Some [OF issued(1)] by blast
  show ?thesis
    using i(1,2) pa_inv_facts(3) [OF assms(1) m] by (intro pa_inv_store [OF assms(1) i(3,4)]) auto
next
  case (discarded ctx app_id actor)
  obtain app where "pa_rows st' = filter (\<lambda>a. ap_id a \<noteq> app_id) (pa_rows st)"
    by (rule discard_application_Inr [OF discarded])
  then show ?thesis using assms(1) by (simp add: pa_inv_def distinct_map_filter)
next
  case (voided ctx app_id reason actor now app')
  obtain app why st1 where v: "find_application st (jc_job ctx) app_id = Some app"
      "app' = voided_row app why actor now" "store st app' = Inr st1" "pa_rows st' = pa_rows st1"
    by (rule void_application_cases [OF voided]) auto
  have m: "app \<in> set (pa_rows st)" using find_application_Some [OF v(1)] by blast
  have "ap_number app < ap_number b" if "b \<in> set (pa_rows st)" "ap_job b = ap_job app"
      "ap_id b \<noteq> ap_id app" "ap_status b = Status_draft" for b
    using pa_inv_facts(3) [OF assms(1) that(1) m] that by simp
  then show ?thesis
    using v(2) by (intro pa_inv_store [OF assms(1) v(3,4)]) auto
qed

interpretation pay_app_machine: state_machine "\<lambda>st. pa_rows st = []" pa_step pa_inv
proof unfold_locales
  show "pa_inv st" if "pa_rows st = []" for st using that by (simp add: pa_inv_def)
qed (rule pa_inv_step)

text \<open>
  C15: In every state the writes can reach, whatever happens to the jobs meanwhile, the
  number of a pay application is unique in its job, a job has at most one draft, the draft
  has the highest number of the job, and every row satisfies the table's constraints.
\<close>

theorem pay_application_numbers:
  assumes "reachable_from (\<lambda>st. pa_rows st = []) pa_step st"
    and "a \<in> set (pa_rows st)" and "b \<in> set (pa_rows st)" and "ap_job a = ap_job b"
  shows "(ap_number a = ap_number b \<longrightarrow> a = b)
    \<and> (ap_status a = Status_draft \<and> a \<noteq> b \<longrightarrow> ap_status b \<noteq> Status_draft \<and> ap_number b < ap_number a)
    \<and> constraints_ok a"
proof -
  have inv: "pa_inv st" using assms(1) by (rule pay_app_machine.reachable_inv)
  have "a \<noteq> b \<Longrightarrow> ap_id b \<noteq> ap_id a" using pa_inv_facts(2) [OF inv assms(2,3)] by blast
  then show ?thesis
    using inv assms(2-4) pa_inv_facts(1,3) [OF inv assms(2)] unfolding pa_inv_def by metis
qed





section \<open>What is issued is what was shown\<close>

lemma insort_key_map:
  assumes "\<And>x. k (g x) = k x"
  shows "insort_key k (g x) (map g ys) = map g (insort_key k x ys)"
  using assms by (induction ys) auto

lemma sort_key_map:
  assumes "\<And>x. k (g x) = k x"
  shows "sort_key k (map g xs) = map g (sort_key k xs)"
  by (induction xs) (simp_all add: insort_key_map assms)

lemma filter_map_same:
  assumes "\<And>x. P (g x) = P x"
  shows "filter P (map g xs) = map g (filter P xs)"
  using assms by (simp add: filter_map comp_def)

lemma held_row_key [simp]: "lr_key (fst (held_row view r)) = lr_key r"
    "lr_order_no (fst (held_row view r)) = lr_order_no r"
  by (auto simp: held_row_def lr_key_def split: option.splits)

lemma line_view_key [simp]: "lv_key (line_view_of prev b (stored_line_of areas numbers r)) = lr_key r"
  by (simp add: line_view_of_def stored_line_of_def lv_key_def lr_key_def Let_def split: prod.splits)

text \<open>A draft's line at the percent shown reads, once issued, as it was shown.\<close>

lemma line_view_frozen:
  "line_view_of prev False (s\<lparr>sl_percent := lv_percent (line_view_of prev True s)\<rparr>) =
     (line_view_of prev True s)\<lparr>lv_issue := None\<rparr>"
  by (simp add: line_view_of_def Let_def split: prod.splits)

lemma line_view_no_issue:
  "lv_issue (line_view_of prev True s) = None \<Longrightarrow> lv_percent (line_view_of prev True s) = sl_percent s"
  by (auto simp: line_view_of_def Let_def negative_issue_cases split: option.splits if_splits)

lemma held_row_percent:
  assumes keys: "distinct (map lr_key rows)" and r: "r \<in> set rows"
    and view: "set (av_lines view) = (\<lambda>r. line_view_of prev True (stored_line_of areas numbers r)) ` set rows"
  shows "stored_line_of areas numbers (fst (held_row view r)) =
    (stored_line_of areas numbers r)\<lparr>sl_percent :=
      lv_percent (line_view_of prev True (stored_line_of areas numbers r))\<rparr>"
proof -
  let ?v = "line_view_of prev True (stored_line_of areas numbers r)"
  have "v = ?v" if "v \<in> set (av_lines view)" "lv_key v = lr_key r" for v
    using that keys r unfolding view distinct_map by (auto dest: inj_onD)
  moreover have "?v \<in> set (av_lines view)" using r unfolding view by blast
  ultimately have look: "map_of (rev (map (\<lambda>v. (lv_key v, v)) (av_lines view))) (lr_key r) = Some ?v"
  proof -
    let ?m = "rev (map (\<lambda>v. (lv_key v, v)) (av_lines view))"
    have "(lv_key ?v, ?v) \<in> (\<lambda>v. (lv_key v, v)) ` set (av_lines view)"
      using \<open>?v \<in> set (av_lines view)\<close> by (rule imageI)
    then have "(lr_key r, ?v) \<in> set ?m" by (simp only: line_view_key set_rev set_map)
    then obtain w where w: "map_of ?m (lr_key r) = Some w" by (metis weak_map_of_SomeI)
    then have "w \<in> set (av_lines view) \<and> lv_key w = lr_key r" by (auto dest!: map_of_SomeD)
    with w show ?thesis using \<open>\<And>v. v \<in> set (av_lines view) \<Longrightarrow> lv_key v = lr_key r \<Longrightarrow> v = ?v\<close> by auto
  qed
  have "lr_percent r = sl_percent (stored_line_of areas numbers r)" by (simp add: stored_line_of_def Let_def)
  then have "fst (held_row view r) = r\<lparr>lr_percent := lv_percent ?v\<rparr>"
    using line_view_no_issue [of prev "stored_line_of areas numbers r"]
    unfolding held_row_def look by auto
  then show ?thesis by (simp add: stored_line_of_def lr_key_def Let_def)
qed

lemma issued_lines_as_shown:
  assumes keys: "distinct (map lr_key rows)"
    and view: "av_lines view = line_views (stored_lines rows areas numbers) prev True"
  shows "line_views (stored_lines (map (fst \<circ> held_row view) rows) areas numbers) prev False =
    map (\<lambda>v. v\<lparr>lv_issue := None\<rparr>) (av_lines view)"
proof -
  define g where "g = (\<lambda>s. s\<lparr>sl_percent := lv_percent (line_view_of prev True s)\<rparr>)"
  have set_view: "set (av_lines view) = (\<lambda>r. line_view_of prev True (stored_line_of areas numbers r)) ` set rows"
    by (simp add: view line_views_def stored_lines_def image_image)
  have "map (stored_line_of areas numbers) (map (fst \<circ> held_row view) rows) =
      map g (map (stored_line_of areas numbers) rows)"
    using held_row_percent [OF keys _ set_view] by (simp add: g_def)
  then have "stored_lines (map (fst \<circ> held_row view) rows) areas numbers = map g (stored_lines rows areas numbers)"
    unfolding stored_lines_def by (simp only:) (intro sort_key_map, simp add: g_def)
  then show ?thesis
    unfolding view line_views_def by (simp add: g_def line_view_frozen)
qed

lemma sorted_lines_held:
  "sort_key lr_order_no (map (fst \<circ> held_row view) rows) = map (fst \<circ> held_row view) (sort_key lr_order_no rows)"
  by (intro sort_key_map) simp

text \<open>Replacing one row by its id, its job and number kept, as the reads see it.\<close>

lemma load_applications_replace:
  assumes "pa_rows st' = map (\<lambda>b. if ap_id b = i then a else b) (pa_rows st)"
    and "\<And>b. b \<in> set (pa_rows st) \<Longrightarrow> ap_id b = i \<Longrightarrow> ap_job b = ap_job a \<and> ap_number b = ap_number a"
  shows "load_applications st' job =
    map (\<lambda>b. if ap_id b = i then a\<lparr>ap_lines := sort_key lr_order_no (ap_lines a)\<rparr> else b)
      (load_applications st job)"
proof -
  define g where "g = (\<lambda>b. if b \<in> set (pa_rows st) \<and> ap_id b = i then a else b)"
  have g: "ap_job (g b) = ap_job b" "ap_number (g b) = ap_number b" for b
    using assms(2) by (auto simp: g_def)
  have "pa_rows st' = map g (pa_rows st)" unfolding assms(1) by (simp add: g_def)
  then have "sort_key ap_number (filter (\<lambda>a. ap_job a = job) (pa_rows st')) =
      map g (sort_key ap_number (filter (\<lambda>a. ap_job a = job) (pa_rows st)))"
    by (simp add: filter_map_same g sort_key_map)
  then show ?thesis unfolding load_applications_def by (simp add: g_def)
qed

lemma issued_before_replace:
  assumes "\<And>b. b \<in> set apps \<Longrightarrow> ap_id b = i \<Longrightarrow> ap_number b = n" and "ap_number a = n"
  shows "issued_before n (map (\<lambda>b. if ap_id b = i then a else b) apps) = issued_before n apps"
proof -
  define g where "g = (\<lambda>b. if b \<in> set apps \<and> ap_id b = i then a else b)"
  have g: "ap_number (g b) = ap_number b" for b using assms by (auto simp: g_def)
  have m: "map (\<lambda>b. if ap_id b = i then a else b) apps = map g apps" by (simp add: g_def)
  have "sort_key ap_number (map (\<lambda>b. if ap_id b = i then a else b) apps) = map g (sort_key ap_number apps)"
    unfolding m by (rule sort_key_map) (rule g)
  moreover have "g b = b \<or> \<not> ap_number b < n" for b using assms by (auto simp: g_def)
  then have "filter (\<lambda>a. ap_status a = Status_issued \<and> ap_number a < n) (map g xs) =
      filter (\<lambda>a. ap_status a = Status_issued \<and> ap_number a < n) xs" for xs
    using g by (induction xs) (auto, metis+)
  ultimately show ?thesis unfolding issued_before_def by simp
qed

text \<open>
  C3: Issuing freezes what the draft showed. Computed again from the stored rows after the
  issue, from the same job data, the application has the same lines (less the exceptions
  beside them) and the same summary: earned to date, billed before, amount due, surcharge
  and total to invoice, to the cent.
\<close>

theorem issue_freezes_what_was_shown:
  assumes reach: "reachable_from (\<lambda>st. pa_rows st = []) pa_step st"
    and app: "find_application st (jc_job ctx) i = Some app"
    and issue: "issue_application st ctx i (shown_view st ctx app) actor now = Inr (st', app')"
  shows "av_lines (shown_view st' ctx app') =
      map (\<lambda>v. v\<lparr>lv_issue := None\<rparr>) (av_lines (shown_view st ctx app))
    \<and> av_summary (shown_view st' ctx app') = av_summary (shown_view st ctx app)"
proof -
  have inv: "pa_inv st" using reach by (rule pay_app_machine.reachable_inv)
  have a: "app \<in> set (pa_rows st)" "ap_id app = i" "ap_job app = jc_job ctx"
    using find_application_Some [OF app] by auto
  define view where "view = shown_view st ctx app"
  obtain st1 where i: "ap_status app = Status_draft" "app' = issued_row app view actor now"
      "store st app' = Inr st1" "pa_rows st' = pa_rows st1"
    by (rule issue_application_Inr [OF issue app, folded view_def])
  let ?sorted = "\<lambda>a. a\<lparr>ap_lines := sort_key lr_order_no (ap_lines a)\<rparr>"
  note app' = issued_row_simps [of app view actor now, folded i(2), unfolded a(2)]
  have rows: "pa_rows st' = map (\<lambda>b. if ap_id b = i then app' else b) (pa_rows st)"
    using i(3,4) a app'(1) unfolding store_def by (auto split: if_splits)
  have same: "b = app" if "b \<in> set (pa_rows st)" "ap_id b = i" for b
    using pa_inv_facts(2) [OF inv a(1)] that a(2) by auto
  have load: "load_applications st' (jc_job ctx) =
      map (\<lambda>b. if ap_id b = i then ?sorted app' else b) (load_applications st (jc_job ctx))"
    by (rule load_applications_replace [OF rows]) (use same app' in auto)
  have "issued_before (ap_number app) (load_applications st' (jc_job ctx)) =
      issued_before (ap_number app) (load_applications st (jc_job ctx))"
    unfolding load
    by (rule issued_before_replace) (use same app'(3) in \<open>auto dest: load_applications_mem\<close>)
  then have prev: "previous_for (ap_number app) (load_applications st' (jc_job ctx)) bl areas =
      previous_for (ap_number app) (load_applications st (jc_job ctx)) bl areas" for bl areas
    by (simp add: previous_for_def)
  define prev where "prev = map_of (previous_for (ap_number app) (load_applications st (jc_job ctx))
    (jc_billed_lines ctx) (jc_areas ctx))"
  have lines: "av_lines view = line_views (stored_lines (sort_key lr_order_no (ap_lines app))
      (key_index (jc_areas ctx)) (jc_numbers ctx)) prev True"
    by (simp add: view_def shown_view_def application_view_of_def Let_def i(1) prev_def)
  have "distinct (map lr_key (ap_lines app))"
    using pa_inv_facts(1) [OF inv a(1)] by (simp add: constraints_ok_def)
  then have "distinct (map lr_key (sort_key lr_order_no (ap_lines app)))"
    by (simp add: distinct_map)
  from issued_lines_as_shown [OF this lines]
  have l: "av_lines (shown_view st' ctx app') = map (\<lambda>v. v\<lparr>lv_issue := None\<rparr>) (av_lines view)"
    by (simp add: shown_view_def application_view_of_def Let_def app' prev prev_def [symmetric]
        sorted_lines_held)
  have summary: "av_summary (shown_view st' ctx app') =
      make_summary (\<Sum>v \<leftarrow> av_lines (shown_view st' ctx app'). lv_earned_to_date v)
        (sm_billed_before (av_summary view)) (ap_surcharge_applies app) (ap_surcharge_rate app')"
    by (simp add: shown_view_def application_view_of_def Let_def app' opt_the_def)
  obtain before where before: "av_summary view =
      make_summary (\<Sum>v \<leftarrow> av_lines view. lv_earned_to_date v) before (ap_surcharge_applies app) (jc_rate ctx)"
    by (simp add: view_def shown_view_def application_view_of_def Let_def i(1))
  have "av_summary (shown_view st' ctx app') = av_summary view"
    unfolding summary l before app'(9)
    by (simp add: make_summary_def Let_def comp_def)
  with l show ?thesis unfolding view_def by blast
qed

section \<open>The constraints never fire\<close>

lemma clean_reason_solid: "clean_reason r = Some why \<Longrightarrow> list_ex (\<lambda>c. c \<noteq> CHR '' '') why"
  using words_solid [of 2000 "or_empty r"] by (auto simp: clean_reason_def Let_def split: if_splits)

definition percent_ok :: "previous_in \<Rightarrow> bool" where
  "percent_ok p \<longleftrightarrow> (case prev_percent p of None \<Rightarrow> True | Some q \<Rightarrow> 0 \<le> q \<and> q \<le> hundred)"

lemma update_values: "x \<in> snd ` set (AList.update k v d) \<Longrightarrow> x = v \<or> x \<in> snd ` set d"
  by (induction d) (auto split: if_splits)

lemma previous_for_ok:
  assumes "\<forall>a \<in> set apps. \<forall>r \<in> set (ap_lines a). 0 \<le> lr_percent r \<and> lr_percent r \<le> hundred"
    and "map_of (previous_for n apps bl areas) k = Some p"
  shows "percent_ok p"
proof -
  have base: "\<forall>p \<in> snd ` set (map (prefilled areas) bl). percent_ok p"
    using prefill_percent_range by (auto simp: prefilled_def Let_def percent_ok_def)
  have ups: "\<forall>p \<in> snd ` set (issued_before n apps). percent_ok p"
    using assms(1) by (auto simp: issued_before_def issued_line_def percent_ok_def)
  have "\<forall>p \<in> snd ` set (foldl (\<lambda>d (k, p). AList.update k p d) d kps). percent_ok p"
    if "\<forall>p \<in> snd ` set d. percent_ok p" "\<forall>p \<in> snd ` set kps. percent_ok p"
    for d and kps :: "(area_key \<times> previous_in) list"
    using that
  proof (induction kps arbitrary: d)
    case (Cons kp kps)
    have "\<forall>p \<in> snd ` set (AList.update (fst kp) (snd kp) d). percent_ok p"
    proof
      fix p
      assume "p \<in> snd ` set (AList.update (fst kp) (snd kp) d)"
      then have "p = snd kp \<or> p \<in> snd ` set d" by (rule update_values)
      then show "percent_ok p" using Cons.prems by (elim disjE) auto
    qed
    from Cons.IH [OF this] Cons.prems show ?case by (simp add: case_prod_unfold)
  qed simp
  from this [OF base ups] show ?thesis
    using map_of_SomeD [OF assms(2)] unfolding previous_for_def by (metis image_eqI snd_conv)
qed

lemma loaded_percents:
  assumes "pa_inv st" and "a \<in> set (load_applications st job)" and "r \<in> set (ap_lines a)"
  shows "0 \<le> lr_percent r \<and> lr_percent r \<le> hundred"
proof -
  obtain b where "b \<in> set (pa_rows st)" "a = b\<lparr>ap_lines := sort_key lr_order_no (ap_lines b)\<rparr>"
    using load_applications_mem [OF assms(2)] by blast
  then show ?thesis
    using pa_inv_facts(1) [OF assms(1)] assms(3) by (auto simp: constraints_ok_def list_all_iff)
qed

lemma held_percent:
  assumes inv: "pa_inv st" and app: "app \<in> set (pa_rows st)" and "ap_status app = Status_draft"
    and r: "r \<in> set (ap_lines app)"
  shows "0 \<le> lr_percent (fst (held_row (shown_view st ctx app) r))
    \<and> lr_percent (fst (held_row (shown_view st ctx app) r)) \<le> hundred"
proof -
  define prev where "prev = map_of (previous_for (ap_number app) (load_applications st (jc_job ctx))
    (jc_billed_lines ctx) (jc_areas ctx))"
  have own: "r \<in> set (ap_lines app) \<Longrightarrow> 0 \<le> lr_percent r \<and> lr_percent r \<le> hundred" for r
    using pa_inv_facts(1) [OF inv app] by (auto simp: constraints_ok_def list_all_iff)
  have prev: "prev k = Some p \<Longrightarrow> percent_ok p" for k p
    unfolding prev_def by (rule previous_for_ok) (use loaded_percents [OF inv] in blast)+
  have lines: "av_lines (shown_view st ctx app) = line_views (stored_lines (sort_key lr_order_no (ap_lines app))
      (key_index (jc_areas ctx)) (jc_numbers ctx)) prev True"
    by (simp add: shown_view_def application_view_of_def Let_def assms(3) prev_def)
  have "0 \<le> lv_percent v \<and> lv_percent v \<le> hundred" if v: "v \<in> set (av_lines (shown_view st ctx app))" for v
  proof -
    obtain q where q: "q \<in> set (ap_lines app)"
        "v = line_view_of prev True (stored_line_of (key_index (jc_areas ctx)) (jc_numbers ctx) q)"
      using v unfolding lines line_views_def stored_lines_def by auto
    have "lv_percent v = lr_percent q \<or> (\<exists>k p. prev k = Some p \<and> prev_percent p = Some (lv_percent v))"
      unfolding q(2) by (auto simp: line_view_of_def stored_line_of_def Let_def negative_issue_cases
          split: option.splits if_splits)
    then show ?thesis using own [OF q(1)] prev unfolding percent_ok_def by fastforce
  qed
  then show ?thesis
    using own [OF r] unfolding held_row_def
    by (auto split: option.splits dest!: map_of_SomeD)
qed

lemma store_no_integrity:
  assumes "constraints_ok a"
    and "\<And>b. b \<in> set (pa_rows st) \<Longrightarrow> ap_job b = ap_job a \<Longrightarrow> ap_number b = ap_number a \<Longrightarrow> ap_id b = ap_id a"
  shows "store st a \<noteq> Inl e"
  using assms by (auto simp: store_def list_all_iff)

lemma draft_rows_ok:
  assumes d: "draft_lines request (schedule areas day approved) areas prev = Inr d"
    and prev: "\<And>k p. prev k = Some p \<Longrightarrow> percent_ok p"
    and areas: "distinct (map area_key areas)"
    and rq: "\<forall>p \<in> set (rq_percents request). 0 \<le> pi_percent p" "\<forall>p \<in> set_option (rq_apply_all request). 0 \<le> p"
  shows "list_all (\<lambda>r. 0 \<le> lr_percent r \<and> lr_percent r \<le> hundred) (map line_row_of (draft_line_list d))
    \<and> distinct (map lr_key (map line_row_of (draft_line_list d)))"
proof -
  define by_id where "by_id = map_of (rev (map (\<lambda>a. (ar_work_area_id a, a)) areas))"
  have pos: "0 \<le> asked_percent request by_id prev a" for a
  proof -
    have "named_for by_id (rq_percents request) k = Some q \<Longrightarrow> 0 \<le> q" for k q
      using rq(1) by (auto simp: named_for_def dest!: find_mem)
    moreover have "rq_apply_all request = Some q \<Longrightarrow> 0 \<le> q" for q using rq(2) by simp
    moreover have "prev k = Some p \<Longrightarrow> prev_percent p = Some q \<Longrightarrow> 0 \<le> q" for k p q
      using prev [of k p] by (simp add: percent_ok_def)
    ultimately show ?thesis by (simp add: asked_percent_def split: option.split)
  qed
  have lines: "map line_row_of (draft_line_list d) = map (\<lambda>a. line_row_of \<lparr>dl_area = a,
      dl_percent = asked_percent request by_id prev a,
      dl_issue = snd (negative_issue a (asked_percent request by_id prev a) (prev (area_key a)))\<rparr>)
    (filter (\<lambda>a. asked_percent request by_id prev a \<le> hundred \<and> ar_price a \<noteq> 0) (schedule areas day approved))"
    unfolding draft_lines_eq [OF d] by (simp add: Let_def by_id_def)
  have "inj_on area_key (set areas) \<and> distinct areas" using areas by (simp add: distinct_map)
  then have "distinct (map area_key (filter P (schedule areas day approved)))" for P
    by (simp add: schedule_def distinct_map inj_on_def)
  then show ?thesis
    unfolding lines using pos
    by (simp add: list_all_iff comp_def line_row_of_def lr_key_def area_key_def [abs_def])
qed

lemma pa_inv_unique:
  assumes "pa_inv st" and "a \<in> set (pa_rows st)" and "b \<in> set (pa_rows st)" and "ap_job b = ap_job a"
    and "ap_number b = ap_number a"
  shows "ap_id b = ap_id a"
  using assms unfolding pa_inv_def by metis

lemma draft_stored_ok:
  assumes inv: "pa_inv st" and areas: "distinct (map area_key (jc_areas ctx))"
    and rq: "\<forall>p \<in> set (rq_percents request). 0 \<le> pi_percent p"
      "\<forall>p \<in> set_option (rq_apply_all request). 0 \<le> p"
    and d: "request_lines ctx request (load_applications st (jc_job ctx)) = Inr d"
  shows "store st (draft_row ctx request new_id actor (load_applications st (jc_job ctx)) d) \<noteq> Inl e"
proof (rule store_no_integrity)
  let ?app = "draft_row ctx request new_id actor (load_applications st (jc_job ctx)) d"
  note f = draft_row_facts [where st = st and ctx = ctx and request = request and new_id = new_id and actor = actor and d = d]
  have lines: "list_all (\<lambda>r. 0 \<le> lr_percent r \<and> lr_percent r \<le> hundred) (ap_lines ?app)
      \<and> distinct (map lr_key (ap_lines ?app))"
    unfolding f(4)
    by (rule draft_rows_ok [OF d [unfolded request_lines_def] _ areas rq])
      (rule previous_for_ok, use loaded_percents [OF inv] in blast)
  have "\<not> (ap_voided_by ?app \<noteq> None \<and> ap_voided_at ?app \<noteq> None
      \<and> (case ap_void_reason ?app of None \<Rightarrow> False | Some r \<Rightarrow> list_ex (\<lambda>c. c \<noteq> CHR '' '') r))"
    using f(5)
  proof (elim disjE bexE conjE)
    fix b
    assume b: "b \<in> set (pa_rows st)" "ap_status b = Status_draft"
      "ap_voided_by ?app = ap_voided_by b" "ap_voided_at ?app = ap_voided_at b"
      "ap_void_reason ?app = ap_void_reason b"
    show ?thesis using pa_inv_facts(1) [OF inv b(1)] b(2) unfolding constraints_ok_def b(3-5) by simp
  qed simp
  with lines f(1) show "constraints_ok ?app" by (simp add: constraints_ok_def)
  show "ap_id b = ap_id ?app" if "b \<in> set (pa_rows st)" "ap_job b = ap_job ?app" "ap_number b = ap_number ?app" for b
    using f(5)
  proof (elim disjE bexE conjE)
    fix c
    assume "c \<in> set (pa_rows st)" "ap_job c = jc_job ctx" "ap_id c = ap_id ?app" "ap_number c = ap_number ?app"
    then show ?thesis using pa_inv_unique [OF inv, of c b] that f(2) by simp
  qed (use that f(2) in auto)
qed

lemma issued_stored_ok:
  assumes inv: "pa_inv st" and f: "find_application st (jc_job ctx) i = Some app"
    and s: "ap_status app = Status_draft"
  shows "store st (issued_row app (shown_view st ctx app) actor now) \<noteq> Inl e"
proof (rule store_no_integrity)
  let ?app = "issued_row app (shown_view st ctx app) actor now"
  note a = find_application_Some [OF f]
  have c: "constraints_ok app" using pa_inv_facts(1) [OF inv] a by blast
  have "list_all (\<lambda>r. 0 \<le> lr_percent r \<and> lr_percent r \<le> hundred) (ap_lines ?app)"
    using held_percent [OF inv _ s] a by (simp add: list_all_iff)
  moreover have "map lr_key (ap_lines ?app) = map lr_key (ap_lines app)" by simp
  then have "distinct (map lr_key (ap_lines ?app))" using c by (simp only: constraints_ok_def)
  ultimately show "constraints_ok ?app"
    using c s unfolding constraints_ok_def by (simp add: issued_row_def)
  show "ap_id b = ap_id ?app" if "b \<in> set (pa_rows st)" "ap_job b = ap_job ?app" "ap_number b = ap_number ?app" for b
    using pa_inv_unique [OF inv, of app b] a that by simp
qed

lemma voided_stored_ok:
  assumes inv: "pa_inv st" and f: "find_application st (jc_job ctx) i = Some app"
    and s: "ap_status app = Status_issued" and why: "clean_reason reason = Some why"
  shows "store st (voided_row app why actor now) \<noteq> Inl e"
proof (rule store_no_integrity)
  note a = find_application_Some [OF f]
  have "constraints_ok app" using pa_inv_facts(1) [OF inv] a by blast
  then show "constraints_ok (voided_row app why actor now)"
    using s clean_reason_solid [OF why] unfolding constraints_ok_def by (simp add: voided_row_def)
  show "ap_id b = ap_id (voided_row app why actor now)"
    if "b \<in> set (pa_rows st)" "ap_job b = ap_job (voided_row app why actor now)"
      "ap_number b = ap_number (voided_row app why actor now)" for b
    using pa_inv_unique [OF inv, of app b] a that by simp
qed

text \<open>
  The constraints of the two tables never fire. From any reachable state, issuing the
  draft as shown and voiding are never refused by the database, and neither is a draft
  whose percents are not negative on a job whose work areas are distinct: numbers are free,
  percents are between 0 and 100, no work area is listed twice, and the fields a status
  requires are set.
\<close>

theorem constraints_never_fire:
  assumes reach: "reachable_from (\<lambda>st. pa_rows st = []) pa_step st"
    and areas: "distinct (map area_key (jc_areas ctx))"
    and rq: "\<forall>p \<in> set (rq_percents request). 0 \<le> pi_percent p"
      "\<forall>p \<in> set_option (rq_apply_all request). 0 \<le> p"
  shows "draft_application st ctx request new_id actor \<noteq> Inl Integrity_error
    \<and> (\<forall>app i. find_application st (jc_job ctx) i = Some app \<longrightarrow>
         issue_application st ctx i (shown_view st ctx app) actor now \<noteq> Inl Integrity_error)
    \<and> void_application st ctx i reason actor now \<noteq> Inl Integrity_error"
proof -
  have inv: "pa_inv st" using reach by (rule pay_app_machine.reachable_inv)
  have "draft_application st ctx request new_id actor \<noteq> Inl Integrity_error"
  proof
    assume "draft_application st ctx request new_id actor = Inl Integrity_error"
    then obtain d where "request_lines ctx request (load_applications st (jc_job ctx)) = Inr d"
        "store st (draft_row ctx request new_id actor (load_applications st (jc_job ctx)) d) = Inl Integrity_error"
      by (rule draft_application_Integrity)
    then show False using draft_stored_ok [OF inv areas rq] by blast
  qed
  moreover have "issue_application st ctx i (shown_view st ctx app) actor now \<noteq> Inl Integrity_error"
    if "find_application st (jc_job ctx) i = Some app" for app i
  proof
    assume "issue_application st ctx i (shown_view st ctx app) actor now = Inl Integrity_error"
    then obtain app1 where "find_application st (jc_job ctx) i = Some app1" "ap_status app1 = Status_draft"
        "store st (issued_row app1 (shown_view st ctx app) actor now) = Inl Integrity_error"
      by (rule issue_application_Integrity)
    then show False using issued_stored_ok [OF inv that] that by simp
  qed
  moreover have "void_application st ctx i reason actor now \<noteq> Inl Integrity_error"
  proof
    assume "void_application st ctx i reason actor now = Inl Integrity_error"
    then show False
      by (rule void_application_cases [where st' = st and app' = undefined])
        (simp, use voided_stored_ok [OF inv] in blast)
  qed
  ultimately show ?thesis by blast
qed

section \<open>A job, its draft and its issue\<close>

definition ex_ctx :: job_ctx where
  "ex_ctx = \<lparr>jc_job = 3, jc_revenue_method = Fixed_price, jc_areas = ex_areas, jc_billed_lines = [((''e1'', 18), 0)],
     jc_documents = [], jc_numbers = [(''e1'', ''EST1'')], jc_estimate_number = ''EST1'',
     jc_request_numbers = {''EST1''}, jc_approved_on = (\<lambda>_. None), jc_rate = None\<rparr>"

definition ex_drafted :: "pa_db \<times> app_row \<times> draft" where
  "ex_drafted = projr (draft_application \<lparr>pa_rows = [], pa_audits = []\<rparr> ex_ctx ex_request 1 7)"

definition ex_draft_app :: app_row where
  "ex_draft_app = fst (snd ex_drafted)"

definition ex_issued :: "pa_db \<times> app_row" where
  "ex_issued = projr (issue_application (fst ex_drafted) ex_ctx 1 (shown_view (fst ex_drafted) ex_ctx ex_draft_app) 8 100)"

lemma ex_draft_runs:
  "draft_application \<lparr>pa_rows = [], pa_audits = []\<rparr> ex_ctx ex_request 1 7 = Inr ex_drafted"
proof -
  have "\<not> isl (draft_application \<lparr>pa_rows = [], pa_audits = []\<rparr> ex_ctx ex_request 1 7)" by code_simp
  then show ?thesis by (simp add: ex_drafted_def)
qed

lemma ex_issue_runs:
  "issue_application (fst ex_drafted) ex_ctx 1 (shown_view (fst ex_drafted) ex_ctx ex_draft_app) 8 100 = Inr ex_issued"
proof -
  have "\<not> isl (issue_application (fst ex_drafted) ex_ctx 1 (shown_view (fst ex_drafted) ex_ctx ex_draft_app) 8 100)"
    by code_simp
  then show ?thesis by (simp add: ex_issued_def)
qed

lemma ex_find: "find_application (fst ex_drafted) (jc_job ex_ctx) 1 = Some ex_draft_app"
  by code_simp

lemma ex_drafted_reachable: "reachable_from (\<lambda>st. pa_rows st = []) pa_step (fst ex_drafted)"
proof (rule reach_step)
  show "reachable_from (\<lambda>st. pa_rows st = []) pa_step \<lparr>pa_rows = [], pa_audits = []\<rparr>"
    by (rule reach_start) simp
  show "pa_step \<lparr>pa_rows = [], pa_audits = []\<rparr> (fst ex_drafted)"
    using ex_draft_runs by (intro pa_step.drafted [of 1 _ ex_ctx ex_request 7 _ "fst (snd ex_drafted)" "snd (snd ex_drafted)"]) simp_all
qed

lemma ex_issued_step: "pa_step (fst ex_drafted) (fst ex_issued)"
  by (rule pa_step.issued [OF ex_find, of 8 100 _ "snd ex_issued"]) (simp only: ex_issue_runs prod.collapse)

theorem issue_freezes_what_was_shown_witness:
  "map lv_earned_to_date (av_lines (shown_view (fst ex_issued) ex_ctx (snd ex_issued))) = [450000]"
proof -
  have "issue_application (fst ex_drafted) ex_ctx 1 (shown_view (fst ex_drafted) ex_ctx ex_draft_app) 8 100 =
      Inr (fst ex_issued, snd ex_issued)"
    by (simp only: ex_issue_runs prod.collapse)
  from issue_freezes_what_was_shown [OF ex_drafted_reachable ex_find this]
  have "av_lines (shown_view (fst ex_issued) ex_ctx (snd ex_issued)) =
      map (\<lambda>v. v\<lparr>lv_issue := None\<rparr>) (av_lines (shown_view (fst ex_drafted) ex_ctx ex_draft_app))" by blast
  moreover have "map lv_earned_to_date (av_lines (shown_view (fst ex_drafted) ex_ctx ex_draft_app)) = [450000]"
    by code_simp
  ultimately show ?thesis by (simp add: comp_def)
qed

theorem pay_application_numbers_witness:
  "constraints_ok ex_draft_app \<and> ap_status ex_draft_app = Status_draft \<and> ap_number ex_draft_app = 1"
proof -
  have m: "ex_draft_app \<in> set (pa_rows (fst ex_drafted))" using find_application_Some [OF ex_find] by blast
  have "ap_status ex_draft_app = Status_draft \<and> ap_number ex_draft_app = 1" by code_simp
  with pay_application_numbers [OF ex_drafted_reachable m m refl] show ?thesis by blast
qed


theorem constraints_never_fire_witness:
  "draft_application (fst ex_issued) ex_ctx ex_request 2 7 \<noteq> Inl Integrity_error"
proof -
  have r: "reachable_from (\<lambda>st. pa_rows st = []) pa_step (fst ex_issued)"
    using ex_drafted_reachable ex_issued_step by (rule reach_step)
  have "distinct (map area_key (jc_areas ex_ctx))" by (simp add: ex_ctx_def ex_areas_def)
  moreover have "\<forall>p \<in> set (rq_percents ex_request). 0 \<le> pi_percent p" by (simp add: ex_request_def)
  moreover have "\<forall>p \<in> set_option (rq_apply_all ex_request). 0 \<le> p" by (simp add: ex_request_def)
  ultimately show ?thesis using constraints_never_fire [OF r] by blast
qed

end
