(* ===== verification/JobContract.thy ===== *)
theory JobContract
  imports BillingFigures Estimates
begin

text \<open>
  A job's contract figures: \<open>app/domain/jobs/contract.py\<close>. \<open>job_contract\<close> takes the attached
  estimates and gives the original contract, the approved and the unapproved change orders
  and the expected cost; \<open>approval_state\<close> says whether an approval of a change order still
  applies over the later versions of its estimate.
\<close>

section \<open>Rows\<close>

datatype estimate_role = Est_original | Est_change_order | Est_ignored

record area_in =
  ai_order_no :: int
  ai_kept :: bool
  ai_price :: cents
  ai_kind :: "string option"
  ai_approved :: bool

record attached_in =
  att_role :: estimate_role
  att_price :: cents
  att_work_areas :: "area_in list option"
  att_eac :: "cents option"

record contract =
  revised_contract :: "cents option"
  from_header_price :: bool
  unapproved_change_orders :: "cents option"
  to_confirm :: nat
  has_original :: bool
  ct_eac_in_basis :: "cents option"
  ct_eac_not_computed :: bool
  original_contract :: "cents option"
  approved_change_orders :: "cents option"
  unapproved_count :: nat

definition kept_areas :: "area_in list \<Rightarrow> area_in list" where
  "kept_areas areas = filter ai_kept areas"

text \<open>The loops add, in the code's order, what is approved, not approved, and its count.\<close>

type_synonym co_sums = "cents \<times> cents \<times> nat"

definition add_change_order :: "co_sums \<Rightarrow> area_in \<Rightarrow> co_sums" where
  "add_change_order s a = (case s of (approved, unapproved, n) \<Rightarrow>
     if ai_approved a then (approved + ai_price a, unapproved, n)
     else (approved, unapproved + ai_price a, Suc n))"

definition add_original :: "co_sums \<Rightarrow> attached_in option \<Rightarrow> co_sums" where
  "add_original s original =
     (case original of None \<Rightarrow> s
      | Some o' \<Rightarrow> (case att_work_areas o' of None \<Rightarrow> s
        | Some areas \<Rightarrow> foldl (\<lambda>s a. if ai_kind a \<noteq> Some ''change_order'' then s else add_change_order s a)
            s (kept_areas areas)))"

definition add_attached :: "co_sums \<Rightarrow> attached_in \<Rightarrow> co_sums" where
  "add_attached s co =
     (case att_work_areas co of
        None \<Rightarrow> (case s of (approved, unapproved, n) \<Rightarrow> (approved, unapproved + att_price co, Suc n))
      | Some areas \<Rightarrow> foldl add_change_order s (kept_areas areas))"

definition contract_base :: "attached_in option \<Rightarrow> cents option" where
  "contract_base original =
     (case original of None \<Rightarrow> None
      | Some o' \<Rightarrow> Some (case att_work_areas o' of None \<Rightarrow> att_price o'
        | Some areas \<Rightarrow> \<Sum>a \<leftarrow> filter (\<lambda>a. ai_kind a = Some ''original'') (kept_areas areas). ai_price a))"

definition job_contract :: "revenue_method \<Rightarrow> attached_in list \<Rightarrow> contract" where
  "job_contract meth attached =
     (let counted = filter (\<lambda>a. att_role a \<noteq> Est_ignored) attached;
          original = List.find (\<lambda>a. att_role a = Est_original) counted
      in if meth = Pool \<or> meth = Recurring_service then
           \<lparr>revised_contract = None, from_header_price = False, unapproved_change_orders = None,
            to_confirm = 0, has_original = False, ct_eac_in_basis = None, ct_eac_not_computed = False,
            original_contract = None, approved_change_orders = None, unapproved_count = 0\<rparr>
         else (let base = contract_base original;
             header = (case original of None \<Rightarrow> False | Some o' \<Rightarrow> att_work_areas o' = None);
             confirm = (case original of None \<Rightarrow> 0 | Some o' \<Rightarrow> (case att_work_areas o' of None \<Rightarrow> 0
               | Some areas \<Rightarrow> length (filter (\<lambda>a. ai_kind a = None) (kept_areas areas))));
             (approved, unapproved, n) = foldl add_attached (add_original (0, 0, 0) original)
               (filter (\<lambda>a. att_role a = Est_change_order) counted);
             not_computed = list_ex (\<lambda>a. att_eac a = None) counted;
             eac = (if counted = [] \<or> not_computed then None
               else Some (\<Sum>a \<leftarrow> counted. opt_the (att_eac a)))
         in if meth = Time_and_materials then
              \<lparr>revised_contract = None, from_header_price = False, unapproved_change_orders = None,
               to_confirm = 0, has_original = (original \<noteq> None), ct_eac_in_basis = eac,
               ct_eac_not_computed = not_computed, original_contract = None,
               approved_change_orders = None, unapproved_count = 0\<rparr>
            else
              \<lparr>revised_contract = map_option (\<lambda>b. b + approved) base, from_header_price = header,
               unapproved_change_orders = Some unapproved, to_confirm = confirm,
               has_original = (original \<noteq> None), ct_eac_in_basis = eac,
               ct_eac_not_computed = not_computed, original_contract = base,
               approved_change_orders = (case base of None \<Rightarrow> None | Some _ \<Rightarrow> Some approved),
               unapproved_count = n\<rparr>))"

section \<open>Whether an approval applies\<close>

record row_in =
  ri_order_no :: int
  ri_name :: string
  ri_kept :: bool
  ri_price :: cents
  ri_kind :: "string option"

record version_in =
  vi_version_no :: int
  vi_rows :: "row_in list"

record approval_in =
  ap_order_no :: int
  ap_name :: string
  ap_price :: cents
  ap_version_no :: int

datatype approval_end =
    Not_carried int
  | Omitted_by int
  | Renamed_by int string
  | Priced_by int cents
  | Not_confirmed

definition row_at :: "version_in \<Rightarrow> int \<Rightarrow> row_in option" where
  "row_at v n = List.find (\<lambda>r. ri_order_no r = n) (vi_rows v)"

fun chain_break :: "approval_in \<Rightarrow> version_in list \<Rightarrow> approval_end option" where
  "chain_break a [] = None"
| "chain_break a (v # vs) =
     (case row_at v (ap_order_no a) of
        None \<Rightarrow> Some (Not_carried (vi_version_no v))
      | Some r \<Rightarrow>
          if \<not> ri_kept r then Some (Omitted_by (vi_version_no v))
          else if \<not> same_name (ri_name r) (ap_name a) then Some (Renamed_by (vi_version_no v) (ri_name r))
          else if ri_price r \<noteq> ap_price a then Some (Priced_by (vi_version_no v) (ri_price r))
          else chain_break a vs)"

text \<open>\<open>approval_state\<close>: \<open>None\<close> while the approval applies, else why it ended.\<close>

definition approval_state :: "approval_in \<Rightarrow> version_in list \<Rightarrow> estimate_role \<Rightarrow> approval_end option" where
  "approval_state a later role =
     (case chain_break a later of Some e \<Rightarrow> Some e
      | None \<Rightarrow>
          if role = Est_original \<and> later \<noteq> [] \<and> vi_rows (last later) \<noteq> [] then
            (case row_at (last later) (ap_order_no a) of
               Some r \<Rightarrow> if ri_kind r \<noteq> Some ''change_order'' then Some Not_confirmed else None
             | None \<Rightarrow> None)
          else None)"

section \<open>Lemmas\<close>

definition co_price :: "bool \<Rightarrow> area_in list \<Rightarrow> cents" where
  "co_price approved areas = (\<Sum>a \<leftarrow> filter (\<lambda>a. ai_kept a \<and> ai_approved a = approved) areas. ai_price a)"

lemma fold_change_orders:
  "foldl add_change_order (x, y, n) areas =
    (x + (\<Sum>a \<leftarrow> filter ai_approved areas. ai_price a),
     y + (\<Sum>a \<leftarrow> filter (\<lambda>a. \<not> ai_approved a) areas. ai_price a),
     n + length (filter (\<lambda>a. \<not> ai_approved a) areas))"
  by (induction areas arbitrary: x y n) (auto simp: add_change_order_def)

lemma fold_change_orders_if:
  "foldl (\<lambda>s a. if \<not> P a then s else add_change_order s a) s areas = foldl add_change_order s (filter P areas)"
  by (induction areas arbitrary: s) auto

text \<open>The change-order work areas of an attached estimate: the confirmed ones of the original.\<close>

definition change_orders_of :: "attached_in \<Rightarrow> area_in list" where
  "change_orders_of att = (case att_work_areas att of None \<Rightarrow> []
     | Some areas \<Rightarrow> filter (\<lambda>a. ai_kept a \<and> (att_role att = Est_original \<longrightarrow> ai_kind a = Some ''change_order'')) areas)"

definition unloaded_price :: "attached_in \<Rightarrow> cents" where
  "unloaded_price att = (if att_role att = Est_change_order \<and> att_work_areas att = None then att_price att else 0)"

lemma add_attached_sums:
  assumes "att_role co = Est_change_order"
  shows "fst (add_attached s co) = fst s + (\<Sum>a \<leftarrow> filter ai_approved (change_orders_of co). ai_price a)"
    and "fst (snd (add_attached s co)) =
      fst (snd s) + (\<Sum>a \<leftarrow> filter (\<lambda>a. \<not> ai_approved a) (change_orders_of co). ai_price a) + unloaded_price co"
  using assms
  by (cases s; simp add: add_attached_def change_orders_of_def unloaded_price_def kept_areas_def
      fold_change_orders split: option.splits)+

lemma fold_attached_sums:
  assumes "\<forall>co \<in> set cos. att_role co = Est_change_order"
  shows "fst (foldl add_attached s cos) =
      fst s + (\<Sum>co \<leftarrow> cos. \<Sum>a \<leftarrow> filter ai_approved (change_orders_of co). ai_price a)"
    and "fst (snd (foldl add_attached s cos)) = fst (snd s)
      + (\<Sum>co \<leftarrow> cos. (\<Sum>a \<leftarrow> filter (\<lambda>a. \<not> ai_approved a) (change_orders_of co). ai_price a) + unloaded_price co)"
  using assms by (induction cos arbitrary: s) (simp_all add: add_attached_sums)

lemma add_original_sums:
  assumes "att_role o' = Est_original"
  shows "fst (add_original (0, 0, 0) (Some o')) = (\<Sum>a \<leftarrow> filter ai_approved (change_orders_of o'). ai_price a)"
    and "fst (snd (add_original (0, 0, 0) (Some o'))) =
      (\<Sum>a \<leftarrow> filter (\<lambda>a. \<not> ai_approved a) (change_orders_of o'). ai_price a)"
  using assms fold_change_orders_if [of "\<lambda>a. ai_kind a = Some ''change_order''"]
  by (simp_all add: add_original_def change_orders_of_def kept_areas_def fold_change_orders
      filter_filter conj_commute split: option.splits)

text \<open>
  The contract of a fixed-price job with an original estimate. The revised contract is
  the original contract plus the approved change orders; approved and unapproved change
  orders together are the prices of every kept change-order work area of the attached
  estimates (confirmed ones on the original) and the header prices of the change-order
  estimates not yet loaded: each counted once, on one side.
\<close>

theorem contract_adds_up:
  assumes "List.find (\<lambda>a. att_role a = Est_original) attached = Some o'"
    and "m \<notin> {Pool, Recurring_service, Time_and_materials}"
  defines "c \<equiv> job_contract m attached"
    and "cos \<equiv> o' # filter (\<lambda>a. att_role a = Est_change_order) attached"
  shows "\<exists>base approved unapproved. original_contract c = Some base
    \<and> approved_change_orders c = Some approved \<and> unapproved_change_orders c = Some unapproved
    \<and> revised_contract c = Some (base + approved)
    \<and> approved = (\<Sum>co \<leftarrow> cos. \<Sum>a \<leftarrow> filter ai_approved (change_orders_of co). ai_price a)
    \<and> approved + unapproved = (\<Sum>co \<leftarrow> cos. (\<Sum>a \<leftarrow> change_orders_of co. ai_price a) + unloaded_price co)"
proof -
  let ?counted = "filter (\<lambda>a. att_role a \<noteq> Est_ignored) attached"
  let ?cos = "filter (\<lambda>a. att_role a = Est_change_order) attached"
  have role: "att_role o' = Est_original" using find_mem [OF assms(1)] by simp
  have find: "List.find (\<lambda>a. att_role a = Est_original) ?counted = Some o'"
    using assms(1) by (induction attached) (auto split: if_splits)
  have cos: "filter (\<lambda>a. att_role a = Est_change_order) ?counted = ?cos"
    by (simp add: filter_filter) (metis estimate_role.distinct(5))
  obtain x y n where sums: "foldl add_attached (add_original (0, 0, 0) (Some o')) ?cos = (x, y, n)"
    by (cases "foldl add_attached (add_original (0, 0, 0) (Some o')) ?cos")
  have split: "(\<Sum>a \<leftarrow> as. ai_price a) =
      (\<Sum>a \<leftarrow> filter ai_approved as. ai_price a) + (\<Sum>a \<leftarrow> filter (\<lambda>a. \<not> ai_approved a) as. ai_price a)" for as
    by (rule sum_list_filter_split)
  have un: "unloaded_price o' = 0" using role by (simp add: unloaded_price_def)
  have x: "x = (\<Sum>co \<leftarrow> cos. \<Sum>a \<leftarrow> filter ai_approved (change_orders_of co). ai_price a)"
    and y: "y = (\<Sum>co \<leftarrow> cos. (\<Sum>a \<leftarrow> filter (\<lambda>a. \<not> ai_approved a) (change_orders_of co). ai_price a) + unloaded_price co)"
    using fold_attached_sums [of ?cos "add_original (0, 0, 0) (Some o')"] sums add_original_sums [OF role] un
    by (simp_all add: cos_def)
  have "(\<Sum>co \<leftarrow> cos. (\<Sum>a \<leftarrow> change_orders_of co. ai_price a) + unloaded_price co) =
      (\<Sum>co \<leftarrow> cos. (\<Sum>a \<leftarrow> filter ai_approved (change_orders_of co). ai_price a)
        + ((\<Sum>a \<leftarrow> filter (\<lambda>a. \<not> ai_approved a) (change_orders_of co). ai_price a) + unloaded_price co))"
    by (intro arg_cong [of _ _ sum_list] map_cong refl) (simp only: split [of "change_orders_of _"] add.assoc)
  then have xy: "x + y = (\<Sum>co \<leftarrow> cos. (\<Sum>a \<leftarrow> change_orders_of co. ai_price a) + unloaded_price co)"
    unfolding x y by (simp only: sum_list_addf)
  obtain b where b: "contract_base (Some o') = Some b" by (simp add: contract_base_def)
  have "original_contract c = Some b" "approved_change_orders c = Some x"
      "unapproved_change_orders c = Some y" "revised_contract c = Some (b + x)"
    using assms(2) unfolding c_def job_contract_def Let_def find cos sums b by simp_all
  with x xy show ?thesis by blast
qed

definition ex_attached :: "attached_in list" where
  "ex_attached =
     [\<lparr>att_role = Est_original, att_price = 0, att_work_areas = Some
        [\<lparr>ai_order_no = 1, ai_kept = True, ai_price = 500000, ai_kind = Some ''original'', ai_approved = False\<rparr>,
         \<lparr>ai_order_no = 2, ai_kept = True, ai_price = 20000, ai_kind = Some ''change_order'', ai_approved = True\<rparr>],
        att_eac = None\<rparr>,
      \<lparr>att_role = Est_change_order, att_price = 7000, att_work_areas = None, att_eac = None\<rparr>]"

theorem contract_adds_up_witness:
  "\<exists>base. revised_contract (job_contract Fixed_price ex_attached) = Some (base + 20000)"
proof -
  have "List.find (\<lambda>a. att_role a = Est_original) ex_attached = Some (hd ex_attached)"
    by (simp add: ex_attached_def)
  moreover have "Fixed_price \<notin> {Pool, Recurring_service, Time_and_materials}" by simp
  ultimately show ?thesis
    using contract_adds_up [of ex_attached "hd ex_attached" Fixed_price]
    by (auto simp: ex_attached_def change_orders_of_def)
qed

lemma chain_break_None:
  "chain_break a later = None \<longleftrightarrow> (\<forall>v \<in> set later. \<exists>r. row_at v (ap_order_no a) = Some r \<and> ri_kept r
     \<and> same_name (ri_name r) (ap_name a) \<and> ri_price r = ap_price a)"
  by (induction later) (auto split: option.splits)

text \<open>
  C30: Whether an approval applies: exactly when every later version carries the work area
  kept, under the same name and at the approved price, and, on the original estimate, the
  latest one is still confirmed as a change order. A break in any version ends it for good:
  no version received afterwards revives it.
\<close>

theorem approval_applies_iff:
  "(approval_state a later role = None \<longleftrightarrow>
     (\<forall>v \<in> set later. \<exists>r. row_at v (ap_order_no a) = Some r \<and> ri_kept r
        \<and> same_name (ri_name r) (ap_name a) \<and> ri_price r = ap_price a
        \<and> (role = Est_original \<and> v = last later \<longrightarrow> ri_kind r = Some ''change_order'')))
   \<and> (chain_break a later \<noteq> None \<longrightarrow> approval_state a (later @ newer) role \<noteq> None)"
proof
  have rows: "row_at v n = Some r \<Longrightarrow> vi_rows v \<noteq> []" for v n r by (auto simp: row_at_def)
  show "approval_state a later role = None \<longleftrightarrow>
     (\<forall>v \<in> set later. \<exists>r. row_at v (ap_order_no a) = Some r \<and> ri_kept r
        \<and> same_name (ri_name r) (ap_name a) \<and> ri_price r = ap_price a
        \<and> (role = Est_original \<and> v = last later \<longrightarrow> ri_kind r = Some ''change_order''))"
  proof (cases "chain_break a later")
    case None
    then have all: "\<forall>v \<in> set later. \<exists>r. row_at v (ap_order_no a) = Some r \<and> ri_kept r
        \<and> same_name (ri_name r) (ap_name a) \<and> ri_price r = ap_price a"
      by (simp add: chain_break_None)
    show ?thesis
    proof (cases "later = []")
      case False
      then obtain r where r: "row_at (last later) (ap_order_no a) = Some r"
        using all last_in_set by blast
      then show ?thesis
        using None all False rows [OF r] last_in_set [OF False]
        by (auto simp: approval_state_def) (metis option.inject)+
    qed (simp add: approval_state_def)
  next
    case (Some e)
    then have "\<not> (\<forall>v \<in> set later. \<exists>r. row_at v (ap_order_no a) = Some r \<and> ri_kept r
        \<and> same_name (ri_name r) (ap_name a) \<and> ri_price r = ap_price a)"
      using chain_break_None [of a later] by simp
    then show ?thesis using Some by (auto simp: approval_state_def)
  qed
  show "chain_break a later \<noteq> None \<longrightarrow> approval_state a (later @ newer) role \<noteq> None"
  proof
    assume "chain_break a later \<noteq> None"
    then have "chain_break a (later @ newer) \<noteq> None"
      unfolding chain_break_None by auto
    then show "approval_state a (later @ newer) role \<noteq> None" by (auto simp: approval_state_def)
  qed
qed

definition ex_version :: "int \<Rightarrow> cents \<Rightarrow> version_in" where
  "ex_version n price = \<lparr>vi_version_no = n, vi_rows = [\<lparr>ri_order_no = 2, ri_name = ''Fence'', ri_kept = True,
     ri_price = price, ri_kind = Some ''change_order''\<rparr>]\<rparr>"

theorem approval_applies_iff_witness:
  "approval_state \<lparr>ap_order_no = 2, ap_name = ''Fence'', ap_price = 20000, ap_version_no = 1\<rparr>
     ([ex_version 2 21000] @ [ex_version 3 20000]) Est_original \<noteq> None"
proof -
  have "chain_break \<lparr>ap_order_no = 2, ap_name = ''Fence'', ap_price = 20000, ap_version_no = 1\<rparr>
      [ex_version 2 21000] \<noteq> None"
    by (simp add: ex_version_def row_at_def)
  then show ?thesis using approval_applies_iff by blast
qed

end
