(* ===== verification/TaskQueue.thy ===== *)
theory TaskQueue
  imports Prelude
begin

text \<open>
  The task queue: \<open>app/worker/queue.py\<close>, the rows of \<open>app/worker/models.py\<close>, and one pass of
  the worker of \<open>app/worker/runner.py\<close>. Each operation is one short transaction on the rows
  of one tenant (row-level security); times are seconds, and what a task's function does
  to the database and how it ends is an argument of the pass.
\<close>

section \<open>Rows\<close>

datatype task_status = Queued | Running | Succeeded | Failed

record task =
  tk_id :: uuid
  tk_tenant :: uuid
  tk_kind :: string
  tk_payload :: string
  tk_status :: task_status
  tk_attempts :: nat
  tk_max_attempts :: nat
  tk_run_after :: int
  tk_locked_until :: "int option"
  tk_locked_by :: "string option"
  tk_dedupe_key :: "string option"
  tk_last_error :: "string option"
  tk_created_at :: int
  tk_finished_at :: "int option"

record queue =
  q_tasks :: "task list"
  q_now :: int

record queue_settings =
  backoff_base :: int
  backoff_cap :: int
  default_max_attempts :: nat

datatype task_error = Permanent string "string option" | Db_error string | Other_error string

definition describe_error :: "task_error \<Rightarrow> string" where
  "describe_error e = (case e of
     Permanent reason cause \<Rightarrow> (case cause of None \<Rightarrow> reason | Some c \<Rightarrow> reason @ '': '' @ c)
   | Db_error d \<Rightarrow> take 500 d
   | Other_error n \<Rightarrow> n)"

definition backoff_delay :: "queue_settings \<Rightarrow> nat \<Rightarrow> int" where
  "backoff_delay s attempt = min (backoff_base s * 2 ^ (attempt - 1)) (backoff_cap s)"

section \<open>Operations\<close>

definition is_open :: "task \<Rightarrow> bool" where
  "is_open t \<longleftrightarrow> tk_status t = Queued \<or> tk_status t = Running"

definition same_dedupe :: "uuid \<Rightarrow> string \<Rightarrow> string option \<Rightarrow> task \<Rightarrow> bool" where
  "same_dedupe tenant kind key t \<longleftrightarrow>
     is_open t \<and> key \<noteq> None \<and> tk_tenant t = tenant \<and> tk_kind t = kind \<and> tk_dedupe_key t = key"

definition enqueue ::
  "queue_settings \<Rightarrow> queue \<Rightarrow> uuid \<Rightarrow> uuid \<Rightarrow> string \<Rightarrow> string \<Rightarrow> string option \<Rightarrow> int option \<Rightarrow> nat option
    \<Rightarrow> queue \<times> task option" where
  "enqueue s q new_id tenant kind payload key run_after max_attempts =
     (let t = \<lparr>tk_id = new_id, tk_tenant = tenant, tk_kind = kind, tk_payload = payload,
          tk_status = Queued, tk_attempts = 0,
          tk_max_attempts = (case max_attempts of None \<Rightarrow> default_max_attempts s
            | Some m \<Rightarrow> if m = 0 then default_max_attempts s else m),
          tk_run_after = (case run_after of None \<Rightarrow> q_now q | Some r \<Rightarrow> r),
          tk_locked_until = None, tk_locked_by = None, tk_dedupe_key = key, tk_last_error = None,
          tk_created_at = q_now q, tk_finished_at = None\<rparr>
      in if list_ex (same_dedupe tenant kind key) (q_tasks q) then (q, None)
         else (q\<lparr>q_tasks := q_tasks q @ [t]\<rparr>, Some t))"

definition open_task :: "queue \<Rightarrow> uuid \<Rightarrow> string \<Rightarrow> string \<Rightarrow> task option" where
  "open_task q tenant kind key = List.find (same_dedupe tenant kind (Some key)) (q_tasks q)"

definition lease_expired :: "int \<Rightarrow> task \<Rightarrow> bool" where
  "lease_expired now t \<longleftrightarrow> tk_status t = Running
     \<and> (case tk_locked_until t of None \<Rightarrow> False | Some u \<Rightarrow> u < now)"

definition update_tasks :: "(task \<Rightarrow> bool) \<Rightarrow> (task \<Rightarrow> task) \<Rightarrow> queue \<Rightarrow> queue" where
  "update_tasks P f q = q\<lparr>q_tasks := map (\<lambda>t. if P t then f t else t) (q_tasks q)\<rparr>"

definition sweepable :: "uuid \<Rightarrow> int \<Rightarrow> task \<Rightarrow> bool" where
  "sweepable tenant now t \<longleftrightarrow> tk_tenant t = tenant \<and> lease_expired now t \<and> tk_attempts t \<ge> tk_max_attempts t"

definition swept :: "int \<Rightarrow> task \<Rightarrow> task" where
  "swept now t = t\<lparr>tk_status := Failed, tk_last_error := Some ''lease expired at max_attempts'',
     tk_finished_at := Some now, tk_locked_by := None, tk_locked_until := None\<rparr>"

definition sweep_expired :: "queue \<Rightarrow> uuid \<Rightarrow> queue \<times> nat" where
  "sweep_expired q tenant =
     (update_tasks (sweepable tenant (q_now q)) (swept (q_now q)) q,
      length (filter (sweepable tenant (q_now q)) (q_tasks q)))"

text \<open>A task is due when it is queued and its time has come, or its lease has expired.\<close>

definition claimable :: "uuid \<Rightarrow> int \<Rightarrow> task \<Rightarrow> bool" where
  "claimable tenant now t \<longleftrightarrow> tk_tenant t = tenant
     \<and> (tk_status t = Queued \<and> tk_run_after t \<le> now \<or> lease_expired now t)
     \<and> tk_attempts t < tk_max_attempts t"

definition claimed :: "int \<Rightarrow> string \<Rightarrow> int \<Rightarrow> task \<Rightarrow> task" where
  "claimed now worker lease t = t\<lparr>tk_status := Running, tk_attempts := tk_attempts t + 1,
     tk_locked_by := Some worker, tk_locked_until := Some (now + lease)\<rparr>"

text \<open>\<open>FOR UPDATE SKIP LOCKED\<close>: \<open>skip\<close> holds the rows other transactions have locked.\<close>

definition claim_one :: "queue \<Rightarrow> uuid set \<Rightarrow> uuid \<Rightarrow> string \<Rightarrow> int \<Rightarrow> queue \<times> task option" where
  "claim_one q skip tenant worker lease =
     (case sort_key (\<lambda>t. (tk_run_after t, tk_created_at t))
         (filter (\<lambda>t. claimable tenant (q_now q) t \<and> tk_id t \<notin> skip) (q_tasks q)) of
        [] \<Rightarrow> (q, None)
      | t # _ \<Rightarrow> (update_tasks (\<lambda>x. tk_id x = tk_id t) (claimed (q_now q) worker lease) q,
          Some (claimed (q_now q) worker lease t)))"

definition held :: "uuid \<Rightarrow> uuid \<Rightarrow> string \<Rightarrow> task \<Rightarrow> bool" where
  "held tenant task_id worker t \<longleftrightarrow> tk_tenant t = tenant \<and> tk_id t = task_id
     \<and> tk_locked_by t = Some worker \<and> tk_status t = Running"

definition completed :: "int \<Rightarrow> task \<Rightarrow> task" where
  "completed now t = t\<lparr>tk_status := Succeeded, tk_finished_at := Some now, tk_locked_by := None,
     tk_locked_until := None\<rparr>"

definition complete :: "queue \<Rightarrow> uuid \<Rightarrow> uuid \<Rightarrow> string \<Rightarrow> queue \<times> bool" where
  "complete q tenant task_id worker =
     (update_tasks (held tenant task_id worker) (completed (q_now q)) q,
      length (filter (held tenant task_id worker) (q_tasks q)) = 1)"

definition failed_row :: "queue_settings \<Rightarrow> int \<Rightarrow> string \<Rightarrow> bool \<Rightarrow> task \<Rightarrow> task" where
  "failed_row s now error permanent t =
     (let t' = (if permanent \<or> tk_attempts t \<ge> tk_max_attempts t
          then t\<lparr>tk_status := Failed, tk_finished_at := Some now\<rparr>
          else t\<lparr>tk_status := Queued, tk_run_after := now + backoff_delay s (tk_attempts t)\<rparr>)
      in t'\<lparr>tk_last_error := Some (take 500 error), tk_locked_by := None, tk_locked_until := None\<rparr>)"

definition fail_task :: "queue_settings \<Rightarrow> queue \<Rightarrow> uuid \<Rightarrow> uuid \<Rightarrow> string \<Rightarrow> string \<Rightarrow> bool \<Rightarrow> queue \<times> bool" where
  "fail_task s q tenant task_id worker error permanent =
     (if list_ex (held tenant task_id worker) (q_tasks q)
      then (update_tasks (held tenant task_id worker) (failed_row s (q_now q) error permanent) q, True)
      else (q, False))"

section \<open>One pass of a worker\<close>

text \<open>
  \<open>work t q\<close> is what the function of the claimed task \<open>t\<close> leaves behind (its own transactions
  and those of others meanwhile) and the exception it raised, if any.
\<close>

definition finish_task ::
  "queue_settings \<Rightarrow> string \<Rightarrow> uuid \<Rightarrow> task \<Rightarrow> queue \<times> task_error option \<Rightarrow> queue" where
  "finish_task s worker tenant t r =
     (case r of
        (q, None) \<Rightarrow> fst (complete q tenant (tk_id t) worker)
      | (q, Some e) \<Rightarrow> fst (fail_task s q tenant (tk_id t) worker (describe_error e)
          (case e of Permanent _ _ \<Rightarrow> True | _ \<Rightarrow> False)))"

definition run_tenant ::
  "queue_settings \<Rightarrow> string \<Rightarrow> int \<Rightarrow> (task \<Rightarrow> queue \<Rightarrow> queue \<times> task_error option) \<Rightarrow> queue \<times> nat \<Rightarrow> uuid
    \<Rightarrow> queue \<times> nat" where
  "run_tenant s worker lease work qn tenant =
     (case qn of (q, n) \<Rightarrow>
        (case claim_one (fst (sweep_expired q tenant)) {} tenant worker lease of
           (q', None) \<Rightarrow> (q', n)
         | (q', Some t) \<Rightarrow> (finish_task s worker tenant t (work t q'), Suc n)))"

definition run_once ::
  "queue_settings \<Rightarrow> string \<Rightarrow> int \<Rightarrow> (task \<Rightarrow> queue \<Rightarrow> queue \<times> task_error option) \<Rightarrow> uuid list \<Rightarrow> queue
    \<Rightarrow> queue \<times> nat" where
  "run_once s worker lease work tenants q = foldl (run_tenant s worker lease work) (q, 0) tenants"

section \<open>The machine\<close>

text \<open>Any transaction of any worker or request, on any tenant, and the passing of time.\<close>

inductive queue_step :: "queue_settings \<Rightarrow> queue \<Rightarrow> queue \<Rightarrow> bool" for s where
  enqueued: "new_id \<notin> tk_id ` set (q_tasks q) \<Longrightarrow>
    queue_step s q (fst (enqueue s q new_id tenant kind payload key run_after max_attempts))"
| swept_step: "queue_step s q (fst (sweep_expired q tenant))"
| claimed_step: "queue_step s q (fst (claim_one q skip tenant worker lease))"
| completed_step: "queue_step s q (fst (complete q tenant i worker))"
| failed_step: "queue_step s q (fst (fail_task s q tenant i worker error permanent))"
| tick: "q_now q \<le> n \<Longrightarrow> queue_step s q (q\<lparr>q_now := n\<rparr>)"

definition task_ok :: "task \<Rightarrow> bool" where
  "task_ok t \<longleftrightarrow> tk_attempts t \<le> tk_max_attempts t
     \<and> (tk_status t = Queued \<longrightarrow> tk_attempts t < tk_max_attempts t)
     \<and> (tk_status t = Running \<longrightarrow> 0 < tk_attempts t)
     \<and> (tk_status t = Running \<longleftrightarrow> tk_locked_by t \<noteq> None)
     \<and> (tk_status t = Running \<longleftrightarrow> tk_locked_until t \<noteq> None)
     \<and> (\<not> is_open t \<longleftrightarrow> tk_finished_at t \<noteq> None)"

text \<open>Two open tasks of one tenant and kind with the same deduplication key.\<close>

definition twins :: "task \<Rightarrow> task \<Rightarrow> bool" where
  "twins t u \<longleftrightarrow> is_open t \<and> is_open u \<and> tk_dedupe_key t \<noteq> None \<and> tk_dedupe_key t = tk_dedupe_key u
     \<and> tk_tenant t = tk_tenant u \<and> tk_kind t = tk_kind u"

definition tasks_inv :: "task list \<Rightarrow> bool" where
  "tasks_inv ts \<longleftrightarrow> distinct (map tk_id ts) \<and> (\<forall>t \<in> set ts. task_ok t)
     \<and> (\<forall>t \<in> set ts. \<forall>u \<in> set ts. twins t u \<longrightarrow> tk_id t = tk_id u)"

definition queue_inv :: "queue \<Rightarrow> bool" where
  "queue_inv q \<longleftrightarrow> tasks_inv (q_tasks q)"

definition identity :: "task \<Rightarrow> uuid \<times> uuid \<times> string \<times> string option" where
  "identity t = (tk_id t, tk_tenant t, tk_kind t, tk_dedupe_key t)"

text \<open>
  Every change to a row keeps its identity, never reopens a closed task and keeps it
  well formed: what the queue's invariant needs of an update.
\<close>

definition good_update :: "(task \<Rightarrow> bool) \<Rightarrow> (task \<Rightarrow> task) \<Rightarrow> bool" where
  "good_update P f \<longleftrightarrow> (\<forall>t. P t \<longrightarrow> identity (f t) = identity t \<and> is_open t
     \<and> (task_ok t \<longrightarrow> task_ok (f t)) \<and> tk_attempts t \<le> tk_attempts (f t)
     \<and> tk_max_attempts (f t) = tk_max_attempts t)"

lemma good_updates:
  "good_update (sweepable tenant now) (swept now)"
  "good_update (held tenant i w) (completed now)"
  "good_update (held tenant i w) (failed_row s now e p)"
  by (auto simp: good_update_def sweepable_def swept_def held_def completed_def failed_row_def Let_def
      identity_def is_open_def task_ok_def lease_expired_def)

lemma claim_update:
  assumes "claimable tenant now t" and "\<And>x. P x \<Longrightarrow> x = t"
  shows "good_update P (claimed now w l)"
  using assms
  by (auto simp: good_update_def claimable_def claimed_def identity_def is_open_def task_ok_def
      lease_expired_def)

lemma update_inv:
  assumes "queue_inv q" and "good_update (\<lambda>t. P t \<and> t \<in> set (q_tasks q)) f"
  shows "queue_inv (update_tasks P f q)"
proof -
  define g where "g = (\<lambda>t. if P t \<and> t \<in> set (q_tasks q) then f t else t)"
  have g: "identity (g t) = identity t" "is_open (g t) \<Longrightarrow> is_open t" "task_ok t \<Longrightarrow> task_ok (g t)" for t
    using assms(2) by (auto simp: good_update_def g_def split: if_splits)
  have i: "tk_id (g t) = tk_id t" "tk_tenant (g t) = tk_tenant t" "tk_kind (g t) = tk_kind t"
      "tk_dedupe_key (g t) = tk_dedupe_key t" for t
    using g(1) [of t] by (simp_all add: identity_def)
  have w: "twins t u" if "twins (g t) (g u)" for t u
    using that g(2) unfolding twins_def i by blast
  have m: "q_tasks (update_tasks P f q) = map g (q_tasks q)" by (simp add: update_tasks_def g_def)
  have "map tk_id (map g (q_tasks q)) = map tk_id (q_tasks q)" by (simp add: i)
  then have "distinct (map tk_id (map g (q_tasks q)))"
    using assms(1) by (simp only: queue_inv_def tasks_inv_def)
  moreover have "\<forall>t\<in>set (map g (q_tasks q)). task_ok t"
    using assms(1) g(3) by (simp add: queue_inv_def tasks_inv_def)
  moreover have "\<forall>t\<in>set (map g (q_tasks q)). \<forall>u\<in>set (map g (q_tasks q)). twins t u \<longrightarrow> tk_id t = tk_id u"
    using assms(1) w by (simp add: i queue_inv_def tasks_inv_def)
  ultimately show ?thesis unfolding queue_inv_def tasks_inv_def m by blast
qed

lemma good_update_restrict: "good_update P f \<Longrightarrow> good_update (\<lambda>t. P t \<and> t \<in> A) f"
  by (auto simp: good_update_def)

lemma claim_one_cases:
  obtains (none) "claim_one q skip tenant w l = (q, None)"
      "\<forall>t \<in> set (q_tasks q). tk_id t \<in> skip \<or> \<not> claimable tenant (q_now q) t"
  | (claim) t where "t \<in> set (q_tasks q)" "claimable tenant (q_now q) t" "tk_id t \<notin> skip"
      "\<forall>u \<in> set (q_tasks q). claimable tenant (q_now q) u \<and> tk_id u \<notin> skip \<longrightarrow>
         (tk_run_after t, tk_created_at t) \<le> (tk_run_after u, tk_created_at u)"
      "claim_one q skip tenant w l =
         (update_tasks (\<lambda>x. tk_id x = tk_id t) (claimed (q_now q) w l) q, Some (claimed (q_now q) w l t))"
proof -
  let ?k = "\<lambda>t. (tk_run_after t, tk_created_at t)"
  let ?due = "filter (\<lambda>t. claimable tenant (q_now q) t \<and> tk_id t \<notin> skip) (q_tasks q)"
  have set: "set (sort_key ?k ?due) = set ?due" by simp
  have sorted: "sorted (map ?k (sort_key ?k ?due))" by simp
  show thesis
  proof (cases "sort_key ?k ?due")
    case Nil
    then have "length (sort_key ?k ?due) = 0" by simp
    then have "?due = []" by (simp only: length_sort length_0_conv)
    then have "\<forall>t \<in> set (q_tasks q). tk_id t \<in> skip \<or> \<not> claimable tenant (q_now q) t"
      unfolding filter_empty_conv by blast
    moreover have "claim_one q skip tenant w l = (q, None)" unfolding claim_one_def Nil by simp
    ultimately show ?thesis using none by blast
  next
    case (Cons t ts)
    have "t \<in> set (sort_key ?k ?due)" unfolding Cons by (rule list.set_intros(1))
    then have t: "t \<in> set ?due" unfolding set .
    have "\<forall>u \<in> set (t # ts). ?k t \<le> ?k u" using sorted unfolding Cons by auto
    then have least: "\<forall>u \<in> set ?due. ?k t \<le> ?k u" unfolding set [unfolded Cons] .
    have "claim_one q skip tenant w l =
        (update_tasks (\<lambda>x. tk_id x = tk_id t) (claimed (q_now q) w l) q, Some (claimed (q_now q) w l t))"
      unfolding claim_one_def Cons by simp
    with t least show ?thesis by (intro claim [of t]) simp_all
  qed
qed

lemma same_id: "queue_inv q \<Longrightarrow> t \<in> set (q_tasks q) \<Longrightarrow> u \<in> set (q_tasks q) \<Longrightarrow> tk_id t = tk_id u \<Longrightarrow> t = u"
  by (auto simp: queue_inv_def tasks_inv_def distinct_map dest: inj_onD)

lemma enqueue_inv:
  assumes "queue_inv q" and "new_id \<notin> tk_id ` set (q_tasks q)" and "0 < default_max_attempts s"
  shows "queue_inv (fst (enqueue s q new_id tenant kind payload key run_after max_attempts))"
proof (cases "list_ex (same_dedupe tenant kind key) (q_tasks q)")
  case False
  then obtain t where t: "fst (enqueue s q new_id tenant kind payload key run_after max_attempts) =
      q\<lparr>q_tasks := q_tasks q @ [t]\<rparr>" "tk_id t = new_id" "tk_tenant t = tenant" "tk_kind t = kind"
      "tk_dedupe_key t = key" "task_ok t"
    using assms(3) by (auto simp: enqueue_def Let_def task_ok_def is_open_def split: option.split)
  have "\<not> twins t u \<and> \<not> twins u t" if "u \<in> set (q_tasks q)" for u
    using False that t(3-5) by (auto simp: list_ex_iff same_dedupe_def twins_def)
  then show ?thesis
    using assms(1,2) t(2,6) unfolding t(1) queue_inv_def tasks_inv_def by simp
qed (use assms(1) in \<open>simp add: enqueue_def Let_def\<close>)

lemma queue_inv_step:
  assumes "queue_inv q" and "queue_step s q q'" and "0 < default_max_attempts s"
  shows "queue_inv q'"
  using assms(2)
proof (cases rule: queue_step.cases)
  case (enqueued new_id tenant kind payload key run_after max_attempts)
  then show ?thesis using enqueue_inv assms by simp
next
  case (swept_step tenant)
  then show ?thesis
    using update_inv [OF assms(1) good_update_restrict [OF good_updates(1)]] by (simp add: sweep_expired_def)
next
  case (claimed_step skip tenant w l)
  show ?thesis
  proof (cases rule: claim_one_cases [of q skip tenant w l])
    case (claim t)
    have "x = t" if "tk_id x = tk_id t \<and> x \<in> set (q_tasks q)" for x
      using same_id [OF assms(1)] claim(1) that by blast
    then show ?thesis
      using update_inv [OF assms(1) claim_update [OF claim(2)]] unfolding claimed_step claim(5) by simp
  qed (use assms(1) claimed_step in simp)
next
  case (completed_step tenant i w)
  then show ?thesis
    using update_inv [OF assms(1) good_update_restrict [OF good_updates(2)]] by (simp add: complete_def)
next
  case (failed_step tenant i w error permanent)
  then show ?thesis
    using assms(1) update_inv [OF assms(1) good_update_restrict [OF good_updates(3)]]
    by (simp add: fail_task_def)
next
  case (tick n)
  then have "q_tasks q' = q_tasks q" by simp
  then show ?thesis using assms(1) by (simp add: queue_inv_def)
qed

interpretation task_machine: state_machine "\<lambda>q. q_tasks q = [] \<and> 0 < default_max_attempts s"
    "queue_step s" "\<lambda>q. queue_inv q \<and> 0 < default_max_attempts s" for s
proof unfold_locales
  show "queue_inv q \<and> 0 < default_max_attempts s" if "q_tasks q = [] \<and> 0 < default_max_attempts s" for q
    using that by (simp add: queue_inv_def tasks_inv_def)
  show "queue_inv q' \<and> 0 < default_max_attempts s"
    if "queue_inv q \<and> 0 < default_max_attempts s" "queue_step s q q'" for q q'
    using that queue_inv_step by blast
qed

section \<open>Properties\<close>

text \<open>
  C18: In every state the queue can reach, under any interleaving of workers, requests and
  time: no task is attempted more often than its limit; a task is locked exactly while it
  runs and has a finishing time exactly when it is closed; and two open tasks of one tenant
  and kind never share a deduplication key.
\<close>

theorem queue_safe:
  assumes "reachable_from (\<lambda>q. q_tasks q = [] \<and> 0 < default_max_attempts s) (queue_step s) q"
    and "t \<in> set (q_tasks q)" and "u \<in> set (q_tasks q)"
  shows "tk_attempts t \<le> tk_max_attempts t
    \<and> (tk_status t = Running \<longleftrightarrow> tk_locked_by t \<noteq> None) \<and> (tk_status t = Running \<longleftrightarrow> tk_locked_until t \<noteq> None)
    \<and> (is_open t \<longleftrightarrow> tk_finished_at t = None)
    \<and> (is_open t \<and> is_open u \<and> tk_dedupe_key t \<noteq> None \<and> tk_dedupe_key t = tk_dedupe_key u
        \<and> tk_tenant t = tk_tenant u \<and> tk_kind t = tk_kind u \<longrightarrow> t = u)"
proof -
  have inv: "queue_inv q" using task_machine.reachable_inv [OF assms(1)] by simp
  then have "task_ok t" using assms(2) by (simp add: queue_inv_def tasks_inv_def)
  moreover have "is_open t \<and> is_open u \<and> tk_dedupe_key t \<noteq> None \<and> tk_dedupe_key t = tk_dedupe_key u
        \<and> tk_tenant t = tk_tenant u \<and> tk_kind t = tk_kind u \<Longrightarrow> t = u"
    using inv assms(2,3) same_id [OF inv assms(2,3)] unfolding queue_inv_def tasks_inv_def twins_def by blast
  ultimately show ?thesis unfolding task_ok_def by blast
qed

text \<open>What a step may do to a row: keep it, or change an open row and count upwards.\<close>

definition row_after :: "task \<Rightarrow> task \<Rightarrow> bool" where
  "row_after t t' \<longleftrightarrow> identity t' = identity t \<and> tk_attempts t \<le> tk_attempts t'
     \<and> tk_max_attempts t' = tk_max_attempts t \<and> (is_open t \<or> t' = t)"

lemma update_row_after:
  "good_update (\<lambda>t. P t \<and> t \<in> set (q_tasks q)) f \<Longrightarrow> t \<in> set (q_tasks q) \<Longrightarrow>
    \<exists>t' \<in> set (q_tasks (update_tasks P f q)). row_after t t'"
  by (intro bexI [of _ "if P t then f t else t"])
    (auto simp: update_tasks_def good_update_def row_after_def)

lemma step_row_after:
  assumes inv: "queue_inv q" and step: "queue_step s q q'" and t: "t \<in> set (q_tasks q)"
  shows "\<exists>t' \<in> set (q_tasks q'). row_after t t'"
  using step
proof (cases rule: queue_step.cases)
  case (enqueued new_id tenant kind payload key run_after max_attempts)
  then show ?thesis using t by (auto simp: enqueue_def Let_def row_after_def)
next
  case (swept_step tenant)
  then show ?thesis
    using update_row_after [OF good_update_restrict [OF good_updates(1)] t] by (simp add: sweep_expired_def)
next
  case (claimed_step skip tenant w l)
  show ?thesis
  proof (cases rule: claim_one_cases [of q skip tenant w l])
    case (claim c)
    have "x = c" if "tk_id x = tk_id c \<and> x \<in> set (q_tasks q)" for x
      using same_id [OF inv] claim(1) that by blast
    from update_row_after [OF claim_update [OF claim(2) this] t] show ?thesis
      unfolding claimed_step claim(5) by simp
  qed (use t claimed_step in \<open>auto simp: row_after_def\<close>)
next
  case (completed_step tenant i w)
  then show ?thesis
    using update_row_after [OF good_update_restrict [OF good_updates(2)] t] by (simp add: complete_def)
next
  case (failed_step tenant i w error permanent)
  then show ?thesis
    using t update_row_after [OF good_update_restrict [OF good_updates(3)] t]
    by (auto simp: fail_task_def row_after_def)
next
  case (tick n)
  then show ?thesis using t by (auto simp: row_after_def)
qed

text \<open>
  A closed task is closed for ever: once succeeded or failed, its row never changes
  again, whatever is enqueued, claimed, completed, failed or swept afterwards; and the
  attempts of an open task only ever grow.
\<close>

theorem closed_task_final:
  assumes "reachable_from (\<lambda>q. q_tasks q = [] \<and> 0 < default_max_attempts s) (queue_step s) q"
    and "(queue_step s)\<^sup>*\<^sup>* q q'" and "t \<in> set (q_tasks q)"
  shows "\<exists>t' \<in> set (q_tasks q'). identity t' = identity t \<and> tk_attempts t \<le> tk_attempts t'
    \<and> (is_open t \<or> t' = t)"
proof -
  note inv = task_machine.reachable_inv [OF assms(1)]
  have "\<exists>t' \<in> set (q_tasks q'). row_after t t'" using assms(2)
  proof (induction rule: rtranclp_induct)
    case base
    then show ?case using assms(3) by (auto simp: row_after_def)
  next
    case (step y z)
    have invy: "queue_inv y" using task_machine.steps_inv [OF inv step(1)] by simp
    obtain b where b: "b \<in> set (q_tasks y)" "row_after t b" using step.IH by blast
    obtain c where "c \<in> set (q_tasks z)" "row_after b c" using step_row_after [OF invy step(2) b(1)] by blast
    then show ?case using b(2) unfolding row_after_def by (metis order_trans)
  qed
  then show ?thesis unfolding row_after_def by blast
qed

lemma claimed_simps [simp]:
  "tk_id (claimed n w l t) = tk_id t" "tk_tenant (claimed n w l t) = tk_tenant t"
  "tk_status (claimed n w l t) = Running" "tk_locked_by (claimed n w l t) = Some w"
  by (simp_all add: claimed_def)

lemma update_one_set:
  assumes "queue_inv q" and "t \<in> set (q_tasks q)"
  shows "set (q_tasks (update_tasks (\<lambda>x. tk_id x = tk_id t) f q)) = insert (f t) (set (q_tasks q) - {t})"
proof -
  have "(tk_id x = tk_id t) = (x = t)" if "x \<in> set (q_tasks q)" for x
    using same_id [OF assms(1) that assms(2)] by blast
  then have "q_tasks (update_tasks (\<lambda>x. tk_id x = tk_id t) f q) =
      map (\<lambda>x. if x = t then f t else x) (q_tasks q)"
    unfolding update_tasks_def by simp
  then show ?thesis using assms(2) by auto
qed

text \<open>
  A claim takes one task that is due for this tenant and not locked by another
  transaction, the earliest by due time and creation, marks it running under this worker's
  lease with one more attempt, and leaves every other row alone; there is no claim exactly
  when no such task exists, and then nothing changes.
\<close>

theorem claim_takes_earliest_due:
  assumes "reachable_from (\<lambda>q. q_tasks q = [] \<and> 0 < default_max_attempts s) (queue_step s) q"
  shows "case claim_one q skip tenant w l of
      (q', None) \<Rightarrow> q' = q \<and> (\<forall>t \<in> set (q_tasks q). tk_id t \<in> skip \<or> \<not> claimable tenant (q_now q) t)
    | (q', Some t') \<Rightarrow> \<exists>t \<in> set (q_tasks q). claimable tenant (q_now q) t \<and> tk_id t \<notin> skip
        \<and> (\<forall>u \<in> set (q_tasks q). claimable tenant (q_now q) u \<and> tk_id u \<notin> skip \<longrightarrow>
             (tk_run_after t, tk_created_at t) \<le> (tk_run_after u, tk_created_at u))
        \<and> t' = t\<lparr>tk_status := Running, tk_attempts := tk_attempts t + 1, tk_locked_by := Some w,
             tk_locked_until := Some (q_now q + l)\<rparr>
        \<and> set (q_tasks q') = insert t' (set (q_tasks q) - {t})"
proof (cases rule: claim_one_cases [of q skip tenant w l])
  case (claim t)
  have inv: "queue_inv q" using task_machine.reachable_inv [OF assms] by simp
  have rows: "set (q_tasks (update_tasks (\<lambda>x. tk_id x = tk_id t) (claimed (q_now q) w l) q)) =
      insert (claimed (q_now q) w l t) (set (q_tasks q) - {t})"
    by (rule update_one_set [OF inv claim(1)])
  show ?thesis
    unfolding claim(5) prod.case option.case
    by (intro bexI [OF _ claim(1)] conjI claim(2-4) rows claimed_def)
qed simp

lemma update_none: "\<forall>t \<in> set (q_tasks q). \<not> P t \<Longrightarrow> update_tasks P f q = q"
  by (simp add: update_tasks_def map_idI)

text \<open>
  C5: A lost lease writes nothing. Once a task has been claimed by one worker, another
  worker that still runs an earlier attempt of it can neither complete nor fail it: both
  report that the lease is lost and leave the queue unchanged; the worker that holds the
  lease completes it.
\<close>

theorem lost_lease_writes_nothing:
  assumes "reachable_from (\<lambda>q. q_tasks q = [] \<and> 0 < default_max_attempts s) (queue_step s) q"
    and "claim_one q skip tenant w l = (q', Some t)" and "v \<noteq> w"
  shows "complete q' tenant (tk_id t) v = (q', False)
    \<and> fail_task s q' tenant (tk_id t) v error permanent = (q', False)
    \<and> snd (complete q' tenant (tk_id t) w) \<and> snd (fail_task s q' tenant (tk_id t) w error permanent)"
proof -
  have inv: "queue_inv q" using task_machine.reachable_inv [OF assms(1)] by simp
  show ?thesis
  proof (cases rule: claim_one_cases [of q skip tenant w l])
    case (claim c)
    let ?u = "\<lambda>x. if tk_id x = tk_id c then claimed (q_now q) w l x else x"
    have t: "t = claimed (q_now q) w l c" "q_tasks q' = map ?u (q_tasks q)"
      using claim(5) assms(2) by (auto simp: update_tasks_def)
    have id: "tk_id t = tk_id c" by (simp add: t(1))
    have "\<not> held tenant (tk_id t) v x" if "x \<in> set (q_tasks q')" for x
      using that assms(3) unfolding t(2) id by (auto simp: held_def)
    then have v: "filter (held tenant (tk_id t) v) (q_tasks q') = []"
        "update_tasks (held tenant (tk_id t) v) f q' = q'"
        "\<not> list_ex (held tenant (tk_id t) v) (q_tasks q')" for f
      by (auto simp: filter_empty_conv update_none list_ex_iff)
    have "distinct (q_tasks q)" using inv by (simp add: queue_inv_def tasks_inv_def distinct_map)
    have "tk_tenant c = tenant" using claim(2) by (simp add: claimable_def)
    then have w: "held tenant (tk_id t) w (?u x) \<longleftrightarrow> x = c" if "x \<in> set (q_tasks q)" for x
      using that same_id [OF inv that claim(1)] by (auto simp: held_def id)
    then have "filter (\<lambda>x. held tenant (tk_id t) w (?u x)) (q_tasks q) = filter (\<lambda>x. x = c) (q_tasks q)"
      by (intro filter_cong refl) auto
    also have "length \<dots> = 1"
      using \<open>distinct (q_tasks q)\<close> claim(1) by (simp add: distinct_length_filter Int_absorb2 Collect_conv_if)
    finally have "length (filter (held tenant (tk_id t) w) (q_tasks q')) = 1"
      unfolding t(2) by (simp add: filter_map comp_def)
    moreover then have "list_ex (held tenant (tk_id t) w) (q_tasks q')"
      by (metis (no_types, lifting) One_nat_def filter_empty_conv length_0_conv list_ex_iff zero_neq_one)
    ultimately show ?thesis using v by (simp add: complete_def fail_task_def)
  qed (use assms(2) in simp)
qed


text \<open>
  A pass of a worker is made of the machine's steps: if the functions of the tasks
  and everything that happens while they run are steps, so is the whole pass over the
  tenants, and it runs at most one task per tenant. What holds of every reachable queue
  therefore holds after every pass.
\<close>

theorem worker_pass_is_steps:
  assumes "\<And>t q. (queue_step s)\<^sup>*\<^sup>* q (fst (work t q))"
  shows "(queue_step s)\<^sup>*\<^sup>* q (fst (run_once s worker lease work tenants q))
    \<and> snd (run_once s worker lease work tenants q) \<le> length tenants"
proof -
  have one: "(queue_step s)\<^sup>*\<^sup>* q (fst (run_tenant s worker lease work (q, k) tenant))
      \<and> snd (run_tenant s worker lease work (q, k) tenant) \<le> Suc k" for q k tenant
  proof -
    obtain q1 c where c: "claim_one (fst (sweep_expired q tenant)) {} tenant worker lease = (q1, c)"
      by (cases "claim_one (fst (sweep_expired q tenant)) {} tenant worker lease")
    have "queue_step s (fst (sweep_expired q tenant)) q1"
      using queue_step.claimed_step [of s "fst (sweep_expired q tenant)" "{}" tenant worker lease] c by simp
    then have q1: "(queue_step s)\<^sup>*\<^sup>* q q1"
      using queue_step.swept_step by (meson converse_rtranclp_into_rtranclp r_into_rtranclp)
    show ?thesis
    proof (cases c)
      case None
      then show ?thesis using q1 c by (simp add: run_tenant_def)
    next
      case (Some t)
      have "queue_step s (fst (work t q1)) (finish_task s worker tenant t (work t q1))"
        by (cases "work t q1"; cases "snd (work t q1)")
          (auto simp: finish_task_def intro: queue_step.intros)
      then have "(queue_step s)\<^sup>*\<^sup>* q (finish_task s worker tenant t (work t q1))"
        using q1 assms [of q1 t] by (meson rtranclp.rtrancl_into_rtrancl rtranclp_trans)
      then show ?thesis using c Some by (simp add: run_tenant_def)
    qed
  qed
  have "(queue_step s)\<^sup>*\<^sup>* q (fst (foldl (run_tenant s worker lease work) (q, k) tenants))
      \<and> snd (foldl (run_tenant s worker lease work) (q, k) tenants) \<le> k + length tenants" for q k
  proof (induction tenants arbitrary: q k)
    case (Cons tenant tenants)
    obtain q1 k1 where r: "run_tenant s worker lease work (q, k) tenant = (q1, k1)"
      by (cases "run_tenant s worker lease work (q, k) tenant")
    have "(queue_step s)\<^sup>*\<^sup>* q q1" "k1 \<le> Suc k" using one [of q k tenant] unfolding r by simp_all
    with Cons [of q1 k1] show ?case by (simp add: r) (meson le_trans rtranclp_trans add_le_mono1 add_Suc)
  qed simp
  from this [of q 0] show ?thesis by (simp add: run_once_def)
qed

section \<open>A queue with one task\<close>

definition ex_settings :: queue_settings where
  "ex_settings = \<lparr>backoff_base = 30, backoff_cap = 3600, default_max_attempts = 5\<rparr>"

definition ex_queue :: queue where
  "ex_queue = fst (enqueue ex_settings \<lparr>q_tasks = [], q_now = 0\<rparr> 11 1 ''cost.run'' ''{}'' (Some ''cost'') None None)"

definition ex_task :: task where
  "ex_task = hd (q_tasks ex_queue)"

definition ex_claimed :: "queue \<times> task option" where
  "ex_claimed = claim_one ex_queue {} 1 ''host:1'' 60"

lemma ex_queue_reachable:
  "reachable_from (\<lambda>q. q_tasks q = [] \<and> 0 < default_max_attempts ex_settings) (queue_step ex_settings) ex_queue"
proof (rule reach_step)
  show "reachable_from (\<lambda>q. q_tasks q = [] \<and> 0 < default_max_attempts ex_settings) (queue_step ex_settings)
      \<lparr>q_tasks = [], q_now = 0\<rparr>"
    by (rule reach_start) (simp add: ex_settings_def)
  show "queue_step ex_settings \<lparr>q_tasks = [], q_now = 0\<rparr> ex_queue"
    unfolding ex_queue_def by (rule queue_step.enqueued) simp
qed

lemma ex_claimed_reachable:
  "reachable_from (\<lambda>q. q_tasks q = [] \<and> 0 < default_max_attempts ex_settings) (queue_step ex_settings)
     (fst ex_claimed)"
  using ex_queue_reachable unfolding ex_claimed_def by (rule reach_step) (rule queue_step.claimed_step)

lemma ex_task_facts: "q_tasks ex_queue = [ex_task]" "is_open ex_task" "tk_id ex_task = 11"
  by code_simp+

theorem queue_safe_witness: "tk_attempts ex_task \<le> 5 \<and> tk_locked_by ex_task = None"
proof -
  have m: "ex_task \<in> set (q_tasks ex_queue)" by (simp add: ex_task_facts)
  have "tk_max_attempts ex_task = 5 \<and> tk_status ex_task = Queued" by code_simp
  then show ?thesis using queue_safe [OF ex_queue_reachable m m] by auto
qed

theorem closed_task_final_witness:
  "\<exists>t' \<in> set (q_tasks (fst (complete (fst ex_claimed) 1 11 ''host:2''))). tk_id t' = 11"
proof -
  have m: "ex_task \<in> set (q_tasks ex_queue)" by (simp add: ex_task_facts)
  have "queue_step ex_settings ex_queue (fst ex_claimed)"
    unfolding ex_claimed_def by (rule queue_step.claimed_step)
  moreover have "queue_step ex_settings (fst ex_claimed) (fst (complete (fst ex_claimed) 1 11 ''host:2''))"
    by (rule queue_step.completed_step)
  ultimately have "(queue_step ex_settings)\<^sup>*\<^sup>* ex_queue (fst (complete (fst ex_claimed) 1 11 ''host:2''))"
    by (meson converse_rtranclp_into_rtranclp r_into_rtranclp)
  from closed_task_final [OF ex_queue_reachable this m] show ?thesis
    by (auto simp: identity_def ex_task_facts)
qed

theorem claim_takes_earliest_due_witness:
  "snd ex_claimed = Some (ex_task\<lparr>tk_status := Running, tk_attempts := tk_attempts ex_task + 1,
     tk_locked_by := Some ''host:1'', tk_locked_until := Some 60\<rparr>)"
proof -
  have "snd ex_claimed \<noteq> None" and now: "q_now ex_queue = 0" by code_simp+
  then obtain q' t' where "claim_one ex_queue {} 1 ''host:1'' 60 = (q', Some t')"
    unfolding ex_claimed_def by (cases "claim_one ex_queue {} 1 ''host:1'' 60") auto
  then show ?thesis
    using claim_takes_earliest_due [OF ex_queue_reachable, where skip = "{}" and tenant = 1
        and w = "''host:1''" and l = 60]
    by (simp add: ex_claimed_def ex_task_facts now)
qed

theorem lost_lease_writes_nothing_witness:
  "complete (fst ex_claimed) 1 11 ''host:2'' = (fst ex_claimed, False)"
proof -
  obtain t where "snd ex_claimed = Some t" "tk_id t = 11"
  proof -
    have "map_option tk_id (snd ex_claimed) = Some 11" by code_simp
    then show thesis using that by auto
  qed
  then have c: "claim_one ex_queue {} 1 ''host:1'' 60 = (fst ex_claimed, Some t)" and "tk_id t = 11"
    by (metis ex_claimed_def prod.collapse)+
  have "''host:2'' \<noteq> ''host:1''" by simp
  from lost_lease_writes_nothing [OF ex_queue_reachable c this] show ?thesis
    unfolding \<open>tk_id t = 11\<close> by blast
qed


theorem worker_pass_is_steps_witness:
  "(queue_step ex_settings)\<^sup>*\<^sup>* ex_queue
     (fst (run_once ex_settings ''host:1'' 60 (\<lambda>t q. (q, Some (Other_error ''ValueError''))) [1, 2] ex_queue))"
proof -
  have "(queue_step ex_settings)\<^sup>*\<^sup>* q (fst (q, Some (Other_error ''ValueError'')))" for q by simp
  from worker_pass_is_steps [of ex_settings "\<lambda>t q. (q, Some (Other_error ''ValueError''))", OF this]
  show ?thesis by blast
qed

end
