(* ===== verification/QueueDrain.thy ===== *)
theory QueueDrain
  imports TaskQueue
begin

text \<open>
  The queue runs dry: without new tasks only finitely many transactions can still change a row,
  whatever the workers do and however often they fail. The measure of a task is what it still can
  do: every attempt left is one claim and one end of it.
\<close>

definition work_left :: "task \<Rightarrow> nat" where
  "work_left t = (case tk_status t of
     Queued \<Rightarrow> 2 * (tk_max_attempts t - tk_attempts t)
   | Running \<Rightarrow> 2 * (tk_max_attempts t - tk_attempts t) + 1
   | _ \<Rightarrow> 0)"

definition queue_work :: "queue \<Rightarrow> nat" where
  "queue_work q = sum_list (map work_left (q_tasks q))"

text \<open>An update that leaves less to do on every row it changes.\<close>

definition lessens :: "(task \<Rightarrow> bool) \<Rightarrow> (task \<Rightarrow> task) \<Rightarrow> queue \<Rightarrow> bool" where
  "lessens P f q \<longleftrightarrow> (\<forall>t \<in> set (q_tasks q). P t \<longrightarrow> work_left (f t) < work_left t)"

lemma lessens_update:
  assumes "lessens P f q"
  shows "queue_work (update_tasks P f q) \<le> queue_work q
    \<and> (q_tasks (update_tasks P f q) \<noteq> q_tasks q \<longrightarrow> queue_work (update_tasks P f q) < queue_work q)"
proof -
  let ?g = "\<lambda>t. if P t then f t else t"
  have "sum_list (map (work_left \<circ> ?g) ts) \<le> sum_list (map work_left ts)
      \<and> (map ?g ts \<noteq> ts \<longrightarrow> sum_list (map (work_left \<circ> ?g) ts) < sum_list (map work_left ts))"
    if "\<forall>t \<in> set ts. P t \<longrightarrow> work_left (f t) < work_left t" for ts
    using that by (induction ts) (auto intro: add_less_le_mono add_le_less_mono)
  from this [OF assms [unfolded lessens_def]] show ?thesis by (simp add: queue_work_def update_tasks_def)
qed

lemma lessens_all:
  "lessens (sweepable tenant now) (swept now) q"
  "lessens (held tenant i w) (completed now) q"
  "lessens (held tenant i w) (failed_row s now e p) q"
  by (auto simp: lessens_def work_left_def sweepable_def lease_expired_def swept_def held_def completed_def
      failed_row_def Let_def)

lemma claim_lessens:
  "claimable tenant now t \<Longrightarrow> work_left (claimed now w l t) < work_left t"
  by (auto simp: work_left_def claimable_def lease_expired_def claimed_def)

lemma step_work:
  assumes inv: "queue_inv q" and step: "queue_step s q q'" and same: "length (q_tasks q') = length (q_tasks q)"
  shows "queue_work q' \<le> queue_work q \<and> (q_tasks q' \<noteq> q_tasks q \<longrightarrow> queue_work q' < queue_work q)"
  using step
proof (cases rule: queue_step.cases)
  case (enqueued new_id tenant kind payload key run_after max_attempts)
  then have "q_tasks q' = q_tasks q" using same by (auto simp: enqueue_def Let_def split: if_splits)
  then show ?thesis by (simp add: queue_work_def)
next
  case (swept_step tenant)
  then show ?thesis using lessens_update [OF lessens_all(1)] by (simp add: sweep_expired_def)
next
  case (claimed_step skip tenant w l)
  show ?thesis
  proof (cases rule: claim_one_cases [of q skip tenant w l])
    case (claim t)
    have "lessens (\<lambda>x. tk_id x = tk_id t) (claimed (q_now q) w l) q"
      using same_id [OF inv _ claim(1)] claim_lessens [OF claim(2)] by (auto simp: lessens_def)
    from lessens_update [OF this] show ?thesis using claimed_step claim(5) by simp
  qed (use claimed_step in simp)
next
  case (completed_step tenant i w)
  then show ?thesis using lessens_update [OF lessens_all(2)] by (simp add: complete_def)
next
  case (failed_step tenant i w error permanent)
  then show ?thesis using lessens_update [OF lessens_all(3)] by (simp add: fail_task_def)
next
  case (tick n)
  then show ?thesis by (simp add: queue_work_def)
qed

text \<open>
  C17: the queue runs dry. In any sequence of transactions in which no task is added, however the
  workers interleave, fail, lose their leases or are swept, the number of transactions that change
  a row is at most twice the attempts the open tasks have left, and one more per running task; so
  retries end.
\<close>

theorem queue_drains:
  assumes "reachable_from (\<lambda>q. q_tasks q = [] \<and> 0 < default_max_attempts s) (queue_step s) (f 0)"
    and "\<And>i. i < n \<Longrightarrow> queue_step s (f i) (f (Suc i)) \<and> length (q_tasks (f (Suc i))) = length (q_tasks (f i))"
  shows "card {i. i < n \<and> q_tasks (f (Suc i)) \<noteq> q_tasks (f i)} + queue_work (f n) \<le> queue_work (f 0)"
proof -
  have "queue_inv (f n) \<and> card {i. i < n \<and> q_tasks (f (Suc i)) \<noteq> q_tasks (f i)} + queue_work (f n) \<le> queue_work (f 0)"
    using assms(2)
  proof (induction n)
    case 0
    then show ?case using task_machine.reachable_inv [OF assms(1)] by simp
  next
    case (Suc n)
    let ?A = "\<lambda>n. {i. i < n \<and> q_tasks (f (Suc i)) \<noteq> q_tasks (f i)}"
    have IH: "queue_inv (f n)" "card (?A n) + queue_work (f n) \<le> queue_work (f 0)" using Suc by simp_all
    have s: "queue_step s (f n) (f (Suc n))" "length (q_tasks (f (Suc n))) = length (q_tasks (f n))"
      using Suc.prems by simp_all
    have "0 < default_max_attempts s" using task_machine.reachable_inv [OF assms(1)] by simp
    then have inv: "queue_inv (f (Suc n))" using queue_inv_step [OF IH(1) s(1)] by simp
    have "?A (Suc n) = (if q_tasks (f (Suc n)) \<noteq> q_tasks (f n) then insert n (?A n) else ?A n)"
      by (auto simp: less_Suc_eq)
    then have "card (?A (Suc n)) = card (?A n) + (if q_tasks (f (Suc n)) \<noteq> q_tasks (f n) then 1 else 0)"
      by simp
    then show ?case using step_work [OF IH(1) s] IH(2) inv by (auto split: if_splits)
  qed
  then show ?thesis by simp
qed

theorem queue_drains_witness:
  "card {i. i < 1 \<and> q_tasks ((\<lambda>i. if i = 0 then ex_queue else fst ex_claimed) (Suc i))
     \<noteq> q_tasks ((\<lambda>i. if i = 0 then ex_queue else fst ex_claimed) i)} \<le> 10"
proof -
  let ?f = "\<lambda>i::nat. if i = 0 then ex_queue else fst ex_claimed"
  have start: "reachable_from (\<lambda>q. q_tasks q = [] \<and> 0 < default_max_attempts ex_settings) (queue_step ex_settings) (?f 0)"
    using ex_queue_reachable by simp
  have "queue_step ex_settings ex_queue (fst ex_claimed)"
    unfolding ex_claimed_def by (rule queue_step.claimed_step)
  moreover have "length (q_tasks (fst ex_claimed)) = length (q_tasks ex_queue)" by code_simp
  ultimately have steps: "\<And>i. i < 1 \<Longrightarrow> queue_step ex_settings (?f i) (?f (Suc i))
      \<and> length (q_tasks (?f (Suc i))) = length (q_tasks (?f i))" by simp
  have "card {i. i < 1 \<and> q_tasks (?f (Suc i)) \<noteq> q_tasks (?f i)} + queue_work (?f 1) \<le> queue_work (?f 0)"
    by (rule queue_drains [OF start steps])
  then have "card {i. i < 1 \<and> q_tasks (?f (Suc i)) \<noteq> q_tasks (?f i)} \<le> queue_work (?f 0)" by (rule add_leD1)
  moreover have "queue_work (?f 0) = 10" unfolding if_True simp_thms by code_simp
  ultimately show ?thesis by (simp only:)
qed

end
