(* ===== verification/ExceptionRegistry.thy ===== *)
theory ExceptionRegistry
  imports Prelude
begin

text \<open>
  \<open>domain/exceptions/registry.py\<close>: the codes of the review queue, their severity, the key
  that tells two exceptions of one code on one subject apart, and the fields their sentence
  states. The values of a sentence's detail, and how \<open>str\<close> shows them, are modelled here too.
\<close>

section \<open>The codes\<close>

datatype severity = Info | Warn | Block_close

datatype subject = On_job | On_estimate | On_customer | On_tenant

text \<open>A value of the detail of a sentence: JSON scalars and lists, and tuples before they are stored.\<close>

datatype detail_value = D_none | D_str string | D_int int | D_list "detail_value list"
  | D_tuple "detail_value list"

type_synonym detail = "(string, detail_value) dict"

text \<open>Equality of two dictionaries does not see the order of their entries.\<close>

definition detail_eq :: "detail \<Rightarrow> detail \<Rightarrow> bool" where
  "detail_eq d e \<longleftrightarrow> list_all (\<lambda>k. map_of d k = map_of e k) (map fst d @ map fst e)"

text \<open>
  \<open>str(value)\<close>: a scalar as itself; a list or tuple by the \<open>repr\<close> of its values, a text
  quoted with its control characters, backslashes and quotes escaped.
\<close>

definition hex_digit :: "nat \<Rightarrow> char" where
  "hex_digit n = ''0123456789abcdef'' ! n"

definition char_repr :: "char \<Rightarrow> char \<Rightarrow> string" where
  "char_repr q c =
     (let n = (of_char c :: nat) in
      if c = q \<or> n = 92 then [CHR 0x5C, c]
      else if n = 10 then [CHR 0x5C, CHR ''n'']
      else if n = 13 then [CHR 0x5C, CHR ''r'']
      else if n = 9 then [CHR 0x5C, CHR ''t'']
      else if n < 32 \<or> 127 \<le> n \<and> n \<le> 160 \<or> n = 173
        then [CHR 0x5C, CHR ''x'', hex_digit (n div 16), hex_digit (n mod 16)]
      else [c])"

definition str_repr :: "string \<Rightarrow> string" where
  "str_repr s =
     (let q = (if CHR 0x27 \<in> set s \<and> CHR 0x22 \<notin> set s then CHR 0x22 else CHR 0x27)
      in q # concat (map (char_repr q) s) @ [q])"

fun join_comma :: "string list \<Rightarrow> string" where
  "join_comma [] = []"
| "join_comma [w] = w"
| "join_comma (w # v # ws) = w @ '', '' @ join_comma (v # ws)"

fun value_repr :: "detail_value \<Rightarrow> string" where
  "value_repr D_none = ''None''"
| "value_repr (D_str s) = str_repr s"
| "value_repr (D_int i) = int_str i"
| "value_repr (D_list vs) = ''['' @ join_comma (map value_repr vs) @ '']''"
| "value_repr (D_tuple vs) = ''('' @ join_comma (map value_repr vs) @
     (if length vs = 1 then '',)'' else '')'')"

definition value_str :: "detail_value \<Rightarrow> string" where
  "value_str v = (case v of D_str s \<Rightarrow> s | _ \<Rightarrow> value_repr v)"

fun value_text :: "detail_value \<Rightarrow> string" where
  "value_text D_none = []"
| "value_text (D_list vs) = join_comma (map value_text vs)"
| "value_text (D_tuple vs) = join_comma (map value_text vs)"
| "value_text (D_str s) = s"
| "value_text (D_int i) = int_str i"

definition key_one :: "detail \<Rightarrow> string" where
  "key_one d = []"

definition key_field :: "string \<Rightarrow> detail \<Rightarrow> string" where
  "key_field name d = value_str (dict_get d name (D_str []))"

definition key_order_and_code :: "detail \<Rightarrow> string" where
  "key_order_and_code d = value_str (dict_get d ''order'' (D_str [])) @ '':''
     @ value_str (dict_get d ''cost_code'' (D_str []))"

definition key_document :: "detail \<Rightarrow> string" where
  "key_document d = value_str (dict_get d ''txn_type'' (D_str [])) @ '':''
     @ value_str (dict_get d ''txn_external_id'' (D_str []))"

record code_spec =
  cs_code :: string
  cs_subject :: subject
  cs_severity :: severity
  cs_key :: "detail \<Rightarrow> string"
  cs_stated :: "string list"
  cs_listed :: bool

definition code_row ::
  "string \<Rightarrow> subject \<Rightarrow> severity \<Rightarrow> (detail \<Rightarrow> string) \<Rightarrow> string list \<Rightarrow> bool \<Rightarrow> code_spec" where
  "code_row c s v k names l =
     \<lparr>cs_code = c, cs_subject = s, cs_severity = v, cs_key = k, cs_stated = names, cs_listed = l\<rparr>"

definition specs :: "code_spec list" where
  "specs = [
     code_row ''EST_UNKNOWN_STATUS'' On_estimate Warn key_one [''status''] False,
     code_row ''EST_ZERO_SOLD'' On_estimate Warn key_one [] True,
     code_row ''EST_UNIT_PRICED'' On_estimate Warn (key_field ''order'') [''name''] False,
     code_row ''EST_NO_CATEGORY_SPLIT'' On_estimate Warn key_one [''orders''] True,
     code_row ''EST_PRICE_MISMATCH'' On_estimate Warn key_one [''kept_total'', ''price''] False,
     code_row ''EST_DEDUCTIVE_CHANGE'' On_estimate Warn (key_field ''order'') [''price''] False,
     code_row ''EST_WORK_AREA_RENUMBERED'' On_estimate Warn (key_field ''order'')
       [''baseline_name'', ''name''] False,
     code_row ''EST_UNKNOWN_COST_CODE'' On_estimate Warn key_order_and_code [] False,
     code_row ''EST_COST_LINE_ON_OMITTED'' On_estimate Warn (key_field ''order'') [''amount''] False,
     code_row ''EST_BURDEN_LINE'' On_estimate Warn key_one [''orders''] False,
     code_row ''EST_NO_BURDEN_RATE'' On_estimate Warn key_one [''divisions'', ''date''] False,
     code_row ''EST_NO_BURDEN_DATE'' On_estimate Warn key_one [] False,
     code_row ''EST_UNATTACHED'' On_estimate Block_close key_one [] True,
     code_row ''JOB_SECOND_ESTIMATE_FOR_CUSTOMER'' On_estimate Warn key_one [''candidates''] True,
     code_row ''JOB_NO_LEDGER_LINK'' On_job Block_close key_one [''status''] True,
     code_row ''LEDGER_PROJECT_NO_JOB'' On_customer Block_close key_one [''documents''] True,
     code_row ''JOB_DIVISION_UNSET'' On_job Warn key_one [] True,
     code_row ''CO_APPROVAL_NOT_CARRIED'' On_job Warn (key_field ''approval'')
       [''approved_price'', ''agreed_on''] True,
     code_row ''PAYMENT_UNAPPLIED'' On_job Warn key_one [''amount'', ''payments''] True,
     code_row ''DEPOSIT_NOT_IDENTIFIED'' On_job Warn (key_field ''billing_id'') [''reason''] True,
     code_row ''BILLED_OVER_CONTRACT'' On_job Warn key_one [''over''] True,
     code_row ''PAYMENT_OTHER_CREDIT'' On_job Warn (key_field ''payment_id'') [''amount'', ''date''] True,
     code_row ''BILLING_UNAPPROVED_CO'' On_job Warn key_one [''amount'', ''work_areas''] True,
     code_row ''PAYAPP_NOT_INVOICED'' On_job Warn (key_field ''application'') [] True,
     code_row ''INVOICE_NO_PAYAPP'' On_job Warn (key_field ''billing_id'') [] True,
     code_row ''PAYAPP_INVOICE_MISMATCH'' On_job Warn (key_field ''application'') [''difference''] True,
     code_row ''COST_UNASSIGNED'' On_customer Warn key_document [''amount'', ''account_no''] True,
     code_row ''COST_DIVISION_MISMATCH'' On_job Warn key_document [''amount'', ''account_no''] True]"

text \<open>\<open>BY_CODE[code]\<close>: \<open>None\<close> is the \<open>KeyError\<close> of a code that is not queued.\<close>

definition by_code :: "string \<Rightarrow> code_spec option" where
  "by_code code = map_of (map (\<lambda>s. (cs_code s, s)) specs) code"

record issue =
  is_code :: string
  is_message :: string
  is_detail :: detail

type_synonym exc_key = "subject \<times> uuid \<times> string \<times> string"

definition item_key :: "issue \<Rightarrow> string option" where
  "item_key i = map_option (\<lambda>s. take 120 (cs_key s (is_detail i))) (by_code (is_code i))"

definition exc_identity :: "subject \<Rightarrow> uuid \<Rightarrow> issue \<Rightarrow> exc_key option" where
  "exc_identity t sid i = map_option (\<lambda>k. (t, sid, is_code i, k)) (item_key i)"

definition stated :: "string \<Rightarrow> detail \<Rightarrow> (string \<times> string) list option" where
  "stated code d = map_option
     (\<lambda>s. map (\<lambda>name. (name, value_text (dict_get d name D_none))) (cs_stated s)) (by_code code)"

definition fixed_price_blocks :: string where
  "fixed_price_blocks = ''EST_NO_CATEGORY_SPLIT''"

definition severity_of :: "string \<Rightarrow> bool option \<Rightarrow> severity option" where
  "severity_of code fixed_price = map_option
     (\<lambda>s. if code = fixed_price_blocks then (if fixed_price = Some True then Block_close else Warn)
       else cs_severity s) (by_code code)"

definition may_dismiss :: "severity \<Rightarrow> bool" where
  "may_dismiss s \<longleftrightarrow> s \<noteq> Block_close"

end
