(* ===== verification/Exceptions.thy ===== *)
theory Exceptions
  imports ExceptionRegistry TaskQueue
begin

text \<open>
  The review queue on the rows of \<open>domain/exceptions/models.py\<close>: the run that persists what the
  generators raise and the request for one (\<open>run.py\<close>), a person's actions and the pages'
  reads (\<open>service.py\<close>). Each operation is one transaction of one tenant. The sentences the
  generators raise (\<open>collect\<close>), the ids of new rows and the time are arguments. The lemmas
  say what a run does to every row, and that a second run changes nothing.
\<close>

section \<open>Rows\<close>

datatype exc_status = Exc_open | Exc_resolved | Exc_dismissed

record exc_row =
  er_id :: uuid
  er_code :: string
  er_severity :: severity
  er_subject :: subject
  er_subject_id :: uuid
  er_item_key :: string
  er_message :: string
  er_detail :: detail
  er_status :: exc_status
  er_assigned_to :: "uuid option"
  er_first_raised :: int
  er_last_raised :: int
  er_resolved_at :: "int option"
  er_dismissed_at :: "int option"
  er_dismissed_by :: "uuid option"

definition row_key :: "exc_row \<Rightarrow> exc_key" where
  "row_key r = (er_subject r, er_subject_id r, er_code r, er_item_key r)"

datatype event_kind = Ev_raised | Ev_raised_again | Ev_resolved | Ev_reopened | Ev_assigned | Ev_note
  | Ev_dismissed

type_synonym stated_change = "(string \<times> string) list option \<times> (string \<times> string) list option"

record exc_event =
  ev_exception :: uuid
  ev_kind :: event_kind
  ev_at :: int
  ev_actor :: "uuid option"
  ev_assigned :: "uuid option"
  ev_text :: "string option"
  ev_change :: "stated_change option"

record exc_fields =
  xf_status :: exc_status
  xf_assigned_to :: "uuid option"
  xf_code :: string
  xf_severity :: severity
  xf_subject :: subject
  xf_subject_id :: uuid
  xf_item_key :: string

datatype exc_audit_event = Audit_assigned | Audit_dismissed | Audit_reopened

record exc_audit =
  xa_event :: exc_audit_event
  xa_exception :: uuid
  xa_actor :: "uuid option"
  xa_before :: exc_fields
  xa_after :: exc_fields

record exc_db =
  xd_rows :: "exc_row list"
  xd_events :: "exc_event list"
  xd_audit :: "exc_audit list"

text \<open>
  The table constraints: one row per identity, \<open>ck_exception_resolved\<close> and
  \<open>ck_exception_dismissed\<close>, and \<open>ck_exception_event_text\<close>. The status, severity, subject and
  kind constraints are the datatypes'.
\<close>

definition row_checks :: "exc_row \<Rightarrow> bool" where
  "row_checks r \<longleftrightarrow> (er_status r = Exc_resolved \<longleftrightarrow> er_resolved_at r \<noteq> None)
     \<and> (er_status r = Exc_dismissed \<longleftrightarrow> er_dismissed_at r \<noteq> None \<and> er_dismissed_by r \<noteq> None)"

definition event_checks :: "exc_event \<Rightarrow> bool" where
  "event_checks e \<longleftrightarrow> (ev_kind e = Ev_note \<or> ev_kind e = Ev_dismissed)
     = (case ev_text e of None \<Rightarrow> False | Some s \<Rightarrow> list_ex (\<lambda>c. c \<noteq> CHR '' '') s)"

definition find_key :: "exc_key \<Rightarrow> exc_row list \<Rightarrow> exc_row option" where
  "find_key k rows = List.find (\<lambda>r. row_key r = k) rows"

definition put_row :: "exc_row \<Rightarrow> exc_db \<Rightarrow> exc_db" where
  "put_row row db = db\<lparr>xd_rows := map (\<lambda>r. if row_key r = row_key row then row else r) (xd_rows db)\<rparr>"

section \<open>The run\<close>

record raised =
  rs_subject :: subject
  rs_subject_id :: uuid
  rs_issue :: issue
  rs_severity :: severity

definition raised_key :: "raised \<Rightarrow> exc_key option" where
  "raised_key r = exc_identity (rs_subject r) (rs_subject_id r) (rs_issue r)"

record run_result =
  rr_raised :: nat
  rr_raised_again :: nat
  rr_reopened :: nat
  rr_resolved :: nat
  rr_refreshed :: nat

definition writes :: "run_result \<Rightarrow> nat" where
  "writes r = rr_raised r + rr_raised_again r + rr_reopened r + rr_resolved r + rr_refreshed r"

definition run_event :: "uuid \<Rightarrow> event_kind \<Rightarrow> int \<Rightarrow> stated_change option \<Rightarrow> exc_event" where
  "run_event i kind now change = \<lparr>ev_exception = i, ev_kind = kind, ev_at = now, ev_actor = None,
     ev_assigned = None, ev_text = None, ev_change = change\<rparr>"

definition plain :: "detail \<Rightarrow> detail" where
  "plain d = map (\<lambda>(k, v). (k, case v of D_tuple vs \<Rightarrow> D_list vs | _ \<Rightarrow> v)) d"

text \<open>The first sentence of each identity; a code that is not queued ends the run.\<close>

fun raised_table :: "(exc_key, raised) dict \<Rightarrow> raised list \<Rightarrow> (exc_key, raised) dict option" where
  "raised_table t [] = Some t"
| "raised_table t (r # rs) = (case raised_key r of
     None \<Rightarrow> None
   | Some k \<Rightarrow> raised_table (if map_of t k = None then t @ [(k, r)] else t) rs)"

definition raised_row :: "uuid \<Rightarrow> int \<Rightarrow> exc_key \<Rightarrow> raised \<Rightarrow> exc_row" where
  "raised_row new_id now k r = \<lparr>er_id = new_id, er_code = is_code (rs_issue r),
     er_severity = rs_severity r, er_subject = rs_subject r, er_subject_id = rs_subject_id r,
     er_item_key = snd (snd (snd k)), er_message = is_message (rs_issue r),
     er_detail = plain (is_detail (rs_issue r)), er_status = Exc_open, er_assigned_to = None,
     er_first_raised = now, er_last_raised = now, er_resolved_at = None, er_dismissed_at = None,
     er_dismissed_by = None\<rparr>"

definition row_changed :: "raised \<Rightarrow> exc_row \<Rightarrow> bool" where
  "row_changed r row \<longleftrightarrow> er_message row \<noteq> is_message (rs_issue r)
     \<or> \<not> detail_eq (er_detail row) (plain (is_detail (rs_issue r))) \<or> er_severity row \<noteq> rs_severity r"

definition stated_before_after :: "raised \<Rightarrow> exc_row \<Rightarrow> stated_change" where
  "stated_before_after r row =
     (stated (er_code row) (er_detail row), stated (er_code row) (plain (is_detail (rs_issue r))))"

definition reopens :: "raised \<Rightarrow> exc_row \<Rightarrow> bool" where
  "reopens r row \<longleftrightarrow> (case stated_before_after r row of (before, after) \<Rightarrow> before \<noteq> after)"

definition open_again :: "int \<Rightarrow> raised \<Rightarrow> exc_row \<Rightarrow> exc_row" where
  "open_again now r row = (case er_status row of
     Exc_open \<Rightarrow> row
   | Exc_resolved \<Rightarrow> row\<lparr>er_status := Exc_open, er_resolved_at := None, er_last_raised := now\<rparr>
   | Exc_dismissed \<Rightarrow> if reopens r row then row\<lparr>er_status := Exc_open, er_dismissed_at := None,
       er_dismissed_by := None, er_last_raised := now\<rparr> else row)"

definition refreshed_row :: "int \<Rightarrow> raised \<Rightarrow> exc_row \<Rightarrow> exc_row" where
  "refreshed_row now r row = (if row_changed r row
     then (open_again now r row)\<lparr>er_message := is_message (rs_issue r),
       er_detail := plain (is_detail (rs_issue r)), er_severity := rs_severity r,
       er_last_raised := now\<rparr>
     else open_again now r row)"

definition refresh_events :: "int \<Rightarrow> raised \<Rightarrow> exc_row \<Rightarrow> exc_event list" where
  "refresh_events now r row = (case er_status row of
     Exc_open \<Rightarrow> []
   | Exc_resolved \<Rightarrow> [run_event (er_id row) Ev_raised_again now None]
   | Exc_dismissed \<Rightarrow> if reopens r row
       then [run_event (er_id row) Ev_reopened now (Some (stated_before_after r row))] else [])"

definition count_refresh :: "raised \<Rightarrow> exc_row \<Rightarrow> run_result \<Rightarrow> run_result" where
  "count_refresh r row res = (case er_status row of
     Exc_open \<Rightarrow> if row_changed r row then res\<lparr>rr_refreshed := Suc (rr_refreshed res)\<rparr> else res
   | Exc_resolved \<Rightarrow> res\<lparr>rr_raised_again := Suc (rr_raised_again res)\<rparr>
   | Exc_dismissed \<Rightarrow> if reopens r row then res\<lparr>rr_reopened := Suc (rr_reopened res)\<rparr> else res)"

text \<open>
  The body of the loop over the raised identities. The keys are distinct, so the row found
  is the one the run read at its start.
\<close>

definition raise_one ::
  "(exc_key \<Rightarrow> uuid) \<Rightarrow> int \<Rightarrow> exc_db \<times> run_result \<Rightarrow> exc_key \<times> raised \<Rightarrow> exc_db \<times> run_result" where
  "raise_one new_id now st kr = (case (st, kr) of ((db, res), (k, r)) \<Rightarrow>
     (case find_key k (xd_rows db) of
        None \<Rightarrow> (db\<lparr>xd_rows := xd_rows db @ [raised_row (new_id k) now k r],
            xd_events := xd_events db @ [run_event (new_id k) Ev_raised now None]\<rparr>,
          res\<lparr>rr_raised := Suc (rr_raised res)\<rparr>)
      | Some row \<Rightarrow> ((put_row (refreshed_row now r row) db)
            \<lparr>xd_events := xd_events db @ refresh_events now r row\<rparr>,
          count_refresh r row res)))"

definition resolved_row :: "int \<Rightarrow> exc_row \<Rightarrow> exc_row" where
  "resolved_row now row = row\<lparr>er_status := Exc_resolved, er_resolved_at := Some now,
     er_dismissed_at := None, er_dismissed_by := None\<rparr>"

definition to_resolve :: "(exc_key, raised) dict \<Rightarrow> exc_row \<Rightarrow> bool" where
  "to_resolve table row \<longleftrightarrow> map_of table (row_key row) = None \<and> er_status row \<noteq> Exc_resolved"

definition resolve_rest ::
  "int \<Rightarrow> (exc_key, raised) dict \<Rightarrow> exc_db \<times> run_result \<Rightarrow> exc_db \<times> run_result" where
  "resolve_rest now table st = (case st of (db, res) \<Rightarrow>
     (let gone = filter (to_resolve table) (xd_rows db) in
      (db\<lparr>xd_rows := map (\<lambda>r. if to_resolve table r then resolved_row now r else r) (xd_rows db),
          xd_events := xd_events db @ map (\<lambda>r. run_event (er_id r) Ev_resolved now None) gone\<rparr>,
       res\<lparr>rr_resolved := rr_resolved res + length gone\<rparr>)))"

definition no_writes :: run_result where
  "no_writes = \<lparr>rr_raised = 0, rr_raised_again = 0, rr_reopened = 0, rr_resolved = 0, rr_refreshed = 0\<rparr>"

definition refresh ::
  "(exc_key \<Rightarrow> uuid) \<Rightarrow> int \<Rightarrow> raised list \<Rightarrow> exc_db \<Rightarrow> (exc_db \<times> run_result) option" where
  "refresh new_id now rs db = map_option
     (\<lambda>table. resolve_rest now table (foldl (raise_one new_id now) (db, no_writes) table))
     (raised_table [] rs)"

text \<open>\<open>request_refresh\<close>: queue one run, or the run after the one that is running.\<close>

definition refresh_kind :: string where
  "refresh_kind = ''exceptions.refresh''"

definition dedupe :: string where
  "dedupe = ''refresh''"

definition dedupe_next :: string where
  "dedupe_next = ''refresh:next''"

definition request_refresh :: "queue_settings \<Rightarrow> uuid \<Rightarrow> queue \<Rightarrow> uuid \<Rightarrow> queue" where
  "request_refresh s new_id q tenant =
     (case open_task q tenant refresh_kind dedupe of
        Some t \<Rightarrow> if tk_status t = Running
          then fst (enqueue s q new_id tenant refresh_kind [] (Some dedupe_next) None None)
          else fst (enqueue s q new_id tenant refresh_kind [] (Some dedupe) None None)
      | None \<Rightarrow> fst (enqueue s q new_id tenant refresh_kind [] (Some dedupe) None None))"

section \<open>A person's actions\<close>

datatype exc_error = Exc_not_found | Not_a_member | Already_assigned bool | Empty_note | Blocks_close
  | Exc_not_open exc_status | No_dismissal_note | Exc_not_dismissed exc_status | Exc_integrity

definition clean_text :: "string option \<Rightarrow> string option" where
  "clean_text t = (case t of None \<Rightarrow> None
     | Some s \<Rightarrow> (let v = take 2000 (join_space (split_ws s)) in if v = [] then None else Some v))"

definition exc_fields_of :: "exc_row \<Rightarrow> exc_fields" where
  "exc_fields_of r = \<lparr>xf_status = er_status r, xf_assigned_to = er_assigned_to r, xf_code = er_code r,
     xf_severity = er_severity r, xf_subject = er_subject r, xf_subject_id = er_subject_id r,
     xf_item_key = er_item_key r\<rparr>"

definition person_event ::
  "uuid \<Rightarrow> event_kind \<Rightarrow> uuid option \<Rightarrow> int \<Rightarrow> string option \<Rightarrow> uuid option \<Rightarrow> exc_event" where
  "person_event i kind actor now content user = \<lparr>ev_exception = i, ev_kind = kind, ev_at = now,
     ev_actor = actor, ev_assigned = user, ev_text = content, ev_change = None\<rparr>"

definition exc_find :: "exc_db \<Rightarrow> uuid \<Rightarrow> exc_row option" where
  "exc_find db i = List.find (\<lambda>r. er_id r = i) (xd_rows db)"

text \<open>One changed row, its event and its audit row; a row that breaks a constraint is refused.\<close>

definition record_change ::
  "exc_db \<Rightarrow> exc_row \<Rightarrow> exc_row \<Rightarrow> exc_event \<Rightarrow> exc_audit_event \<Rightarrow> (exc_error, exc_db) result" where
  "record_change db row row' e what =
     (if row_checks row' \<and> event_checks e
      then Inr (db\<lparr>xd_rows := map (\<lambda>r. if er_id r = er_id row then row' else r) (xd_rows db),
        xd_events := xd_events db @ [e],
        xd_audit := xd_audit db @ [\<lparr>xa_event = what, xa_exception = er_id row, xa_actor = ev_actor e,
          xa_before = exc_fields_of row, xa_after = exc_fields_of row'\<rparr>]\<rparr>)
      else Inl Exc_integrity)"

definition assign_exception ::
  "uuid list \<Rightarrow> exc_db \<Rightarrow> uuid \<Rightarrow> uuid option \<Rightarrow> uuid option \<Rightarrow> int \<Rightarrow> (exc_error, exc_db) result" where
  "assign_exception members db i user actor now = (case exc_find db i of
     None \<Rightarrow> Inl Exc_not_found
   | Some row \<Rightarrow>
       if (case user of None \<Rightarrow> False | Some u \<Rightarrow> u \<notin> set members) then Inl Not_a_member
       else if er_assigned_to row = user then Inl (Already_assigned (user \<noteq> None))
       else record_change db row (row\<lparr>er_assigned_to := user\<rparr>)
         (person_event i Ev_assigned actor now None user) Audit_assigned)"

definition add_note ::
  "exc_db \<Rightarrow> uuid \<Rightarrow> string option \<Rightarrow> uuid option \<Rightarrow> int \<Rightarrow> (exc_error, exc_db) result" where
  "add_note db i t actor now = (case exc_find db i of
     None \<Rightarrow> Inl Exc_not_found
   | Some row \<Rightarrow> (case clean_text t of
       None \<Rightarrow> Inl Empty_note
     | Some note \<Rightarrow>
         (let e = person_event i Ev_note actor now (Some note) None
          in if event_checks e then Inr (db\<lparr>xd_events := xd_events db @ [e]\<rparr>) else Inl Exc_integrity)))"

definition dismissed_row :: "exc_row \<Rightarrow> uuid option \<Rightarrow> int \<Rightarrow> exc_row" where
  "dismissed_row row actor now = row\<lparr>er_status := Exc_dismissed, er_dismissed_at := Some now,
     er_dismissed_by := actor\<rparr>"

definition dismiss ::
  "exc_db \<Rightarrow> uuid \<Rightarrow> string option \<Rightarrow> uuid option \<Rightarrow> int \<Rightarrow> (exc_error, exc_db) result" where
  "dismiss db i note actor now = (case exc_find db i of
     None \<Rightarrow> Inl Exc_not_found
   | Some row \<Rightarrow>
       if \<not> may_dismiss (er_severity row) then Inl Blocks_close
       else if er_status row \<noteq> Exc_open then Inl (Exc_not_open (er_status row))
       else (case clean_text note of
         None \<Rightarrow> Inl No_dismissal_note
       | Some t \<Rightarrow> record_change db row (dismissed_row row actor now)
           (person_event i Ev_dismissed actor now (Some t) None) Audit_dismissed))"

definition reopen :: "exc_db \<Rightarrow> uuid \<Rightarrow> uuid option \<Rightarrow> int \<Rightarrow> (exc_error, exc_db) result" where
  "reopen db i actor now = (case exc_find db i of
     None \<Rightarrow> Inl Exc_not_found
   | Some row \<Rightarrow>
       if er_status row \<noteq> Exc_dismissed then Inl (Exc_not_dismissed (er_status row))
       else record_change db row
         (row\<lparr>er_status := Exc_open, er_dismissed_at := None, er_dismissed_by := None\<rparr>)
         (person_event i Ev_reopened actor now None None) Audit_reopened)"

section \<open>What the pages read\<close>

definition dismissed_keys :: "exc_db \<Rightarrow> exc_key list" where
  "dismissed_keys db = map row_key (filter (\<lambda>r. er_status r = Exc_dismissed) (xd_rows db))"

text \<open>\<open>identity\<close> raises for a code that is not queued, hence the option.\<close>

fun without_dismissed_list :: "exc_key list \<Rightarrow> subject \<Rightarrow> uuid \<Rightarrow> issue list \<Rightarrow> issue list option" where
  "without_dismissed_list ks t sid [] = Some []"
| "without_dismissed_list ks t sid (i # is) = (case exc_identity t sid i of
     None \<Rightarrow> None
   | Some k \<Rightarrow> map_option (\<lambda>rest. if k \<in> set ks then rest else i # rest)
       (without_dismissed_list ks t sid is))"

definition without_dismissed :: "issue list \<Rightarrow> subject \<Rightarrow> uuid \<Rightarrow> exc_key list \<Rightarrow> issue list option" where
  "without_dismissed is t sid ks = (if ks = [] then Some is else without_dismissed_list ks t sid is)"

definition severity_order :: "severity \<Rightarrow> nat" where
  "severity_order s = (case s of Block_close \<Rightarrow> 0 | Warn \<Rightarrow> 1 | Info \<Rightarrow> 2)"

definition status_order :: "exc_status \<Rightarrow> nat" where
  "status_order s = (case s of Exc_open \<Rightarrow> 0 | Exc_dismissed \<Rightarrow> 1 | Exc_resolved \<Rightarrow> 2)"

definition order_key :: "exc_row \<Rightarrow> nat \<times> nat \<times> int \<times> uuid" where
  "order_key r = (status_order (er_status r), severity_order (er_severity r), er_first_raised r, er_id r)"

definition list_exceptions ::
  "exc_db \<Rightarrow> exc_status option \<Rightarrow> severity option \<Rightarrow> uuid option \<Rightarrow> exc_row list" where
  "list_exceptions db status severity assigned = sort_key order_key
     (filter (\<lambda>r. (status = None \<or> Some (er_status r) = status)
        \<and> (severity = None \<or> Some (er_severity r) = severity)
        \<and> (assigned = None \<or> er_assigned_to r = assigned)) (xd_rows db))"

definition open_counts_here :: "exc_db \<Rightarrow> severity \<Rightarrow> nat" where
  "open_counts_here db s = length (filter (\<lambda>r. er_status r = Exc_open \<and> er_severity r = s) (xd_rows db))"

definition last_run_at :: "queue \<Rightarrow> uuid \<Rightarrow> int option" where
  "last_run_at q tenant =
     (case List.map_filter tk_finished_at (filter (\<lambda>t. tk_tenant t = tenant \<and> tk_kind t = refresh_kind
          \<and> tk_status t = Succeeded) (q_tasks q)) of
        [] \<Rightarrow> None | t # ts \<Rightarrow> Some (Max (set (t # ts))))"


section \<open>What a run does to every row\<close>

lemma detail_eq_iff: "detail_eq d e \<longleftrightarrow> map_of d = map_of e"
proof
  assume d: "detail_eq d e"
  show "map_of d = map_of e"
  proof
    fix k
    show "map_of d k = map_of e k"
    proof (cases "k \<in> fst ` set d \<union> fst ` set e")
      case False
      then show ?thesis by (metis UnCI map_of_eq_None_iff)
    qed (use d in \<open>auto simp: detail_eq_def list_all_iff\<close>)
  qed
qed (simp add: detail_eq_def list_all_iff)

lemma refreshed_key [simp]:
  "row_key (refreshed_row now r row) = row_key row" "er_id (refreshed_row now r row) = er_id row"
  "er_assigned_to (refreshed_row now r row) = er_assigned_to row"
  by (simp_all add: refreshed_row_def open_again_def row_key_def split: exc_status.split)

lemma resolved_key [simp]:
  "row_key (resolved_row now row) = row_key row" "er_id (resolved_row now row) = er_id row"
  "er_status (resolved_row now row) = Exc_resolved"
  by (simp_all add: resolved_row_def row_key_def)

lemma raised_row_simps [simp]:
  "er_id (raised_row i now k r) = i" "er_status (raised_row i now k r) = Exc_open"
  "raised_key r = Some k \<Longrightarrow> row_key (raised_row i now k r) = k"
  by (auto simp: raised_row_def row_key_def raised_key_def exc_identity_def)

lemma refreshed_fields:
  "er_message (refreshed_row now r row) = is_message (rs_issue r)"
  "detail_eq (er_detail (refreshed_row now r row)) (plain (is_detail (rs_issue r)))"
  "er_severity (refreshed_row now r row) = rs_severity r"
  by (auto simp: refreshed_row_def open_again_def row_changed_def detail_eq_iff split: exc_status.split)

lemma refreshed_status:
  "er_status (refreshed_row now r row) =
     (if er_status row = Exc_dismissed \<and> \<not> reopens r row then Exc_dismissed else Exc_open)"
  by (auto simp: refreshed_row_def open_again_def split: exc_status.split)

lemma find_key_Some: "find_key k rows = Some row \<Longrightarrow> row \<in> set rows \<and> row_key row = k"
  unfolding find_key_def by (rule find_mem)

lemma find_key_None: "find_key k rows = None \<longleftrightarrow> k \<notin> row_key ` set rows"
  by (auto simp: find_key_def find_None_iff)

lemma find_key_unique:
  assumes "distinct (map row_key rows)" and "row \<in> set rows"
  shows "find_key (row_key row) rows = Some row"
proof (cases "find_key (row_key row) rows")
  case (Some x)
  with assms show ?thesis using find_key_Some [OF Some] by (auto simp: distinct_map dest: inj_onD)
qed (use assms in \<open>auto simp: find_key_None\<close>)

definition raise_rows :: "int \<Rightarrow> (exc_key, raised) dict \<Rightarrow> exc_row list \<Rightarrow> exc_row list" where
  "raise_rows now kvs rows = map (\<lambda>x. case map_of kvs (row_key x) of None \<Rightarrow> x
     | Some r \<Rightarrow> refreshed_row now r x) rows"

definition new_rows ::
  "(exc_key \<Rightarrow> uuid) \<Rightarrow> int \<Rightarrow> (exc_key, raised) dict \<Rightarrow> exc_row list \<Rightarrow> exc_row list" where
  "new_rows new_id now kvs rows = map (\<lambda>(k, r). raised_row (new_id k) now k r)
     (filter (\<lambda>kr. fst kr \<notin> row_key ` set rows) kvs)"

definition raise_events ::
  "(exc_key \<Rightarrow> uuid) \<Rightarrow> int \<Rightarrow> exc_row list \<Rightarrow> exc_key \<times> raised \<Rightarrow> exc_event list" where
  "raise_events new_id now rows kr = (case find_key (fst kr) rows of
     None \<Rightarrow> [run_event (new_id (fst kr)) Ev_raised now None]
   | Some row \<Rightarrow> refresh_events now (snd kr) row)"

definition raise_count :: "exc_row list \<Rightarrow> run_result \<Rightarrow> exc_key \<times> raised \<Rightarrow> run_result" where
  "raise_count rows res kr = (case find_key (fst kr) rows of
     None \<Rightarrow> res\<lparr>rr_raised := Suc (rr_raised res)\<rparr> | Some row \<Rightarrow> count_refresh (snd kr) row res)"

text \<open>A table of raised sentences: distinct identities, each the identity of its sentence.\<close>

definition table_ok :: "(exc_key, raised) dict \<Rightarrow> bool" where
  "table_ok t \<longleftrightarrow> distinct (map fst t) \<and> (\<forall>(k, r) \<in> set t. raised_key r = Some k)"

lemma raised_table_ok: "raised_table t rs = Some t' \<Longrightarrow> table_ok t \<Longrightarrow> table_ok t'"
proof (induction t rs rule: raised_table.induct)
  case (2 t r rs)
  from "2.prems" obtain k where k: "raised_key r = Some k"
      "raised_table (if map_of t k = None then t @ [(k, r)] else t) rs = Some t'"
    by (auto split: option.splits)
  have "table_ok (if map_of t k = None then t @ [(k, r)] else t)"
    using "2.prems"(2) k(1) by (auto simp: table_ok_def map_of_eq_None_iff)
  with "2.IH" [OF k] show ?case by simp
qed simp

lemma raise_rows_keys [simp]:
  "map row_key (raise_rows now kvs rows) = map row_key rows"
  "map er_id (raise_rows now kvs rows) = map er_id rows"
  by (auto simp: raise_rows_def split: option.split)

lemma raise_rows_key_set [simp]: "row_key ` set (raise_rows now kvs rows) = row_key ` set rows"
  by (metis raise_rows_keys(1) set_map)

lemma put_row_rows:
  "xd_rows (put_row (refreshed_row now r row) db) =
     map (\<lambda>x. if row_key x = row_key row then refreshed_row now r row else x) (xd_rows db)"
  by (simp add: put_row_def)

lemma raise_one_all:
  assumes "distinct (map row_key (xd_rows db))" and "raised_key r = Some k"
  shows "xd_rows (fst (raise_one new_id now (db, res) (k, r))) =
      raise_rows now [(k, r)] (xd_rows db) @ new_rows new_id now [(k, r)] (xd_rows db)
    \<and> xd_events (fst (raise_one new_id now (db, res) (k, r))) =
      xd_events db @ raise_events new_id now (xd_rows db) (k, r)
    \<and> xd_audit (fst (raise_one new_id now (db, res) (k, r))) = xd_audit db
    \<and> snd (raise_one new_id now (db, res) (k, r)) = raise_count (xd_rows db) res (k, r)"
proof (cases "find_key k (xd_rows db)")
  case None
  then have "k \<notin> row_key ` set (xd_rows db)" by (simp add: find_key_None)
  moreover from this have "raise_rows now [(k, r)] (xd_rows db) = xd_rows db"
    by (force simp: raise_rows_def intro: map_idI)
  ultimately show ?thesis
    by (simp add: raise_one_def None new_rows_def raise_events_def raise_count_def)
next
  case (Some row)
  have row: "row \<in> set (xd_rows db)" "row_key row = k" using find_key_Some [OF Some] by auto
  have one: "x = row" if "x \<in> set (xd_rows db)" "row_key x = k" for x
    using assms(1) row that by (auto simp: distinct_map dest: inj_onD)
  have "map (\<lambda>x. if row_key x = row_key row then refreshed_row now r row else x) (xd_rows db)
      = raise_rows now [(k, r)] (xd_rows db)"
    using one row(2) by (auto simp: raise_rows_def)
  moreover have "new_rows new_id now [(k, r)] (xd_rows db) = []"
    using row by (auto simp: new_rows_def)
  ultimately show ?thesis
    by (simp add: raise_one_def Some raise_events_def raise_count_def put_row_def)
qed

lemma find_key_other:
  assumes "raised_key r = Some k" and "k' \<noteq> k"
  shows "find_key k' (raise_rows now [(k, r)] rows @ new_rows new_id now [(k, r)] rows) = find_key k' rows"
proof -
  have "find_key k' (raise_rows now [(k, r)] rows @ ys) = find_key k' rows"
    if "\<forall>y \<in> set ys. row_key y = k" for ys
    using that assms(2) by (induction rows) (auto simp: raise_rows_def find_key_def find_None_iff)
  moreover have "\<forall>y \<in> set (new_rows new_id now [(k, r)] rows). row_key y = k"
    using assms(1) by (auto simp: new_rows_def)
  ultimately show ?thesis by blast
qed

lemma raise_rows_step:
  assumes "table_ok ((k, r) # kvs)" and "rows' = raise_rows now [(k, r)] rows @ new_rows new_id now [(k, r)] rows"
  shows "raise_rows now kvs rows' @ new_rows new_id now kvs rows' =
      raise_rows now ((k, r) # kvs) rows @ new_rows new_id now ((k, r) # kvs) rows"
    and "map (raise_events new_id now rows') kvs = map (raise_events new_id now rows) kvs"
    and "foldl (raise_count rows') res kvs = foldl (raise_count rows) res kvs"
    and "row_key ` set rows' = insert k (row_key ` set rows)"
proof -
  have k: "raised_key r = Some k" and fresh: "k \<notin> fst ` set kvs" "map_of kvs k = None"
    using assms(1) by (auto simp: table_ok_def map_of_eq_None_iff)
  have new: "raise_rows now kvs (new_rows new_id now [(k, r)] rows) = new_rows new_id now [(k, r)] rows"
    using fresh k by (auto simp: raise_rows_def new_rows_def)
  have old: "raise_rows now kvs (raise_rows now [(k, r)] rows) = raise_rows now ((k, r) # kvs) rows"
    using fresh by (auto simp: raise_rows_def split: option.split)
  show keys: "row_key ` set rows' = insert k (row_key ` set rows)"
  proof -
    have "set (map row_key rows') = insert k (set (map row_key rows))"
      using k unfolding assms(2) by (auto simp: new_rows_def)
    then show ?thesis by simp
  qed
  have "filter (\<lambda>kr. fst kr \<notin> row_key ` set rows') kvs = filter (\<lambda>kr. fst kr \<notin> row_key ` set rows) kvs"
    unfolding keys using fresh by (intro filter_cong) auto
  then have "new_rows new_id now [(k, r)] rows @ new_rows new_id now kvs rows'
      = new_rows new_id now ((k, r) # kvs) rows" by (simp add: new_rows_def)
  moreover have "raise_rows now kvs rows' = raise_rows now ((k, r) # kvs) rows @ new_rows new_id now [(k, r)] rows"
    unfolding assms(2) using new old by (simp add: raise_rows_def)
  ultimately show "raise_rows now kvs rows' @ new_rows new_id now kvs rows' =
      raise_rows now ((k, r) # kvs) rows @ new_rows new_id now ((k, r) # kvs) rows" by simp
  have other: "find_key (fst kr) rows' = find_key (fst kr) rows" if "kr \<in> set kvs" for kr
    unfolding assms(2) using that fresh by (intro find_key_other [OF k]) force
  then show "map (raise_events new_id now rows') kvs = map (raise_events new_id now rows) kvs"
    by (simp add: raise_events_def)
  show "foldl (raise_count rows') res kvs = foldl (raise_count rows) res kvs"
    using other by (intro foldl_cong) (auto simp: raise_count_def)
qed

lemma raise_loop:
  assumes "distinct (map row_key (xd_rows db))" and "table_ok kvs"
  shows "xd_rows (fst (foldl (raise_one new_id now) (db, res) kvs)) =
      raise_rows now kvs (xd_rows db) @ new_rows new_id now kvs (xd_rows db)
    \<and> xd_events (fst (foldl (raise_one new_id now) (db, res) kvs)) =
      xd_events db @ concat (map (raise_events new_id now (xd_rows db)) kvs)
    \<and> xd_audit (fst (foldl (raise_one new_id now) (db, res) kvs)) = xd_audit db
    \<and> snd (foldl (raise_one new_id now) (db, res) kvs) = foldl (raise_count (xd_rows db)) res kvs"
  using assms
proof (induction kvs arbitrary: db res)
  case Nil
  then show ?case by (simp add: raise_rows_def new_rows_def)
next
  case (Cons kr kvs)
  obtain k r where kr: "kr = (k, r)" by (cases kr)
  obtain db' res' where one: "raise_one new_id now (db, res) (k, r) = (db', res')"
    by (cases "raise_one new_id now (db, res) (k, r)")
  have k: "raised_key r = Some k" and ok: "table_ok kvs"
    using Cons.prems(2) by (auto simp: table_ok_def kr)
  note db' = raise_one_all [OF Cons.prems(1) k, of new_id now res, unfolded one fst_conv snd_conv]
  have rows: "xd_rows db' = raise_rows now [(k, r)] (xd_rows db) @ new_rows new_id now [(k, r)] (xd_rows db)"
    using db' by blast
  note step = raise_rows_step [OF Cons.prems(2) [unfolded kr] rows]
  have "distinct (map row_key (xd_rows db'))"
    using Cons.prems(1) k raise_rows_key_set [of now "[(k, r)]" "xd_rows db"] unfolding rows
    by (auto simp: new_rows_def simp del: raise_rows_key_set)
  note IH = Cons.IH [OF this ok, of res']
  show ?case using IH [unfolded step(1,2,3)] db' by (simp add: kr one)
qed


definition after_row :: "int \<Rightarrow> (exc_key, raised) dict \<Rightarrow> exc_row \<Rightarrow> exc_row" where
  "after_row now table x = (case map_of table (row_key x) of
     Some r \<Rightarrow> refreshed_row now r x
   | None \<Rightarrow> if er_status x = Exc_resolved then x else resolved_row now x)"

lemma after_row_key [simp]:
  "row_key (after_row now table x) = row_key x" "er_id (after_row now table x) = er_id x"
  by (simp_all add: after_row_def split: option.split)

lemma table_new_key:
  "table_ok table \<Longrightarrow> (k, r) \<in> set table \<Longrightarrow> map_of table k = Some r \<and> raised_key r = Some k"
  by (auto simp: table_ok_def)

lemma resolve_raised_rows:
  assumes "table_ok table"
  shows "map (\<lambda>r. if to_resolve table r then resolved_row now r else r)
      (raise_rows now table rows @ new_rows new_id now table rows) =
    map (after_row now table) rows @ new_rows new_id now table rows"
    and "filter (to_resolve table) (raise_rows now table rows @ new_rows new_id now table rows) =
      filter (to_resolve table) rows"
proof -
  have new: "\<not> to_resolve table y" if "y \<in> set (new_rows new_id now table rows)" for y
    using that table_new_key [OF assms] by (auto simp: new_rows_def to_resolve_def)
  have "map (\<lambda>r. if to_resolve table r then resolved_row now r else r) (raise_rows now table rows) =
      map (after_row now table) rows"
    by (auto simp: raise_rows_def after_row_def to_resolve_def split: option.split)
  with new show "map (\<lambda>r. if to_resolve table r then resolved_row now r else r)
      (raise_rows now table rows @ new_rows new_id now table rows) =
    map (after_row now table) rows @ new_rows new_id now table rows" by (simp add: map_idI)
  have "filter (to_resolve table) (raise_rows now table rows) = filter (to_resolve table) rows"
    by (induction rows) (auto simp: raise_rows_def to_resolve_def split: option.splits)
  with new show "filter (to_resolve table) (raise_rows now table rows @ new_rows new_id now table rows) =
      filter (to_resolve table) rows" by (simp add: filter_empty_conv)
qed

text \<open>The whole run, row by row.\<close>

lemma refresh_cases:
  assumes "refresh new_id now rs db = Some (db', res)" and "distinct (map row_key (xd_rows db))"
  obtains table where "raised_table [] rs = Some table" "table_ok table"
    "xd_rows db' = map (after_row now table) (xd_rows db) @ new_rows new_id now table (xd_rows db)"
    "xd_events db' = xd_events db @ concat (map (raise_events new_id now (xd_rows db)) table)
       @ map (\<lambda>r. run_event (er_id r) Ev_resolved now None) (filter (to_resolve table) (xd_rows db))"
    "xd_audit db' = xd_audit db"
    "res = (foldl (raise_count (xd_rows db)) no_writes table)\<lparr>rr_resolved :=
       rr_resolved (foldl (raise_count (xd_rows db)) no_writes table)
         + length (filter (to_resolve table) (xd_rows db))\<rparr>"
proof -
  obtain table where t: "raised_table [] rs = Some table" using assms(1) by (auto simp: refresh_def)
  then have ok: "table_ok table" by (rule raised_table_ok) (simp add: table_ok_def)
  obtain db1 res1 where loop: "foldl (raise_one new_id now) (db, no_writes) table = (db1, res1)"
    by (cases "foldl (raise_one new_id now) (db, no_writes) table")
  note l = raise_loop [OF assms(2) ok, of new_id now no_writes, unfolded loop fst_conv snd_conv]
  have "resolve_rest now table (db1, res1) = (db', res)" using assms(1) by (simp add: refresh_def t loop)
  then have r: "xd_rows db' = map (\<lambda>r. if to_resolve table r then resolved_row now r else r) (xd_rows db1)"
      "xd_events db' = xd_events db1 @ map (\<lambda>r. run_event (er_id r) Ev_resolved now None)
         (filter (to_resolve table) (xd_rows db1))"
      "xd_audit db' = xd_audit db1"
      "res = res1\<lparr>rr_resolved := rr_resolved res1 + length (filter (to_resolve table) (xd_rows db1))\<rparr>"
    by (auto simp: resolve_rest_def Let_def)
  have l: "xd_rows db1 = raise_rows now table (xd_rows db) @ new_rows new_id now table (xd_rows db)"
      "xd_events db1 = xd_events db @ concat (map (raise_events new_id now (xd_rows db)) table)"
      "xd_audit db1 = xd_audit db" "res1 = foldl (raise_count (xd_rows db)) no_writes table"
    using l by blast+
  show thesis
    by (rule that [OF t ok]) (simp_all only: r l resolve_raised_rows [OF ok] append_assoc)
qed


section \<open>The first sentence of an identity\<close>

definition first_raised :: "raised list \<Rightarrow> exc_key \<Rightarrow> raised option" where
  "first_raised rs k = List.find (\<lambda>r. raised_key r = Some k) rs"

lemma raised_table_first:
  "raised_table t rs = Some t' \<Longrightarrow>
    map_of t' k = (case map_of t k of Some r \<Rightarrow> Some r | None \<Rightarrow> first_raised rs k)"
proof (induction t rs rule: raised_table.induct)
  case (1 t)
  then show ?case by (simp add: first_raised_def split: option.split)
next
  case (2 t r rs)
  from "2.prems" obtain k' where k': "raised_key r = Some k'"
      "raised_table (if map_of t k' = None then t @ [(k', r)] else t) rs = Some t'"
    by (auto split: option.splits)
  show ?case using "2.IH" [OF k'] k'(1)
    by (auto simp: first_raised_def map_add_def split: option.splits if_splits)
qed

lemma raised_table_None: "raised_table t rs = None \<longleftrightarrow> (\<exists>r \<in> set rs. raised_key r = None)"
  by (induction t rs rule: raised_table.induct) (auto split: option.split)

lemma raised_table_map_of: "raised_table [] rs = Some table \<Longrightarrow> map_of table k = first_raised rs k"
  by (simp add: raised_table_first)

lemma table_keys: "raised_table [] rs = Some table \<Longrightarrow> fst ` set table = {k. first_raised rs k \<noteq> None}"
  by (auto simp: raised_table_map_of [symmetric] map_of_eq_None_iff)

lemma new_rows_keys:
  assumes "table_ok table"
  shows "map row_key (new_rows new_id now table rows) =
      filter (\<lambda>k. k \<notin> row_key ` set rows) (map fst table)"
    and "map er_id (new_rows new_id now table rows) =
      map new_id (filter (\<lambda>k. k \<notin> row_key ` set rows) (map fst table))"
  using assms by (induction table) (auto simp: new_rows_def table_ok_def)

lemma refresh_keys:
  assumes "refresh new_id now rs db = Some (db', res)" and "distinct (map row_key (xd_rows db))"
  shows "distinct (map row_key (xd_rows db'))"
    and "row_key ` set (xd_rows db') = row_key ` set (xd_rows db) \<union> {k. first_raised rs k \<noteq> None}"
proof -
  obtain table where t: "raised_table [] rs = Some table" "table_ok table"
      "xd_rows db' = map (after_row now table) (xd_rows db) @ new_rows new_id now table (xd_rows db)"
    using refresh_cases [OF assms] by metis
  have keys: "map row_key (xd_rows db') = map row_key (xd_rows db)
      @ filter (\<lambda>k. k \<notin> row_key ` set (xd_rows db)) (map fst table)"
    by (simp add: t(3) new_rows_keys(1) [OF t(2)] comp_def)
  then show "distinct (map row_key (xd_rows db'))"
    using assms(2) t(2) by (auto simp: table_ok_def)
  have "set (map row_key (xd_rows db')) = row_key ` set (xd_rows db) \<union> fst ` set table"
    unfolding keys by auto
  then show "row_key ` set (xd_rows db') = row_key ` set (xd_rows db) \<union> {k. first_raised rs k \<noteq> None}"
    using table_keys [OF t(1)] by simp
qed

lemma dismissed_kept:
  "er_status x = Exc_dismissed \<Longrightarrow> \<not> reopens r x \<Longrightarrow>
    er_dismissed_by (refreshed_row now r x) = er_dismissed_by x
    \<and> er_dismissed_at (refreshed_row now r x) = er_dismissed_at x"
  by (simp add: refreshed_row_def open_again_def)

lemma refresh_correct_parts:
  assumes "distinct (map row_key (xd_rows db))"
  shows "refresh new_id now rs db = None \<longleftrightarrow> (\<exists>r \<in> set rs. raised_key r = None)"
    and "refresh new_id now rs db = Some (db', res) \<Longrightarrow>
      distinct (map row_key (xd_rows db'))
      \<and> row_key ` set (xd_rows db') = row_key ` set (xd_rows db) \<union> {k. first_raised rs k \<noteq> None}"
    and "refresh new_id now rs db = Some (db', res) \<Longrightarrow> x \<in> set (xd_rows db) \<Longrightarrow>
      \<exists>x' \<in> set (xd_rows db'). row_key x' = row_key x \<and> er_id x' = er_id x
        \<and> er_assigned_to x' = er_assigned_to x
        \<and> (case first_raised rs (row_key x) of
             None \<Rightarrow> er_status x' = Exc_resolved
           | Some r \<Rightarrow> er_message x' = is_message (rs_issue r) \<and> er_severity x' = rs_severity r
               \<and> detail_eq (er_detail x') (plain (is_detail (rs_issue r)))
               \<and> (if er_status x = Exc_dismissed \<and> \<not> reopens r x
                  then er_status x' = Exc_dismissed \<and> er_dismissed_by x' = er_dismissed_by x
                    \<and> er_dismissed_at x' = er_dismissed_at x
                  else er_status x' = Exc_open))"
    and "refresh new_id now rs db = Some (db', res) \<Longrightarrow> first_raised rs k = Some r \<Longrightarrow>
      k \<notin> row_key ` set (xd_rows db) \<Longrightarrow> raised_row (new_id k) now k r \<in> set (xd_rows db')"
proof -
  show "refresh new_id now rs db = None \<longleftrightarrow> (\<exists>r \<in> set rs. raised_key r = None)"
    by (simp add: refresh_def raised_table_None)
next
  assume "refresh new_id now rs db = Some (db', res)"
  then show "distinct (map row_key (xd_rows db'))
      \<and> row_key ` set (xd_rows db') = row_key ` set (xd_rows db) \<union> {k. first_raised rs k \<noteq> None}"
    using refresh_keys assms by blast
next
  assume run: "refresh new_id now rs db = Some (db', res)" and x: "x \<in> set (xd_rows db)"
  obtain table where t: "raised_table [] rs = Some table"
      "xd_rows db' = map (after_row now table) (xd_rows db) @ new_rows new_id now table (xd_rows db)"
    using refresh_cases [OF run assms] by metis
  have "after_row now table x \<in> set (xd_rows db')" using x by (simp add: t(2))
  moreover have "er_assigned_to (after_row now table x) = er_assigned_to x"
    by (simp add: after_row_def resolved_row_def split: option.split)
  ultimately show "\<exists>x' \<in> set (xd_rows db'). row_key x' = row_key x \<and> er_id x' = er_id x
        \<and> er_assigned_to x' = er_assigned_to x
        \<and> (case first_raised rs (row_key x) of
             None \<Rightarrow> er_status x' = Exc_resolved
           | Some r \<Rightarrow> er_message x' = is_message (rs_issue r) \<and> er_severity x' = rs_severity r
               \<and> detail_eq (er_detail x') (plain (is_detail (rs_issue r)))
               \<and> (if er_status x = Exc_dismissed \<and> \<not> reopens r x
                  then er_status x' = Exc_dismissed \<and> er_dismissed_by x' = er_dismissed_by x
                    \<and> er_dismissed_at x' = er_dismissed_at x
                  else er_status x' = Exc_open))"
    by (intro bexI [of _ "after_row now table x"])
      (auto simp: after_row_def raised_table_map_of [OF t(1)] refreshed_fields refreshed_status
        dismissed_kept split: option.split)
next
  assume run: "refresh new_id now rs db = Some (db', res)" and r: "first_raised rs k = Some r"
    and k: "k \<notin> row_key ` set (xd_rows db)"
  obtain table where t: "raised_table [] rs = Some table"
      "xd_rows db' = map (after_row now table) (xd_rows db) @ new_rows new_id now table (xd_rows db)"
    using refresh_cases [OF run assms] by metis
  have "(k, r) \<in> set table" using r raised_table_map_of [OF t(1)] by (metis map_of_SomeD)
  then show "raised_row (new_id k) now k r \<in> set (xd_rows db')"
    using k by (force simp: t(2) new_rows_def)
qed

text \<open>
  C4: one run. It fails exactly when a sentence has a code that is not queued. Otherwise there is
  afterwards one exception for every identity that had one or is raised, and none other. Each
  exception that was there keeps its id, its assignment and its identity; when its sentence is no
  longer raised it is resolved; when it is raised it states the first sentence raised for it, with
  that sentence's severity, and it is open, except that a dismissed one whose stated fields are
  unchanged stays dismissed, by the same person at the same time. A new identity opens a new
  exception with no one assigned.
\<close>

theorem refresh_correct:
  assumes "distinct (map row_key (xd_rows db))"
  shows "case refresh new_id now rs db of
      None \<Rightarrow> \<exists>r \<in> set rs. raised_key r = None
    | Some (db', res) \<Rightarrow> (\<forall>r \<in> set rs. raised_key r \<noteq> None)
        \<and> distinct (map row_key (xd_rows db'))
        \<and> row_key ` set (xd_rows db') = row_key ` set (xd_rows db) \<union> {k. first_raised rs k \<noteq> None}
        \<and> (\<forall>x \<in> set (xd_rows db). \<exists>x' \<in> set (xd_rows db'). row_key x' = row_key x \<and> er_id x' = er_id x
            \<and> er_assigned_to x' = er_assigned_to x
            \<and> (case first_raised rs (row_key x) of
                 None \<Rightarrow> er_status x' = Exc_resolved
               | Some r \<Rightarrow> er_message x' = is_message (rs_issue r) \<and> er_severity x' = rs_severity r
                   \<and> detail_eq (er_detail x') (plain (is_detail (rs_issue r)))
                   \<and> (if er_status x = Exc_dismissed \<and> \<not> reopens r x
                      then er_status x' = Exc_dismissed \<and> er_dismissed_by x' = er_dismissed_by x
                        \<and> er_dismissed_at x' = er_dismissed_at x
                      else er_status x' = Exc_open)))
        \<and> (\<forall>k r. first_raised rs k = Some r \<and> k \<notin> row_key ` set (xd_rows db) \<longrightarrow>
            raised_row (new_id k) now k r \<in> set (xd_rows db'))"
proof (cases "refresh new_id now rs db")
  case None
  then show ?thesis using refresh_correct_parts(1) [OF assms, of new_id now rs] unfolding None option.case by blast
next
  case (Some dr)
  obtain db' res where dr: "dr = (db', res)" by (cases dr)
  have run: "refresh new_id now rs db = Some (db', res)" using Some dr by simp
  have "\<forall>r \<in> set rs. raised_key r \<noteq> None" using refresh_correct_parts(1) [OF assms, of new_id now rs] run by auto
  then show ?thesis unfolding run option.case prod.case
    using refresh_correct_parts(2) [OF assms run]
    by (intro conjI ballI allI impI refresh_correct_parts(3,4) [OF assms run]) blast+
qed

section \<open>A second run with nothing changed\<close>

definition settled :: "(exc_key, raised) dict \<Rightarrow> exc_row \<Rightarrow> bool" where
  "settled table x \<longleftrightarrow> (case map_of table (row_key x) of
     None \<Rightarrow> er_status x = Exc_resolved
   | Some r \<Rightarrow> \<not> row_changed r x \<and> (er_status x = Exc_open \<or> er_status x = Exc_dismissed \<and> \<not> reopens r x))"

lemma not_changed_refreshed: "\<not> row_changed r (refreshed_row now r x)"
  using refreshed_fields [of now r x] by (simp add: row_changed_def)

lemma not_reopens_refreshed:
  assumes "er_status x = Exc_dismissed" and "\<not> reopens r x"
  shows "\<not> reopens r (refreshed_row now r x)"
proof -
  have "er_code (refreshed_row now r x) = er_code x"
    by (simp add: refreshed_row_def open_again_def split: exc_status.split)
  moreover have "er_detail (refreshed_row now r x) = er_detail x
      \<or> er_detail (refreshed_row now r x) = plain (is_detail (rs_issue r))"
    using assms by (simp add: refreshed_row_def open_again_def)
  ultimately show ?thesis using assms(2) by (auto simp: reopens_def stated_before_after_def)
qed

lemma settled_after: "settled table (after_row now table x)"
  unfolding settled_def after_row_key
  by (auto simp: after_row_def not_changed_refreshed not_reopens_refreshed refreshed_status
      split: option.split)

lemma settled_new:
  assumes "table_ok table" and "y \<in> set (new_rows new_id now table rows)"
  shows "settled table y"
proof -
  obtain k r where kr: "(k, r) \<in> set table" "y = raised_row (new_id k) now k r"
    using assms(2) by (auto simp: new_rows_def)
  then show ?thesis using table_new_key [OF assms(1) kr(1)]
    by (simp add: settled_def row_changed_def) (simp add: raised_row_def detail_eq_iff)
qed

lemma settled_stays:
  assumes "settled table x"
  shows "after_row now table x = x" and "\<not> to_resolve table x"
    and "map_of table (row_key x) = Some r \<Longrightarrow> refresh_events now r x = [] \<and> count_refresh r x res = res"
  using assms
  by (auto simp: settled_def after_row_def refreshed_row_def open_again_def to_resolve_def
      refresh_events_def count_refresh_def split: option.splits)

text \<open>
  A run is idempotent. When the same sentences are raised again, at any later time, the run
  writes nothing: no row, no event, no audit row, and it reports no write.
\<close>

theorem refresh_idempotent:
  assumes "refresh new_id now rs db = Some (db', res)" and "distinct (map row_key (xd_rows db))"
  shows "refresh new_id' now' rs db' = Some (db', no_writes) \<and> writes no_writes = 0"
proof -
  obtain table where t: "raised_table [] rs = Some table" "table_ok table"
      "xd_rows db' = map (after_row now table) (xd_rows db) @ new_rows new_id now table (xd_rows db)"
    using refresh_cases [OF assms] by metis
  have settled: "settled table x" if "x \<in> set (xd_rows db')" for x
    using that settled_after settled_new [OF t(2)] by (auto simp: t(3))
  note keys = refresh_keys [OF assms]
  obtain db2 res2 where run2: "refresh new_id' now' rs db' = Some (db2, res2)"
    by (cases "refresh new_id' now' rs db'") (auto simp: refresh_def t(1))
  obtain table2 where t2: "raised_table [] rs = Some table2"
      "xd_rows db2 = map (after_row now' table2) (xd_rows db') @ new_rows new_id' now' table2 (xd_rows db')"
      "xd_events db2 = xd_events db' @ concat (map (raise_events new_id' now' (xd_rows db')) table2)
         @ map (\<lambda>r. run_event (er_id r) Ev_resolved now' None) (filter (to_resolve table2) (xd_rows db'))"
      "xd_audit db2 = xd_audit db'"
      "res2 = (foldl (raise_count (xd_rows db')) no_writes table2)\<lparr>rr_resolved :=
         rr_resolved (foldl (raise_count (xd_rows db')) no_writes table2)
           + length (filter (to_resolve table2) (xd_rows db'))\<rparr>"
    using refresh_cases [OF run2 keys(1)] by metis
  have table2: "table2 = table" using t(1) t2(1) by simp
  have none: "filter (to_resolve table) (xd_rows db') = []"
    using settled settled_stays(2) by (auto simp: filter_empty_conv)
  have found: "\<exists>x. find_key k (xd_rows db') = Some x \<and> settled table x \<and> map_of table (row_key x) = Some r"
    if kr: "(k, r) \<in> set table" for k r
  proof -
    have "map_of table k = Some r" using table_new_key [OF t(2) kr] by simp
    then have "k \<in> row_key ` set (xd_rows db')" unfolding keys(2) by (simp add: raised_table_map_of [OF t(1)])
    then obtain x where x: "find_key k (xd_rows db') = Some x"
      using find_key_None [of k "xd_rows db'"] by (cases "find_key k (xd_rows db')") auto
    with find_key_Some [OF x] settled \<open>map_of table k = Some r\<close> show ?thesis by auto
  qed
  have quiet: "raise_events new_id' now' (xd_rows db') kr = []" "raise_count (xd_rows db') res kr = res"
    if "kr \<in> set table" for kr res
    using found [of "fst kr" "snd kr"] that settled_stays(3)
    by (fastforce simp: raise_events_def raise_count_def)+
  have "foldl (raise_count (xd_rows db')) no_writes table = foldl (\<lambda>r kr. r) no_writes table"
    using quiet(2) by (intro foldl_cong) auto
  moreover have "foldl (\<lambda>r kr. r) no_writes kvs = no_writes" for kvs :: "(exc_key, raised) dict"
    by (induction kvs) auto
  ultimately have "res2 = no_writes" using t2(5) by (simp add: table2 none no_writes_def)
  moreover have "xd_rows db2 = xd_rows db'"
  proof -
    have "new_rows new_id' now' table (xd_rows db') = []"
      using keys(2) table_keys [OF t(1)] by (auto simp: new_rows_def filter_empty_conv)
    then show ?thesis using settled settled_stays(1) by (simp add: t2(2) table2 map_idI)
  qed
  moreover have "xd_events db2 = xd_events db'"
    using quiet(1) by (simp add: t2(3) table2 none concat_eq_Nil_conv)
  ultimately have "db2 = db'" and "res2 = no_writes" using t2(4) by (auto intro: exc_db.equality)
  with run2 show ?thesis by (simp add: writes_def no_writes_def)
qed

end
