(* ===== verification/ExceptionHistory.thy ===== *)
theory ExceptionHistory
  imports Exceptions
begin

text \<open>
  The queue as a machine whose steps are the run and every action of a person: its event log
  replays to its rows in every reachable state, who may change a status, what a request for
  a run leaves queued, and the state in which a dismissed exception blocks the close.
\<close>

section \<open>The history of an exception\<close>

text \<open>
  What the event log says of an exception: its status, who it is assigned to, when it was
  resolved, when and by whom dismissed.
\<close>

type_synonym exc_state = "exc_status \<times> uuid option \<times> int option \<times> int option \<times> uuid option"

definition replay_event :: "exc_state option \<Rightarrow> exc_event \<Rightarrow> exc_state option" where
  "replay_event h e = (case ev_kind e of
     Ev_raised \<Rightarrow> Some (Exc_open, None, None, None, None)
   | Ev_raised_again \<Rightarrow> map_option (\<lambda>(_, a, _). (Exc_open, a, None, None, None)) h
   | Ev_reopened \<Rightarrow> map_option (\<lambda>(_, a, _). (Exc_open, a, None, None, None)) h
   | Ev_resolved \<Rightarrow> map_option (\<lambda>(_, a, _). (Exc_resolved, a, Some (ev_at e), None, None)) h
   | Ev_dismissed \<Rightarrow> map_option (\<lambda>(_, a, _). (Exc_dismissed, a, None, Some (ev_at e), ev_actor e)) h
   | Ev_assigned \<Rightarrow> map_option (\<lambda>(s, _, rest). (s, ev_assigned e, rest)) h
   | Ev_note \<Rightarrow> h)"

definition replay :: "exc_event list \<Rightarrow> exc_state option" where
  "replay es = foldl replay_event None es"

definition state_of :: "exc_row \<Rightarrow> exc_state" where
  "state_of r = (er_status r, er_assigned_to r, er_resolved_at r, er_dismissed_at r, er_dismissed_by r)"

definition history :: "exc_db \<Rightarrow> uuid \<Rightarrow> exc_event list" where
  "history db i = filter (\<lambda>e. ev_exception e = i) (xd_events db)"

text \<open>The constraints, and that nothing is left of a state the exception is no longer in.\<close>

definition row_strict :: "exc_row \<Rightarrow> bool" where
  "row_strict r \<longleftrightarrow> (case er_status r of
     Exc_open \<Rightarrow> er_resolved_at r = None \<and> er_dismissed_at r = None \<and> er_dismissed_by r = None
   | Exc_resolved \<Rightarrow> er_resolved_at r \<noteq> None \<and> er_dismissed_at r = None \<and> er_dismissed_by r = None
   | Exc_dismissed \<Rightarrow> er_resolved_at r = None \<and> er_dismissed_at r \<noteq> None \<and> er_dismissed_by r \<noteq> None)"

definition told :: "exc_row \<Rightarrow> exc_event list \<Rightarrow> bool" where
  "told r es \<longleftrightarrow> row_strict r \<and> replay es = Some (state_of r)"

definition exc_inv :: "exc_db \<Rightarrow> bool" where
  "exc_inv db \<longleftrightarrow> distinct (map er_id (xd_rows db)) \<and> distinct (map row_key (xd_rows db))
     \<and> (\<forall>e \<in> set (xd_events db). ev_exception e \<in> er_id ` set (xd_rows db) \<and> event_checks e)
     \<and> (\<forall>r \<in> set (xd_rows db). told r (history db (er_id r)))"

text \<open>
  A run, or an action of a signed-in person. The database draws new ids for new rows.
\<close>

inductive exc_step :: "exc_db \<Rightarrow> exc_db \<Rightarrow> bool" where
  run_step: "refresh new_id now rs db = Some (db', res) \<Longrightarrow> distinct (map er_id (xd_rows db')) \<Longrightarrow>
    exc_step db db'"
| assign_step: "assign_exception members db i user (Some u) now = Inr db' \<Longrightarrow> exc_step db db'"
| note_step: "add_note db i content (Some u) now = Inr db' \<Longrightarrow> exc_step db db'"
| dismiss_step: "dismiss db i content (Some u) now = Inr db' \<Longrightarrow> exc_step db db'"
| reopen_step: "reopen db i (Some u) now = Inr db' \<Longrightarrow> exc_step db db'"

lemma replay_snoc: "replay (es @ [e]) = replay_event (replay es) e"
  by (simp add: replay_def)

lemma run_event_simps [simp]:
  "ev_exception (run_event i kind now c) = i" "ev_kind (run_event i kind now c) = kind"
  "ev_at (run_event i kind now c) = now" "ev_actor (run_event i kind now c) = None"
  by (simp_all add: run_event_def)

lemma run_event_checks: "kind \<noteq> Ev_note \<Longrightarrow> kind \<noteq> Ev_dismissed \<Longrightarrow> event_checks (run_event i kind now c)"
  by (simp add: event_checks_def run_event_def)

lemma told_refreshed: "told x es \<Longrightarrow> told (refreshed_row now r x) (es @ refresh_events now r x)"
  by (auto simp: told_def row_strict_def refreshed_row_def open_again_def refresh_events_def
      replay_snoc replay_event_def state_of_def split: exc_status.splits)

lemma told_resolved:
  "told x es \<Longrightarrow> told (resolved_row now x) (es @ [run_event (er_id x) Ev_resolved now None])"
  by (auto simp: told_def row_strict_def resolved_row_def replay_snoc replay_event_def state_of_def)

lemma told_raised: "told (raised_row i now k r) [run_event i Ev_raised now None]"
  by (simp add: told_def row_strict_def raised_row_def replay_def replay_event_def state_of_def)

lemma told_checks: "told r es \<Longrightarrow> row_checks r"
  by (auto simp: told_def row_strict_def row_checks_def split: exc_status.splits)

text \<open>The events a run adds for one exception.\<close>

lemma concat_one:
  assumes "\<And>kr. kr \<in> set kvs \<Longrightarrow> fst kr \<noteq> k \<Longrightarrow> filter P (f kr) = []" and "distinct (map fst kvs)"
  shows "filter P (concat (map f kvs)) = (case map_of kvs k of None \<Rightarrow> [] | Some r \<Rightarrow> filter P (f (k, r)))"
  using assms
proof (induction kvs)
  case (Cons kr kvs)
  obtain k' r where kr: "kr = (k', r)" by (cases kr)
  have IH: "filter P (concat (map f kvs)) = (case map_of kvs k of None \<Rightarrow> [] | Some r \<Rightarrow> filter P (f (k, r)))"
    using Cons by auto
  show ?case
  proof (cases "k' = k")
    case True
    then have "map_of kvs k = None" using Cons.prems(2) by (simp add: kr map_of_eq_None_iff)
    with IH True show ?thesis by (simp add: kr)
  next
    case False
    then show ?thesis using IH Cons.prems(1) [of kr] by (simp add: kr)
  qed
qed simp

lemma raise_event_owner:
  assumes "e \<in> set (raise_events new_id now rows (k, r))"
  obtains (new) "k \<notin> row_key ` set rows" "ev_exception e = new_id k" "event_checks e"
  | (old) x where "x \<in> set rows" "row_key x = k" "ev_exception e = er_id x" "event_checks e"
proof (cases "find_key k rows")
  case None
  with assms show ?thesis by (intro new) (simp_all add: raise_events_def run_event_checks find_key_None)
next
  case (Some x)
  then have "e \<in> set (refresh_events now r x)" using assms by (simp add: raise_events_def)
  then have "ev_exception e = er_id x \<and> event_checks e"
    by (auto simp: refresh_events_def run_event_checks split: exc_status.splits if_splits)
  with find_key_Some [OF Some] old show ?thesis by blast
qed

text \<open>The ids a run draws for its new exceptions are new and distinct.\<close>

definition draws :: "(exc_key \<Rightarrow> uuid) \<Rightarrow> (exc_key, raised) dict \<Rightarrow> exc_row list \<Rightarrow> bool" where
  "draws new_id table rows \<longleftrightarrow> distinct (map er_id rows) \<and> distinct (map row_key rows) \<and> table_ok table
     \<and> (\<forall>k \<in> fst ` set table - row_key ` set rows. new_id k \<notin> er_id ` set rows)
     \<and> inj_on new_id (fst ` set table - row_key ` set rows)"

lemma drawsI:
  assumes "distinct (map er_id (rows @ new_rows new_id now table rows))" and "table_ok table"
    and "distinct (map row_key rows)"
  shows "draws new_id table rows"
proof -
  let ?new = "filter (\<lambda>k. k \<notin> row_key ` set rows) (map fst table)"
  have set: "set ?new = fst ` set table - row_key ` set rows" by auto
  have "distinct (map er_id rows @ map new_id ?new)"
    using assms(1) by (simp add: new_rows_keys(2) [OF assms(2)])
  then have "set (map er_id rows) \<inter> new_id ` set ?new = {} \<and> inj_on new_id (set ?new)
      \<and> distinct (map er_id rows)"
    unfolding distinct_append distinct_map [of new_id] set_map [of new_id] by blast
  then show ?thesis unfolding draws_def set set_map using assms(2,3) by blast
qed

lemma raised_events_of:
  assumes "draws new_id table rows" and "x \<in> set rows"
  shows "filter (\<lambda>e. ev_exception e = er_id x) (concat (map (raise_events new_id now rows) table)) =
    (case map_of table (row_key x) of None \<Rightarrow> [] | Some r \<Rightarrow> refresh_events now r x)"
proof -
  let ?P = "\<lambda>e. ev_exception e = er_id x"
  have one: "y = x" if "y \<in> set rows" "er_id y = er_id x" for y
    using assms that by (auto simp: draws_def distinct_map dest: inj_onD)
  have "filter ?P (raise_events new_id now rows kr) = []" if kr: "kr \<in> set table" "fst kr \<noteq> row_key x" for kr
  proof -
    obtain k r where k: "kr = (k, r)" by (cases kr)
    have "\<not> ?P e" if "e \<in> set (raise_events new_id now rows (k, r))" for e
      using that
    proof (cases rule: raise_event_owner)
      case new
      have "k \<in> fst ` set table" using kr(1) k by force
      then show ?thesis using new assms by (auto simp: draws_def)
    next
      case (old y)
      then show ?thesis using one [of y] kr(2) k by auto
    qed
    then show ?thesis unfolding k by (simp add: filter_empty_conv)
  qed
  then have "filter ?P (concat (map (raise_events new_id now rows) table)) =
      (case map_of table (row_key x) of None \<Rightarrow> []
       | Some r \<Rightarrow> filter ?P (raise_events new_id now rows (row_key x, r)))"
    using assms(1) by (intro concat_one) (auto simp: draws_def table_ok_def)
  also have "\<dots> = (case map_of table (row_key x) of None \<Rightarrow> [] | Some r \<Rightarrow> refresh_events now r x)"
    using find_key_unique [OF _ assms(2)] assms(1)
    by (auto simp: draws_def raise_events_def refresh_events_def split: option.split exc_status.split)
  finally show ?thesis .
qed

lemma raised_events_new:
  assumes "draws new_id table rows" and "(k, r) \<in> set table" and "k \<notin> row_key ` set rows"
  shows "filter (\<lambda>e. ev_exception e = new_id k) (concat (map (raise_events new_id now rows) table)) =
    [run_event (new_id k) Ev_raised now None]"
proof -
  let ?P = "\<lambda>e. ev_exception e = new_id k"
  have k: "k \<in> fst ` set table - row_key ` set rows" using assms(2,3) by force
  then have fresh: "new_id k \<notin> er_id ` set rows" using assms(1) by (simp add: draws_def)
  have "filter ?P (raise_events new_id now rows kr) = []" if kr: "kr \<in> set table" "fst kr \<noteq> k" for kr
  proof -
    obtain k' r' where k': "kr = (k', r')" by (cases kr)
    have "\<not> ?P e" if "e \<in> set (raise_events new_id now rows (k', r'))" for e
      using that
    proof (cases rule: raise_event_owner)
      case new
      then have "k' \<in> fst ` set table - row_key ` set rows" using kr(1) k' by force
      then show ?thesis using new(2) k kr(2) k' assms(1) by (auto simp: draws_def dest: inj_onD)
    next
      case (old y)
      then have "ev_exception e \<in> er_id ` set rows" by simp
      then show ?thesis using fresh by metis
    qed
    then show ?thesis unfolding k' by (simp add: filter_empty_conv)
  qed
  then have "filter ?P (concat (map (raise_events new_id now rows) table)) =
      (case map_of table k of None \<Rightarrow> [] | Some r \<Rightarrow> filter ?P (raise_events new_id now rows (k, r)))"
    using assms(1) by (intro concat_one) (auto simp: draws_def table_ok_def)
  moreover have "find_key k rows = None" using assms(3) by (simp add: find_key_None)
  moreover have "map_of table k = Some r" using assms(1,2) table_new_key by (simp add: draws_def)
  ultimately show ?thesis by (simp add: raise_events_def)
qed

lemma resolved_events_of:
  assumes "distinct (map er_id rows)"
  shows "filter (\<lambda>e. ev_exception e = i) (map (\<lambda>r. run_event (er_id r) Ev_resolved now None)
      (filter P rows)) = map (\<lambda>r. run_event i Ev_resolved now None) (filter (\<lambda>r. er_id r = i \<and> P r) rows)"
    and "x \<in> set rows \<Longrightarrow> filter (\<lambda>r. er_id r = er_id x \<and> P r) rows = (if P x then [x] else [])"
proof -
  show "filter (\<lambda>e. ev_exception e = i) (map (\<lambda>r. run_event (er_id r) Ev_resolved now None)
      (filter P rows)) = map (\<lambda>r. run_event i Ev_resolved now None) (filter (\<lambda>r. er_id r = i \<and> P r) rows)"
    by (induction rows) auto
  show "x \<in> set rows \<Longrightarrow> filter (\<lambda>r. er_id r = er_id x \<and> P r) rows = (if P x then [x] else [])"
    using assms by (induction rows) (auto simp: filter_empty_conv rev_image_eqI)
qed

lemma run_inv:
  assumes inv: "exc_inv db" and run: "refresh new_id now rs db = Some (db', res)"
    and ids: "distinct (map er_id (xd_rows db'))"
  shows "exc_inv db'"
proof -
  have keys: "distinct (map row_key (xd_rows db))" and old_ids: "distinct (map er_id (xd_rows db))"
    using inv by (simp_all add: exc_inv_def)
  obtain table where t: "table_ok table"
      "xd_rows db' = map (after_row now table) (xd_rows db) @ new_rows new_id now table (xd_rows db)"
      "xd_events db' = xd_events db @ concat (map (raise_events new_id now (xd_rows db)) table)
       @ map (\<lambda>r. run_event (er_id r) Ev_resolved now None) (filter (to_resolve table) (xd_rows db))"
    using refresh_cases [OF run keys] by metis
  have draws: "draws new_id table (xd_rows db)"
    using ids by (intro drawsI [OF _ t(1) keys, where now = now]) (simp add: t(2) comp_def)
  have ids': "er_id ` set (xd_rows db') = er_id ` set (xd_rows db)
      \<union> new_id ` (fst ` set table - row_key ` set (xd_rows db))"
  proof -
    have "set (map er_id (xd_rows db')) = set (map er_id (xd_rows db))
        \<union> set (map er_id (new_rows new_id now table (xd_rows db)))" by (simp add: t(2) image_image)
    then show ?thesis unfolding new_rows_keys(2) [OF t(1)] by auto
  qed
  let ?fine = "\<lambda>e. ev_exception e \<in> er_id ` set (xd_rows db') \<and> event_checks e"
  have "\<forall>e \<in> set (concat (map (raise_events new_id now (xd_rows db)) table)). ?fine e"
  proof
    fix e
    assume "e \<in> set (concat (map (raise_events new_id now (xd_rows db)) table))"
    then obtain k r where kr: "(k, r) \<in> set table" "e \<in> set (raise_events new_id now (xd_rows db) (k, r))"
      by auto
    from kr(2) show "?fine e"
    proof (cases rule: raise_event_owner)
      case new
      then have "k \<in> fst ` set table - row_key ` set (xd_rows db)" using kr(1) by force
      with new show ?thesis unfolding ids' by simp
    qed (simp add: ids')
  qed
  moreover have "\<forall>e \<in> set (xd_events db). ?fine e" using inv by (simp add: exc_inv_def ids')
  moreover have "\<forall>e \<in> set (map (\<lambda>r. run_event (er_id r) Ev_resolved now None)
      (filter (to_resolve table) (xd_rows db))). ?fine e" by (simp add: ids' run_event_checks)
  ultimately have events: "\<forall>e \<in> set (xd_events db'). ?fine e" unfolding t(3) set_append by blast
  have old: "told (after_row now table x) (history db' (er_id x))" if x: "x \<in> set (xd_rows db)" for x
  proof -
    have "told x (history db (er_id x))" using inv x by (simp add: exc_inv_def)
    moreover have "history db' (er_id x) = history db (er_id x)
        @ (case map_of table (row_key x) of None \<Rightarrow> [] | Some r \<Rightarrow> refresh_events now r x)
        @ (if to_resolve table x then [run_event (er_id x) Ev_resolved now None] else [])"
      by (simp add: history_def t(3) raised_events_of [OF draws x] resolved_events_of(1) [OF old_ids]
          resolved_events_of(2) [OF old_ids x])
    ultimately show ?thesis using told_refreshed told_resolved
      by (simp add: after_row_def to_resolve_def split: option.splits)
  qed
  have new: "told y (history db' (er_id y))" if y: "y \<in> set (new_rows new_id now table (xd_rows db))" for y
  proof -
    obtain k r where kr: "(k, r) \<in> set table" "k \<notin> row_key ` set (xd_rows db)"
        "y = raised_row (new_id k) now k r" using y by (auto simp: new_rows_def)
    then have "k \<in> fst ` set table - row_key ` set (xd_rows db)" by force
    then have fresh: "new_id k \<notin> er_id ` set (xd_rows db)" using draws by (simp add: draws_def)
    have "\<forall>e \<in> set (xd_events db). ev_exception e \<noteq> new_id k"
      using inv fresh unfolding exc_inv_def by metis
    then have "filter (\<lambda>e. ev_exception e = new_id k) (xd_events db) = []" by (simp add: filter_empty_conv)
    moreover have "filter (\<lambda>r. er_id r = new_id k \<and> to_resolve table r) (xd_rows db) = []"
      using fresh unfolding filter_empty_conv by (metis image_eqI)
    ultimately show ?thesis
      by (simp add: history_def t(3) kr(3) raised_events_new [OF draws kr(1,2)]
          resolved_events_of(1) [OF old_ids] told_raised)
  qed
  have "\<forall>r \<in> set (xd_rows db'). told r (history db' (er_id r))" using old new unfolding t(2) by auto
  then show ?thesis using ids refresh_keys(1) [OF run keys] events unfolding exc_inv_def by blast
qed


lemma exc_find_Some: "exc_find db i = Some row \<Longrightarrow> row \<in> set (xd_rows db) \<and> er_id row = i"
  unfolding exc_find_def by (rule find_mem)

lemma exc_find_iff:
  assumes "distinct (map er_id (xd_rows db))"
  shows "exc_find db i = Some row \<longleftrightarrow> row \<in> set (xd_rows db) \<and> er_id row = i"
proof
  assume row: "row \<in> set (xd_rows db) \<and> er_id row = i"
  then obtain x where x: "exc_find db i = Some x"
    by (cases "exc_find db i") (auto simp: exc_find_def find_None_iff)
  then have "x = row" using exc_find_Some [OF x] row assms by (auto simp: distinct_map dest: inj_onD)
  with x show "exc_find db i = Some row" by simp
qed (rule exc_find_Some)

text \<open>Every action of a person that is not refused, by the row it found.\<close>

lemma record_change_Inr:
  "record_change db row row' e what = Inr db' \<Longrightarrow>
    row_checks row' \<and> event_checks e \<and> xd_events db' = xd_events db @ [e]
    \<and> xd_rows db' = map (\<lambda>r. if er_id r = er_id row then row' else r) (xd_rows db)
    \<and> xd_audit db' = xd_audit db @ [\<lparr>xa_event = what, xa_exception = er_id row, xa_actor = ev_actor e,
        xa_before = exc_fields_of row, xa_after = exc_fields_of row'\<rparr>]"
  by (auto simp: record_change_def split: if_splits)

lemma history_append: "history (db\<lparr>xd_rows := rows, xd_events := es @ [e], xd_audit := a\<rparr>) i =
    filter (\<lambda>e. ev_exception e = i) es @ (if ev_exception e = i then [e] else [])"
  by (simp add: history_def)

lemma change_inv:
  assumes inv: "exc_inv db" and row: "exc_find db i = Some row"
    and change: "record_change db row row' e what = Inr db'"
    and same: "er_id row' = er_id row" "row_key row' = row_key row" "ev_exception e = er_id row"
    and told: "told row (history db (er_id row)) \<Longrightarrow> told row' (history db (er_id row) @ [e])"
  shows "exc_inv db'"
proof -
  note c = record_change_Inr [OF change]
  note r = exc_find_Some [OF row]
  let ?f = "\<lambda>x. if er_id x = er_id row then row' else x"
  have rows: "xd_rows db' = map ?f (xd_rows db)" and events: "xd_events db' = xd_events db @ [e]"
    using c by auto
  have one: "x = row" if "x \<in> set (xd_rows db)" "er_id x = er_id row" for x
    using inv r that by (auto simp: exc_inv_def distinct_map dest: inj_onD)
  have f: "er_id (?f x) = er_id x" "x \<in> set (xd_rows db) \<Longrightarrow> row_key (?f x) = row_key x" for x
    using same one by auto
  have "map er_id (xd_rows db') = map er_id (xd_rows db)"
    and "map row_key (xd_rows db') = map row_key (xd_rows db)"
    unfolding rows map_map by (rule map_cong [OF refl], simp add: f)+
  moreover have "\<forall>e \<in> set (xd_events db'). ev_exception e \<in> er_id ` set (xd_rows db') \<and> event_checks e"
  proof -
    have "er_id ` set (xd_rows db') = er_id ` set (xd_rows db)"
      using arg_cong [OF \<open>map er_id (xd_rows db') = map er_id (xd_rows db)\<close>, of set] by simp
    moreover have "ev_exception e \<in> er_id ` set (xd_rows db)"
      using imageI [of row "set (xd_rows db)" er_id] r same(3) by simp
    moreover have "event_checks e" using c by blast
    ultimately show ?thesis using inv by (simp add: events exc_inv_def)
  qed
  moreover have told_f: "told (?f x) (history db' (er_id x))" if x: "x \<in> set (xd_rows db)" for x
  proof -
    have "told x (history db (er_id x))" using inv x by (simp add: exc_inv_def)
    then show ?thesis using told one [OF x] same(3) by (auto simp: history_def events)
  qed
  moreover have "\<forall>r \<in> set (xd_rows db'). told r (history db' (er_id r))"
    using told_f unfolding rows set_map ball_simps f(1) by blast
  ultimately show ?thesis using inv unfolding exc_inv_def by simp
qed

lemma exc_inv_step:
  assumes "exc_inv db" and "exc_step db db'"
  shows "exc_inv db'"
  using assms(2)
proof (cases rule: exc_step.cases)
  case (run_step new_id now rs res)
  then show ?thesis using run_inv [OF assms(1)] by blast
next
  case (assign_step members i user u now)
  then obtain row where row: "exc_find db i = Some row"
      "record_change db row (row\<lparr>er_assigned_to := user\<rparr>)
        (person_event i Ev_assigned (Some u) now None user) Audit_assigned = Inr db'"
    by (auto simp: assign_exception_def split: option.splits if_splits)
  show ?thesis
    using exc_find_Some [OF row(1)]
    by (intro change_inv [OF assms(1) row]) (auto simp: row_key_def person_event_def told_def row_strict_def
      replay_snoc replay_event_def state_of_def split: exc_status.splits)
next
  case (note_step i t u now)
  then obtain row note' where n: "exc_find db i = Some row"
      "db' = db\<lparr>xd_events := xd_events db @ [person_event i Ev_note (Some u) now (Some note') None]\<rparr>"
      "event_checks (person_event i Ev_note (Some u) now (Some note') None)"
    by (auto simp: add_note_def Let_def split: option.splits if_splits)
  have "told r (history db' (er_id r))" if "r \<in> set (xd_rows db)" for r
    using assms(1) that
    by (auto simp: exc_inv_def n(2) history_def told_def replay_snoc replay_event_def person_event_def)
  then show ?thesis using assms(1) exc_find_Some [OF n(1)] n(3)
    by (auto simp: exc_inv_def n(2) person_event_def)
next
  case (dismiss_step i t u now)
  then obtain row note' where row: "exc_find db i = Some row" "er_status row = Exc_open"
      "record_change db row (dismissed_row row (Some u) now)
        (person_event i Ev_dismissed (Some u) now (Some note') None) Audit_dismissed = Inr db'"
    by (auto simp: dismiss_def split: option.splits if_splits)
  show ?thesis
    using exc_find_Some [OF row(1)] row(2)
    by (intro change_inv [OF assms(1) row(1,3)]) (auto simp: row_key_def person_event_def told_def
      row_strict_def replay_snoc replay_event_def state_of_def dismissed_row_def)
next
  case (reopen_step i u now)
  then obtain row where row: "exc_find db i = Some row" "er_status row = Exc_dismissed"
      "record_change db row (row\<lparr>er_status := Exc_open, er_dismissed_at := None, er_dismissed_by := None\<rparr>)
        (person_event i Ev_reopened (Some u) now None None) Audit_reopened = Inr db'"
    by (auto simp: reopen_def split: option.splits if_splits)
  show ?thesis
    using exc_find_Some [OF row(1)] row(2)
    by (intro change_inv [OF assms(1) row(1,3)]) (auto simp: row_key_def person_event_def told_def
      row_strict_def replay_snoc replay_event_def state_of_def)
qed

lemma clean_text_solid: "clean_text t = Some s \<Longrightarrow> s \<noteq> [] \<and> list_ex (\<lambda>c. c \<noteq> CHR '' '') s"
  using words_solid [of 2000 "case t of None \<Rightarrow> [] | Some s \<Rightarrow> s"]
  by (auto simp: clean_text_def Let_def split: option.splits if_splits)

lemma action_not_refused:
  assumes inv: "exc_inv db"
  shows "assign_exception members db i user (Some u) now \<noteq> Inl Exc_integrity
      \<and> add_note db i content (Some u) now \<noteq> Inl Exc_integrity
      \<and> dismiss db i content (Some u) now \<noteq> Inl Exc_integrity
      \<and> reopen db i (Some u) now \<noteq> Inl Exc_integrity"
proof (cases "exc_find db i")
  case (Some row)
  then have strict: "row_strict row" using exc_find_Some [OF Some] inv by (auto simp: exc_inv_def told_def)
  have assign: "row_checks (row\<lparr>er_assigned_to := user\<rparr>)"
    and dismissed: "er_status row = Exc_open \<Longrightarrow> row_checks (dismissed_row row (Some u) now)"
    and opened: "er_status row = Exc_dismissed \<Longrightarrow>
      row_checks (row\<lparr>er_status := Exc_open, er_dismissed_at := None, er_dismissed_by := None\<rparr>)"
    using strict by (auto simp: row_strict_def row_checks_def dismissed_row_def split: exc_status.splits)
  have events: "event_checks (person_event i Ev_assigned (Some u) now None user)"
    "event_checks (person_event i Ev_reopened (Some u) now None None)"
    "clean_text content = Some n \<Longrightarrow> event_checks (person_event i Ev_note (Some u) now (Some n) None)"
    "clean_text content = Some n \<Longrightarrow> event_checks (person_event i Ev_dismissed (Some u) now (Some n) None)" for n
    using clean_text_solid [of content n] by (auto simp: event_checks_def person_event_def)
  show ?thesis using assign dismissed opened events
    by (auto simp: assign_exception_def add_note_def dismiss_def reopen_def record_change_def Some
        split: option.split)
qed (simp add: assign_exception_def add_note_def dismiss_def reopen_def)

definition exc_start :: "exc_db \<Rightarrow> bool" where
  "exc_start db \<longleftrightarrow> xd_rows db = [] \<and> xd_events db = []"

lemma exc_start_inv: "exc_start db \<Longrightarrow> exc_inv db"
  by (simp add: exc_start_def exc_inv_def)

interpretation exc_machine: state_machine exc_start exc_step exc_inv
  by unfold_locales (rule exc_start_inv, assumption, rule exc_inv_step)


lemma exception_history_parts:
  assumes "reachable_from exc_start exc_step db"
  shows "distinct (map er_id (xd_rows db)) \<and> distinct (map row_key (xd_rows db))"
    and "x \<in> set (xd_rows db) \<Longrightarrow> replay (history db (er_id x)) = Some (state_of x) \<and> row_checks x"
    and "e \<in> set (xd_events db) \<Longrightarrow> ev_exception e \<in> er_id ` set (xd_rows db) \<and> event_checks e"
    and "assign_exception members db i user (Some u) now \<noteq> Inl Exc_integrity
      \<and> add_note db i content (Some u) now \<noteq> Inl Exc_integrity
      \<and> dismiss db i content (Some u) now \<noteq> Inl Exc_integrity
      \<and> reopen db i (Some u) now \<noteq> Inl Exc_integrity"
proof -
  have inv: "exc_inv db" using assms by (rule exc_machine.reachable_inv)
  show "distinct (map er_id (xd_rows db)) \<and> distinct (map row_key (xd_rows db))"
    using inv by (simp add: exc_inv_def)
  show "x \<in> set (xd_rows db) \<Longrightarrow> replay (history db (er_id x)) = Some (state_of x) \<and> row_checks x"
    using inv told_checks by (auto simp: exc_inv_def told_def)
  show "e \<in> set (xd_events db) \<Longrightarrow> ev_exception e \<in> er_id ` set (xd_rows db) \<and> event_checks e"
    using inv by (simp add: exc_inv_def)
  show "assign_exception members db i user (Some u) now \<noteq> Inl Exc_integrity
      \<and> add_note db i content (Some u) now \<noteq> Inl Exc_integrity
      \<and> dismiss db i content (Some u) now \<noteq> Inl Exc_integrity
      \<and> reopen db i (Some u) now \<noteq> Inl Exc_integrity"
    using inv by (rule action_not_refused)
qed

text \<open>
  C14: the history of every exception, in every state the queue can reach. Its event log, replayed from
  the first event, gives exactly its status, assignment, resolution and dismissal; an exception
  is resolved exactly when it has a resolution time and dismissed exactly when it has a time and a
  person; every dismissal and note has a text; ids and identities are unique; and no action of a
  signed-in person is refused by a constraint of the tables.
\<close>

theorem exception_history:
  assumes "reachable_from exc_start exc_step db"
  shows "distinct (map er_id (xd_rows db)) \<and> distinct (map row_key (xd_rows db))
    \<and> (\<forall>x \<in> set (xd_rows db). replay (history db (er_id x)) = Some (state_of x) \<and> row_checks x)
    \<and> (\<forall>e \<in> set (xd_events db). ev_exception e \<in> er_id ` set (xd_rows db) \<and> event_checks e)
    \<and> (\<forall>members i user u now content. assign_exception members db i user (Some u) now \<noteq> Inl Exc_integrity
        \<and> add_note db i content (Some u) now \<noteq> Inl Exc_integrity
        \<and> dismiss db i content (Some u) now \<noteq> Inl Exc_integrity
        \<and> reopen db i (Some u) now \<noteq> Inl Exc_integrity)"
  using exception_history_parts(1,2,3) [OF assms]
  by (intro conjI ballI allI exception_history_parts(4) [OF assms, THEN conjunct1]
      exception_history_parts(4) [OF assms, THEN conjunct2, THEN conjunct1]
      exception_history_parts(4) [OF assms, THEN conjunct2, THEN conjunct2, THEN conjunct1]
      exception_history_parts(4) [OF assms, THEN conjunct2, THEN conjunct2, THEN conjunct2]) blast+

section \<open>Who changes a status\<close>

lemma changed_row:
  assumes "exc_inv db" and "exc_find db i = Some row" and "record_change db row row' e what = Inr db'"
    and "x \<in> set (xd_rows db)" and "x' \<in> set (xd_rows db')" and "er_id x' = er_id x" and "er_id row' = er_id row"
  shows "x' = x \<or> x = row \<and> x' = row' \<and> xd_events db' = xd_events db @ [e]"
proof -
  note c = record_change_Inr [OF assms(3)]
  note r = exc_find_Some [OF assms(2)]
  obtain y where y: "y \<in> set (xd_rows db)" "x' = (if er_id y = er_id row then row' else y)"
    using c assms(5) by auto
  have "er_id x' = er_id y" using y(2) assms(7) by auto
  then have "y = x" using assms(1,4,6) y(1) by (auto simp: exc_inv_def distinct_map dest: inj_onD)
  moreover have "x = row" if "er_id x = er_id row"
    using assms(1,4) r that by (auto simp: exc_inv_def distinct_map dest: inj_onD)
  ultimately show ?thesis using y(2) c by auto
qed

lemma run_row_after:
  assumes "exc_inv db" and "refresh new_id now rs db = Some (db', res)" and "distinct (map er_id (xd_rows db'))"
    and "x \<in> set (xd_rows db)" and "x' \<in> set (xd_rows db')" and "er_id x' = er_id x"
  obtains table where "x' = after_row now table x"
    "xd_events db' = xd_events db @ concat (map (raise_events new_id now (xd_rows db)) table)
       @ map (\<lambda>r. run_event (er_id r) Ev_resolved now None) (filter (to_resolve table) (xd_rows db))"
proof -
  have keys: "distinct (map row_key (xd_rows db))" using assms(1) by (simp add: exc_inv_def)
  obtain table where t:
      "xd_rows db' = map (after_row now table) (xd_rows db) @ new_rows new_id now table (xd_rows db)"
      "xd_events db' = xd_events db @ concat (map (raise_events new_id now (xd_rows db)) table)
       @ map (\<lambda>r. run_event (er_id r) Ev_resolved now None) (filter (to_resolve table) (xd_rows db))"
    using refresh_cases [OF assms(2) keys] by metis
  have "after_row now table x \<in> set (xd_rows db')" using assms(4) by (simp add: t(1))
  moreover have "er_id (after_row now table x) = er_id x'" using assms(6) by simp
  moreover have "inj_on er_id (set (xd_rows db'))" using assms(3) by (simp add: distinct_map)
  ultimately have "x' = after_row now table x" using assms(5) by (metis inj_onD)
  then show thesis using that t(2) by blast
qed

lemma status_changed_by_parts:
  assumes "reachable_from exc_start exc_step db" and "exc_step db db'"
    and "x \<in> set (xd_rows db)" and "x' \<in> set (xd_rows db')" and "er_id x' = er_id x"
    and "er_status x' \<noteq> er_status x"
  shows "er_status x' = Exc_resolved \<Longrightarrow>
      \<exists>new_id now rs res. refresh new_id now rs db = Some (db', res)
        \<and> run_event (er_id x) Ev_resolved now None \<in> set (xd_events db')"
    and "er_status x' = Exc_dismissed \<Longrightarrow>
      er_status x = Exc_open \<and> er_severity x \<noteq> Block_close
      \<and> (\<exists>u now note. note \<noteq> [] \<and> er_dismissed_by x' = Some u \<and> er_dismissed_at x' = Some now
          \<and> xd_events db' = xd_events db
              @ [person_event (er_id x) Ev_dismissed (Some u) now (Some note) None])"
proof -
  have inv: "exc_inv db" using assms(1) by (rule exc_machine.reachable_inv)
  have "(er_status x' = Exc_resolved \<longrightarrow> (\<exists>new_id now rs res. refresh new_id now rs db = Some (db', res)
        \<and> run_event (er_id x) Ev_resolved now None \<in> set (xd_events db')))
    \<and> (er_status x' = Exc_dismissed \<longrightarrow> er_status x = Exc_open \<and> er_severity x \<noteq> Block_close
      \<and> (\<exists>u now note. note \<noteq> [] \<and> er_dismissed_by x' = Some u \<and> er_dismissed_at x' = Some now
          \<and> xd_events db' = xd_events db
              @ [person_event (er_id x) Ev_dismissed (Some u) now (Some note) None]))"
    using assms(2)
  proof (cases rule: exc_step.cases)
    case (run_step new_id now rs res)
    obtain table where t: "x' = after_row now table x"
        "xd_events db' = xd_events db @ concat (map (raise_events new_id now (xd_rows db)) table)
         @ map (\<lambda>r. run_event (er_id r) Ev_resolved now None) (filter (to_resolve table) (xd_rows db))"
      using run_row_after [OF inv run_step assms(3-5)] by metis
    have "er_status x' \<noteq> Exc_dismissed"
      using assms(6) by (auto simp: t(1) after_row_def refreshed_status split: option.splits if_splits)
    moreover have "to_resolve table x" if "er_status x' = Exc_resolved"
      using that assms(6)
      by (auto simp: t(1) after_row_def to_resolve_def refreshed_status split: option.splits if_splits)
    ultimately show ?thesis using run_step(1) assms(3) by (auto simp: t(2))
  next
    case (assign_step members i user u now)
    then obtain row where "exc_find db i = Some row"
        "record_change db row (row\<lparr>er_assigned_to := user\<rparr>)
          (person_event i Ev_assigned (Some u) now None user) Audit_assigned = Inr db'"
      by (auto simp: assign_exception_def split: option.splits if_splits)
    from changed_row [OF inv this assms(3-5)] assms(6) show ?thesis by auto
  next
    case (note_step i t u now)
    then have "xd_rows db' = xd_rows db" by (auto simp: add_note_def Let_def split: option.splits if_splits)
    then have "x' = x" using inv assms(3-5) by (auto simp: exc_inv_def distinct_map dest: inj_onD)
    with assms(6) show ?thesis by simp
  next
    case (dismiss_step i t u now)
    then obtain row n where row: "exc_find db i = Some row" "er_status row = Exc_open"
        "may_dismiss (er_severity row)" "clean_text t = Some n"
        "record_change db row (dismissed_row row (Some u) now)
          (person_event i Ev_dismissed (Some u) now (Some n) None) Audit_dismissed = Inr db'"
      by (auto simp: dismiss_def split: option.splits if_splits)
    have "x = row \<and> x' = dismissed_row row (Some u) now \<and> xd_events db' = xd_events db
        @ [person_event i Ev_dismissed (Some u) now (Some n) None]"
      using changed_row [OF inv row(1,5) assms(3-5)] assms(6) by (auto simp: dismissed_row_def)
    moreover have "n \<noteq> []" using row(4) by (auto simp: clean_text_def Let_def split: option.splits if_splits)
    ultimately show ?thesis
      using row(2,3) exc_find_Some [OF row(1)] by (auto simp: dismissed_row_def may_dismiss_def)
  next
    case (reopen_step i u now)
    then obtain row where "exc_find db i = Some row"
        "record_change db row (row\<lparr>er_status := Exc_open, er_dismissed_at := None, er_dismissed_by := None\<rparr>)
          (person_event i Ev_reopened (Some u) now None None) Audit_reopened = Inr db'"
      by (auto simp: reopen_def split: option.splits if_splits)
    from changed_row [OF inv this assms(3-5)] assms(6) show ?thesis by auto
  qed
  then show "er_status x' = Exc_resolved \<Longrightarrow>
      \<exists>new_id now rs res. refresh new_id now rs db = Some (db', res)
        \<and> run_event (er_id x) Ev_resolved now None \<in> set (xd_events db')"
    and "er_status x' = Exc_dismissed \<Longrightarrow>
      er_status x = Exc_open \<and> er_severity x \<noteq> Block_close
      \<and> (\<exists>u now note. note \<noteq> [] \<and> er_dismissed_by x' = Some u \<and> er_dismissed_at x' = Some now
          \<and> xd_events db' = xd_events db
              @ [person_event (er_id x) Ev_dismissed (Some u) now (Some note) None])"
    by blast+
qed

text \<open>
  C8: who changes the status of an exception. In one step of the queue from a reachable state, an
  exception becomes resolved only by the run, which says so without an actor, and becomes dismissed
  only from open, when it does not block the period close, by a person who gave a note, kept in the
  event.
\<close>

theorem status_changed_by:
  assumes "reachable_from exc_start exc_step db" and "exc_step db db'"
    and "x \<in> set (xd_rows db)" and "x' \<in> set (xd_rows db')" and "er_id x' = er_id x"
    and "er_status x' \<noteq> er_status x"
  shows "(er_status x' = Exc_resolved \<longrightarrow>
      (\<exists>new_id now rs res. refresh new_id now rs db = Some (db', res)
        \<and> run_event (er_id x) Ev_resolved now None \<in> set (xd_events db')))
    \<and> (er_status x' = Exc_dismissed \<longrightarrow>
      er_status x = Exc_open \<and> er_severity x \<noteq> Block_close
      \<and> (\<exists>u now note. note \<noteq> [] \<and> er_dismissed_by x' = Some u \<and> er_dismissed_at x' = Some now
          \<and> xd_events db' = xd_events db
              @ [person_event (er_id x) Ev_dismissed (Some u) now (Some note) None]))"
  by (intro conjI impI status_changed_by_parts(1) [OF assms] status_changed_by_parts(2) [OF assms, THEN conjunct1]
      status_changed_by_parts(2) [OF assms, THEN conjunct2, THEN conjunct1]
      status_changed_by_parts(2) [OF assms, THEN conjunct2, THEN conjunct2])


section \<open>A request for a run\<close>

definition refresh_run :: "uuid \<Rightarrow> string \<Rightarrow> task \<Rightarrow> bool" where
  "refresh_run tenant key t \<longleftrightarrow> tk_tenant t = tenant \<and> tk_kind t = refresh_kind \<and> tk_dedupe_key t = Some key"

lemma enqueue_pending:
  "\<exists>t \<in> set (q_tasks (fst (enqueue s q new_id tenant refresh_kind [] (Some key) None None))).
     refresh_run tenant key t \<and> is_open t \<and> (t \<in> set (q_tasks q) \<or> tk_status t = Queued)"
  by (auto simp: enqueue_def Let_def list_ex_iff same_dedupe_def refresh_run_def is_open_def)

lemma enqueue_keeps: "set (q_tasks q) \<subseteq> set (q_tasks (fst (enqueue s q new_id tenant kind payload key r m)))"
  by (auto simp: enqueue_def Let_def)

text \<open>
  A request for a run takes every task along and leaves a run to come: a run of the tenant is queued
  that has not started, so it sees the change that asked for it, unless both the run and the run
  after it are being executed at that moment. Requests during one run never queue two.
\<close>

theorem refresh_requested:
  "set (q_tasks q) \<subseteq> set (q_tasks (request_refresh s new_id q tenant))
    \<and> (\<exists>t \<in> set (q_tasks (request_refresh s new_id q tenant)).
        (refresh_run tenant dedupe t \<or> refresh_run tenant dedupe_next t)
        \<and> (tk_status t = Queued
            \<or> refresh_run tenant dedupe_next t \<and> tk_status t = Running
              \<and> (\<exists>u \<in> set (q_tasks q). refresh_run tenant dedupe u \<and> tk_status u = Running)))"
proof (cases "open_task q tenant refresh_kind dedupe")
  case None
  then have none: "\<not> (refresh_run tenant dedupe t \<and> is_open t)" if "t \<in> set (q_tasks q)" for t
    using that by (auto simp: open_task_def find_None_iff same_dedupe_def refresh_run_def)
  show ?thesis
    using enqueue_pending [of s q new_id tenant dedupe] enqueue_keeps none
    by (fastforce simp: request_refresh_def None)
next
  case (Some t)
  then have t: "t \<in> set (q_tasks q)" "refresh_run tenant dedupe t" "is_open t"
    unfolding open_task_def by (auto dest!: find_mem simp: same_dedupe_def refresh_run_def)
  show ?thesis
  proof (cases "tk_status t = Running")
    case True
    then have q: "request_refresh s new_id q tenant =
        fst (enqueue s q new_id tenant refresh_kind [] (Some dedupe_next) None None)"
      by (simp add: request_refresh_def Some)
    obtain n where "n \<in> set (q_tasks (request_refresh s new_id q tenant))" "refresh_run tenant dedupe_next n"
        "is_open n"
      using enqueue_pending [of s q new_id tenant dedupe_next] unfolding q by blast
    then show ?thesis using t True enqueue_keeps unfolding q is_open_def by blast
  next
    case False
    then have q: "request_refresh s new_id q tenant =
        fst (enqueue s q new_id tenant refresh_kind [] (Some dedupe) None None)"
      by (simp add: request_refresh_def Some)
    have "tk_status t = Queued" using t(3) False by (simp add: is_open_def)
    then show ?thesis using t(1,2) enqueue_keeps unfolding q by blast
  qed
qed

section \<open>A dismissed exception that blocks the close\<close>

definition ex_split :: "severity \<Rightarrow> raised" where
  "ex_split v = \<lparr>rs_subject = On_estimate, rs_subject_id = 7,
     rs_issue = \<lparr>is_code = ''EST_NO_CATEGORY_SPLIT'', is_message = ''cost lines missing'',
       is_detail = [(''orders'', D_list [D_int 1])]\<rparr>, rs_severity = v\<rparr>"

definition ex_split_key :: exc_key where
  "ex_split_key = (On_estimate, 7, ''EST_NO_CATEGORY_SPLIT'', [])"

definition ex_exc_start :: exc_db where
  "ex_exc_start = \<lparr>xd_rows = [], xd_events = [], xd_audit = []\<rparr>"

definition ex_exc_raised :: exc_db where
  "ex_exc_raised = \<lparr>xd_rows = [raised_row 1 100 ex_split_key (ex_split Warn)],
     xd_events = [run_event 1 Ev_raised 100 None], xd_audit = []\<rparr>"

definition ex_exc_dismissed :: exc_db where
  "ex_exc_dismissed = (case dismiss ex_exc_raised 1 (Some ''priced as a lump sum'') (Some 5) 200 of Inr db \<Rightarrow> db)"

definition ex_exc_blocking :: exc_db where
  "ex_exc_blocking = fst (the (refresh (\<lambda>k. 2) 300 [ex_split Block_close] ex_exc_dismissed))"

lemma ex_exc_steps:
  "exc_start ex_exc_start"
  "refresh (\<lambda>k. 1) 100 [ex_split Warn] ex_exc_start = Some (ex_exc_raised, \<lparr>rr_raised = 1, rr_raised_again = 0,
     rr_reopened = 0, rr_resolved = 0, rr_refreshed = 0\<rparr>)"
  "dismiss ex_exc_raised 1 (Some ''priced as a lump sum'') (Some 5) 200 = Inr ex_exc_dismissed"
  "refresh (\<lambda>k. 2) 300 [ex_split Block_close] ex_exc_dismissed = Some (ex_exc_blocking, no_writes)"
  "map er_id (xd_rows ex_exc_raised) = [1]" "map er_id (xd_rows ex_exc_blocking) = [1]"
  by code_simp+

lemma ex_exc_dismissed_row: "\<exists>x. xd_rows ex_exc_dismissed = [x] \<and> er_id x = 1
    \<and> state_of x = (Exc_dismissed, None, None, Some 200, Some 5)"
proof -
  have "length (xd_rows ex_exc_dismissed) = 1 \<and> er_id (hd (xd_rows ex_exc_dismissed)) = 1
      \<and> state_of (hd (xd_rows ex_exc_dismissed)) = (Exc_dismissed, None, None, Some 200, Some 5)"
    by code_simp
  then show ?thesis by (cases "xd_rows ex_exc_dismissed") auto
qed

lemma ex_exc_dismissed_distinct: "distinct (map row_key (xd_rows ex_exc_dismissed))"
  by code_simp

lemma ex_exc_reachable:
  "reachable_from exc_start exc_step ex_exc_raised"
  "exc_step ex_exc_raised ex_exc_dismissed"
  "reachable_from exc_start exc_step ex_exc_dismissed"
  "reachable_from exc_start exc_step ex_exc_blocking"
proof -
  show raised: "reachable_from exc_start exc_step ex_exc_raised"
    by (rule reach_step [OF reach_start [where start = exc_start, OF ex_exc_steps(1)]], rule run_step [OF ex_exc_steps(2)])
      (simp add: ex_exc_steps(5))
  show step: "exc_step ex_exc_raised ex_exc_dismissed" by (rule dismiss_step [OF ex_exc_steps(3)])
  show dismissed: "reachable_from exc_start exc_step ex_exc_dismissed" by (rule reach_step [OF raised step])
  show "reachable_from exc_start exc_step ex_exc_blocking"
    by (rule reach_step [OF dismissed], rule run_step [OF ex_exc_steps(4)]) (simp add: ex_exc_steps(6))
qed

text \<open>
  C33: The queue can reach a state in which an exception that blocks the period close is dismissed: the
  missing cost split of an estimate is dismissed while it is a warning, the estimate's job then
  becomes a fixed-price job, and the next run raises its severity but leaves it dismissed, because
  what it states is unchanged.
\<close>

theorem dismissed_can_block_close:
  "\<exists>db. reachable_from exc_start exc_step db
     \<and> (\<exists>x \<in> set (xd_rows db). er_status x = Exc_dismissed \<and> er_severity x = Block_close
         \<and> Some (er_severity x) = severity_of (er_code x) (Some True))"
proof -
  have "\<exists>x \<in> set (xd_rows ex_exc_blocking). er_status x = Exc_dismissed \<and> er_severity x = Block_close
      \<and> Some (er_severity x) = severity_of (er_code x) (Some True)"
    by code_simp
  then show ?thesis using ex_exc_reachable(4) by blast
qed

section \<open>Witnesses\<close>

theorem refresh_correct_witness:
  "refresh (\<lambda>k. 2) 300 [] ex_exc_dismissed \<noteq> None
    \<and> (\<exists>x' \<in> set (xd_rows ex_exc_blocking). er_id x' = 1 \<and> er_status x' = Exc_dismissed)"
proof -
  note d = ex_exc_dismissed_distinct
  obtain x where x: "x \<in> set (xd_rows ex_exc_dismissed)" "er_id x = 1" "er_status x = Exc_dismissed"
      "first_raised [ex_split Block_close] (row_key x) = Some (ex_split Block_close)"
      "\<not> reopens (ex_split Block_close) x"
  proof -
    have "list_ex (\<lambda>x. er_id x = 1 \<and> er_status x = Exc_dismissed
        \<and> map_option rs_severity (first_raised [ex_split Block_close] (row_key x)) = Some Block_close
        \<and> \<not> reopens (ex_split Block_close) x) (xd_rows ex_exc_dismissed)" by code_simp
    then show thesis using that by (auto simp: list_ex_iff first_raised_def split: if_splits)
  qed
  have empty: "refresh (\<lambda>k. 2) 300 [] ex_exc_dismissed \<noteq> None"
    using refresh_correct [OF d, where new_id = "\<lambda>k. 2" and now = 300 and rs = "[]"] by (auto split: option.splits)
  have "\<exists>x' \<in> set (xd_rows ex_exc_blocking). er_id x' = er_id x \<and>
      (case first_raised [ex_split Block_close] (row_key x) of None \<Rightarrow> er_status x' = Exc_resolved
       | Some r \<Rightarrow> if er_status x = Exc_dismissed \<and> \<not> reopens r x then er_status x' = Exc_dismissed
           else er_status x' = Exc_open)"
    using refresh_correct [OF d, where new_id = "\<lambda>k. 2" and now = 300 and rs = "[ex_split Block_close]"] x(1)
    unfolding ex_exc_steps(4) option.case prod.case by (fastforce split: option.splits if_splits)
  then show ?thesis using empty x(2-5) by auto
qed

theorem refresh_idempotent_witness:
  "refresh (\<lambda>k. 9) 500 [ex_split Block_close] ex_exc_blocking = Some (ex_exc_blocking, no_writes)"
  using refresh_idempotent [OF ex_exc_steps(4), of "\<lambda>k. 9" 500] by (auto simp: ex_exc_dismissed_distinct)

theorem exception_history_witness:
  "replay (history ex_exc_dismissed 1) = Some (Exc_dismissed, None, None, Some 200, Some 5)"
proof -
  obtain x where "xd_rows ex_exc_dismissed = [x]" "er_id x = 1"
      "state_of x = (Exc_dismissed, None, None, Some 200, Some 5)"
    using ex_exc_dismissed_row by blast
  then show ?thesis using exception_history [OF ex_exc_reachable(3)] by simp
qed

theorem status_changed_by_witness:
  "\<exists>x \<in> set (xd_rows ex_exc_raised). er_status x = Exc_open \<and> er_severity x \<noteq> Block_close"
proof -
  obtain x' where x': "xd_rows ex_exc_dismissed = [x']" "er_id x' = 1" "er_status x' = Exc_dismissed"
    using ex_exc_dismissed_row by (auto simp: state_of_def)
  let ?x = "raised_row 1 100 ex_split_key (ex_split Warn)"
  have x: "?x \<in> set (xd_rows ex_exc_raised)" by (simp add: ex_exc_raised_def)
  have "er_status ?x = Exc_open \<and> er_severity ?x \<noteq> Block_close"
    using status_changed_by [OF ex_exc_reachable(1,2) x, of x'] x' by simp
  with x show ?thesis by blast
qed

end
