(* ===== verification/AccessControl.thy ===== *)
theory AccessControl
  imports Prelude
begin

text \<open>
  Who may do what: the roles and membership rows of \<open>app/tenancy/models.py\<close>, the principal of a
  request and the one rule for the role inside a tenant (\<open>app/core/auth.py\<close>), and the guards of
  the named capabilities (\<open>app/core/authz.py\<close>). A guard answers with the HTTP status and the
  detail of its refusal.
\<close>

section \<open>Rows\<close>

datatype role = Firm_admin | Firm_staff | Client_admin | Client_pm | Client_viewer

definition firm_roles :: "role list" where
  "firm_roles = [Firm_admin, Firm_staff]"

definition client_roles :: "role list" where
  "client_roles = [Client_admin, Client_pm, Client_viewer]"

record firm_membership =
  fm_firm :: uuid
  fm_user :: uuid
  fm_role :: role
  fm_created_at :: int

text \<open>A membership with role \<open>None\<close> is an entry row of a firm user.\<close>

record membership =
  mb_tenant :: uuid
  mb_user :: uuid
  mb_role :: "role option"
  mb_created_at :: int

definition firm_membership_check :: "firm_membership \<Rightarrow> bool" where
  "firm_membership_check m \<longleftrightarrow> fm_role m \<in> set firm_roles"

definition membership_check :: "membership \<Rightarrow> bool" where
  "membership_check m \<longleftrightarrow> (case mb_role m of None \<Rightarrow> True | Some r \<Rightarrow> r \<in> set client_roles)"

text \<open>A person and a session, as far as access reads them: enrolment, verification, tenant.\<close>

record user_session =
  us_id :: uuid
  us_token_hash :: string
  us_user :: uuid
  us_active_tenant :: "uuid option"
  us_totp_verified_at :: "int option"
  us_created_at :: int
  us_last_seen_at :: int
  us_expires_at :: int

record principal =
  pr_user :: uuid
  pr_totp_enrolled_at :: "int option"
  pr_session :: user_session
  pr_memberships :: "membership list"
  pr_firm_memberships :: "firm_membership list"
  pr_tenant_firms :: "(uuid, uuid) dict"

section \<open>The role inside a tenant\<close>

definition effective_role :: "membership option \<Rightarrow> uuid option \<Rightarrow> firm_membership list \<Rightarrow> role option" where
  "effective_role m firm fms = (case m of
     None \<Rightarrow> None
   | Some row \<Rightarrow> (case mb_role row of
       Some r \<Rightarrow> Some r
     | None \<Rightarrow> map_option fm_role (List.find (\<lambda>fm. Some (fm_firm fm) = firm) fms)))"

definition highest_firm_role :: "firm_membership list \<Rightarrow> role option" where
  "highest_firm_role fms =
     (let roles = map fm_role fms in
      if Firm_admin \<in> set roles then Some Firm_admin
      else if Firm_staff \<in> set roles then Some Firm_staff else None)"

definition membership_in :: "principal \<Rightarrow> uuid option \<Rightarrow> membership option" where
  "membership_in p tenant = List.find (\<lambda>m. Some (mb_tenant m) = tenant) (pr_memberships p)"

definition role_in :: "principal \<Rightarrow> uuid option \<Rightarrow> role option" where
  "role_in p tenant = effective_role (membership_in p tenant)
     (case tenant of None \<Rightarrow> None | Some t \<Rightarrow> map_of (pr_tenant_firms p) t) (pr_firm_memberships p)"

definition active_tenant :: "principal \<Rightarrow> uuid option" where
  "active_tenant p = us_active_tenant (pr_session p)"

definition active_role :: "principal \<Rightarrow> role option" where
  "active_role p = role_in p (active_tenant p)"

definition firm_role :: "principal \<Rightarrow> role option" where
  "firm_role p = highest_firm_role (pr_firm_memberships p)"

definition is_firm_user :: "principal \<Rightarrow> bool" where
  "is_firm_user p \<longleftrightarrow> pr_firm_memberships p \<noteq> []"

definition accessible_tenant_ids :: "principal \<Rightarrow> uuid list" where
  "accessible_tenant_ids p =
     map mb_tenant (filter (\<lambda>m. role_in p (Some (mb_tenant m)) \<noteq> None) (pr_memberships p))"

definition load_memberships ::
  "membership list \<Rightarrow> (uuid \<Rightarrow> uuid) \<Rightarrow> uuid \<Rightarrow> membership list \<times> (uuid, uuid) dict" where
  "load_memberships rows firm_of user =
     (let ms = sort_key mb_created_at (filter (\<lambda>m. mb_user m = user) rows)
      in (ms, map (\<lambda>m. (mb_tenant m, firm_of (mb_tenant m))) ms))"

definition load_firm_memberships :: "firm_membership list \<Rightarrow> uuid \<Rightarrow> firm_membership list" where
  "load_firm_memberships rows user = sort_key fm_created_at (filter (\<lambda>m. fm_user m = user) rows)"

section \<open>The second factor of a session\<close>

datatype totp_state = Totp_ok | Totp_enrol_required | Totp_verify_required

definition totp_state_of :: "int option \<Rightarrow> bool \<Rightarrow> user_session \<Rightarrow> totp_state" where
  "totp_state_of enrolled_at firm_user s =
     (if us_totp_verified_at s \<noteq> None then Totp_ok
      else if enrolled_at \<noteq> None then Totp_verify_required
      else if firm_user then Totp_enrol_required
      else Totp_ok)"

definition principal_totp :: "principal \<Rightarrow> totp_state" where
  "principal_totp p = totp_state_of (pr_totp_enrolled_at p) (is_firm_user p) (pr_session p)"

section \<open>Guards\<close>

datatype refusal = Authentication_required | Session_expired | Totp_refused totp_state
  | Tenant_context_required | Forbidden

definition get_verified_principal :: "principal \<Rightarrow> (refusal, principal) result" where
  "get_verified_principal p =
     (if principal_totp p \<noteq> Totp_ok then Inl (Totp_refused (principal_totp p)) else Inr p)"

definition require_roles :: "role list \<Rightarrow> principal \<Rightarrow> (refusal, principal) result" where
  "require_roles allowed p = (case get_verified_principal p of
     Inl e \<Rightarrow> Inl e
   | Inr q \<Rightarrow>
       if active_tenant q = None then Inl Tenant_context_required
       else if (case active_role q of None \<Rightarrow> True | Some r \<Rightarrow> r \<notin> set allowed) then Inl Forbidden
       else Inr q)"

definition require_firm_role :: "role list \<Rightarrow> principal \<Rightarrow> (refusal, principal) result" where
  "require_firm_role allowed p = (case get_verified_principal p of
     Inl e \<Rightarrow> Inl e
   | Inr q \<Rightarrow> if (case firm_role q of None \<Rightarrow> True | Some r \<Rightarrow> r \<notin> set allowed) then Inl Forbidden
       else Inr q)"

section \<open>The capabilities\<close>

definition all_roles :: "role list" where
  "all_roles = [Firm_admin, Firm_staff, Client_admin, Client_pm, Client_viewer]"

definition firm_only :: "role list" where
  "firm_only = [Firm_admin, Firm_staff]"

definition firm_and_client_admin :: "role list" where
  "firm_and_client_admin = firm_only @ [Client_admin]"

datatype capability = View_reports | View_pay_rates | Propose_eac | Approve_eac | Reopen_period
  | Read_tenant_audit | List_tenant_users | Manage_imports | View_tenant_config | Manage_tenant_config
  | Set_policy | Manage_connections | View_connections | View_estimates | View_jobs | Manage_jobs
  | View_customer_duplicates | Track_customers | Approve_change_orders | Enter_billing_request
  | Issue_pay_applications | View_exceptions | Note_exceptions | Manage_exceptions | View_cost
  | Manage_users | Manage_memberships | Manage_firm_memberships | Manage_tenants | Read_firm_audit

datatype guard = Tenant_guard "role list" | Firm_guard "role list"

text \<open>The guard each route of a capability depends on (\<open>can_view_reports\<close> and its kin).\<close>

fun guard_of :: "capability \<Rightarrow> guard" where
  "guard_of View_reports = Tenant_guard all_roles"
| "guard_of View_pay_rates = Tenant_guard firm_and_client_admin"
| "guard_of Propose_eac = Tenant_guard (firm_and_client_admin @ [Client_pm])"
| "guard_of Approve_eac = Tenant_guard firm_and_client_admin"
| "guard_of Reopen_period = Tenant_guard [Firm_admin]"
| "guard_of Read_tenant_audit = Tenant_guard firm_and_client_admin"
| "guard_of List_tenant_users = Tenant_guard [Firm_admin]"
| "guard_of Manage_imports = Tenant_guard firm_and_client_admin"
| "guard_of View_tenant_config = Tenant_guard firm_and_client_admin"
| "guard_of Manage_tenant_config = Tenant_guard firm_only"
| "guard_of Set_policy = Tenant_guard [Firm_admin]"
| "guard_of Manage_connections = Tenant_guard [Firm_admin]"
| "guard_of View_connections = Tenant_guard firm_and_client_admin"
| "guard_of View_estimates = Tenant_guard all_roles"
| "guard_of View_jobs = Tenant_guard all_roles"
| "guard_of Manage_jobs = Tenant_guard firm_and_client_admin"
| "guard_of View_customer_duplicates = Tenant_guard firm_and_client_admin"
| "guard_of Track_customers = Tenant_guard firm_and_client_admin"
| "guard_of Approve_change_orders = Tenant_guard [Firm_admin, Client_pm]"
| "guard_of Enter_billing_request = Tenant_guard (firm_and_client_admin @ [Client_pm])"
| "guard_of Issue_pay_applications = Tenant_guard firm_and_client_admin"
| "guard_of View_exceptions = Tenant_guard all_roles"
| "guard_of Note_exceptions = Tenant_guard all_roles"
| "guard_of Manage_exceptions = Tenant_guard firm_and_client_admin"
| "guard_of View_cost = Tenant_guard firm_and_client_admin"
| "guard_of Manage_users = Firm_guard [Firm_admin]"
| "guard_of Manage_memberships = Firm_guard [Firm_admin]"
| "guard_of Manage_firm_memberships = Firm_guard [Firm_admin]"
| "guard_of Manage_tenants = Firm_guard [Firm_admin]"
| "guard_of Read_firm_audit = Firm_guard firm_only"

text \<open>\<open>CAPABILITIES[name][1]\<close>: the roles the pages read to show an action (frozensets).\<close>

fun declared_roles :: "capability \<Rightarrow> role set" where
  "declared_roles View_reports = set all_roles"
| "declared_roles View_pay_rates = set firm_and_client_admin"
| "declared_roles Propose_eac = set (firm_and_client_admin @ [Client_pm])"
| "declared_roles Approve_eac = set firm_and_client_admin"
| "declared_roles Reopen_period = {Firm_admin}"
| "declared_roles Read_tenant_audit = set firm_and_client_admin"
| "declared_roles List_tenant_users = {Firm_admin}"
| "declared_roles Manage_imports = set firm_and_client_admin"
| "declared_roles View_tenant_config = set firm_and_client_admin"
| "declared_roles Manage_tenant_config = set firm_only"
| "declared_roles Set_policy = {Firm_admin}"
| "declared_roles Manage_connections = {Firm_admin}"
| "declared_roles View_connections = set firm_and_client_admin"
| "declared_roles View_estimates = set all_roles"
| "declared_roles View_jobs = set all_roles"
| "declared_roles Manage_jobs = set firm_and_client_admin"
| "declared_roles View_customer_duplicates = set firm_and_client_admin"
| "declared_roles Track_customers = set firm_and_client_admin"
| "declared_roles Approve_change_orders = {Firm_admin, Client_pm}"
| "declared_roles Enter_billing_request = set (firm_and_client_admin @ [Client_pm])"
| "declared_roles Issue_pay_applications = set firm_and_client_admin"
| "declared_roles View_exceptions = set all_roles"
| "declared_roles Note_exceptions = set all_roles"
| "declared_roles Manage_exceptions = set firm_and_client_admin"
| "declared_roles View_cost = set firm_and_client_admin"
| "declared_roles Manage_users = {Firm_admin}"
| "declared_roles Manage_memberships = {Firm_admin}"
| "declared_roles Manage_firm_memberships = {Firm_admin}"
| "declared_roles Manage_tenants = {Firm_admin}"
| "declared_roles Read_firm_audit = set firm_only"

definition check_capability :: "capability \<Rightarrow> principal \<Rightarrow> (refusal, principal) result" where
  "check_capability c p = (case guard_of c of
     Tenant_guard roles \<Rightarrow> require_roles roles p
   | Firm_guard roles \<Rightarrow> require_firm_role roles p)"

section \<open>What access rests on\<close>

text \<open>The rows of a principal as the database keeps and the request loads them.\<close>

definition principal_ok :: "principal \<Rightarrow> bool" where
  "principal_ok p \<longleftrightarrow> list_all membership_check (pr_memberships p)
     \<and> list_all firm_membership_check (pr_firm_memberships p)"

lemma role_in_cases:
  assumes "role_in p (Some t) = Some r" and "principal_ok p"
  obtains (client) m where "m \<in> set (pr_memberships p)" "mb_tenant m = t" "mb_role m = Some r"
      "r \<in> set client_roles"
  | (firm) m fm where "m \<in> set (pr_memberships p)" "mb_tenant m = t" "mb_role m = None"
      "fm \<in> set (pr_firm_memberships p)" "map_of (pr_tenant_firms p) t = Some (fm_firm fm)" "fm_role fm = r"
      "r \<in> set firm_roles"
proof -
  obtain m where m: "membership_in p (Some t) = Some m"
    using assms(1) by (cases "membership_in p (Some t)") (auto simp: role_in_def effective_role_def)
  have mem: "m \<in> set (pr_memberships p)" "mb_tenant m = t"
    using find_mem [OF m [unfolded membership_in_def]] by auto
  show thesis
  proof (cases "mb_role m")
    case None
    then obtain fm where fm: "List.find (\<lambda>fm. Some (fm_firm fm) = map_of (pr_tenant_firms p) t)
        (pr_firm_memberships p) = Some fm" "fm_role fm = r"
      using assms(1) m by (auto simp: role_in_def effective_role_def)
    with find_mem [OF fm(1)] assms(2) show thesis
      by (intro firm [OF mem None]) (auto simp: principal_ok_def list_all_iff firm_membership_check_def)
  next
    case (Some r')
    then have "r' = r" using assms(1) m by (auto simp: role_in_def effective_role_def)
    with Some mem assms(2) show thesis
      by (intro client [OF mem]) (auto simp: principal_ok_def list_all_iff membership_check_def)
  qed
qed

lemma firm_role_cases:
  assumes "firm_role p = Some r"
  shows "r \<in> set firm_roles \<and> (\<exists>fm \<in> set (pr_firm_memberships p). fm_role fm = r)"
proof -
  have "r \<in> set firm_roles \<and> r \<in> fm_role ` set (pr_firm_memberships p)"
    using assms by (auto simp: firm_role_def highest_firm_role_def Let_def firm_roles_def split: if_splits)
  then show ?thesis by auto
qed

lemma verified_Inr:
  "get_verified_principal p = Inr q \<longleftrightarrow> q = p \<and> principal_totp p = Totp_ok"
  by (auto simp: get_verified_principal_def)

lemma totp_ok_iff:
  "principal_totp p = Totp_ok \<longleftrightarrow>
     us_totp_verified_at (pr_session p) \<noteq> None \<or> pr_totp_enrolled_at p = None \<and> \<not> is_firm_user p"
  by (simp add: principal_totp_def totp_state_of_def)

definition guard_roles :: "capability \<Rightarrow> role list" where
  "guard_roles c = (case guard_of c of Tenant_guard rs \<Rightarrow> rs | Firm_guard rs \<Rightarrow> rs)"

definition needs_firm :: "capability \<Rightarrow> bool" where
  "needs_firm c \<longleftrightarrow> (case guard_of c of Tenant_guard _ \<Rightarrow> False | Firm_guard _ \<Rightarrow> True)"

lemma firm_guard_roles: "needs_firm c \<Longrightarrow> set (guard_roles c) \<subseteq> set firm_roles"
  by (cases c) (simp_all add: needs_firm_def guard_roles_def firm_roles_def firm_only_def)

lemma admin_passes: "Firm_admin \<in> set (guard_roles c)"
  by (cases c) (simp_all add: guard_roles_def all_roles_def firm_only_def firm_and_client_admin_def)

lemma check_capability_Inr:
  "check_capability c p = Inr q \<longleftrightarrow> q = p \<and> principal_totp p = Totp_ok
     \<and> (if needs_firm c then \<exists>r \<in> set (guard_roles c). firm_role p = Some r
        else active_tenant p \<noteq> None \<and> (\<exists>r \<in> set (guard_roles c). active_role p = Some r))"
proof -
  have "get_verified_principal p = (if principal_totp p = Totp_ok then Inr p else Inl (Totp_refused (principal_totp p)))"
    by (simp add: get_verified_principal_def)
  then show ?thesis
    by (auto simp: check_capability_def needs_firm_def guard_roles_def require_roles_def
        require_firm_role_def split: guard.split option.splits if_splits)
qed

lemma capability_rests_on_parts:
  assumes "check_capability c p = Inr q" and "principal_ok p"
  shows "q = p \<and> (us_totp_verified_at (pr_session p) \<noteq> None
      \<or> pr_totp_enrolled_at p = None \<and> pr_firm_memberships p = [])"
    and "needs_firm c \<Longrightarrow> \<exists>fm \<in> set (pr_firm_memberships p).
      fm_role fm \<in> set (guard_roles c) \<and> fm_role fm \<in> set firm_roles"
    and "\<not> needs_firm c \<Longrightarrow> \<exists>t r. us_active_tenant (pr_session p) = Some t \<and> r \<in> set (guard_roles c)
      \<and> (\<exists>m \<in> set (pr_memberships p). mb_tenant m = t
          \<and> (mb_role m = Some r \<and> r \<in> set client_roles
             \<or> mb_role m = None \<and> (\<exists>fm \<in> set (pr_firm_memberships p). fm_role fm = r \<and> r \<in> set firm_roles
                 \<and> map_of (pr_tenant_firms p) t = Some (fm_firm fm))))"
proof -
  note c = assms(1) [unfolded check_capability_Inr]
  show "q = p \<and> (us_totp_verified_at (pr_session p) \<noteq> None
      \<or> pr_totp_enrolled_at p = None \<and> pr_firm_memberships p = [])"
    using c by (simp add: totp_ok_iff is_firm_user_def)
  show "needs_firm c \<Longrightarrow> \<exists>fm \<in> set (pr_firm_memberships p).
      fm_role fm \<in> set (guard_roles c) \<and> fm_role fm \<in> set firm_roles"
    using c firm_role_cases by fastforce
  assume "\<not> needs_firm c"
  with c obtain t r where tr: "us_active_tenant (pr_session p) = Some t" "r \<in> set (guard_roles c)"
      "role_in p (Some t) = Some r"
    by (auto simp: active_tenant_def active_role_def)
  have "\<exists>m \<in> set (pr_memberships p). mb_tenant m = t
      \<and> (mb_role m = Some r \<and> r \<in> set client_roles
         \<or> mb_role m = None \<and> (\<exists>fm \<in> set (pr_firm_memberships p). fm_role fm = r \<and> r \<in> set firm_roles
             \<and> map_of (pr_tenant_firms p) t = Some (fm_firm fm)))"
    using tr(3) assms(2) by (cases rule: role_in_cases) blast+
  with tr(1,2) show "\<exists>t r. us_active_tenant (pr_session p) = Some t \<and> r \<in> set (guard_roles c)
      \<and> (\<exists>m \<in> set (pr_memberships p). mb_tenant m = t
          \<and> (mb_role m = Some r \<and> r \<in> set client_roles
             \<or> mb_role m = None \<and> (\<exists>fm \<in> set (pr_firm_memberships p). fm_role fm = r \<and> r \<in> set firm_roles
                 \<and> map_of (pr_tenant_firms p) t = Some (fm_firm fm))))"
    by blast
qed

text \<open>
  C31: what a granted capability rests on. It is granted only to a session whose second factor is
  settled: verified, or of a person who is neither enrolled nor of the firm. A firm-level capability
  rests on a firm membership with an allowed firm role. A capability inside a company rests on the
  person's own membership row in the company the session is in: either with an allowed client role,
  or an entry row together with a firm membership, with an allowed role, in the very firm that owns
  the company.
\<close>

theorem capability_rests_on:
  assumes "check_capability c p = Inr q" and "principal_ok p"
  shows "q = p \<and> (us_totp_verified_at (pr_session p) \<noteq> None
      \<or> pr_totp_enrolled_at p = None \<and> pr_firm_memberships p = [])
    \<and> (if needs_firm c
       then \<exists>fm \<in> set (pr_firm_memberships p). fm_role fm \<in> set (guard_roles c) \<and> fm_role fm \<in> set firm_roles
       else \<exists>t r. us_active_tenant (pr_session p) = Some t \<and> r \<in> set (guard_roles c)
         \<and> (\<exists>m \<in> set (pr_memberships p). mb_tenant m = t
             \<and> (mb_role m = Some r \<and> r \<in> set client_roles
                \<or> mb_role m = None \<and> (\<exists>fm \<in> set (pr_firm_memberships p). fm_role fm = r \<and> r \<in> set firm_roles
                    \<and> map_of (pr_tenant_firms p) t = Some (fm_firm fm)))))"
  using capability_rests_on_parts [OF assms] by simp

text \<open>
  The matrix of capabilities and roles. The roles a page shows an action to are the roles its
  guard lets through; a firm administrator may use every capability; a client role gives no firm-level capability in any company, whatever
  the person's memberships; and a viewer can only look: the reports, estimates, jobs and the review
  queue, where a note is all a viewer can add.
\<close>

theorem capability_matrix:
  "set (guard_roles c) = declared_roles c \<and> Firm_admin \<in> declared_roles c
    \<and> (needs_firm c \<longrightarrow> set (guard_roles c) \<inter> set client_roles = {})
    \<and> (Client_viewer \<in> set (guard_roles c) \<longleftrightarrow>
        c \<in> {View_reports, View_estimates, View_jobs, View_exceptions, Note_exceptions})
    \<and> (set (guard_roles c) = {Firm_admin} \<longleftrightarrow>
        c \<in> {Reopen_period, List_tenant_users, Set_policy, Manage_connections, Manage_users,
          Manage_memberships, Manage_firm_memberships, Manage_tenants})"
  by (cases c)
    (simp_all add: guard_roles_def needs_firm_def all_roles_def firm_only_def firm_and_client_admin_def
      client_roles_def insert_commute)

definition ex_principal :: principal where
  "ex_principal = \<lparr>pr_user = 5, pr_totp_enrolled_at = Some 10,
     pr_session = \<lparr>us_id = 1, us_token_hash = ''h'', us_user = 5, us_active_tenant = Some 30,
       us_totp_verified_at = Some 20, us_created_at = 15, us_last_seen_at = 20, us_expires_at = 9000\<rparr>,
     pr_memberships = [\<lparr>mb_tenant = 30, mb_user = 5, mb_role = None, mb_created_at = 1\<rparr>],
     pr_firm_memberships = [\<lparr>fm_firm = 7, fm_user = 5, fm_role = Firm_staff, fm_created_at = 1\<rparr>],
     pr_tenant_firms = [(30, 7)]\<rparr>"

theorem capability_rests_on_witness:
  "\<exists>t r. us_active_tenant (pr_session ex_principal) = Some t \<and> r \<in> set (guard_roles Manage_jobs)"
proof -
  have "check_capability Manage_jobs ex_principal = Inr ex_principal" by code_simp
  moreover have "principal_ok ex_principal" by code_simp
  moreover have "\<not> needs_firm Manage_jobs" by code_simp
  ultimately show ?thesis using capability_rests_on [of Manage_jobs ex_principal ex_principal] by auto
qed

end
