(* ===== verification/Throttle.thy ===== *)
theory Throttle
  imports AccessControl
begin

text \<open>
  The firm's audit log (\<open>app/audit/models.py\<close>, the firm events of \<open>app/core/audit.py\<close>) and the two
  throttles per client address of \<open>app/core/throttle.py\<close>: the one that counts failures in the log,
  and the one kept in the process for the QuickBooks routes. Times are seconds.
\<close>

section \<open>The firm's audit log\<close>

datatype firm_event = Login_success | Login_failure | Account_locked | Ip_throttled | Logout
  | Totp_enrolled | Totp_reset | Recovery_code_used | Activation_link_issued | Password_changed
  | User_created | Tenant_created | Firm_membership_created | Firm_membership_role_changed
  | Firm_membership_removed | Tenant_deleted

datatype firm_detail = No_detail | Throttled_until nat int int | Unknown_email string
  | Failed_attempt string nat | Refused_for string string | Locked_until int string
  | Logged_in string "uuid option" | Codes_issued nat | Codes_remaining nat | Via string
  | Link_expires int string

record firm_audit =
  fa_firm :: "uuid option"
  fa_action :: firm_event
  fa_entity :: "uuid option"
  fa_actor :: "uuid option"
  fa_role :: "role option"
  fa_detail :: firm_detail
  fa_ip :: "string option"
  fa_at :: int

definition firm_audit_row ::
  "int \<Rightarrow> string option \<Rightarrow> uuid option \<Rightarrow> firm_event \<Rightarrow> uuid option \<Rightarrow> uuid option \<Rightarrow> role option \<Rightarrow> firm_detail
    \<Rightarrow> firm_audit" where
  "firm_audit_row now ip firm event entity actor r d = \<lparr>fa_firm = firm, fa_action = event,
     fa_entity = entity, fa_actor = actor, fa_role = r, fa_detail = d, fa_ip = ip, fa_at = now\<rparr>"

record auth_settings =
  ip_throttle_seconds :: int
  ip_throttle_failures :: nat
  lockout_seconds :: int
  lockout_attempts :: nat
  session_idle_seconds :: int
  session_absolute_seconds :: int
  session_touch_seconds :: int
  enrol_session_seconds :: int
  activation_link_seconds :: int

section \<open>The throttle counted from the log\<close>

definition in_window :: "string \<Rightarrow> firm_event \<Rightarrow> int \<Rightarrow> firm_audit \<Rightarrow> bool" where
  "in_window ip event since r \<longleftrightarrow> fa_action r = event \<and> fa_ip r = Some ip \<and> since < fa_at r"

definition is_throttled ::
  "auth_settings \<Rightarrow> firm_audit list \<Rightarrow> string option \<Rightarrow> int \<Rightarrow> firm_audit list \<times> bool" where
  "is_throttled s log ip now = (case ip of
     None \<Rightarrow> (log, False)
   | Some a \<Rightarrow>
       (let since = now - ip_throttle_seconds s in
        if list_ex (in_window a Ip_throttled since) log then (log, True)
        else (let failures = length (filter (in_window a Login_failure since) log) in
          if failures < ip_throttle_failures s then (log, False)
          else (log @ [firm_audit_row now ip None Ip_throttled None None None
            (Throttled_until failures (ip_throttle_seconds s) (now + ip_throttle_seconds s))], True))))"

text \<open>
  A route that runs the throttle first: when it lets the caller through, the attempt writes
  the row of its failure, or none.
\<close>

definition throttled_attempt ::
  "auth_settings \<Rightarrow> string \<Rightarrow> firm_audit list \<Rightarrow> int \<times> bool \<Rightarrow> firm_audit list" where
  "throttled_attempt s ip log a = (case a of (now, fails) \<Rightarrow>
     (case is_throttled s log (Some ip) now of
        (log', True) \<Rightarrow> log'
      | (log', False) \<Rightarrow> if fails
          then log' @ [firm_audit_row now (Some ip) None Login_failure None None None
            (Refused_for ''password'' ''unknown_email'')]
          else log'))"

definition throttled_attempts ::
  "auth_settings \<Rightarrow> string \<Rightarrow> firm_audit list \<Rightarrow> (int \<times> bool) list \<Rightarrow> firm_audit list" where
  "throttled_attempts s ip log as = foldl (throttled_attempt s ip) log as"

definition written :: "string \<Rightarrow> firm_event \<Rightarrow> int \<Rightarrow> int \<Rightarrow> firm_audit list \<Rightarrow> nat" where
  "written ip event after until log =
     length (filter (\<lambda>r. in_window ip event after r \<and> fa_at r \<le> until) log)"

text \<open>In every window of the throttle's length: not more failures than allowed, one throttled row.\<close>

definition log_bounded :: "auth_settings \<Rightarrow> string \<Rightarrow> firm_audit list \<Rightarrow> bool" where
  "log_bounded s ip log \<longleftrightarrow>
     (\<forall>t. written ip Login_failure (t - ip_throttle_seconds s) t log \<le> ip_throttle_failures s)
     \<and> (\<forall>t. written ip Ip_throttled (t - ip_throttle_seconds s) t log \<le> 1)"

lemma written_append:
  "written ip event a t (log @ [r]) =
     written ip event a t log + (if in_window ip event a r \<and> fa_at r \<le> t then 1 else 0)"
  by (simp add: written_def)

lemma written_recent:
  assumes "\<forall>r \<in> set log. fa_at r \<le> now" and "now \<le> t"
  shows "written ip event (t - w) t log \<le> length (filter (in_window ip event (now - w)) log)"
proof -
  have "filter (\<lambda>r. in_window ip event (t - w) r \<and> fa_at r \<le> t) log
      = filter (\<lambda>r. in_window ip event (t - w) r \<and> fa_at r \<le> t) (filter (in_window ip event (now - w)) log)"
    using assms(2) by (auto simp: in_window_def intro!: filter_cong)
  then show ?thesis unfolding written_def by (metis length_filter_le)
qed

lemma attempt_bounded:
  assumes "log_bounded s ip log" and "\<forall>r \<in> set log. fa_at r \<le> now"
  shows "log_bounded s ip (throttled_attempt s ip log (now, fails))"
    and "\<forall>r \<in> set (throttled_attempt s ip log (now, fails)). fa_at r \<le> now"
proof -
  let ?w = "ip_throttle_seconds s" and ?l = "throttled_attempt s ip log (now, fails)"
  let ?n = "length (filter (in_window ip Login_failure (now - ?w)) log)"
  consider (same) "?l = log"
    | (throttled) r where "?l = log @ [r]" "fa_action r = Ip_throttled" "fa_at r = now"
        "filter (in_window ip Ip_throttled (now - ?w)) log = []"
    | (failed) r where "?l = log @ [r]" "fa_action r = Login_failure" "fa_at r = now"
        "?n < ip_throttle_failures s"
  proof (cases "list_ex (in_window ip Ip_throttled (now - ?w)) log")
    case False
    then have none: "filter (in_window ip Ip_throttled (now - ?w)) log = []"
      by (auto simp: list_ex_iff filter_empty_conv)
    show thesis
    proof (cases "?n < ip_throttle_failures s")
      case True
      with False same failed show thesis
        by (cases fails) (auto simp: throttled_attempt_def is_throttled_def Let_def firm_audit_row_def)
    next
      case few: False
      with False none throttled show thesis
        by (auto simp: throttled_attempt_def is_throttled_def Let_def firm_audit_row_def)
    qed
  qed (use same in \<open>simp add: throttled_attempt_def is_throttled_def Let_def\<close>)
  then have "log_bounded s ip ?l \<and> (\<forall>r \<in> set ?l. fa_at r \<le> now)"
  proof cases
    case same
    then show ?thesis using assms by simp
  next
    case throttled
    have "written ip Ip_throttled (t - ?w) t (log @ [r]) \<le> 1" for t
      using written_recent [OF assms(2), of t ip Ip_throttled ?w] throttled(3,4) assms(1)
      by (auto simp: written_append log_bounded_def)
    moreover have "written ip Login_failure (t - ?w) t (log @ [r]) \<le> ip_throttle_failures s" for t
      using assms(1) throttled(2) by (simp add: written_append log_bounded_def in_window_def)
    ultimately show ?thesis using throttled(1,3) assms(2) by (auto simp: log_bounded_def)
  next
    case failed
    have "written ip Login_failure (t - ?w) t (log @ [r]) \<le> ip_throttle_failures s" for t
      using written_recent [OF assms(2), of t ip Login_failure ?w] failed(3,4) assms(1)
      by (auto simp: written_append log_bounded_def)
    moreover have "written ip Ip_throttled (t - ?w) t (log @ [r]) \<le> 1" for t
      using assms(1) failed(2) by (simp add: written_append log_bounded_def in_window_def)
    ultimately show ?thesis using failed(1,3) assms(2) by (auto simp: log_bounded_def)
  qed
  then show "log_bounded s ip ?l" and "\<forall>r \<in> set ?l. fa_at r \<le> now" by blast+
qed

lemma attempts_bounded:
  assumes "log_bounded s ip log" and "sorted (map fst as)"
    and "\<forall>r \<in> set log. \<forall>a \<in> set as. fa_at r \<le> fst a"
  shows "log_bounded s ip (throttled_attempts s ip log as)"
  using assms
proof (induction as arbitrary: log)
  case (Cons a as)
  obtain now fails where a: "a = (now, fails)" by (cases a)
  have past: "\<forall>r \<in> set log. fa_at r \<le> now" using Cons.prems(3) a by auto
  note one = attempt_bounded [OF Cons.prems(1) past, of fails]
  have "log_bounded s ip (throttled_attempts s ip (throttled_attempt s ip log a) as)"
    using one Cons.prems(2) a by (intro Cons.IH) (auto intro: order_trans)
  then show ?case by (simp add: throttled_attempts_def)
qed (simp add: throttled_attempts_def)

text \<open>
  An anonymous caller cannot grow the log. However many attempts one address makes, at whatever
  times, in every stretch of the throttle's window its attempts write at most the allowed number of
  failures and one throttled row; and an attempt made while the address is throttled is refused and
  writes nothing at all.
\<close>

theorem anonymous_writes_bounded:
  assumes "log_bounded s ip log" and "sorted (map fst as)"
    and "\<forall>r \<in> set log. \<forall>a \<in> set as. fa_at r \<le> fst a"
  shows "written ip Login_failure (t - ip_throttle_seconds s) t (throttled_attempts s ip log as)
        + written ip Ip_throttled (t - ip_throttle_seconds s) t (throttled_attempts s ip log as)
      \<le> ip_throttle_failures s + 1
    \<and> (\<forall>now. list_ex (in_window ip Ip_throttled (now - ip_throttle_seconds s)) log \<longrightarrow>
      is_throttled s log (Some ip) now = (log, True))"
proof -
  have bounded: "log_bounded s ip (throttled_attempts s ip log as)"
    using assms by (rule attempts_bounded)
  then have "written ip Login_failure (t - ip_throttle_seconds s) t (throttled_attempts s ip log as)
      \<le> ip_throttle_failures s"
    and "written ip Ip_throttled (t - ip_throttle_seconds s) t (throttled_attempts s ip log as) \<le> 1"
    unfolding log_bounded_def by blast+
  then have "written ip Login_failure (t - ip_throttle_seconds s) t (throttled_attempts s ip log as)
        + written ip Ip_throttled (t - ip_throttle_seconds s) t (throttled_attempts s ip log as)
      \<le> ip_throttle_failures s + 1"
    by simp
  then show ?thesis by (simp add: is_throttled_def Let_def)
qed

section \<open>The throttle kept in the process\<close>

text \<open>\<open>MemoryThrottle\<close>: its two dictionaries; \<open>or "-"\<close> is the key of a caller without an address.\<close>

record memory_throttle =
  mt_failures :: "(string, int list) dict"
  mt_logged_at :: "(string, int) dict"

definition mt_init :: memory_throttle where
  "mt_init = \<lparr>mt_failures = [], mt_logged_at = []\<rparr>"

definition recent_failures :: "auth_settings \<Rightarrow> memory_throttle \<Rightarrow> string \<Rightarrow> int \<Rightarrow> int list" where
  "recent_failures s m ip now =
     filter (\<lambda>t. now - ip_throttle_seconds s < t) (dict_get (mt_failures m) ip [])"

definition mt_refused ::
  "auth_settings \<Rightarrow> memory_throttle \<Rightarrow> string option \<Rightarrow> int \<Rightarrow> memory_throttle \<times> bool" where
  "mt_refused s m ip now = (case ip of
     None \<Rightarrow> (m, False)
   | Some a \<Rightarrow> (let recent = recent_failures s m a now in
       (m\<lparr>mt_failures := AList.update a recent (mt_failures m)\<rparr>,
        length recent \<ge> ip_throttle_failures s)))"

definition mt_record_failure ::
  "auth_settings \<Rightarrow> memory_throttle \<Rightarrow> string option \<Rightarrow> int \<Rightarrow> memory_throttle" where
  "mt_record_failure s m ip now = (case ip of
     None \<Rightarrow> m
   | Some a \<Rightarrow> m\<lparr>mt_failures := AList.update a (recent_failures s m a now @ [now]) (mt_failures m)\<rparr>)"

definition mt_should_log ::
  "auth_settings \<Rightarrow> memory_throttle \<Rightarrow> string option \<Rightarrow> int \<Rightarrow> memory_throttle \<times> bool" where
  "mt_should_log s m ip now =
     (let key = (case ip of None \<Rightarrow> ''-'' | Some a \<Rightarrow> if a = [] then ''-'' else a) in
      case map_of (mt_logged_at m) key of
        Some logged \<Rightarrow> if now - ip_throttle_seconds s < logged then (m, False)
          else (m\<lparr>mt_logged_at := AList.update key now (mt_logged_at m)\<rparr>, True)
      | None \<Rightarrow> (m\<lparr>mt_logged_at := AList.update key now (mt_logged_at m)\<rparr>, True))"

datatype mt_call = Asked "string option" int | Failed "string option" int

definition mt_run :: "auth_settings \<Rightarrow> mt_call list \<Rightarrow> memory_throttle \<Rightarrow> memory_throttle" where
  "mt_run s calls m = foldl (\<lambda>m c. case c of
     Asked ip now \<Rightarrow> fst (mt_refused s m ip now) | Failed ip now \<Rightarrow> mt_record_failure s m ip now) m calls"

definition call_time :: "mt_call \<Rightarrow> int" where
  "call_time c = (case c of Asked _ t \<Rightarrow> t | Failed _ t \<Rightarrow> t)"

definition failures_of :: "string \<Rightarrow> mt_call list \<Rightarrow> int list" where
  "failures_of ip calls =
     List.map_filter (\<lambda>c. case c of Failed (Some a) t \<Rightarrow> if a = ip then Some t else None | _ \<Rightarrow> None) calls"

text \<open>What the throttle keeps of an address is what has failed, up to what is too old to count.\<close>

lemma dict_get_update: "dict_get (AList.update k v t) k' d = (if k' = k then v else dict_get t k' d)"
  by (simp add: dict_get_def map_of_update)

definition kept_since :: "auth_settings \<Rightarrow> memory_throttle \<Rightarrow> string \<Rightarrow> int \<Rightarrow> int list \<Rightarrow> bool" where
  "kept_since s m ip now ts \<longleftrightarrow> (\<forall>later \<ge> now. recent_failures s m ip later =
     filter (\<lambda>t. later - ip_throttle_seconds s < t) ts)"

lemma kept_step:
  assumes "kept_since s m ip now ts" and "now \<le> call_time c"
  shows "kept_since s (mt_run s [c] m) ip (call_time c) (ts @ failures_of ip [c])"
proof -
  have filt: "filter (\<lambda>t. later - w < t) (filter (\<lambda>t. at - w < t) xs) = filter (\<lambda>t. later - w < t) xs"
    if "at \<le> later" for at later w :: int and xs
    using that by (auto intro!: filter_cong)
  show ?thesis
  proof (cases c)
    case (Asked a at)
    have "recent_failures s (mt_run s [c] m) ip later = recent_failures s m ip later" if "at \<le> later" for later
      using filt [OF that] Asked
      by (cases a) (auto simp: mt_run_def mt_refused_def Let_def recent_failures_def dict_get_update)
    then show ?thesis using assms Asked
      by (simp add: kept_since_def call_time_def failures_of_def List.map_filter_simps)
  next
    case (Failed a at)
    have "recent_failures s (mt_run s [c] m) ip later = recent_failures s m ip later
        @ (if a = Some ip then filter (\<lambda>t. later - ip_throttle_seconds s < t) [at] else [])"
      if "at \<le> later" for later
      using filt [OF that] Failed
      by (cases a) (auto simp: mt_run_def mt_record_failure_def Let_def recent_failures_def dict_get_update)
    then show ?thesis using assms Failed
      by (auto simp: kept_since_def call_time_def failures_of_def List.map_filter_simps split: option.split)
  qed
qed

lemma mt_run_append: "mt_run s (xs @ ys) m = mt_run s ys (mt_run s xs m)"
  by (simp add: mt_run_def)

lemma failures_of_append: "failures_of ip (xs @ ys) = failures_of ip xs @ failures_of ip ys"
  by (induction xs) (auto simp: failures_of_def List.map_filter_simps split: option.split)

lemma kept_run:
  assumes "sorted (map call_time calls)" and "\<forall>c \<in> set calls. call_time c \<le> now"
  shows "kept_since s (mt_run s calls mt_init) ip now (failures_of ip calls)"
  using assms
proof (induction calls arbitrary: now rule: rev_induct)
  case Nil
  then show ?case
    by (simp add: kept_since_def mt_run_def mt_init_def recent_failures_def dict_get_def failures_of_def
        List.map_filter_simps)
next
  case (snoc c calls)
  have "kept_since s (mt_run s calls mt_init) ip (call_time c) (failures_of ip calls)"
    using snoc.prems(1) by (intro snoc.IH) (auto simp: sorted_append)
  then have "kept_since s (mt_run s [c] (mt_run s calls mt_init)) ip (call_time c)
      (failures_of ip calls @ failures_of ip [c])"
    by (rule kept_step) simp
  then show ?case using snoc.prems(2)
    by (simp add: mt_run_append failures_of_append kept_since_def)
qed

text \<open>
  The throttle kept in the process refuses an address exactly when at least the allowed number of
  its failures, of all that were ever recorded, lie in the window before now. Forgetting the older
  ones, being asked, and the failures of other addresses make no difference.
\<close>

theorem memory_refused_iff:
  assumes "sorted (map call_time calls)" and "\<forall>c \<in> set calls. call_time c \<le> now"
  shows "snd (mt_refused s (mt_run s calls mt_init) (Some ip) now) \<longleftrightarrow>
    ip_throttle_failures s \<le> length (filter (\<lambda>t. now - ip_throttle_seconds s < t) (failures_of ip calls))"
  using kept_run [OF assms, of s ip] by (simp add: mt_refused_def Let_def kept_since_def)

section \<open>Witnesses\<close>

definition ex_settings_auth :: auth_settings where
  "ex_settings_auth = \<lparr>ip_throttle_seconds = 900, ip_throttle_failures = 2, lockout_seconds = 900,
     lockout_attempts = 5, session_idle_seconds = 3600, session_absolute_seconds = 43200,
     session_touch_seconds = 60, enrol_session_seconds = 900, activation_link_seconds = 259200\<rparr>"

theorem anonymous_writes_bounded_witness:
  "written ''a'' Login_failure 100 1000 (throttled_attempts ex_settings_auth ''a'' []
      [(200, True), (300, True), (400, True), (500, True)])
    + written ''a'' Ip_throttled 100 1000 (throttled_attempts ex_settings_auth ''a'' []
      [(200, True), (300, True), (400, True), (500, True)]) \<le> 3"
  using anonymous_writes_bounded [of ex_settings_auth "''a''" "[]"
      "[(200, True), (300, True), (400, True), (500, True)]" 1000]
  by (simp add: log_bounded_def written_def ex_settings_auth_def)

theorem memory_refused_iff_witness:
  "snd (mt_refused ex_settings_auth (mt_run ex_settings_auth [Failed (Some ''a'') 10, Failed (Some ''b'') 20,
      Asked (Some ''a'') 25, Failed (Some ''a'') 30] mt_init) (Some ''a'') 40)"
  using memory_refused_iff [of "[Failed (Some ''a'') 10, Failed (Some ''b'') 20,
      Asked (Some ''a'') 25, Failed (Some ''a'') 30]" 40 ex_settings_auth "''a''"]
  by (simp add: call_time_def failures_of_def List.map_filter_simps ex_settings_auth_def)

end
