(* ===== verification/SignIn.thy ===== *)
theory SignIn
  imports Throttle
begin

text \<open>
  Signing in: the session store of \<open>app/core/auth.py\<close>, the code matching and recovery codes of
  \<open>app/core/security.py\<close>, and the flows of \<open>app/auth/service.py\<close>: login and lockout, enrolment and
  verification of the second factor, recovery codes, passwords, activation links and the choice
  of the company. Each operation is one transaction. Expected failures are outcomes and keep what
  they wrote; the others are errors and keep nothing. Password hashing, SHA-256, the one-time
  password algorithm and encryption are library calls: functions of the record \<open>auth_env\<close>. Random
  tokens, secrets and recovery codes are arguments.
\<close>

section \<open>The environment and the rows\<close>

record auth_env =
  env_settings :: auth_settings
  env_hash_password :: "string \<Rightarrow> string"
  env_verify_password :: "string \<Rightarrow> string \<Rightarrow> bool"
  env_sha256 :: "string \<Rightarrow> string"
  env_otp :: "string \<Rightarrow> int \<Rightarrow> string"
  env_seal :: "string \<Rightarrow> uuid \<Rightarrow> string \<times> string"
  env_unseal :: "string \<Rightarrow> string \<Rightarrow> uuid \<Rightarrow> string option"

record user =
  u_id :: uuid
  u_email :: string
  u_password_changed_at :: "int option"
  u_totp_enrolled_at :: "int option"
  u_password_hash :: "string option"
  u_failed_count :: nat
  u_window_start :: "int option"
  u_locked_until :: "int option"
  u_totp_secret_enc :: "string option"
  u_totp_key_id :: "string option"
  u_totp_last_counter :: "int option"
  u_recovery_hashes :: "string list option"
  u_activation_hash :: "string option"
  u_activation_expires :: "int option"

record tenant_enter =
  te_tenant :: uuid
  te_actor :: uuid
  te_role :: "role option"
  te_via :: string

record auth_db =
  ad_users :: "user list"
  ad_sessions :: "user_session list"
  ad_firm_memberships :: "firm_membership list"
  ad_memberships :: "membership list"
  ad_tenant_firm :: "uuid \<Rightarrow> uuid"
  ad_log :: "firm_audit list"
  ad_entries :: "tenant_enter list"

datatype auth_error = Totp_not_set_up | Already_enrolled | Enrolment_not_started | Totp_not_enrolled
  | Password_too_short | No_membership | Crypto_error

datatype outcome = Ok_outcome | Invalid_outcome | Locked_outcome

definition find_user :: "auth_db \<Rightarrow> uuid \<Rightarrow> user option" where
  "find_user db i = List.find (\<lambda>u. u_id u = i) (ad_users db)"

definition user_by_email :: "auth_db \<Rightarrow> string \<Rightarrow> user option" where
  "user_by_email db email = List.find (\<lambda>u. u_email u = email) (ad_users db)"

definition put_user :: "user \<Rightarrow> auth_db \<Rightarrow> auth_db" where
  "put_user u db = db\<lparr>ad_users := map (\<lambda>x. if u_id x = u_id u then u else x) (ad_users db)\<rparr>"

definition write_log :: "firm_audit \<Rightarrow> auth_db \<Rightarrow> auth_db" where
  "write_log r db = db\<lparr>ad_log := ad_log db @ [r]\<rparr>"

definition memberships_of :: "auth_db \<Rightarrow> uuid \<Rightarrow> membership list \<times> (uuid, uuid) dict" where
  "memberships_of db user = load_memberships (ad_memberships db) (ad_tenant_firm db) user"

definition firm_memberships_of :: "auth_db \<Rightarrow> uuid \<Rightarrow> firm_membership list" where
  "firm_memberships_of db user = load_firm_memberships (ad_firm_memberships db) user"

text \<open>\<open>sorted(\<dots>, key=str)[0]\<close> over the firms.\<close>

definition firm_id_for :: "firm_membership list \<Rightarrow> (uuid, uuid) dict \<Rightarrow> uuid option" where
  "firm_id_for fms firms =
     (if fms \<noteq> [] then Some (Min (fm_firm ` set fms))
      else if firms = [] then None else Some (Min (snd ` set firms)))"

definition principal_firm_id :: "principal \<Rightarrow> uuid option" where
  "principal_firm_id p = firm_id_for (pr_firm_memberships p) (pr_tenant_firms p)"

section \<open>Sessions\<close>

definition new_session ::
  "auth_env \<Rightarrow> uuid \<Rightarrow> string \<Rightarrow> uuid \<Rightarrow> uuid option \<Rightarrow> int option \<Rightarrow> int \<Rightarrow> int option \<Rightarrow> user_session" where
  "new_session env sid token user tenant verified now ttl =
     \<lparr>us_id = sid, us_token_hash = env_sha256 env token, us_user = user, us_active_tenant = tenant,
      us_totp_verified_at = verified, us_created_at = now, us_last_seen_at = now,
      us_expires_at = now + (case ttl of None \<Rightarrow> session_absolute_seconds (env_settings env) | Some t \<Rightarrow>
        if t = 0 then session_absolute_seconds (env_settings env) else t)\<rparr>"

definition add_session :: "user_session \<Rightarrow> auth_db \<Rightarrow> auth_db" where
  "add_session s db = db\<lparr>ad_sessions := ad_sessions db @ [s]\<rparr>"

definition delete_session :: "uuid \<Rightarrow> auth_db \<Rightarrow> auth_db" where
  "delete_session sid db = db\<lparr>ad_sessions := filter (\<lambda>s. us_id s \<noteq> sid) (ad_sessions db)\<rparr>"

definition delete_user_sessions :: "uuid \<Rightarrow> auth_db \<Rightarrow> auth_db" where
  "delete_user_sessions user db = db\<lparr>ad_sessions := filter (\<lambda>s. us_user s \<noteq> user) (ad_sessions db)\<rparr>"

definition rotate_session ::
  "auth_env \<Rightarrow> uuid \<Rightarrow> string \<Rightarrow> user_session \<Rightarrow> int option \<Rightarrow> int \<Rightarrow> bool \<Rightarrow> auth_db \<Rightarrow> auth_db \<times> user_session" where
  "rotate_session env sid token old verified now fresh db =
     (let row = \<lparr>us_id = sid, us_token_hash = env_sha256 env token, us_user = us_user old,
          us_active_tenant = us_active_tenant old, us_totp_verified_at = verified,
          us_created_at = us_created_at old, us_last_seen_at = now,
          us_expires_at = (if fresh then now + session_absolute_seconds (env_settings env)
            else us_expires_at old)\<rparr>
      in (add_session row (delete_session (us_id old) db), row))"

definition find_session_by_token :: "auth_env \<Rightarrow> auth_db \<Rightarrow> string \<Rightarrow> user_session option" where
  "find_session_by_token env db token =
     List.find (\<lambda>s. us_token_hash s = env_sha256 env token) (ad_sessions db)"

definition is_expired :: "auth_env \<Rightarrow> user_session \<Rightarrow> int \<Rightarrow> bool" where
  "is_expired env s now \<longleftrightarrow>
     us_expires_at s \<le> now \<or> us_last_seen_at s + session_idle_seconds (env_settings env) \<le> now"

definition put_session :: "user_session \<Rightarrow> auth_db \<Rightarrow> auth_db" where
  "put_session s db = db\<lparr>ad_sessions := map (\<lambda>x. if us_id x = us_id s then s else x) (ad_sessions db)\<rparr>"

definition make_principal :: "auth_db \<Rightarrow> user \<Rightarrow> user_session \<Rightarrow> principal" where
  "make_principal db u s = (case memberships_of db (u_id u) of (ms, firms) \<Rightarrow>
     \<lparr>pr_user = u_id u, pr_totp_enrolled_at = u_totp_enrolled_at u, pr_session = s,
      pr_memberships = ms, pr_firm_memberships = firm_memberships_of db (u_id u),
      pr_tenant_firms = firms\<rparr>)"

text \<open>
  The principal of a request. An expired session is removed, and the idle time of a live one
  written, in transactions of their own; a company the person may no longer enter is dropped
  from the session.
\<close>

definition get_principal ::
  "auth_env \<Rightarrow> auth_db \<Rightarrow> string option \<Rightarrow> int \<Rightarrow> auth_db \<times> (refusal, principal) result" where
  "get_principal env db cookie now = (case cookie of
     None \<Rightarrow> (db, Inl Authentication_required)
   | Some token \<Rightarrow>
       if token = [] then (db, Inl Authentication_required)
       else (case find_session_by_token env db token of
         None \<Rightarrow> (db, Inl Authentication_required)
       | Some row \<Rightarrow>
           if is_expired env row now then (delete_session (us_id row) db, Inl Session_expired)
           else (let db1 = (if session_touch_seconds (env_settings env) \<le> now - us_last_seen_at row
                then put_session (row\<lparr>us_last_seen_at := now\<rparr>) db else db) in
             (case find_user db1 (us_user row) of
                None \<Rightarrow> (db1, Inl Authentication_required)
              | Some u \<Rightarrow>
                  (let p = make_principal db1 u row in
                   if us_active_tenant row \<noteq> None \<and> role_in p (us_active_tenant row) = None
                   then (put_session ((if session_touch_seconds (env_settings env) \<le> now - us_last_seen_at row
                            then row\<lparr>us_last_seen_at := now\<rparr> else row)\<lparr>us_active_tenant := None\<rparr>) db1,
                         Inr (p\<lparr>pr_session := row\<lparr>us_active_tenant := None\<rparr>\<rparr>))
                   else (db1, Inr p))))))"

section \<open>Lockout\<close>

definition is_locked :: "user \<Rightarrow> int \<Rightarrow> bool" where
  "is_locked u now \<longleftrightarrow> (case u_locked_until u of None \<Rightarrow> False | Some t \<Rightarrow> now < t)"

text \<open>The counters of a failed attempt: the count it is, and the row after it.\<close>

definition counted :: "auth_settings \<Rightarrow> int \<Rightarrow> user \<Rightarrow> user" where
  "counted s now u =
     (if (case u_window_start u of None \<Rightarrow> True | Some w \<Rightarrow> w + lockout_seconds s \<le> now)
      then u\<lparr>u_window_start := Some now, u_failed_count := 1\<rparr>
      else u\<lparr>u_failed_count := u_failed_count u + 1\<rparr>)"

definition after_failure :: "auth_settings \<Rightarrow> int \<Rightarrow> user \<Rightarrow> user" where
  "after_failure s now u =
     (let c = counted s now u in
      if lockout_attempts s \<le> u_failed_count c
      then c\<lparr>u_locked_until := Some (now + lockout_seconds s), u_failed_count := 0, u_window_start := None\<rparr>
      else c)"

definition record_failure ::
  "auth_env \<Rightarrow> auth_db \<Rightarrow> user \<Rightarrow> uuid option \<Rightarrow> role option \<Rightarrow> string \<Rightarrow> int \<Rightarrow> string option \<Rightarrow> auth_db" where
  "record_failure env db u firm r step now ip =
     (let s = env_settings env; c = counted s now u; u' = after_failure s now u;
          db1 = write_log (firm_audit_row now ip firm Login_failure (Some (u_id u)) (Some (u_id u)) r
            (Failed_attempt step (u_failed_count c))) db;
          db2 = (if lockout_attempts s \<le> u_failed_count c
            then write_log (firm_audit_row now ip firm Account_locked (Some (u_id u)) (Some (u_id u)) r
              (Locked_until (now + lockout_seconds s) step)) db1
            else db1)
      in put_user u' db2)"

definition clear_failures :: "user \<Rightarrow> user" where
  "clear_failures u = u\<lparr>u_failed_count := 0, u_window_start := None, u_locked_until := None\<rparr>"

definition clear_pending_totp :: "user \<Rightarrow> user" where
  "clear_pending_totp u = (if u_totp_enrolled_at u = None
     then u\<lparr>u_totp_secret_enc := None, u_totp_key_id := None, u_totp_last_counter := None\<rparr> else u)"

section \<open>Login\<close>

definition auto_selected_tenant ::
  "membership list \<Rightarrow> (uuid, uuid) dict \<Rightarrow> firm_membership list \<Rightarrow> uuid option" where
  "auto_selected_tenant ms firms fms =
     (case map mb_tenant (filter (\<lambda>m. effective_role (Some m) (map_of firms (mb_tenant m)) fms \<noteq> None) ms) of
        [t] \<Rightarrow> Some t | _ \<Rightarrow> None)"

definition complete_login ::
  "principal \<Rightarrow> string \<Rightarrow> int \<Rightarrow> string option \<Rightarrow> auth_db \<Rightarrow> auth_db" where
  "complete_login p method now ip db =
     (let db1 = write_log (firm_audit_row now ip (principal_firm_id p) Login_success (Some (pr_user p))
          (Some (pr_user p)) (firm_role p) (Logged_in method (active_tenant p))) db
      in case active_tenant p of
           None \<Rightarrow> db1
         | Some t \<Rightarrow> db1\<lparr>ad_entries := ad_entries db1 @ [\<lparr>te_tenant = t, te_actor = pr_user p,
             te_role = role_in p (Some t), te_via = ''auto''\<rparr>]\<rparr>)"

definition verify_password :: "auth_env \<Rightarrow> string option \<Rightarrow> string \<Rightarrow> bool" where
  "verify_password env h password = (case h of None \<Rightarrow> False | Some x \<Rightarrow> env_verify_password env x password)"

text \<open>The session an earlier cookie names is closed when a login succeeds.\<close>

definition drop_old_session :: "auth_env \<Rightarrow> string option \<Rightarrow> auth_db \<Rightarrow> auth_db" where
  "drop_old_session env old db = (case old of
     None \<Rightarrow> db
   | Some token \<Rightarrow> if token = [] then db else
       (case find_session_by_token env db token of None \<Rightarrow> db | Some s \<Rightarrow> delete_session (us_id s) db))"

definition login ::
  "auth_env \<Rightarrow> auth_db \<Rightarrow> string \<Rightarrow> string \<Rightarrow> string option \<Rightarrow> uuid \<Rightarrow> string \<Rightarrow> string option \<Rightarrow> int
    \<Rightarrow> auth_db \<times> outcome \<times> principal option" where
  "login env db email password old sid token ip now =
     (let mail = casefold (strip email) in
      case user_by_email db mail of
        None \<Rightarrow> (write_log (firm_audit_row now ip None Login_failure None None None
            (Unknown_email (env_sha256 env mail))) db, Invalid_outcome, None)
      | Some u \<Rightarrow>
          (case memberships_of db (u_id u) of (ms, firms) \<Rightarrow>
           let fms = firm_memberships_of db (u_id u); firm = firm_id_for fms firms;
               r = highest_firm_role fms;
               note = (\<lambda>why. firm_audit_row now ip firm Login_failure (Some (u_id u)) (Some (u_id u)) r
                 (Refused_for ''password'' why)) in
           if is_locked u now then (write_log (note ''locked'') db, Locked_outcome, None)
           else if \<not> verify_password env (u_password_hash u) password
           then (record_failure env db u firm r ''password'' now ip, Invalid_outcome, None)
           else if fms \<noteq> [] \<and> u_totp_enrolled_at u = None
           then (write_log (note ''totp_not_enrolled'') db, Invalid_outcome, None)
           else
             (let u' = clear_pending_totp (clear_failures u);
                  db1 = drop_old_session env old (put_user u' db);
                  row = new_session env sid token (u_id u) (auto_selected_tenant ms firms fms) None now None;
                  db2 = add_session row db1;
                  p = make_principal db2 u' row
              in (if principal_totp p = Totp_ok then complete_login p ''password'' now ip db2 else db2,
                  Ok_outcome, Some p))))"

definition logout :: "auth_db \<Rightarrow> principal \<Rightarrow> string option \<Rightarrow> int \<Rightarrow> auth_db" where
  "logout db p ip now = delete_session (us_id (pr_session p))
     (write_log (firm_audit_row now ip (principal_firm_id p) Logout (Some (pr_user p)) (Some (pr_user p))
       (firm_role p) No_detail) db)"

section \<open>The second factor\<close>

definition totp_secret :: "auth_env \<Rightarrow> user \<Rightarrow> (auth_error, string) result" where
  "totp_secret env u = (case (u_totp_key_id u, u_totp_secret_enc u) of
     (Some k, Some b) \<Rightarrow> (case env_unseal env k b (u_id u) of None \<Rightarrow> Inl Crypto_error | Some s \<Rightarrow> Inr s)
   | _ \<Rightarrow> Inl Totp_not_set_up)"

text \<open>\<open>match_totp\<close>: the step, within one of now, whose code was given.\<close>

definition totp_step_seconds :: int where
  "totp_step_seconds = 30"

definition clean_code :: "string \<Rightarrow> string" where
  "clean_code code = filter (\<lambda>c. c \<noteq> CHR '' '' \<and> c \<noteq> CHR ''-'') (strip code)"

definition match_totp :: "auth_env \<Rightarrow> string \<Rightarrow> string \<Rightarrow> int \<Rightarrow> int option" where
  "match_totp env secret code at =
     (let c = clean_code code in
      if \<not> (list_all is_digit c \<and> length c = 6) then None
      else List.find (\<lambda>counter. env_otp env secret counter = c)
        (map (\<lambda>offset. (at + offset * totp_step_seconds) div totp_step_seconds) [-1, 0, 1]))"

definition store_totp_secret :: "auth_env \<Rightarrow> user \<Rightarrow> string \<Rightarrow> user" where
  "store_totp_secret env u secret = (case env_seal env secret (u_id u) of (k, b) \<Rightarrow>
     u\<lparr>u_totp_key_id := Some k, u_totp_secret_enc := Some b\<rparr>)"

definition start_totp_enrolment ::
  "auth_env \<Rightarrow> auth_db \<Rightarrow> user \<Rightarrow> string \<Rightarrow> (auth_error, auth_db \<times> string) result" where
  "start_totp_enrolment env db u fresh =
     (if u_totp_enrolled_at u \<noteq> None then Inl Already_enrolled
      else if u_totp_secret_enc u \<noteq> None
      then (case totp_secret env u of Inl e \<Rightarrow> Inl e | Inr s \<Rightarrow> Inr (db, s))
      else Inr (put_user ((store_totp_secret env u fresh)\<lparr>u_totp_last_counter := None\<rparr>) db, fresh))"

text \<open>A code is accepted once: its step must be later than the last one accepted.\<close>

definition accept_code ::
  "auth_env \<Rightarrow> auth_db \<Rightarrow> principal \<Rightarrow> user \<Rightarrow> string \<Rightarrow> int \<Rightarrow> string option
    \<Rightarrow> (auth_error, auth_db \<times> outcome \<times> user) result" where
  "accept_code env db p u code now ip =
     (if is_locked u now then Inr (db, Locked_outcome, u)
      else (case totp_secret env u of
        Inl e \<Rightarrow> Inl e
      | Inr secret \<Rightarrow>
          (case match_totp env secret code now of
             Some counter \<Rightarrow>
               if (case u_totp_last_counter u of None \<Rightarrow> False | Some l \<Rightarrow> counter \<le> l)
               then Inr (record_failure env db u (principal_firm_id p) (firm_role p) ''totp'' now ip,
                 Invalid_outcome, u)
               else (let u' = clear_failures (u\<lparr>u_totp_last_counter := Some counter\<rparr>)
                 in Inr (put_user u' db, Ok_outcome, u'))
           | None \<Rightarrow> Inr (record_failure env db u (principal_firm_id p) (firm_role p) ''totp'' now ip,
               Invalid_outcome, u))))"

definition verified_session ::
  "auth_env \<Rightarrow> uuid \<Rightarrow> string \<Rightarrow> principal \<Rightarrow> string \<Rightarrow> int \<Rightarrow> string option \<Rightarrow> bool \<Rightarrow> auth_db \<Rightarrow> auth_db" where
  "verified_session env sid token p method now ip fresh db =
     (case rotate_session env sid token (pr_session p) (Some now) now fresh db of (db1, row) \<Rightarrow>
        if us_totp_verified_at (pr_session p) \<noteq> None then db1
        else complete_login (p\<lparr>pr_session := row\<rparr>) method now ip db1)"

definition confirm_totp_enrolment ::
  "auth_env \<Rightarrow> auth_db \<Rightarrow> principal \<Rightarrow> user \<Rightarrow> string \<Rightarrow> string list \<Rightarrow> uuid \<Rightarrow> string \<Rightarrow> string option \<Rightarrow> int
    \<Rightarrow> (auth_error, auth_db \<times> outcome) result" where
  "confirm_totp_enrolment env db p u code hashes sid token ip now =
     (if u_totp_enrolled_at u \<noteq> None then Inl Already_enrolled
      else if u_totp_secret_enc u = None then Inl Enrolment_not_started
      else (case accept_code env db p u code now ip of
        Inl e \<Rightarrow> Inl e
      | Inr (db1, Ok_outcome, u1) \<Rightarrow>
          (let u2 = u1\<lparr>u_totp_enrolled_at := Some now, u_recovery_hashes := Some hashes\<rparr>;
               db2 = write_log (firm_audit_row now ip (principal_firm_id p) Totp_enrolled (Some (pr_user p))
                 (Some (pr_user p)) (firm_role p) (Codes_issued (length hashes))) (put_user u2 db1);
               s = pr_session p;
               s' = (if us_active_tenant s = None then s\<lparr>us_active_tenant := auto_selected_tenant
                 (pr_memberships p) (pr_tenant_firms p) (pr_firm_memberships p)\<rparr> else s)
           in Inr (verified_session env sid token (p\<lparr>pr_session := s', pr_totp_enrolled_at := Some now\<rparr>)
               ''password+totp'' now ip True db2, Ok_outcome))
      | Inr (db1, out, _) \<Rightarrow> Inr (db1, out)))"

definition verify_totp ::
  "auth_env \<Rightarrow> auth_db \<Rightarrow> principal \<Rightarrow> user \<Rightarrow> string \<Rightarrow> uuid \<Rightarrow> string \<Rightarrow> string option \<Rightarrow> int
    \<Rightarrow> (auth_error, auth_db \<times> outcome) result" where
  "verify_totp env db p u code sid token ip now =
     (if u_totp_enrolled_at u = None then Inl Totp_not_enrolled
      else (case accept_code env db p u code now ip of
        Inl e \<Rightarrow> Inl e
      | Inr (db1, Ok_outcome, _) \<Rightarrow>
          Inr (verified_session env sid token p ''password+totp'' now ip False db1, Ok_outcome)
      | Inr (db1, out, _) \<Rightarrow> Inr (db1, out)))"

definition normalize_recovery_code :: "string \<Rightarrow> string" where
  "normalize_recovery_code code =
     filter (\<lambda>c. c \<noteq> CHR ''-'' \<and> c \<noteq> CHR '' '') (upper (strip code))"

definition hash_recovery_code :: "auth_env \<Rightarrow> string \<Rightarrow> string" where
  "hash_recovery_code env code = env_sha256 env (normalize_recovery_code code)"

definition use_recovery_code ::
  "auth_env \<Rightarrow> auth_db \<Rightarrow> principal \<Rightarrow> user \<Rightarrow> string \<Rightarrow> uuid \<Rightarrow> string \<Rightarrow> string option \<Rightarrow> int
    \<Rightarrow> (auth_error, auth_db \<times> outcome) result" where
  "use_recovery_code env db p u code sid token ip now =
     (if u_totp_enrolled_at u = None then Inl Totp_not_enrolled
      else if is_locked u now then Inr (db, Locked_outcome)
      else (let hashes = (case u_recovery_hashes u of None \<Rightarrow> [] | Some hs \<Rightarrow> hs);
                h = hash_recovery_code env code in
        if h \<notin> set hashes
        then Inr (record_failure env db u (principal_firm_id p) (firm_role p) ''recovery'' now ip, Invalid_outcome)
        else (let left = remove1 h hashes;
                  db1 = write_log (firm_audit_row now ip (principal_firm_id p) Recovery_code_used
                    (Some (u_id u)) (Some (u_id u)) (firm_role p) (Codes_remaining (length left)))
                    (put_user (clear_failures (u\<lparr>u_recovery_hashes := Some left\<rparr>)) db)
          in Inr (verified_session env sid token p ''password+recovery'' now ip False db1, Ok_outcome))))"

definition reset_totp ::
  "auth_db \<Rightarrow> uuid option \<Rightarrow> role option \<Rightarrow> user \<Rightarrow> uuid option \<Rightarrow> string \<Rightarrow> string option \<Rightarrow> int \<Rightarrow> auth_db" where
  "reset_totp db actor r target firm via ip now =
     write_log (firm_audit_row now ip firm Totp_reset (Some (u_id target)) actor r (Via via))
       (delete_user_sessions (u_id target) (put_user (target\<lparr>u_totp_secret_enc := None,
          u_totp_key_id := None, u_totp_enrolled_at := None, u_totp_last_counter := None,
          u_recovery_hashes := None\<rparr>) db))"

section \<open>Passwords and activation links\<close>

definition min_password_length :: nat where
  "min_password_length = 12"

definition set_password :: "auth_env \<Rightarrow> user \<Rightarrow> string \<Rightarrow> int \<Rightarrow> user" where
  "set_password env u password now = clear_failures (u\<lparr>u_password_hash := Some (env_hash_password env password),
     u_password_changed_at := Some now, u_activation_hash := None, u_activation_expires := None\<rparr>)"

definition change_password ::
  "auth_env \<Rightarrow> auth_db \<Rightarrow> principal \<Rightarrow> user \<Rightarrow> string \<Rightarrow> string \<Rightarrow> string option \<Rightarrow> int
    \<Rightarrow> (auth_error, auth_db \<times> bool) result" where
  "change_password env db p u current new ip now =
     (if length new < min_password_length then Inl Password_too_short
      else if \<not> verify_password env (u_password_hash u) current then Inr (db, False)
      else Inr (write_log (firm_audit_row now ip (principal_firm_id p) Password_changed (Some (u_id u))
          (Some (u_id u)) (firm_role p) (Via ''self''))
        (delete_user_sessions (u_id u) (put_user (set_password env u new now) db)), True))"

definition issue_activation_link ::
  "auth_env \<Rightarrow> auth_db \<Rightarrow> uuid option \<Rightarrow> role option \<Rightarrow> user \<Rightarrow> uuid option \<Rightarrow> string \<Rightarrow> string \<Rightarrow> string option \<Rightarrow> int
    \<Rightarrow> auth_db" where
  "issue_activation_link env db actor r target firm via token ip now =
     (let expires = now + activation_link_seconds (env_settings env) in
      write_log (firm_audit_row now ip firm Activation_link_issued (Some (u_id target)) actor r
          (Link_expires expires via))
        (delete_user_sessions (u_id target) (put_user (clear_pending_totp (target\<lparr>
          u_activation_hash := Some (env_sha256 env token), u_activation_expires := Some expires\<rparr>)) db)))"

datatype activation_next = Next_totp_enrol | Next_login

definition redeem_activation_link ::
  "auth_env \<Rightarrow> auth_db \<Rightarrow> string \<Rightarrow> string \<Rightarrow> uuid \<Rightarrow> string \<Rightarrow> string option \<Rightarrow> int
    \<Rightarrow> (auth_error, auth_db \<times> outcome \<times> activation_next option) result" where
  "redeem_activation_link env db token new sid session_token ip now =
     (if length new < min_password_length then Inl Password_too_short
      else (case List.find (\<lambda>u. u_activation_hash u = Some (env_sha256 env token)) (ad_users db) of
        Some u \<Rightarrow>
          if (case u_activation_expires u of None \<Rightarrow> True | Some e \<Rightarrow> e \<le> now)
          then Inr (write_log (firm_audit_row now ip None Login_failure None None None
            (Refused_for ''link'' ''invalid_or_expired'')) db, Invalid_outcome, None)
          else (let fms = firm_memberships_of db (u_id u);
                    firm = firm_id_for fms (snd (memberships_of db (u_id u)));
                    u' = clear_pending_totp (set_password env u new now);
                    db1 = write_log (firm_audit_row now ip firm Password_changed (Some (u_id u))
                      (Some (u_id u)) (highest_firm_role fms) (Via ''activation_link''))
                      (delete_user_sessions (u_id u) (put_user u' db))
            in if fms \<noteq> [] \<and> u_totp_enrolled_at u' = None
               then Inr (add_session (new_session env sid session_token (u_id u) None None now
                   (Some (enrol_session_seconds (env_settings env)))) db1, Ok_outcome, Some Next_totp_enrol)
               else Inr (db1, Ok_outcome, Some Next_login))
      | None \<Rightarrow> Inr (write_log (firm_audit_row now ip None Login_failure None None None
          (Refused_for ''link'' ''invalid_or_expired'')) db, Invalid_outcome, None)))"

section \<open>The company a session works in\<close>

definition set_active_tenant ::
  "auth_db \<Rightarrow> principal \<Rightarrow> uuid \<Rightarrow> (auth_error, auth_db \<times> role) result" where
  "set_active_tenant db p tenant =
     (case memberships_of db (pr_user p) of (ms, firms) \<Rightarrow>
       (let q = p\<lparr>pr_memberships := ms, pr_tenant_firms := firms\<rparr> in
        case role_in q (Some tenant) of
          None \<Rightarrow> Inl No_membership
        | Some r \<Rightarrow> Inr ((put_session ((pr_session p)\<lparr>us_active_tenant := Some tenant\<rparr>) db)
            \<lparr>ad_entries := ad_entries db @ [\<lparr>te_tenant = tenant, te_actor = pr_user p, te_role = Some r,
              te_via = ''switcher''\<rparr>]\<rparr>, r)))"

definition tenants_for :: "principal \<Rightarrow> (uuid \<times> role) list" where
  "tenants_for p = List.map_filter (\<lambda>m. case role_in p (Some (mb_tenant m)) of
     None \<Rightarrow> None | Some r \<Rightarrow> Some (mb_tenant m, r)) (pr_memberships p)"

end
