(* ===== verification/SignInSafety.thy ===== *)
theory SignInSafety
  imports SignIn
begin

text \<open>
  The sign-in flows as a machine: a step is one request of one caller, with the principal its
  cookie gives, or an action of an administrator on an account. Every step is a sequence of a
  few kinds of change to users and sessions (\<open>change\<close>); the invariant of accounts and sessions and
  the order of accepted codes are proved of those. Memberships do not change here.
\<close>

section \<open>The machine\<close>

definition acts_as :: "auth_env \<Rightarrow> auth_db \<Rightarrow> string option \<Rightarrow> int \<Rightarrow> auth_db \<Rightarrow> principal \<Rightarrow> user \<Rightarrow> bool" where
  "acts_as env db cookie now db1 p u \<longleftrightarrow>
     get_principal env db cookie now = (db1, Inr p) \<and> find_user db1 (pr_user p) = Some u"

definition new_sid :: "uuid \<Rightarrow> auth_db \<Rightarrow> bool" where
  "new_sid sid db \<longleftrightarrow> sid \<notin> us_id ` set (ad_sessions db)"

inductive auth_step :: "auth_env \<Rightarrow> auth_db \<Rightarrow> auth_db \<Rightarrow> bool" for env where
  request_step: "get_principal env db cookie now = (db', r) \<Longrightarrow> auth_step env db db'"
| login_step: "login env db email password old sid token ip now = (db', out, p) \<Longrightarrow> new_sid sid db \<Longrightarrow>
    auth_step env db db'"
| logout_step: "acts_as env db cookie now db1 p u \<Longrightarrow> auth_step env db (logout db1 p ip now)"
| enrol_step: "acts_as env db cookie now db1 p u \<Longrightarrow>
    start_totp_enrolment env db1 u fresh = Inr (db', secret) \<Longrightarrow> auth_step env db db'"
| confirm_step: "acts_as env db cookie now db1 p u \<Longrightarrow> new_sid sid db1 \<Longrightarrow>
    confirm_totp_enrolment env db1 p u code hashes sid token ip now = Inr (db', out) \<Longrightarrow> auth_step env db db'"
| verify_step: "acts_as env db cookie now db1 p u \<Longrightarrow> new_sid sid db1 \<Longrightarrow>
    verify_totp env db1 p u code sid token ip now = Inr (db', out) \<Longrightarrow> auth_step env db db'"
| recover_step: "acts_as env db cookie now db1 p u \<Longrightarrow> new_sid sid db1 \<Longrightarrow>
    use_recovery_code env db1 p u code sid token ip now = Inr (db', out) \<Longrightarrow> auth_step env db db'"
| password_step: "acts_as env db cookie now db1 p u \<Longrightarrow>
    change_password env db1 p u current new ip now = Inr (db', ok) \<Longrightarrow> auth_step env db db'"
| tenant_step: "acts_as env db cookie now db1 p u \<Longrightarrow> get_verified_principal p = Inr p \<Longrightarrow>
    set_active_tenant db1 p t = Inr (db', r) \<Longrightarrow> auth_step env db db'"
| redeem_step: "redeem_activation_link env db token new sid session_token ip now = Inr (db', out, nxt) \<Longrightarrow>
    new_sid sid db \<Longrightarrow> auth_step env db db'"
| link_step: "u \<in> set (ad_users db) \<Longrightarrow>
    auth_step env db (issue_activation_link env db actor r u firm via token ip now)"
| reset_step: "u \<in> set (ad_users db) \<Longrightarrow> auth_step env db (reset_totp db actor r u firm via ip now)"

section \<open>The invariant\<close>

definition firm_member :: "auth_db \<Rightarrow> uuid \<Rightarrow> bool" where
  "firm_member db i \<longleftrightarrow> firm_memberships_of db i \<noteq> []"

definition user_ok :: "auth_env \<Rightarrow> user \<Rightarrow> bool" where
  "user_ok env u \<longleftrightarrow> (u_totp_enrolled_at u \<noteq> None \<longrightarrow> u_totp_secret_enc u \<noteq> None \<and> u_totp_key_id u \<noteq> None
       \<and> u_totp_last_counter u \<noteq> None \<and> u_recovery_hashes u \<noteq> None)
     \<and> u_failed_count u < lockout_attempts (env_settings env)
     \<and> (u_failed_count u = 0 \<longleftrightarrow> u_window_start u = None)"

definition session_ok :: "auth_env \<Rightarrow> auth_db \<Rightarrow> user_session \<Rightarrow> bool" where
  "session_ok env db s \<longleftrightarrow> (\<exists>u \<in> set (ad_users db). u_id u = us_user s
     \<and> (u_totp_enrolled_at u = None \<longrightarrow> us_totp_verified_at s = None)
     \<and> (u_totp_enrolled_at u = None \<and> firm_member db (u_id u) \<longrightarrow>
          us_expires_at s \<le> us_created_at s + enrol_session_seconds (env_settings env)))"

definition auth_inv :: "auth_env \<Rightarrow> auth_db \<Rightarrow> bool" where
  "auth_inv env db \<longleftrightarrow> distinct (map u_id (ad_users db)) \<and> distinct (map us_id (ad_sessions db))
     \<and> (\<forall>u \<in> set (ad_users db). user_ok env u) \<and> (\<forall>s \<in> set (ad_sessions db). session_ok env db s)"

definition settings_ok :: "auth_env \<Rightarrow> bool" where
  "settings_ok env \<longleftrightarrow> 0 < lockout_attempts (env_settings env) \<and> enrol_session_seconds (env_settings env) \<noteq> 0"

section \<open>The kinds of change\<close>

text \<open>What an operation may do to an account that stays as enrolled as it was.\<close>

definition keeps_factor :: "user \<Rightarrow> user \<Rightarrow> bool" where
  "keeps_factor u u' \<longleftrightarrow> u_id u' = u_id u \<and> u_totp_enrolled_at u' = u_totp_enrolled_at u
     \<and> (u_totp_enrolled_at u \<noteq> None \<longrightarrow>
         (\<forall>c. u_totp_last_counter u = Some c \<longrightarrow> (\<exists>c' \<ge> c. u_totp_last_counter u' = Some c')))"

definition same_session :: "user_session \<Rightarrow> user_session \<Rightarrow> bool" where
  "same_session s s' \<longleftrightarrow> us_id s' = us_id s \<and> us_user s' = us_user s \<and> us_created_at s' = us_created_at s
     \<and> us_expires_at s' = us_expires_at s \<and> us_totp_verified_at s' = us_totp_verified_at s"

inductive change :: "auth_env \<Rightarrow> auth_db \<Rightarrow> auth_db \<Rightarrow> bool" for env where
  log_change: "change env db (write_log r db)"
| entry_change: "change env db (db\<lparr>ad_entries := es\<rparr>)"
| user_change: "u \<in> set (ad_users db) \<Longrightarrow> keeps_factor u u' \<Longrightarrow> (user_ok env u \<Longrightarrow> user_ok env u') \<Longrightarrow>
    change env db (put_user u' db)"
| enrol_change: "u \<in> set (ad_users db) \<Longrightarrow> u_totp_enrolled_at u = None \<Longrightarrow> u_id u' = u_id u \<Longrightarrow>
    u_totp_enrolled_at u' \<noteq> None \<Longrightarrow> (user_ok env u \<Longrightarrow> user_ok env u') \<Longrightarrow> change env db (put_user u' db)"
| end_change: "change env db (db\<lparr>ad_sessions := filter P (ad_sessions db)\<rparr>)"
| open_change: "new_sid (us_id s) db \<Longrightarrow> (auth_inv env db \<Longrightarrow> session_ok env db s) \<Longrightarrow> change env db (add_session s db)"
| touch_change: "same_session s s' \<Longrightarrow> s \<in> set (ad_sessions db) \<Longrightarrow> change env db (put_session s' db)"

lemma find_user_Some: "find_user db i = Some u \<Longrightarrow> u \<in> set (ad_users db) \<and> u_id u = i"
  unfolding find_user_def by (rule find_mem)

lemma one_user: "auth_inv env db \<Longrightarrow> u \<in> set (ad_users db) \<Longrightarrow> v \<in> set (ad_users db) \<Longrightarrow> u_id u = u_id v \<Longrightarrow> u = v"
  by (auto simp: auth_inv_def distinct_map dest: inj_onD)

lemma user_ok_after:
  "auth_inv env db \<Longrightarrow> u \<in> set (ad_users db) \<Longrightarrow> (user_ok env u \<Longrightarrow> user_ok env u') \<Longrightarrow> user_ok env u'"
  by (simp add: auth_inv_def)

lemma put_user_ids [simp]: "map u_id (ad_users (put_user u db)) = map u_id (ad_users db)"
  by (auto simp: put_user_def)

lemma firm_member_simps [simp]:
  "firm_member (put_user u db) i = firm_member db i" "firm_member (write_log r db) i = firm_member db i"
  "firm_member (db\<lparr>ad_entries := es\<rparr>) i = firm_member db i"
  "firm_member (db\<lparr>ad_sessions := ss\<rparr>) i = firm_member db i"
  by (simp_all add: firm_member_def firm_memberships_of_def put_user_def write_log_def)

lemma session_ok_cong:
  "ad_users db' = ad_users db \<Longrightarrow> (\<And>i. firm_member db' i = firm_member db i) \<Longrightarrow>
    session_ok env db' s = session_ok env db s"
  by (simp add: session_ok_def)

lemma put_user_inv:
  assumes inv: "auth_inv env db" and u: "u \<in> set (ad_users db)" "u_id u' = u_id u" "user_ok env u'"
    and factor: "\<And>s. s \<in> set ss \<Longrightarrow> us_user s = u_id u \<Longrightarrow>
      u_totp_enrolled_at u' = None \<Longrightarrow> u_totp_enrolled_at u = None"
    and ss: "set ss \<subseteq> set (ad_sessions db)" "distinct (map us_id ss)"
  shows "auth_inv env ((put_user u' db)\<lparr>ad_sessions := ss\<rparr>)"
proof -
  have "session_ok env ((put_user u' db)\<lparr>ad_sessions := ss\<rparr>) s" if s: "s \<in> set ss" for s
  proof -
    have "session_ok env db s" using inv s ss(1) by (auto simp: auth_inv_def)
    then obtain v where v: "v \<in> set (ad_users db)" "u_id v = us_user s"
        "u_totp_enrolled_at v = None \<longrightarrow> us_totp_verified_at s = None"
        "u_totp_enrolled_at v = None \<and> firm_member db (u_id v) \<longrightarrow>
          us_expires_at s \<le> us_created_at s + enrol_session_seconds (env_settings env)"
      unfolding session_ok_def by (elim bexE conjE) (rule that)
    let ?v = "if u_id v = u_id u' then u' else v"
    have "?v \<in> set (ad_users (put_user u' db))" using v(1) by (auto simp: put_user_def)
    moreover have "u_id ?v = us_user s" using v(2) by simp
    moreover have "u_totp_enrolled_at ?v = None \<Longrightarrow> u_totp_enrolled_at v = None"
    proof (cases "u_id v = u_id u'")
      case True
      then have "v = u" using one_user [OF inv v(1) u(1)] u(2) by simp
      then show "u_totp_enrolled_at ?v = None \<Longrightarrow> u_totp_enrolled_at v = None"
        using factor [OF s] v(2) True by simp
    qed simp
    moreover have "u_id ?v = u_id v" by simp
    ultimately show ?thesis unfolding session_ok_def using v(3,4)
      by (intro bexI [of _ ?v]) auto
  qed
  moreover have "\<forall>v \<in> set (ad_users (put_user u' db)). user_ok env v"
    using inv u(3) by (auto simp: auth_inv_def put_user_def)
  moreover have "distinct (map u_id (ad_users (put_user u' db)))"
    unfolding put_user_ids using inv by (simp add: auth_inv_def)
  ultimately show ?thesis using ss(2) by (simp add: auth_inv_def)
qed

lemma auth_change_inv:
  assumes "change env db db'" and inv: "auth_inv env db"
  shows "auth_inv env db'"
  using assms(1)
proof (cases rule: change.cases)
  case (log_change r)
  then show ?thesis using inv by (simp add: auth_inv_def write_log_def session_ok_def firm_member_def
      firm_memberships_of_def)
next
  case (entry_change es)
  then show ?thesis using inv by (simp add: auth_inv_def session_ok_def firm_member_def firm_memberships_of_def)
next
  case (user_change u u')
  have "put_user u' db = (put_user u' db)\<lparr>ad_sessions := ad_sessions db\<rparr>" by (simp add: put_user_def)
  moreover have "auth_inv env ((put_user u' db)\<lparr>ad_sessions := ad_sessions db\<rparr>)"
    using inv user_change(2,3) user_ok_after [OF inv user_change(2,4)]
    by (intro put_user_inv [OF inv user_change(2)]) (auto simp: keeps_factor_def auth_inv_def)
  ultimately show ?thesis using user_change(1) by simp
next
  case (enrol_change u u')
  have "put_user u' db = (put_user u' db)\<lparr>ad_sessions := ad_sessions db\<rparr>" by (simp add: put_user_def)
  moreover have "auth_inv env ((put_user u' db)\<lparr>ad_sessions := ad_sessions db\<rparr>)"
    using inv enrol_change(3-5) user_ok_after [OF inv enrol_change(2,6)]
    by (intro put_user_inv [OF inv enrol_change(2)]) (auto simp: auth_inv_def)
  ultimately show ?thesis using enrol_change(1) by simp
next
  case (end_change P)
  have "session_ok env db' s = session_ok env db s" for s unfolding end_change by (rule session_ok_cong) simp_all
  then show ?thesis using inv by (auto simp: auth_inv_def end_change distinct_map_filter)
next
  case (open_change s)
  have "session_ok env db' x = session_ok env db x" for x
    unfolding open_change(1) by (rule session_ok_cong) (simp_all add: add_session_def)
  then show ?thesis using inv open_change(2,3) unfolding open_change(1)
    by (auto simp: auth_inv_def add_session_def new_sid_def)
next
  case (touch_change s s')
  have ok: "session_ok env db' x = session_ok env db x" for x
    unfolding touch_change(1) by (rule session_ok_cong) (simp_all add: put_session_def)
  have one: "x = s" if "x \<in> set (ad_sessions db)" "us_id x = us_id s" for x
    using inv touch_change(3) that by (auto simp: auth_inv_def distinct_map dest: inj_onD)
  have "session_ok env db s' = session_ok env db s"
    using touch_change(2) by (simp add: session_ok_def same_session_def)
  moreover have "map us_id (ad_sessions db') = map us_id (ad_sessions db)"
    by (auto simp: touch_change(1) put_session_def)
  moreover have "set (ad_sessions db') \<subseteq> insert s' (set (ad_sessions db))" "ad_users db' = ad_users db"
    by (auto simp: touch_change(1) put_session_def)
  ultimately show ?thesis using inv ok touch_change(3) unfolding auth_inv_def by auto
qed


text \<open>The one other kind: an account loses its factor, and its sessions with it.\<close>

definition factor_reset :: "auth_env \<Rightarrow> auth_db \<Rightarrow> auth_db \<Rightarrow> bool" where
  "factor_reset env db db' \<longleftrightarrow> (\<exists>u u' r. u \<in> set (ad_users db) \<and> u_id u' = u_id u \<and> u_totp_enrolled_at u' = None
     \<and> (user_ok env u \<longrightarrow> user_ok env u')
     \<and> db' = write_log r (delete_user_sessions (u_id u) (put_user u' db)))"

lemma factor_reset_inv:
  assumes "factor_reset env db db'" and inv: "auth_inv env db"
  shows "auth_inv env db'"
proof -
  obtain u u' r where reset: "u \<in> set (ad_users db)" "u_id u' = u_id u" "u_totp_enrolled_at u' = None"
      "user_ok env u \<longrightarrow> user_ok env u'" "db' = write_log r (delete_user_sessions (u_id u) (put_user u' db))"
    using assms(1) unfolding factor_reset_def by blast
  have "auth_inv env ((put_user u' db)\<lparr>ad_sessions := filter (\<lambda>s. us_user s \<noteq> u_id u) (ad_sessions db)\<rparr>)"
    using inv reset(2,3) user_ok_after [OF inv reset(1)] reset(4)
    by (intro put_user_inv [OF inv reset(1)]) (auto simp: auth_inv_def distinct_map_filter)
  moreover have "db' = write_log r ((put_user u' db)\<lparr>ad_sessions := filter (\<lambda>s. us_user s \<noteq> u_id u) (ad_sessions db)\<rparr>)"
    by (simp add: reset(5) delete_user_sessions_def put_user_def)
  ultimately show ?thesis using auth_change_inv [OF log_change] by simp
qed

section \<open>Every operation is a sequence of changes\<close>

abbreviation changes :: "auth_env \<Rightarrow> auth_db \<Rightarrow> auth_db \<Rightarrow> bool" where
  "changes env \<equiv> (change env)\<^sup>*\<^sup>*"

lemma changes_inv: "changes env db db' \<Longrightarrow> auth_inv env db \<Longrightarrow> auth_inv env db'"
  by (induction rule: rtranclp_induct) (auto intro: auth_change_inv)

lemma change_after: "changes env db db1 \<Longrightarrow> change env db1 db2 \<Longrightarrow> changes env db db2"
  by (rule rtranclp.rtrancl_into_rtrancl)

lemma log_after: "changes env db db1 \<Longrightarrow> changes env db (write_log r db1)"
  by (rule change_after [OF _ log_change])

lemma end_after:
  "changes env db db1 \<Longrightarrow> changes env db (delete_session i db1)"
  "changes env db db1 \<Longrightarrow> changes env db (delete_user_sessions i db1)"
  unfolding delete_session_def delete_user_sessions_def by (rule change_after [OF _ end_change], assumption)+

lemma users_simps [simp]:
  "ad_users (write_log r db) = ad_users db" "ad_users (delete_session i db) = ad_users db"
  "ad_users (delete_user_sessions j db) = ad_users db" "ad_users (add_session s db) = ad_users db"
  "ad_users (put_session s db) = ad_users db"
  by (simp_all add: write_log_def delete_session_def delete_user_sessions_def add_session_def put_session_def)

lemma sessions_simps [simp]:
  "ad_sessions (write_log r db) = ad_sessions db" "ad_sessions (put_user u db) = ad_sessions db"
  by (simp_all add: write_log_def put_user_def)

lemma put_user_mem: "u \<in> set (ad_users db) \<Longrightarrow> u_id u' = u_id u \<Longrightarrow> u' \<in> set (ad_users (put_user u' db))"
  by (auto simp: put_user_def image_iff)

lemma user_changes_ok:
  assumes "settings_ok env"
  shows "user_ok env u \<Longrightarrow> user_ok env (after_failure (env_settings env) now u)"
    and "user_ok env u \<Longrightarrow> user_ok env (clear_failures u)"
    and "user_ok env u \<Longrightarrow> user_ok env (clear_pending_totp u)"
    and "user_ok env u \<Longrightarrow> user_ok env (set_password env u pw now)"
  using assms
  by (auto simp: user_ok_def settings_ok_def after_failure_def counted_def clear_failures_def
      clear_pending_totp_def set_password_def Let_def split: option.splits)

lemma user_keeps:
  "keeps_factor u (after_failure s now u)" "keeps_factor u (clear_failures u)"
  "keeps_factor u (clear_pending_totp u)" "keeps_factor u (set_password env u pw now)"
  by (auto simp: keeps_factor_def after_failure_def counted_def clear_failures_def clear_pending_totp_def
      set_password_def Let_def split: option.splits)

lemma keeps_trans: "keeps_factor u v \<Longrightarrow> keeps_factor v w \<Longrightarrow> keeps_factor u w"
  unfolding keeps_factor_def by (metis order_trans)

lemma record_failure_changes:
  assumes "settings_ok env" and "u \<in> set (ad_users db)"
  shows "changes env db (record_failure env db u firm r what now ip)"
proof -
  let ?s = "env_settings env"
  have "changes env db (put_user (after_failure ?s now u) db2)" if "changes env db db2" "ad_users db2 = ad_users db" for db2
    using that(1)
    by (rule change_after) (rule user_change [of u], use assms that(2) user_keeps user_changes_ok in auto)
  moreover have "changes env db (write_log a db)" "changes env db (write_log b (write_log a db))" for a b
    using log_after by blast+
  ultimately show ?thesis by (auto simp: record_failure_def Let_def)
qed

lemma complete_login_changes: "changes env db db1 \<Longrightarrow> changes env db (complete_login p method now ip db1)"
  by (auto simp: complete_login_def Let_def split: option.split intro: log_after change_after [OF _ entry_change])

lemma verified_session_changes:
  assumes "changes env db db1" and "new_sid sid db1"
    and "u \<in> set (ad_users db1)" "u_id u = us_user (pr_session p)" "u_totp_enrolled_at u \<noteq> None"
  shows "changes env db (verified_session env sid token p method now ip fresh db1)"
proof -
  obtain db2 row where r: "rotate_session env sid token (pr_session p) (Some now) now fresh db1 = (db2, row)"
    by (cases "rotate_session env sid token (pr_session p) (Some now) now fresh db1")
  have row: "us_id row = sid" "us_user row = us_user (pr_session p)"
      "db2 = add_session row (delete_session (us_id (pr_session p)) db1)"
    using r by (auto simp: rotate_session_def Let_def)
  have "new_sid (us_id row) (delete_session (us_id (pr_session p)) db1)"
    using assms(2) row(1) by (auto simp: new_sid_def delete_session_def)
  moreover have "session_ok env (delete_session (us_id (pr_session p)) db1) row"
    using assms(3-5) row(2) by (auto simp: session_ok_def intro!: bexI [of _ u])
  ultimately have "changes env db db2"
    unfolding row(3) by (intro change_after [OF end_after(1) [OF assms(1)] open_change]) auto
  then show ?thesis by (simp add: verified_session_def r complete_login_changes)
qed

text \<open>What a principal of a request is, and what the request has changed by then.\<close>

lemma same_sym: "same_session s s' \<Longrightarrow> same_session s' s"
  by (simp add: same_session_def)

lemma same_untenanted:
  "same_session s s' \<Longrightarrow> same_session (s'\<lparr>us_active_tenant := None\<rparr>) (s\<lparr>us_active_tenant := None\<rparr>)"
  by (simp add: same_session_def)

lemma get_principal_cases:
  assumes "get_principal env db cookie now = (db', r)"
  obtains (refused) e where "r = Inl e" "changes env db db'" "ad_users db' = ad_users db"
  | (live) row u p s where "r = Inr p" "row \<in> set (ad_sessions db)" "\<not> is_expired env row now"
    "find_user db (us_user row) = Some u" "ad_users db' = ad_users db" "changes env db db'"
    "s \<in> set (ad_sessions db')" "same_session s (pr_session p)"
    "pr_session p = row \<or> pr_session p = row\<lparr>us_active_tenant := None\<rparr>"
    "p = (make_principal db u row)\<lparr>pr_session := pr_session p\<rparr>"
    "pr_user p = u_id u" "us_user (pr_session p) = u_id u"
    "active_tenant p \<noteq> None \<longrightarrow> active_role p \<noteq> None"
    "ad_memberships db' = ad_memberships db \<and> ad_firm_memberships db' = ad_firm_memberships db
      \<and> ad_tenant_firm db' = ad_tenant_firm db"
proof (cases "\<exists>token row. cookie = Some token \<and> token \<noteq> [] \<and> find_session_by_token env db token = Some row
    \<and> \<not> is_expired env row now")
  case False
  then have "(\<exists>e. r = Inl e) \<and> (db' = db \<or> (\<exists>i. db' = delete_session i db))"
    using assms by (auto simp: get_principal_def split: option.splits if_splits)
  then show thesis using refused end_after(1) [of env db db] by auto
next
  case True
  then obtain token row where row: "cookie = Some token" "token \<noteq> []" "find_session_by_token env db token = Some row"
      "\<not> is_expired env row now" by blast
  then have mem: "row \<in> set (ad_sessions db)" unfolding find_session_by_token_def by (auto dest: find_mem)
  define row1 where "row1 = (if session_touch_seconds (env_settings env) \<le> now - us_last_seen_at row
      then row\<lparr>us_last_seen_at := now\<rparr> else row)"
  define db1 where "db1 = (if session_touch_seconds (env_settings env) \<le> now - us_last_seen_at row
      then put_session row1 db else db)"
  have same: "same_session row row1" "same_session row row" by (auto simp: same_session_def row1_def)
  have "changes env db (put_session row1 db)" by (rule r_into_rtranclp) (rule touch_change [OF same(1) mem])
  then have db1: "changes env db db1" "ad_users db1 = ad_users db" "row1 \<in> set (ad_sessions db1)"
      "ad_memberships db1 = ad_memberships db" "ad_firm_memberships db1 = ad_firm_memberships db"
      "ad_tenant_firm db1 = ad_tenant_firm db"
    using mem by (auto simp: db1_def) (auto simp: row1_def put_session_def image_iff)
  have get: "get_principal env db cookie now = (case find_user db1 (us_user row) of
      None \<Rightarrow> (db1, Inl Authentication_required)
    | Some u \<Rightarrow> (let p = make_principal db1 u row in
        if us_active_tenant row \<noteq> None \<and> role_in p (us_active_tenant row) = None
        then (put_session (row1\<lparr>us_active_tenant := None\<rparr>) db1,
          Inr (p\<lparr>pr_session := row\<lparr>us_active_tenant := None\<rparr>\<rparr>))
        else (db1, Inr p)))"
    using row by (simp add: get_principal_def Let_def row1_def db1_def split: option.split)
  show thesis
  proof (cases "find_user db1 (us_user row)")
    case None
    then have "r = Inl Authentication_required" "db' = db1" using assms get by auto
    then show thesis using refused db1(1,2) by simp
  next
    case (Some u)
    have u: "find_user db (us_user row) = Some u" "u_id u = us_user row"
      using Some db1(2) find_user_Some [OF Some] by (auto simp: find_user_def)
    have mk: "make_principal db1 u row = make_principal db u row"
      using db1(4-6) by (simp add: make_principal_def memberships_of_def firm_memberships_of_def)
    let ?p = "make_principal db u row"
    have p: "pr_session ?p = row" "pr_user ?p = u_id u" by (simp_all add: make_principal_def split: prod.split)
    show thesis
    proof (cases "us_active_tenant row \<noteq> None \<and> role_in ?p (us_active_tenant row) = None")
      case True
      let ?row = "row1\<lparr>us_active_tenant := None\<rparr>"
      have r: "r = Inr (?p\<lparr>pr_session := row\<lparr>us_active_tenant := None\<rparr>\<rparr>)" "db' = put_session ?row db1"
        using assms get Some True by (auto simp: Let_def mk)
      have "same_session row1 ?row" by (simp add: same_session_def)
      then have "changes env db db'" unfolding r(2) using change_after [OF db1(1) touch_change] db1(3) by blast
      moreover have "?row \<in> set (ad_sessions db')" using db1(3) by (auto simp: r(2) put_session_def image_iff)
      ultimately show thesis
        using live [OF r(1) mem row(4) u(1), of ?row] db1 u(2) p same_untenanted [OF same(1)]
        by (simp add: r(2) active_tenant_def) (simp add: put_session_def)
    next
      case False
      then have r: "r = Inr ?p" "db' = db1" using assms get Some by (auto simp: Let_def mk)
      show thesis
        using live [OF r(1) mem row(4) u(1), of row1] db1 u(2) p False same_sym [OF same(1)]
        by (simp add: r(2) active_tenant_def active_role_def) auto
    qed
  qed
qed


lemma acts_as_facts:
  assumes "acts_as env db cookie now db1 p u"
  shows "changes env db db1" and "u \<in> set (ad_users db1)" and "ad_users db1 = ad_users db"
    and "pr_user p = u_id u" and "us_user (pr_session p) = u_id u"
    and "\<exists>s \<in> set (ad_sessions db1). same_session s (pr_session p)"
    and "pr_firm_memberships p = firm_memberships_of db (u_id u)"
    and "pr_totp_enrolled_at p = u_totp_enrolled_at u"
proof -
  have get: "get_principal env db cookie now = (db1, Inr p)" and u: "find_user db1 (pr_user p) = Some u"
    using assms by (simp_all add: acts_as_def)
  from get have "changes env db db1 \<and> u \<in> set (ad_users db1) \<and> ad_users db1 = ad_users db \<and> pr_user p = u_id u
      \<and> us_user (pr_session p) = u_id u \<and> (\<exists>s \<in> set (ad_sessions db1). same_session s (pr_session p))
      \<and> pr_firm_memberships p = firm_memberships_of db (u_id u) \<and> pr_totp_enrolled_at p = u_totp_enrolled_at u"
  proof (cases rule: get_principal_cases)
    case (live row v q s)
    have q: "q = p" using live(1) by simp
    have v: "v = u"
    proof -
      have "find_user db (u_id v) = Some v" using live(4) find_user_Some [OF live(4)] by simp
      moreover have "find_user db (u_id v) = Some u" using u live(5,11) q by (simp add: find_user_def)
      ultimately show ?thesis by simp
    qed
    have "pr_firm_memberships p = firm_memberships_of db (u_id u) \<and> pr_totp_enrolled_at p = u_totp_enrolled_at u"
      by (subst (1 2) live(10) [unfolded q]) (simp add: make_principal_def v split: prod.split)
    then show ?thesis
      using live(5-8,11,12) find_user_Some [OF u] unfolding q v by blast
  qed simp
  then show "changes env db db1" and "u \<in> set (ad_users db1)" and "ad_users db1 = ad_users db"
    and "pr_user p = u_id u" and "us_user (pr_session p) = u_id u"
    and "\<exists>s \<in> set (ad_sessions db1). same_session s (pr_session p)"
    and "pr_firm_memberships p = firm_memberships_of db (u_id u)"
    and "pr_totp_enrolled_at p = u_totp_enrolled_at u" by blast+
qed

lemma login_changes:
  assumes ok: "settings_ok env" and run: "login env db email password old sid token ip now = (db', out, p)"
    and sid: "new_sid sid db"
  shows "changes env db db'"
proof (cases "user_by_email db (casefold (strip email))")
  case None
  then show ?thesis using run log_after [of env db db] by (auto simp: login_def Let_def)
next
  case (Some u)
  then have u: "u \<in> set (ad_users db)" unfolding user_by_email_def by (auto dest: find_mem)
  obtain ms firms where ms: "memberships_of db (u_id u) = (ms, firms)" by (cases "memberships_of db (u_id u)")
  let ?fms = "firm_memberships_of db (u_id u)"
  show ?thesis
  proof (cases "is_locked u now \<or> \<not> verify_password env (u_password_hash u) password
      \<or> ?fms \<noteq> [] \<and> u_totp_enrolled_at u = None")
    case True
    then show ?thesis
      using run record_failure_changes [OF ok u] log_after [of env db db]
      by (auto simp: login_def Let_def Some ms split: if_splits)
  next
    case False
    define u' where "u' = clear_pending_totp (clear_failures u)"
    have u': "keeps_factor u u'" "user_ok env u \<Longrightarrow> user_ok env u'"
      using keeps_trans [OF user_keeps(2,3)] user_changes_ok(2,3) [OF ok] by (auto simp: u'_def)
    define db1 where "db1 = drop_old_session env old (put_user u' db)"
    define row where "row = new_session env sid token (u_id u) (auto_selected_tenant ms firms ?fms) None now None"
    have first: "changes env db (put_user u' db)" by (rule r_into_rtranclp) (rule user_change [OF u u'])
    have drop: "db1 = put_user u' db \<or> (\<exists>i. db1 = delete_session i (put_user u' db))"
      by (auto simp: db1_def drop_old_session_def split: option.split)
    then have "changes env db db1" using first end_after(1) [OF first] by blast
    moreover have "ad_users db1 = ad_users (put_user u' db)" using drop by auto
    moreover have "new_sid (us_id row) db1"
      using drop sid by (auto simp: row_def new_session_def new_sid_def delete_session_def)
    moreover have "ad_firm_memberships db1 = ad_firm_memberships db"
      using drop by (auto simp: delete_session_def put_user_def)
    ultimately have db1: "changes env db db1" "ad_users db1 = ad_users (put_user u' db)"
      "new_sid (us_id row) db1" "ad_firm_memberships db1 = ad_firm_memberships db" by blast+
    have "session_ok env db1 row"
    proof -
      have "u' \<in> set (ad_users db1)" using put_user_mem [OF u] u'(1) db1(2) by (simp add: keeps_factor_def)
      moreover have "\<not> (u_totp_enrolled_at u' = None \<and> firm_member db1 (u_id u'))"
        using False u'(1) db1(4) by (auto simp: keeps_factor_def firm_member_def firm_memberships_of_def)
      ultimately show ?thesis using u'(1)
        by (auto simp: session_ok_def row_def new_session_def keeps_factor_def intro!: bexI [of _ u'])
    qed
    then have "changes env db (add_session row db1)"
      by (intro change_after [OF db1(1) open_change [OF db1(3)]])
    then show ?thesis using run False complete_login_changes
      by (auto simp: login_def Let_def Some ms db1_def row_def u'_def split: if_splits)
  qed
qed

lemma accept_code_cases:
  assumes "accept_code env db p u code now ip = Inr (db', out, u')"
  obtains (locked) "out = Locked_outcome" "db' = db" "u' = u"
  | (wrong) "out = Invalid_outcome" "u' = u"
      "db' = record_failure env db u (principal_firm_id p) (firm_role p) ''totp'' now ip"
  | (accepted) secret counter where "out = Ok_outcome" "totp_secret env u = Inr secret"
      "match_totp env secret code now = Some counter" "\<forall>l. u_totp_last_counter u = Some l \<longrightarrow> l < counter"
      "u' = clear_failures (u\<lparr>u_totp_last_counter := Some counter\<rparr>)" "db' = put_user u' db" "\<not> is_locked u now"
proof (cases "is_locked u now")
  case False
  show thesis
  proof (cases "totp_secret env u")
    case (Inl e)
    then show thesis using assms False by (simp add: accept_code_def)
  next
    case (Inr secret)
    show thesis
    proof (cases "match_totp env secret code now")
      case None
      then show thesis using assms False Inr by (intro wrong) (auto simp: accept_code_def)
    next
      case (Some counter)
      show thesis
      proof (cases "case u_totp_last_counter u of None \<Rightarrow> False | Some l \<Rightarrow> counter \<le> l")
        case True
        then show thesis using assms False Inr Some by (intro wrong) (auto simp: accept_code_def)
      next
        case new: False
        then have "\<forall>l. u_totp_last_counter u = Some l \<longrightarrow> l < counter" by auto
        then show thesis using assms False Inr Some new
          by (intro accepted [OF _ Inr Some]) (auto simp: accept_code_def Let_def)
      qed
    qed
  qed
qed (use assms locked in \<open>simp add: accept_code_def\<close>)

lemma accepted_changes:
  assumes "settings_ok env" and "u \<in> set (ad_users db)" and "accept_code env db p u code now ip = Inr (db', out, u')"
  shows "changes env db db' \<and> (out = Ok_outcome \<longrightarrow> u' \<in> set (ad_users db')) \<and> u_id u' = u_id u
    \<and> u_totp_enrolled_at u' = u_totp_enrolled_at u \<and> ad_sessions db' = ad_sessions db"
  using assms(3)
proof (cases rule: accept_code_cases)
  case wrong
  then show ?thesis using record_failure_changes [OF assms(1,2)] by (simp add: record_failure_def Let_def)
next
  case (accepted secret counter)
  have "keeps_factor u u'" "user_ok env u \<Longrightarrow> user_ok env u'"
    using accepted(4,5) assms(1)
    by (auto simp: keeps_factor_def clear_failures_def user_ok_def settings_ok_def less_imp_le)
  then have "changes env db db'" unfolding accepted(6)
    by (intro r_into_rtranclp user_change [OF assms(2)])
  moreover have "u' \<in> set (ad_users db')" unfolding accepted(6) using put_user_mem [OF assms(2)] accepted(5)
    by (simp add: clear_failures_def)
  ultimately show ?thesis using accepted(5,6) by (simp add: clear_failures_def)
qed simp


lemma confirm_changes:
  assumes ok: "settings_ok env" and acts: "acts_as env db cookie now db1 p u" and sid: "new_sid sid db1"
    and run: "confirm_totp_enrolment env db1 p u code hashes sid token ip now = Inr (db', out)"
  shows "changes env db1 db'"
proof -
  note a = acts_as_facts [OF acts]
  obtain db2 o2 u2 where code: "accept_code env db1 p u code now ip = Inr (db2, o2, u2)"
    using run by (auto simp: confirm_totp_enrolment_def split: if_splits sum.splits)
  have fresh: "u_totp_enrolled_at u = None" "u_totp_secret_enc u \<noteq> None"
    using run by (auto simp: confirm_totp_enrolment_def split: if_splits)
  note c = accepted_changes [OF ok a(2) code]
  show ?thesis
  proof (cases "o2 = Ok_outcome")
    case False
    then have "db' = db2" using run fresh by (cases o2) (auto simp: confirm_totp_enrolment_def code)
    then show ?thesis using c by blast
  next
    case True
    obtain secret counter where acc: "totp_secret env u = Inr secret"
        "u2 = clear_failures (u\<lparr>u_totp_last_counter := Some counter\<rparr>)"
      using code True by (cases rule: accept_code_cases) auto
    have key: "u_totp_key_id u \<noteq> None" using acc(1) by (auto simp: totp_secret_def split: option.splits)
    define u3 where "u3 = u2\<lparr>u_totp_enrolled_at := Some now, u_recovery_hashes := Some hashes\<rparr>"
    define db3 where "db3 = write_log (firm_audit_row now ip (principal_firm_id p) Totp_enrolled (Some (pr_user p))
        (Some (pr_user p)) (firm_role p) (Codes_issued (length hashes))) (put_user u3 db2)"
    have u2: "u2 \<in> set (ad_users db2)" "u_totp_enrolled_at u2 = None" "ad_sessions db2 = ad_sessions db1"
      using c True fresh(1) by auto
    have "user_ok env u2 \<Longrightarrow> user_ok env u3"
      using acc(2) fresh(2) key by (auto simp: u3_def user_ok_def clear_failures_def)
    then have enrol: "change env db2 (put_user u3 db2)"
      by (intro enrol_change [OF u2(1,2)]) (simp_all add: u3_def)
    have db3: "changes env db1 db3"
      unfolding db3_def by (rule log_after, rule change_after [OF conjunct1 [OF c] enrol])
    define q where "q = p\<lparr>pr_session := (if us_active_tenant (pr_session p) = None
        then (pr_session p)\<lparr>us_active_tenant := auto_selected_tenant (pr_memberships p) (pr_tenant_firms p)
          (pr_firm_memberships p)\<rparr> else pr_session p), pr_totp_enrolled_at := Some now\<rparr>"
    have "db' = verified_session env sid token q ''password+totp'' now ip True db3"
      using run fresh True by (simp add: confirm_totp_enrolment_def code Let_def q_def db3_def u3_def)
    moreover have "new_sid sid db3" using sid u2(3) by (simp add: new_sid_def db3_def)
    moreover have "u3 \<in> set (ad_users db3)" using put_user_mem [OF u2(1)] by (simp add: db3_def u3_def)
    moreover have "u_id u3 = us_user (pr_session q)" using a(5) c by (simp add: u3_def q_def)
    ultimately show ?thesis using verified_session_changes [OF db3] by (simp add: u3_def)
  qed
qed

lemma verify_changes:
  assumes ok: "settings_ok env" and acts: "acts_as env db cookie now db1 p u" and sid: "new_sid sid db1"
    and run: "verify_totp env db1 p u code sid token ip now = Inr (db', out)"
  shows "changes env db1 db'"
proof -
  note a = acts_as_facts [OF acts]
  obtain db2 o2 u2 where code: "accept_code env db1 p u code now ip = Inr (db2, o2, u2)"
    using run by (auto simp: verify_totp_def split: if_splits sum.splits)
  have enrolled: "u_totp_enrolled_at u \<noteq> None" using run by (auto simp: verify_totp_def split: if_splits)
  note c = accepted_changes [OF ok a(2) code]
  show ?thesis
  proof (cases "o2 = Ok_outcome")
    case False
    then have "db' = db2" using run enrolled by (cases o2) (auto simp: verify_totp_def code)
    then show ?thesis using c by blast
  next
    case True
    then have "db' = verified_session env sid token p ''password+totp'' now ip False db2"
      using run enrolled by (auto simp: verify_totp_def code)
    moreover have "new_sid sid db2" using c sid by (simp add: new_sid_def)
    ultimately show ?thesis
      using verified_session_changes [of env db1 db2 sid u2 p] c True enrolled a(5) by simp
  qed
qed

lemma recover_changes:
  assumes ok: "settings_ok env" and acts: "acts_as env db cookie now db1 p u" and sid: "new_sid sid db1"
    and run: "use_recovery_code env db1 p u code sid token ip now = Inr (db', out)"
  shows "changes env db1 db'"
proof -
  note a = acts_as_facts [OF acts]
  have enrolled: "u_totp_enrolled_at u \<noteq> None" using run by (auto simp: use_recovery_code_def split: if_splits)
  define h where "h = hash_recovery_code env code"
  define hashes where "hashes = (case u_recovery_hashes u of None \<Rightarrow> [] | Some hs \<Rightarrow> hs)"
  consider (locked) "is_locked u now" | (wrong) "\<not> is_locked u now" "h \<notin> set hashes"
    | (right) "\<not> is_locked u now" "h \<in> set hashes" by blast
  then show ?thesis
  proof cases
    case locked
    then show ?thesis using run enrolled by (auto simp: use_recovery_code_def)
  next
    case wrong
    then show ?thesis
      using run enrolled record_failure_changes [OF ok a(2)]
      by (simp add: use_recovery_code_def Let_def flip: h_def hashes_def) blast
  next
    case right
    define u2 where "u2 = clear_failures (u\<lparr>u_recovery_hashes := Some (remove1 h hashes)\<rparr>)"
    define db2 where "db2 = write_log (firm_audit_row now ip (principal_firm_id p) Recovery_code_used
        (Some (u_id u)) (Some (u_id u)) (firm_role p) (Codes_remaining (length (remove1 h hashes)))) (put_user u2 db1)"
    have "db' = verified_session env sid token p ''password+recovery'' now ip False db2"
      using run enrolled right
      by (simp add: use_recovery_code_def Let_def db2_def u2_def flip: h_def hashes_def)
    moreover have "keeps_factor u u2" "user_ok env u \<Longrightarrow> user_ok env u2"
      using ok by (auto simp: u2_def keeps_factor_def user_ok_def settings_ok_def clear_failures_def)
    then have "changes env db1 db2" unfolding db2_def by (intro log_after r_into_rtranclp user_change [OF a(2)])
    moreover have "u2 \<in> set (ad_users db2)" using put_user_mem [OF a(2)] by (simp add: db2_def u2_def clear_failures_def)
    moreover have "new_sid sid db2" using sid by (simp add: new_sid_def db2_def)
    moreover have "u_id u2 = u_id u" "u_totp_enrolled_at u2 = u_totp_enrolled_at u"
      by (simp_all add: u2_def clear_failures_def)
    ultimately show ?thesis using verified_session_changes [of env db1 db2 sid u2 p] enrolled a(5) by simp
  qed
qed

lemma redeem_changes:
  assumes ok: "settings_ok env" and sid: "new_sid sid db"
    and run: "redeem_activation_link env db token new sid session_token ip now = Inr (db', out, nxt)"
  shows "changes env db db'"
proof (cases "List.find (\<lambda>u. u_activation_hash u = Some (env_sha256 env token)) (ad_users db)")
  case None
  then show ?thesis using run log_after [of env db db] by (auto simp: redeem_activation_link_def split: if_splits)
next
  case (Some u)
  then have u: "u \<in> set (ad_users db)" by (auto dest: find_mem)
  show ?thesis
  proof (cases "case u_activation_expires u of None \<Rightarrow> True | Some e \<Rightarrow> e \<le> now")
    case True
    then show ?thesis using run log_after [of env db db]
      by (auto simp: redeem_activation_link_def Some split: if_splits)
  next
    case False
    define u2 where "u2 = clear_pending_totp (set_password env u new now)"
    define r where "r = firm_audit_row now ip (firm_id_for (firm_memberships_of db (u_id u))
        (snd (memberships_of db (u_id u)))) Password_changed (Some (u_id u)) (Some (u_id u))
        (highest_firm_role (firm_memberships_of db (u_id u))) (Via ''activation_link'')"
    define db2 where "db2 = write_log r (delete_user_sessions (u_id u) (put_user u2 db))"
    define s where "s = new_session env sid session_token (u_id u) None None now
        (Some (enrol_session_seconds (env_settings env)))"
    have "keeps_factor u u2" "user_ok env u \<Longrightarrow> user_ok env u2"
      unfolding u2_def using keeps_trans [OF user_keeps(4,3)] user_changes_ok(3,4) [OF ok] by blast+
    then have db2: "changes env db db2" unfolding db2_def
      by (intro log_after end_after(2) r_into_rtranclp user_change [OF u])
    have "db' = db2 \<or> db' = add_session s db2"
      using run False
      by (auto simp: redeem_activation_link_def Some Let_def db2_def u2_def s_def r_def split: if_splits)
    moreover have "changes env db (add_session s db2)"
    proof (rule change_after [OF db2 open_change])
      show "new_sid (us_id s) db2"
        using sid by (auto simp: s_def new_session_def new_sid_def db2_def delete_user_sessions_def)
      have "u2 \<in> set (ad_users db2)" using put_user_mem [OF u]
        by (simp add: db2_def u2_def clear_pending_totp_def set_password_def clear_failures_def)
      then show "session_ok env db2 s" using ok
        by (auto simp: session_ok_def s_def new_session_def u2_def clear_pending_totp_def set_password_def
            clear_failures_def settings_ok_def intro!: bexI [of _ u2])
    qed
    ultimately show ?thesis using db2 by blast
  qed
qed

lemma auth_step_changes:
  assumes ok: "settings_ok env" and "auth_step env db db'"
  shows "changes env db db' \<or> factor_reset env db db'"
  using assms(2)
proof (cases rule: auth_step.cases)
  case (request_step cookie now r)
  from request_step show ?thesis by (cases rule: get_principal_cases) auto
next
  case (login_step email password old sid token ip now out p)
  then show ?thesis using login_changes [OF ok] by blast
next
  case (logout_step cookie now db1 p u ip)
  from logout_step(2) have "changes env db db1" by (rule acts_as_facts(1))
  then have "changes env db db'" unfolding logout_step logout_def by (intro end_after log_after)
  then show ?thesis ..
next
  case (enrol_step cookie now db1 p u fresh secret)
  note a = acts_as_facts [OF enrol_step(1)]
  define u2 where "u2 = (store_totp_secret env u fresh)\<lparr>u_totp_last_counter := None\<rparr>"
  have "db' = db1 \<or> u_totp_enrolled_at u = None \<and> db' = put_user u2 db1"
    using enrol_step(2) by (auto simp: start_totp_enrolment_def u2_def split: if_splits sum.splits)
  moreover have "changes env db (put_user u2 db1)" if "u_totp_enrolled_at u = None"
    using that by (intro change_after [OF a(1) user_change [OF a(2)]])
      (auto simp: keeps_factor_def u2_def store_totp_secret_def user_ok_def split: prod.split)
  ultimately show ?thesis using a(1) by blast
next
  case (confirm_step cookie now db1 p u sid code hashes token ip out)
  then show ?thesis using acts_as_facts(1) confirm_changes [OF ok] rtranclp_trans by metis
next
  case (verify_step cookie now db1 p u sid code token ip out)
  then show ?thesis using acts_as_facts(1) verify_changes [OF ok] rtranclp_trans by metis
next
  case (recover_step cookie now db1 p u sid code token ip out)
  then show ?thesis using acts_as_facts(1) recover_changes [OF ok] rtranclp_trans by metis
next
  case (password_step cookie now db1 p u current new ip ok')
  note a = acts_as_facts [OF password_step(1)]
  have "change env db1 (put_user (set_password env u new now) db1)"
    by (rule user_change [OF a(2) user_keeps(4) user_changes_ok(4) [OF ok]])
  then have "changes env db (put_user (set_password env u new now) db1)" by (rule change_after [OF a(1)])
  then have "changes env db db'" using password_step(2) a(1) log_after end_after(2)
    by (auto simp: change_password_def split: if_splits)
  then show ?thesis ..
next
  case (tenant_step cookie now db1 p u t r)
  note a = acts_as_facts [OF tenant_step(1)]
  obtain es where db': "db' = (put_session ((pr_session p)\<lparr>us_active_tenant := Some t\<rparr>) db1)\<lparr>ad_entries := es\<rparr>"
    using tenant_step(3)
    by (auto simp: set_active_tenant_def Let_def split: prod.splits option.splits)
  obtain s where "s \<in> set (ad_sessions db1)" "same_session s (pr_session p)" using a(6) by blast
  then have "changes env db (put_session ((pr_session p)\<lparr>us_active_tenant := Some t\<rparr>) db1)"
    by (intro change_after [OF a(1) touch_change [of s]]) (simp_all add: same_session_def)
  then have "changes env db db'" unfolding db' by (rule change_after [OF _ entry_change])
  then show ?thesis ..
next
  case (redeem_step token new sid session_token ip now out nxt)
  then show ?thesis using redeem_changes [OF ok] by blast
next
  case (link_step u actor r firm via token ip now)
  define u2 where "u2 = clear_pending_totp (u\<lparr>u_activation_hash := Some (env_sha256 env token),
      u_activation_expires := Some (now + activation_link_seconds (env_settings env))\<rparr>)"
  have "keeps_factor u u2" "user_ok env u \<Longrightarrow> user_ok env u2"
    by (auto simp: u2_def keeps_factor_def clear_pending_totp_def user_ok_def)
  then have "changes env db db'" unfolding link_step issue_activation_link_def Let_def u2_def [symmetric]
    by (intro log_after end_after(2) r_into_rtranclp user_change [OF link_step(2)])
  then show ?thesis ..
next
  case (reset_step u actor r firm via ip now)
  show ?thesis unfolding reset_step(1) reset_totp_def factor_reset_def
    by (intro disjI2 exI conjI) (rule reset_step(2), auto simp: user_ok_def)
qed


lemma auth_inv_step: "settings_ok env \<Longrightarrow> auth_inv env db \<Longrightarrow> auth_step env db db' \<Longrightarrow> auth_inv env db'"
  using auth_step_changes changes_inv factor_reset_inv by blast

text \<open>Any consistent set of accounts, enrolled or not, and no session.\<close>

definition auth_start :: "auth_env \<Rightarrow> auth_db \<Rightarrow> bool" where
  "auth_start env db \<longleftrightarrow> settings_ok env \<and> ad_sessions db = [] \<and> distinct (map u_id (ad_users db))
     \<and> list_all (user_ok env) (ad_users db)"

interpretation auth_machine: state_machine "auth_start env" "auth_step env" "\<lambda>db. settings_ok env \<and> auth_inv env db"
  for env
  by unfold_locales (auto simp: auth_start_def list_all_iff intro: auth_inv_step, simp_all add: auth_inv_def list_all_iff)

section \<open>Accepted codes\<close>

definition enrolled :: "uuid \<Rightarrow> auth_db \<Rightarrow> bool" where
  "enrolled i db \<longleftrightarrow> (\<exists>u \<in> set (ad_users db). u_id u = i \<and> u_totp_enrolled_at u \<noteq> None)"

definition last_code :: "auth_db \<Rightarrow> uuid \<Rightarrow> int \<Rightarrow> bool" where
  "last_code db i c \<longleftrightarrow> (\<exists>u \<in> set (ad_users db). u_id u = i \<and> u_totp_enrolled_at u \<noteq> None
     \<and> (\<exists>l \<ge> c. u_totp_last_counter u = Some l))"

lemma change_last_code:
  assumes "change env db db'" and "auth_inv env db" and "last_code db i c"
  shows "last_code db' i c"
proof -
  obtain u l where u: "u \<in> set (ad_users db)" "u_id u = i" "u_totp_enrolled_at u \<noteq> None"
      "u_totp_last_counter u = Some l" "c \<le> l"
    using assms(3) unfolding last_code_def by blast
  have put: "last_code (put_user v' db) i c" if v: "v \<in> set (ad_users db)" "u_id v' = u_id v"
      "u_totp_enrolled_at v = None \<or> keeps_factor v v'" for v v'
  proof (cases "u_id v = i")
    case True
    then have "v = u" using one_user [OF assms(2) v(1) u(1)] u(2) by simp
    then have k: "keeps_factor u v'" using v(3) u(3) by simp
    then obtain l' where "l \<le> l'" "u_totp_last_counter v' = Some l'"
      using u(3,4) unfolding keeps_factor_def by blast
    moreover have "v' \<in> set (ad_users (put_user v' db))" by (rule put_user_mem [OF v(1,2)])
    ultimately show ?thesis using k u(2,3,5) unfolding last_code_def keeps_factor_def by auto
  next
    case False
    then have "u \<in> set (ad_users (put_user v' db))" using u(1,2) v(2) by (auto simp: put_user_def image_iff)
    then show ?thesis using u unfolding last_code_def by blast
  qed
  show ?thesis using assms(1)
  proof (cases rule: change.cases)
    case (user_change v v')
    then show ?thesis using put [of v v'] by (simp add: keeps_factor_def)
  next
    case (enrol_change v v')
    then show ?thesis using put [of v v'] by simp
  qed (use assms(3) in \<open>simp_all add: last_code_def\<close>)
qed

lemma changes_last_code:
  "changes env db db' \<Longrightarrow> auth_inv env db \<Longrightarrow> last_code db i c \<Longrightarrow> last_code db' i c"
  by (induction rule: rtranclp_induct) (auto intro: change_last_code changes_inv)

lemma step_last_code:
  assumes "settings_ok env" and "auth_step env db db'" and "auth_inv env db" and "last_code db i c"
    and "enrolled i db'"
  shows "last_code db' i c"
  using auth_step_changes [OF assms(1,2)]
proof
  assume "factor_reset env db db'"
  then obtain u u' r where reset: "u \<in> set (ad_users db)" "u_id u' = u_id u" "u_totp_enrolled_at u' = None"
      "db' = write_log r (delete_user_sessions (u_id u) (put_user u' db))"
    unfolding factor_reset_def by blast
  obtain v l where v: "v \<in> set (ad_users db)" "u_id v = i" "u_totp_enrolled_at v \<noteq> None"
      "u_totp_last_counter v = Some l" "c \<le> l"
    using assms(4) unfolding last_code_def by blast
  have "u_id u \<noteq> i"
  proof
    assume "u_id u = i"
    then have only: "\<forall>x \<in> set (ad_users db'). u_id x = i \<longrightarrow> x = u'" using reset(2) by (auto simp: reset(4) put_user_def)
    obtain x where x: "x \<in> set (ad_users db')" "u_id x = i" "u_totp_enrolled_at x \<noteq> None"
      using assms(5) unfolding enrolled_def by (elim bexE conjE) (rule that)
    then have "x = u'" using only by simp
    then show False using x(3) reset(3) by simp
  qed
  then have "v \<in> set (ad_users db')" using v(1,2) reset(2) by (auto simp: reset(4) put_user_def image_iff)
  then show ?thesis using v unfolding last_code_def by blast
qed (use changes_last_code assms(3,4) in blast)

text \<open>Steps during which one account stays enrolled.\<close>

definition enrolled_step :: "auth_env \<Rightarrow> uuid \<Rightarrow> auth_db \<Rightarrow> auth_db \<Rightarrow> bool" where
  "enrolled_step env i db db' \<longleftrightarrow> auth_step env db db' \<and> enrolled i db'"

lemma path_last_code:
  assumes "(enrolled_step env i)\<^sup>*\<^sup>* db db'" and "settings_ok env" and "auth_inv env db" and "last_code db i c"
  shows "auth_inv env db' \<and> last_code db' i c"
  using assms
  by (induction rule: rtranclp_induct) (auto simp: enrolled_step_def intro: step_last_code auth_inv_step)

lemma verify_ok:
  assumes ok: "settings_ok env" and acts: "acts_as env db cookie now db1 p u" and sid: "new_sid sid db1"
    and run: "verify_totp env db1 p u code sid token ip now = Inr (db', Ok_outcome)" and inv: "auth_inv env db"
  obtains secret c where "totp_secret env u = Inr secret" "match_totp env secret code now = Some c"
    "\<forall>l. u_totp_last_counter u = Some l \<longrightarrow> l < c" "last_code db' (u_id u) c" "auth_inv env db'"
proof -
  note a = acts_as_facts [OF acts]
  have inv1: "auth_inv env db1" by (rule changes_inv [OF a(1) inv])
  obtain db2 u2 where code: "accept_code env db1 p u code now ip = Inr (db2, Ok_outcome, u2)"
      "db' = verified_session env sid token p ''password+totp'' now ip False db2" "u_totp_enrolled_at u \<noteq> None"
    using run by (auto simp: verify_totp_def split: if_splits sum.splits outcome.splits)
  from code(1) obtain secret c where c: "totp_secret env u = Inr secret" "match_totp env secret code now = Some c"
      "\<forall>l. u_totp_last_counter u = Some l \<longrightarrow> l < c"
      "u2 = clear_failures (u\<lparr>u_totp_last_counter := Some c\<rparr>)" "db2 = put_user u2 db1"
    by (cases rule: accept_code_cases) auto
  note m = accepted_changes [OF ok a(2) code(1)]
  have "last_code db2 (u_id u) c"
  proof -
    have "u2 \<in> set (ad_users db2)" "u_id u2 = u_id u" "u_totp_enrolled_at u2 \<noteq> None" using m code(3) by auto
    moreover have "u_totp_last_counter u2 = Some c" by (simp add: c(4) clear_failures_def)
    ultimately show ?thesis unfolding last_code_def by blast
  qed
  moreover have "auth_inv env db2" using m changes_inv [OF _ inv1] by blast
  moreover have "changes env db2 db'" unfolding code(2)
    using m sid code(3) a(5) by (intro verified_session_changes [of env db2 db2 sid u2]) (auto simp: new_sid_def)
  ultimately show thesis using that [OF c(1-3)] changes_last_code changes_inv by blast
qed

end
