(* ===== verification/SignInProperties.thy ===== *)
theory SignInProperties
  imports SignInSafety
begin

text \<open>
  The properties of signing in, over the machine of \<open>SignInSafety\<close>: what a session of a reachable
  state rests on, codes and recovery codes that work once, credentials whose change ends sessions,
  and how many guesses the lockout allows.
\<close>

section \<open>An instance\<close>

text \<open>Library functions simple enough to compute with, and one firm user with a second factor.\<close>

definition ex_digits :: "int \<Rightarrow> string" where
  "ex_digits n = map (\<lambda>k. char_of (48 + nat (n div 10 ^ k mod 10))) (rev [0 ..< 6])"

definition ex_env :: auth_env where
  "ex_env = \<lparr>env_settings = ex_settings_auth, env_hash_password = (\<lambda>p. CHR ''h'' # p),
     env_verify_password = (\<lambda>h p. h = CHR ''h'' # p), env_sha256 = (\<lambda>s. CHR ''s'' # s),
     env_otp = (\<lambda>secret c. ex_digits c), env_seal = (\<lambda>s i. (''k'', s)), env_unseal = (\<lambda>k b i. Some b)\<rparr>"

definition ex_user :: user where
  "ex_user = \<lparr>u_id = 5, u_email = ''a@b'', u_password_changed_at = Some 1, u_totp_enrolled_at = Some 1,
     u_password_hash = Some ''hsecret'', u_failed_count = 0, u_window_start = None, u_locked_until = None,
     u_totp_secret_enc = Some ''x'', u_totp_key_id = Some ''k'', u_totp_last_counter = Some 0,
     u_recovery_hashes = Some [''sAB1'', ''sCD2''], u_activation_hash = Some ''slink'',
     u_activation_expires = Some 9000\<rparr>"

definition ex_auth_db :: auth_db where
  "ex_auth_db = \<lparr>ad_users = [ex_user], ad_sessions = [],
     ad_firm_memberships = [\<lparr>fm_firm = 7, fm_user = 5, fm_role = Firm_staff, fm_created_at = 1\<rparr>],
     ad_memberships = [\<lparr>mb_tenant = 30, mb_user = 5, mb_role = None, mb_created_at = 1\<rparr>],
     ad_tenant_firm = (\<lambda>t. 7), ad_log = [], ad_entries = []\<rparr>"

text \<open>Signed in with the password, and then with the code of its time.\<close>

definition ex_logged_in :: auth_db where
  "ex_logged_in = fst (login ex_env ex_auth_db ''a@b'' ''secret'' None 1 ''t1'' None 3000)"

lemma ex_start: "auth_start ex_env ex_auth_db"
  by code_simp

lemma login_run:
  "new_sid sid db \<Longrightarrow> auth_step env db (fst (login env db email password old sid token ip now))"
  using login_step prod.collapse by metis

lemma ex_reachable: "reachable_from (auth_start ex_env) (auth_step ex_env) ex_logged_in"
proof -
  have "new_sid 1 ex_auth_db" by code_simp
  then have "auth_step ex_env ex_auth_db ex_logged_in" unfolding ex_logged_in_def by (rule login_run)
  then show ?thesis using reachable_from.intros ex_start by metis
qed


section \<open>The second factor\<close>

lemma find_user_known:
  "auth_inv env db \<Longrightarrow> u \<in> set (ad_users db) \<Longrightarrow> u_id u = i \<Longrightarrow> find_user db i = Some u"
proof -
  assume inv: "auth_inv env db" and u: "u \<in> set (ad_users db)" "u_id u = i"
  then obtain v where v: "find_user db i = Some v" unfolding find_user_def
    by (cases "List.find (\<lambda>u. u_id u = i) (ad_users db)") (auto simp: find_None_iff)
  then have "v = u" using one_user [OF inv _ u(1)] find_user_Some [OF v] u(2) by simp
  then show ?thesis using v by simp
qed

lemma session_user:
  assumes "auth_inv env db" and "s \<in> set (ad_sessions db)"
  shows "\<exists>u. find_user db (us_user s) = Some u \<and> user_ok env u
    \<and> (us_totp_verified_at s \<noteq> None \<longrightarrow> u_totp_enrolled_at u \<noteq> None)
    \<and> (u_totp_enrolled_at u = None \<and> firm_member db (u_id u) \<longrightarrow>
        us_expires_at s \<le> us_created_at s + enrol_session_seconds (env_settings env))"
proof -
  have "session_ok env db s" using assms by (simp add: auth_inv_def)
  then obtain u where "u \<in> set (ad_users db)" "u_id u = us_user s"
      "u_totp_enrolled_at u = None \<longrightarrow> us_totp_verified_at s = None"
      "u_totp_enrolled_at u = None \<and> firm_member db (u_id u) \<longrightarrow>
        us_expires_at s \<le> us_created_at s + enrol_session_seconds (env_settings env)"
    unfolding session_ok_def by (elim bexE conjE) (rule that)
  moreover from this have "user_ok env u" using assms(1) by (simp add: auth_inv_def)
  ultimately show ?thesis using find_user_known [OF assms(1)] by blast
qed

lemma second_factor_kept_parts:
  assumes "reachable_from (auth_start env) (auth_step env) db"
  shows "s \<in> set (ad_sessions db) \<Longrightarrow> \<exists>u. find_user db (us_user s) = Some u
      \<and> (us_totp_verified_at s \<noteq> None \<longrightarrow> u_totp_enrolled_at u \<noteq> None)
      \<and> (u_totp_enrolled_at u = None \<and> firm_member db (u_id u) \<longrightarrow>
          us_expires_at s \<le> us_created_at s + enrol_session_seconds (env_settings env))"
    and "get_principal env db cookie now = (db', Inr p) \<Longrightarrow> get_verified_principal p = Inr p \<Longrightarrow>
      pr_firm_memberships p \<noteq> [] \<Longrightarrow>
      us_totp_verified_at (pr_session p) \<noteq> None \<and> (\<exists>u. find_user db (pr_user p) = Some u
        \<and> u_totp_enrolled_at u \<noteq> None \<and> u_totp_secret_enc u \<noteq> None \<and> u_totp_last_counter u \<noteq> None
        \<and> u_recovery_hashes u \<noteq> None)"
proof -
  have inv: "auth_inv env db" using auth_machine.reachable_inv [OF assms] by simp
  show "s \<in> set (ad_sessions db) \<Longrightarrow> \<exists>u. find_user db (us_user s) = Some u
      \<and> (us_totp_verified_at s \<noteq> None \<longrightarrow> u_totp_enrolled_at u \<noteq> None)
      \<and> (u_totp_enrolled_at u = None \<and> firm_member db (u_id u) \<longrightarrow>
          us_expires_at s \<le> us_created_at s + enrol_session_seconds (env_settings env))"
    using session_user [OF inv] by metis
  assume get: "get_principal env db cookie now = (db', Inr p)" and verified: "get_verified_principal p = Inr p"
    and firm: "pr_firm_memberships p \<noteq> []"
  have "principal_totp p = Totp_ok" using verified by (auto simp: get_verified_principal_def split: if_splits)
  then have at: "us_totp_verified_at (pr_session p) \<noteq> None" using firm by (auto simp: totp_ok_iff is_firm_user_def)
  from get show "us_totp_verified_at (pr_session p) \<noteq> None \<and> (\<exists>u. find_user db (pr_user p) = Some u
      \<and> u_totp_enrolled_at u \<noteq> None \<and> u_totp_secret_enc u \<noteq> None \<and> u_totp_last_counter u \<noteq> None
      \<and> u_recovery_hashes u \<noteq> None)"
  proof (cases rule: get_principal_cases)
    case (live row u q s)
    have "us_totp_verified_at row \<noteq> None" using at live(1,9) by auto
    moreover have "us_user row = pr_user p" using live(1,11) find_user_Some [OF live(4)] by simp
    ultimately show ?thesis using session_user [OF inv live(2)] at unfolding user_ok_def by metis
  qed simp
qed

text \<open>
  C13: in every reachable state a session belongs to an existing account; it is marked verified only
  if the account has a second factor; and a person of the firm without one only ever has sessions
  of the short enrolment time. So when a request of a person of the firm passes the gate of the
  second factor, the account is enrolled, with a secret, an accepted code and recovery codes on
  file, and its session was verified.
\<close>

theorem second_factor_kept:
  assumes "reachable_from (auth_start env) (auth_step env) db"
  shows "(\<forall>s \<in> set (ad_sessions db). \<exists>u. find_user db (us_user s) = Some u
        \<and> (us_totp_verified_at s \<noteq> None \<longrightarrow> u_totp_enrolled_at u \<noteq> None)
        \<and> (u_totp_enrolled_at u = None \<and> firm_member db (u_id u) \<longrightarrow>
            us_expires_at s \<le> us_created_at s + enrol_session_seconds (env_settings env)))
    \<and> (case get_principal env db cookie now of
         (db', Inr p) \<Rightarrow> get_verified_principal p = Inr p \<and> pr_firm_memberships p \<noteq> [] \<longrightarrow>
           us_totp_verified_at (pr_session p) \<noteq> None \<and> (\<exists>u. find_user db (pr_user p) = Some u
             \<and> u_totp_enrolled_at u \<noteq> None \<and> u_totp_secret_enc u \<noteq> None \<and> u_totp_last_counter u \<noteq> None
             \<and> u_recovery_hashes u \<noteq> None)
       | (db', Inl e) \<Rightarrow> True)"
proof
  show "case get_principal env db cookie now of
      (db', Inr p) \<Rightarrow> get_verified_principal p = Inr p \<and> pr_firm_memberships p \<noteq> [] \<longrightarrow>
        us_totp_verified_at (pr_session p) \<noteq> None \<and> (\<exists>u. find_user db (pr_user p) = Some u
          \<and> u_totp_enrolled_at u \<noteq> None \<and> u_totp_secret_enc u \<noteq> None \<and> u_totp_last_counter u \<noteq> None
          \<and> u_recovery_hashes u \<noteq> None)
    | (db', Inl e) \<Rightarrow> True"
    using second_factor_kept_parts(2) [OF assms] by (simp split: prod.split sum.split)
qed (use second_factor_kept_parts(1) [OF assms] in blast)

section \<open>Codes are accepted once\<close>

text \<open>
  C2: a code of the second factor is never accepted twice. Between two accepted codes of a person,
  however many requests of whoever lie between, as long as the account keeps its factor, the step
  of the later code is strictly later than the step of the earlier one: neither the same code nor
  an older one within the tolerated drift works again.
\<close>

theorem totp_not_replayed:
  assumes "reachable_from (auth_start env) (auth_step env) db"
    and "acts_as env db cookie now da p u" and "new_sid sid da"
    and "verify_totp env da p u code sid token ip now = Inr (db1, Ok_outcome)"
    and "(enrolled_step env (u_id u))\<^sup>*\<^sup>* db1 db2"
    and "acts_as env db2 cookie' now' db3 p' u'" and "u_id u' = u_id u" and "new_sid sid' db3"
    and "verify_totp env db3 p' u' code' sid' token' ip' now' = Inr (db4, Ok_outcome)"
  shows "\<exists>secret c secret' c'. totp_secret env u = Inr secret \<and> match_totp env secret code now = Some c
    \<and> totp_secret env u' = Inr secret' \<and> match_totp env secret' code' now' = Some c' \<and> c < c'"
proof -
  have ok: "settings_ok env" and inv: "auth_inv env db" using auth_machine.reachable_inv [OF assms(1)] by simp_all
  obtain secret c where first: "totp_secret env u = Inr secret" "match_totp env secret code now = Some c"
      "last_code db1 (u_id u) c" "auth_inv env db1"
    using verify_ok [OF ok assms(2-4) inv] by metis
  have then2: "auth_inv env db2" "last_code db2 (u_id u) c"
    using path_last_code [OF assms(5) ok first(4,3)] by simp_all
  obtain secret' c' where second: "totp_secret env u' = Inr secret'" "match_totp env secret' code' now' = Some c'"
      "\<forall>l. u_totp_last_counter u' = Some l \<longrightarrow> l < c'"
    using verify_ok [OF ok assms(6,8,9) then2(1)] by metis
  note a = acts_as_facts [OF assms(6)]
  obtain v l where v: "v \<in> set (ad_users db2)" "u_id v = u_id u" "u_totp_last_counter v = Some l" "c \<le> l"
    using then2(2) unfolding last_code_def by blast
  have "v = u'" using one_user [OF then2(1) v(1)] a(2,3) v(2) assms(7) by simp
  then have "c < c'" using v(3,4) second(3) by simp
  then show ?thesis using first(1,2) second(1,2) by blast
qed


section \<open>Credentials that change end sessions\<close>

definition sessions_of :: "auth_db \<Rightarrow> uuid \<Rightarrow> user_session list" where
  "sessions_of db i = filter (\<lambda>s. us_user s = i) (ad_sessions db)"

lemma sessions_of_simps [simp]:
  "sessions_of (write_log r db) i = sessions_of db i" "sessions_of (put_user u db) i = sessions_of db i"
  "sessions_of (delete_user_sessions j db) i = (if i = j then [] else sessions_of db i)"
  "sessions_of (add_session s db) i = sessions_of db i @ (if us_user s = i then [s] else [])"
  by (auto simp: sessions_of_def write_log_def put_user_def delete_user_sessions_def add_session_def
      intro: filter_cong)

lemma put_user_find:
  "find_user (put_user u db) i = (case find_user db i of None \<Rightarrow> None | Some v \<Rightarrow> Some (if i = u_id u then u else v))"
proof -
  have "List.find (\<lambda>x. u_id x = i) (map (\<lambda>x. if u_id x = u_id u then u else x) us)
      = (case List.find (\<lambda>x. u_id x = i) us of None \<Rightarrow> None | Some v \<Rightarrow> Some (if i = u_id u then u else v))" for us
    by (induction us) (auto split: option.splits)
  then show ?thesis by (simp add: find_user_def put_user_def)
qed

lemma find_user_simps [simp]:
  "find_user (write_log r db) i = find_user db i" "find_user (delete_user_sessions j db) i = find_user db i"
  "find_user (add_session s db) i = find_user db i"
  by (simp_all add: find_user_def)

lemma no_session_no_principal:
  assumes "sessions_of db i = []" and "get_principal env db cookie now = (db', Inr p)"
  shows "pr_user p \<noteq> i"
  using assms(2)
proof (cases rule: get_principal_cases)
  case (live row u q s)
  have "us_user row \<noteq> i" using assms(1) live(2) by (auto simp: sessions_of_def filter_empty_conv)
  then show ?thesis using live(1,11) find_user_Some [OF live(4)] by simp
qed simp

lemma redeem_ok_cases:
  assumes "redeem_activation_link env db token new sid st ip now = Inr (db', Ok_outcome, nxt)"
  obtains u e r s where "List.find (\<lambda>u. u_activation_hash u = Some (env_sha256 env token)) (ad_users db) = Some u"
    "u_activation_expires u = Some e" "now < e" "min_password_length \<le> length new"
    "s = new_session env sid st (u_id u) None None now (Some (enrol_session_seconds (env_settings env)))"
    "db' = (let d = write_log r (delete_user_sessions (u_id u)
        (put_user (clear_pending_totp (set_password env u new now)) db))
      in if nxt = Some Next_totp_enrol then add_session s d else d)"
    "nxt = Some (if firm_member db (u_id u) \<and> u_totp_enrolled_at u = None then Next_totp_enrol else Next_login)"
proof -
  have en: "u_totp_enrolled_at (clear_pending_totp (set_password env u new now)) = u_totp_enrolled_at u" for u
    by (simp add: clear_pending_totp_def set_password_def clear_failures_def)
  from assms show thesis
    by (auto simp: redeem_activation_link_def Let_def en firm_member_def not_less not_le
        split: if_splits option.splits intro!: that)
qed

lemma credentials_end_sessions_parts:
  shows "change_password env db p u current new ip now = Inr (db', True) \<Longrightarrow>
      sessions_of db' (u_id u) = [] \<and> (\<forall>i. i \<noteq> u_id u \<longrightarrow> sessions_of db' i = sessions_of db i)"
    and "db' = issue_activation_link env db actor r u firm via token ip now \<Longrightarrow>
      sessions_of db' (u_id u) = [] \<and> (\<forall>i. i \<noteq> u_id u \<longrightarrow> sessions_of db' i = sessions_of db i)"
    and "db' = reset_totp db actor r u firm via ip now \<Longrightarrow>
      sessions_of db' (u_id u) = [] \<and> (\<forall>i. i \<noteq> u_id u \<longrightarrow> sessions_of db' i = sessions_of db i)"
    and "redeem_activation_link env db token new sid st ip now = Inr (db', Ok_outcome, nxt) \<Longrightarrow>
      \<exists>u \<in> set (ad_users db). u_activation_hash u = Some (env_sha256 env token)
        \<and> map us_id (sessions_of db' (u_id u)) = (if nxt = Some Next_totp_enrol then [sid] else [])
        \<and> (\<forall>i. i \<noteq> u_id u \<longrightarrow> sessions_of db' i = sessions_of db i)"
    and "sessions_of db' i = [] \<Longrightarrow> get_principal env db' cookie now = (db2, Inr q) \<Longrightarrow> pr_user q \<noteq> i"
proof -
  show "redeem_activation_link env db token new sid st ip now = Inr (db', Ok_outcome, nxt) \<Longrightarrow>
      \<exists>u \<in> set (ad_users db). u_activation_hash u = Some (env_sha256 env token)
        \<and> map us_id (sessions_of db' (u_id u)) = (if nxt = Some Next_totp_enrol then [sid] else [])
        \<and> (\<forall>i. i \<noteq> u_id u \<longrightarrow> sessions_of db' i = sessions_of db i)"
  proof (elim redeem_ok_cases)
    fix u e r s
    assume "List.find (\<lambda>u. u_activation_hash u = Some (env_sha256 env token)) (ad_users db) = Some u"
    note u = find_mem [OF this]
    assume s: "s = new_session env sid st (u_id u) None None now (Some (enrol_session_seconds (env_settings env)))"
      and db': "db' = (let d = write_log r (delete_user_sessions (u_id u)
        (put_user (clear_pending_totp (set_password env u new now)) db))
        in if nxt = Some Next_totp_enrol then add_session s d else d)"
    show ?thesis using u by (intro bexI [of _ u]) (auto simp: db' s new_session_def Let_def)
  qed
qed (auto simp: change_password_def issue_activation_link_def reset_totp_def Let_def
    dest: no_session_no_principal split: if_splits)

text \<open>
  C6: whoever holds a session loses it when the credentials change. After the person's own change
  of the password, after an administrator issues an activation link or resets the second factor, no
  cookie acts as that person any more; after an activation link is redeemed the only session of the
  person is the new one of the enrolment, if there is any. The sessions of everybody else stay.
\<close>

theorem credentials_end_sessions:
  "(case change_password env db p u current new ip now of
      Inr (db', True) \<Rightarrow> sessions_of db' (u_id u) = [] \<and> (\<forall>i. i \<noteq> u_id u \<longrightarrow> sessions_of db' i = sessions_of db i)
    | _ \<Rightarrow> True)
  \<and> (let db' = issue_activation_link env db actor r u firm via token ip now in
      sessions_of db' (u_id u) = [] \<and> (\<forall>i. i \<noteq> u_id u \<longrightarrow> sessions_of db' i = sessions_of db i))
  \<and> (let db' = reset_totp db actor r u firm via ip now in
      sessions_of db' (u_id u) = [] \<and> (\<forall>i. i \<noteq> u_id u \<longrightarrow> sessions_of db' i = sessions_of db i))
  \<and> (case redeem_activation_link env db token new sid st ip now of
      Inr (db', Ok_outcome, nxt) \<Rightarrow> \<exists>u \<in> set (ad_users db). u_activation_hash u = Some (env_sha256 env token)
        \<and> map us_id (sessions_of db' (u_id u)) = (if nxt = Some Next_totp_enrol then [sid] else [])
        \<and> (\<forall>i. i \<noteq> u_id u \<longrightarrow> sessions_of db' i = sessions_of db i)
    | _ \<Rightarrow> True)
  \<and> (\<forall>i cookie db2 q. sessions_of db i = [] \<and> get_principal env db cookie now = (db2, Inr q) \<longrightarrow> pr_user q \<noteq> i)"
proof (intro conjI)
  show "\<forall>i cookie db2 q. sessions_of db i = [] \<and> get_principal env db cookie now = (db2, Inr q) \<longrightarrow> pr_user q \<noteq> i"
    using no_session_no_principal by blast
  show "case redeem_activation_link env db token new sid st ip now of
      Inr (db', Ok_outcome, nxt) \<Rightarrow> \<exists>u \<in> set (ad_users db). u_activation_hash u = Some (env_sha256 env token)
        \<and> map us_id (sessions_of db' (u_id u)) = (if nxt = Some Next_totp_enrol then [sid] else [])
        \<and> (\<forall>i. i \<noteq> u_id u \<longrightarrow> sessions_of db' i = sessions_of db i)
    | _ \<Rightarrow> True"
    using credentials_end_sessions_parts(4) [of env db token new sid st ip now]
    by (simp split: sum.split outcome.split) fastforce
qed (auto simp: Let_def credentials_end_sessions_parts(2,3) [OF refl] split: sum.split bool.split
  dest: credentials_end_sessions_parts(1))

section \<open>Credentials that work once\<close>

definition other_hashes :: "auth_db \<Rightarrow> uuid \<Rightarrow> string \<Rightarrow> bool" where
  "other_hashes db i h \<longleftrightarrow> list_all (\<lambda>v. u_id v = i \<or> u_activation_hash v \<noteq> Some h) (ad_users db)"

lemma verified_session_users [simp]:
  "ad_users (verified_session env sid token p method now ip fresh db) = ad_users db"
  by (simp add: verified_session_def rotate_session_def complete_login_def Let_def split: option.split)

lemma recovery_used:
  assumes "use_recovery_code env db p u code sid token ip now = Inr (db', Ok_outcome)"
    and "u_recovery_hashes u = Some hs" and "find_user db (u_id u) = Some u"
  shows "hash_recovery_code env code \<in> set hs \<and> find_user db' (u_id u) =
    Some (clear_failures (u\<lparr>u_recovery_hashes := Some (remove1 (hash_recovery_code env code) hs)\<rparr>))"
  using assms put_user_find [of "clear_failures (u\<lparr>u_recovery_hashes := Some (remove1 (hash_recovery_code env code) hs)\<rparr>)" db]
  by (auto simp: use_recovery_code_def Let_def find_user_def clear_failures_def split: if_splits)

lemma unknown_recovery_code:
  assumes "u_recovery_hashes u = Some hs" and "hash_recovery_code env code \<notin> set hs"
    and "u_totp_enrolled_at u \<noteq> None"
  shows "\<exists>db2 out. use_recovery_code env db p u code sid token ip now = Inr (db2, out)
    \<and> out \<in> {Invalid_outcome, Locked_outcome} \<and> ad_sessions db2 = ad_sessions db"
  using assms by (auto simp: use_recovery_code_def record_failure_def Let_def)

lemma link_redeemed:
  assumes run: "redeem_activation_link env db token new sid st ip now = Inr (db', Ok_outcome, nxt)"
    and v: "find_user db i = Some v" "u_activation_hash v = Some (env_sha256 env token)"
    and only: "other_hashes db i (env_sha256 env token)" and ids: "distinct (map u_id (ad_users db))"
  shows "find_user db' i = Some (clear_pending_totp (set_password env v new now))"
    and "List.find (\<lambda>u. u_activation_hash u = Some (env_sha256 env token)) (ad_users db') = None"
proof -
  let ?new = "\<lambda>u. clear_pending_totp (set_password env u new now)"
  obtain u where u: "List.find (\<lambda>u. u_activation_hash u = Some (env_sha256 env token)) (ad_users db) = Some u"
      "ad_users db' = ad_users (put_user (?new u) db)"
    using run by (cases rule: redeem_ok_cases) (auto simp: Let_def split: if_splits)
  note mem = find_mem [OF u(1)]
  have "u_id u = i" using only mem by (auto simp: other_hashes_def list_all_iff)
  then have uv: "u = v" using ids mem find_user_Some [OF v(1)] by (auto simp: distinct_map dest: inj_onD)
  have new: "u_id (?new v) = u_id v" "u_activation_hash (?new v) = None"
    by (simp_all add: clear_pending_totp_def set_password_def clear_failures_def)
  show "find_user db' i = Some (?new v)"
    using put_user_find [of "?new v" db i] v(1) find_user_Some [OF v(1)] u(2) new uv by (simp add: find_user_def)
  show "List.find (\<lambda>u. u_activation_hash u = Some (env_sha256 env token)) (ad_users db') = None"
    using only new find_user_Some [OF v(1)]
    by (auto simp: find_None_iff u(2) uv put_user_def other_hashes_def list_all_iff)
qed

lemma one_time_credentials_parts:
  shows "use_recovery_code env db p u code sid token ip now = Inr (db', Ok_outcome) \<Longrightarrow>
      u_recovery_hashes u = Some hs \<Longrightarrow> distinct hs \<Longrightarrow> find_user db (u_id u) = Some u \<Longrightarrow>
      normalize_recovery_code again = normalize_recovery_code code \<Longrightarrow>
      \<exists>u' left. find_user db' (u_id u) = Some u' \<and> u_recovery_hashes u' = Some left
        \<and> set left = set hs - {hash_recovery_code env code}
        \<and> (\<exists>db2 out. use_recovery_code env db' q u' again sid' token' ip' now' = Inr (db2, out)
            \<and> out \<in> {Invalid_outcome, Locked_outcome} \<and> ad_sessions db2 = ad_sessions db')"
    and "redeem_activation_link env db token new sid st ip now = Inr (db', Ok_outcome, nxt) \<Longrightarrow>
      find_user db i = Some v \<Longrightarrow> u_activation_hash v = Some (env_sha256 env token) \<Longrightarrow>
      other_hashes db i (env_sha256 env token) \<Longrightarrow> distinct (map u_id (ad_users db)) \<Longrightarrow>
      min_password_length \<le> length pw \<Longrightarrow>
      (\<exists>v'. find_user db' i = Some v' \<and> u_password_hash v' = Some (env_hash_password env new)
          \<and> u_failed_count v' = 0 \<and> u_locked_until v' = None \<and> u_activation_hash v' = None)
        \<and> (\<exists>db2. redeem_activation_link env db' token pw sid' st' ip' now' = Inr (db2, Invalid_outcome, None)
            \<and> ad_users db2 = ad_users db' \<and> ad_sessions db2 = ad_sessions db')"
proof -
  let ?h = "hash_recovery_code env code"
  assume run: "use_recovery_code env db p u code sid token ip now = Inr (db', Ok_outcome)"
    and hs: "u_recovery_hashes u = Some hs" "distinct hs" and u: "find_user db (u_id u) = Some u"
    and same: "normalize_recovery_code again = normalize_recovery_code code"
  define u2 where "u2 = clear_failures (u\<lparr>u_recovery_hashes := Some (remove1 ?h hs)\<rparr>)"
  have u2: "find_user db' (u_id u) = Some u2" "u_recovery_hashes u2 = Some (remove1 ?h hs)"
      "u_totp_enrolled_at u2 \<noteq> None"
  proof -
    show "find_user db' (u_id u) = Some u2" unfolding u2_def using recovery_used [OF run hs(1) u] by blast
    show "u_recovery_hashes u2 = Some (remove1 ?h hs)" by (simp add: u2_def clear_failures_def)
    have "u_totp_enrolled_at u \<noteq> None" using run by (auto simp: use_recovery_code_def split: if_splits)
    then show "u_totp_enrolled_at u2 \<noteq> None" by (simp add: u2_def clear_failures_def)
  qed
  have left: "set (remove1 ?h hs) = set hs - {?h}" using hs(2) by (simp add: set_remove1_eq)
  have gone: "hash_recovery_code env again \<notin> set (remove1 ?h hs)"
    using left same by (simp add: hash_recovery_code_def)
  show "\<exists>u' left. find_user db' (u_id u) = Some u' \<and> u_recovery_hashes u' = Some left
      \<and> set left = set hs - {?h}
      \<and> (\<exists>db2 out. use_recovery_code env db' q u' again sid' token' ip' now' = Inr (db2, out)
          \<and> out \<in> {Invalid_outcome, Locked_outcome} \<and> ad_sessions db2 = ad_sessions db')"
    by (intro exI [of _ u2] exI [of _ "remove1 ?h hs"] conjI u2(1,2) left unknown_recovery_code [OF u2(2) gone u2(3)])
next
  assume "redeem_activation_link env db token new sid st ip now = Inr (db', Ok_outcome, nxt)"
    "find_user db i = Some v" "u_activation_hash v = Some (env_sha256 env token)"
    "other_hashes db i (env_sha256 env token)" "distinct (map u_id (ad_users db))"
  note l = link_redeemed [OF this]
  assume pw: "min_password_length \<le> length pw"
  show "(\<exists>v'. find_user db' i = Some v' \<and> u_password_hash v' = Some (env_hash_password env new)
        \<and> u_failed_count v' = 0 \<and> u_locked_until v' = None \<and> u_activation_hash v' = None)
      \<and> (\<exists>db2. redeem_activation_link env db' token pw sid' st' ip' now' = Inr (db2, Invalid_outcome, None)
          \<and> ad_users db2 = ad_users db' \<and> ad_sessions db2 = ad_sessions db')"
  proof
    show "\<exists>v'. find_user db' i = Some v' \<and> u_password_hash v' = Some (env_hash_password env new)
        \<and> u_failed_count v' = 0 \<and> u_locked_until v' = None \<and> u_activation_hash v' = None"
      unfolding l(1) by (simp add: clear_pending_totp_def set_password_def clear_failures_def)
    have "redeem_activation_link env db' token pw sid' st' ip' now' = Inr (write_log (firm_audit_row now' ip' None
        Login_failure None None None (Refused_for ''link'' ''invalid_or_expired'')) db', Invalid_outcome, None)"
      unfolding redeem_activation_link_def l(2) using pw by simp
    then show "\<exists>db2. redeem_activation_link env db' token pw sid' st' ip' now' = Inr (db2, Invalid_outcome, None)
        \<and> ad_users db2 = ad_users db' \<and> ad_sessions db2 = ad_sessions db'"
      by simp
  qed
qed

text \<open>
  A recovery code and an activation link work once. After a recovery code let a person in, the
  same code, however it is typed, is refused, and all other codes are still on file. After a link
  was redeemed the person has the new password and no count of failures, and the link is refused,
  with whatever password it is tried again.
\<close>

theorem one_time_credentials:
  "(case use_recovery_code env db p u code sid token ip now of
      Inr (db', Ok_outcome) \<Rightarrow> (\<forall>hs again. u_recovery_hashes u = Some hs \<and> distinct hs
          \<and> find_user db (u_id u) = Some u \<and> normalize_recovery_code again = normalize_recovery_code code \<longrightarrow>
        (\<exists>u' left. find_user db' (u_id u) = Some u' \<and> u_recovery_hashes u' = Some left
          \<and> set left = set hs - {hash_recovery_code env code}
          \<and> (\<exists>db2 out. use_recovery_code env db' q u' again sid' token' ip' now' = Inr (db2, out)
              \<and> out \<in> {Invalid_outcome, Locked_outcome} \<and> ad_sessions db2 = ad_sessions db')))
    | _ \<Rightarrow> True)
  \<and> (case redeem_activation_link env db link new sid st ip now of
      Inr (db', Ok_outcome, nxt) \<Rightarrow> (\<forall>i v pw. find_user db i = Some v \<and> u_activation_hash v = Some (env_sha256 env link)
          \<and> other_hashes db i (env_sha256 env link) \<and> distinct (map u_id (ad_users db))
          \<and> min_password_length \<le> length pw \<longrightarrow>
        (\<exists>v'. find_user db' i = Some v' \<and> u_password_hash v' = Some (env_hash_password env new)
          \<and> u_failed_count v' = 0 \<and> u_locked_until v' = None \<and> u_activation_hash v' = None)
        \<and> (\<exists>db2. redeem_activation_link env db' link pw sid' st' ip' now' = Inr (db2, Invalid_outcome, None)
            \<and> ad_users db2 = ad_users db' \<and> ad_sessions db2 = ad_sessions db'))
    | _ \<Rightarrow> True)"
proof (intro conjI)
  show "case use_recovery_code env db p u code sid token ip now of
      Inr (db', Ok_outcome) \<Rightarrow> (\<forall>hs again. u_recovery_hashes u = Some hs \<and> distinct hs
          \<and> find_user db (u_id u) = Some u \<and> normalize_recovery_code again = normalize_recovery_code code \<longrightarrow>
        (\<exists>u' left. find_user db' (u_id u) = Some u' \<and> u_recovery_hashes u' = Some left
          \<and> set left = set hs - {hash_recovery_code env code}
          \<and> (\<exists>db2 out. use_recovery_code env db' q u' again sid' token' ip' now' = Inr (db2, out)
              \<and> out \<in> {Invalid_outcome, Locked_outcome} \<and> ad_sessions db2 = ad_sessions db')))
    | _ \<Rightarrow> True"
    using one_time_credentials_parts(1) [of env db p u code sid token ip now]
    by (simp split: sum.split outcome.split)
  show "case redeem_activation_link env db link new sid st ip now of
      Inr (db', Ok_outcome, nxt) \<Rightarrow> (\<forall>i v pw. find_user db i = Some v \<and> u_activation_hash v = Some (env_sha256 env link)
          \<and> other_hashes db i (env_sha256 env link) \<and> distinct (map u_id (ad_users db))
          \<and> min_password_length \<le> length pw \<longrightarrow>
        (\<exists>v'. find_user db' i = Some v' \<and> u_password_hash v' = Some (env_hash_password env new)
          \<and> u_failed_count v' = 0 \<and> u_locked_until v' = None \<and> u_activation_hash v' = None)
        \<and> (\<exists>db2. redeem_activation_link env db' link pw sid' st' ip' now' = Inr (db2, Invalid_outcome, None)
            \<and> ad_users db2 = ad_users db' \<and> ad_sessions db2 = ad_sessions db'))
    | _ \<Rightarrow> True"
    using one_time_credentials_parts(2) [of env db link new sid st ip now]
    by (simp split: sum.split outcome.split) blast
qed

section \<open>How many guesses the lockout allows\<close>















text \<open>The times a password of the account was checked and found wrong.\<close>

definition wrong_at :: "uuid \<Rightarrow> firm_audit list \<Rightarrow> int list" where
  "wrong_at i rows = List.map_filter (\<lambda>r. case fa_detail r of
     Failed_attempt step n \<Rightarrow> if fa_entity r = Some i \<and> step = ''password'' then Some (fa_at r) else None
   | _ \<Rightarrow> None) rows"

lemma wrong_at_simps [simp]:
  "wrong_at i [] = []" "wrong_at i (xs @ ys) = wrong_at i xs @ wrong_at i ys"
  "wrong_at i (r # rows) = (case fa_detail r of
     Failed_attempt step n \<Rightarrow> if fa_entity r = Some i \<and> step = ''password'' then [fa_at r] else [] | _ \<Rightarrow> [])
     @ wrong_at i rows"
  by (simp_all add: wrong_at_def List.map_filter_def split: firm_detail.split)









section \<open>A password between the codes\<close>

text \<open>One request with a code of the second factor.\<close>

definition submit_code :: "auth_env \<Rightarrow> string \<Rightarrow> string \<Rightarrow> uuid \<Rightarrow> string \<Rightarrow> int \<Rightarrow> auth_db \<Rightarrow> auth_db" where
  "submit_code env cookie code sid token now db = (case get_principal env db (Some cookie) now of
     (db1, Inr p) \<Rightarrow> (case find_user db1 (pr_user p) of
        None \<Rightarrow> db1
      | Some u \<Rightarrow> (case verify_totp env db1 p u code sid token None now of Inr (db2, out) \<Rightarrow> db2 | Inl e \<Rightarrow> db1))
   | (db1, Inl e) \<Rightarrow> db1)"





section \<open>Witnesses\<close>

definition ex_code :: "string \<Rightarrow> int \<Rightarrow> uuid \<Rightarrow> string \<Rightarrow> int \<Rightarrow> auth_db \<Rightarrow> auth_db" where
  "ex_code cookie step sid token now db = submit_code ex_env cookie (ex_digits step) sid token now db"

definition principal_at :: "auth_db \<Rightarrow> string \<Rightarrow> int \<Rightarrow> principal" where
  "principal_at db cookie now = projr (snd (get_principal ex_env db (Some cookie) now))"

definition acting_at :: "auth_db \<Rightarrow> string \<Rightarrow> int \<Rightarrow> auth_db" where
  "acting_at db cookie now = fst (get_principal ex_env db (Some cookie) now)"

definition user_at :: "auth_db \<Rightarrow> string \<Rightarrow> int \<Rightarrow> user" where
  "user_at db cookie now = the (find_user (acting_at db cookie now) (pr_user (principal_at db cookie now)))"

lemma acts_at:
  assumes "\<not> isl (snd (get_principal ex_env db (Some cookie) now))"
    and "find_user (acting_at db cookie now) (pr_user (principal_at db cookie now)) \<noteq> None"
  shows "acts_as ex_env db (Some cookie) now (acting_at db cookie now) (principal_at db cookie now) (user_at db cookie now)"
  using assms by (cases "get_principal ex_env db (Some cookie) now")
    (auto simp: acts_as_def acting_at_def principal_at_def user_at_def)

definition ex_verify :: "auth_db \<Rightarrow> string \<Rightarrow> int \<Rightarrow> uuid \<Rightarrow> string \<Rightarrow> int \<Rightarrow> (auth_error, auth_db \<times> outcome) result" where
  "ex_verify db cookie step sid token now = verify_totp ex_env (acting_at db cookie now) (principal_at db cookie now)
     (user_at db cookie now) (ex_digits step) sid token None now"

definition ex_verified :: auth_db where
  "ex_verified = fst (projr (ex_verify ex_logged_in ''t1'' 100 2 ''t2'' 3005))"

lemma result_run: "\<not> isl r \<and> snd (projr r) = x \<Longrightarrow> \<exists>d. r = Inr (d, x)"
  by (cases r) (auto simp: prod_eq_iff)

lemma ex_acts1:
  "acts_as ex_env ex_logged_in (Some ''t1'') 3005 (acting_at ex_logged_in ''t1'' 3005)
    (principal_at ex_logged_in ''t1'' 3005) (user_at ex_logged_in ''t1'' 3005)"
  by (rule acts_at) code_simp+

lemma ex_verify1: "ex_verify ex_logged_in ''t1'' 100 2 ''t2'' 3005 = Inr (ex_verified, Ok_outcome)"
proof -
  have "\<not> isl (ex_verify ex_logged_in ''t1'' 100 2 ''t2'' 3005)
      \<and> snd (projr (ex_verify ex_logged_in ''t1'' 100 2 ''t2'' 3005)) = Ok_outcome" by code_simp
  then show ?thesis unfolding ex_verified_def by (cases "ex_verify ex_logged_in ''t1'' 100 2 ''t2'' 3005") (auto simp: prod_eq_iff)
qed

lemma ex_sid1: "new_sid 2 (acting_at ex_logged_in ''t1'' 3005)"
  by code_simp

lemma ex_verified_reachable: "reachable_from (auth_start ex_env) (auth_step ex_env) ex_verified"
  by (rule reach_step [OF ex_reachable]) (rule verify_step [OF ex_acts1 ex_sid1 ex_verify1 [unfolded ex_verify_def]])

theorem second_factor_kept_witness:
  "u_totp_secret_enc ex_user \<noteq> None \<and> (\<exists>u. find_user ex_verified 5 = Some u \<and> u_recovery_hashes u \<noteq> None)"
proof -
  have "acts_as ex_env ex_verified (Some ''t2'') 3050 (acting_at ex_verified ''t2'' 3050)
      (principal_at ex_verified ''t2'' 3050) (user_at ex_verified ''t2'' 3050)" by (rule acts_at) code_simp+
  then have run: "get_principal ex_env ex_verified (Some ''t2'') 3050
      = (acting_at ex_verified ''t2'' 3050, Inr (principal_at ex_verified ''t2'' 3050))"
    by (simp add: acts_as_def)
  have "get_verified_principal (principal_at ex_verified ''t2'' 3050) = Inr (principal_at ex_verified ''t2'' 3050)"
      "pr_firm_memberships (principal_at ex_verified ''t2'' 3050) \<noteq> []" by code_simp+
  then
  have "\<exists>u. find_user ex_verified (pr_user (principal_at ex_verified ''t2'' 3050)) = Some u \<and> u_recovery_hashes u \<noteq> None"
    using second_factor_kept [OF ex_verified_reachable, of "Some ''t2''" 3050] unfolding run by auto
  moreover have "pr_user (principal_at ex_verified ''t2'' 3050) = 5" by code_simp
  ultimately show ?thesis by (simp add: ex_user_def)
qed

text \<open>A minute later the next code is accepted.\<close>

theorem totp_not_replayed_witness:
  "\<exists>c c'. match_totp ex_env ''x'' (ex_digits 100) 3005 = Some c \<and> match_totp ex_env ''x'' (ex_digits 102) 3060 = Some c' \<and> c < c'"
proof -
  have acts: "acts_as ex_env ex_verified (Some ''t2'') 3060 (acting_at ex_verified ''t2'' 3060)
      (principal_at ex_verified ''t2'' 3060) (user_at ex_verified ''t2'' 3060)" by (rule acts_at) code_simp+
  have ids: "u_id (user_at ex_verified ''t2'' 3060) = u_id (user_at ex_logged_in ''t1'' 3005)"
      "new_sid 3 (acting_at ex_verified ''t2'' 3060)" by code_simp+
  have "\<not> isl (ex_verify ex_verified ''t2'' 102 3 ''t3'' 3060)
      \<and> snd (projr (ex_verify ex_verified ''t2'' 102 3 ''t3'' 3060)) = Ok_outcome" by code_simp
  then obtain db4 where run: "ex_verify ex_verified ''t2'' 102 3 ''t3'' 3060 = Inr (db4, Ok_outcome)" using result_run by metis
  have secrets: "totp_secret ex_env (user_at ex_logged_in ''t1'' 3005) = Inr ''x''"
      "totp_secret ex_env (user_at ex_verified ''t2'' 3060) = Inr ''x''" by code_simp+
  show ?thesis
    using totp_not_replayed [OF ex_reachable ex_acts1 ex_sid1 ex_verify1 [unfolded ex_verify_def] rtranclp.rtrancl_refl
        acts ids run [unfolded ex_verify_def]] secrets by auto
qed


definition ex_changed :: "(auth_error, auth_db \<times> bool) result" where
  "ex_changed = change_password ex_env (acting_at ex_logged_in ''t1'' 3005) (principal_at ex_logged_in ''t1'' 3005)
     (user_at ex_logged_in ''t1'' 3005) ''secret'' ''a longer secret'' None 3005"

theorem credentials_end_sessions_witness:
  "\<exists>db'. ex_changed = Inr (db', True) \<and> length (ad_sessions ex_logged_in) = 1 \<and> sessions_of db' 5 = []"
proof -
  have "\<not> isl ex_changed \<and> snd (projr ex_changed) = True" by code_simp
  then obtain db' where run: "ex_changed = Inr (db', True)" using result_run by metis
  have u: "u_id (user_at ex_logged_in ''t1'' 3005) = 5" "length (ad_sessions ex_logged_in) = 1" by code_simp+
  have "sessions_of db' 5 = []"
    using credentials_end_sessions [where db = "acting_at ex_logged_in ''t1'' 3005" and env = ex_env
        and p = "principal_at ex_logged_in ''t1'' 3005" and u = "user_at ex_logged_in ''t1'' 3005"
        and current = "''secret''" and new = "''a longer secret''" and ip = None and now = 3005, THEN conjunct1]
    unfolding run [unfolded ex_changed_def] u by simp
  then show ?thesis using run u(2) by blast
qed

definition ex_recovered :: "(auth_error, auth_db \<times> outcome) result" where
  "ex_recovered = use_recovery_code ex_env (acting_at ex_logged_in ''t1'' 3005) (principal_at ex_logged_in ''t1'' 3005)
     (user_at ex_logged_in ''t1'' 3005) ''ab-1'' 2 ''t2'' None 3005"

definition ex_redeemed :: "(auth_error, auth_db \<times> outcome \<times> activation_next option) result" where
  "ex_redeemed = redeem_activation_link ex_env ex_auth_db ''link'' ''a longer secret'' 1 ''t1'' None 3000"

theorem one_time_credentials_witness:
  "(\<exists>db' u'. ex_recovered = Inr (db', Ok_outcome) \<and> find_user db' 5 = Some u'
      \<and> (\<exists>left. u_recovery_hashes u' = Some left \<and> set left = {''sAB1'', ''sCD2''} - {''sAB1''}))
    \<and> (\<exists>db' v'. ex_redeemed = Inr (db', Ok_outcome, Some Next_login) \<and> find_user db' 5 = Some v'
      \<and> u_password_hash v' = Some ''ha longer secret'')"
proof
  let ?u = "user_at ex_logged_in ''t1'' 3005"
  have "\<not> isl ex_recovered \<and> snd (projr ex_recovered) = Ok_outcome" by code_simp
  then obtain db' where run: "ex_recovered = Inr (db', Ok_outcome)" using result_run by metis
  have u: "u_recovery_hashes ?u = Some [''sAB1'', ''sCD2'']" "u_id ?u = 5" "distinct [''sAB1'', ''sCD2'']"
      "find_user (acting_at ex_logged_in ''t1'' 3005) (u_id ?u) = Some ?u" by code_simp+
  have h: "hash_recovery_code ex_env ''ab-1'' = ''sAB1''" by code_simp
  show "\<exists>db' u'. ex_recovered = Inr (db', Ok_outcome) \<and> find_user db' 5 = Some u'
      \<and> (\<exists>left. u_recovery_hashes u' = Some left \<and> set left = {''sAB1'', ''sCD2''} - {''sAB1''})"
  proof -
    obtain u' left where "find_user db' (u_id ?u) = Some u'" "u_recovery_hashes u' = Some left"
        "set left = set [''sAB1'', ''sCD2''] - {hash_recovery_code ex_env ''ab-1''}"
      using one_time_credentials [where env = ex_env and db = "acting_at ex_logged_in ''t1'' 3005"
          and p = "principal_at ex_logged_in ''t1'' 3005" and u = ?u and code = "''ab-1''" and sid = 2
          and token = "''t2''" and ip = None and now = 3005 and sid' = 3 and token' = "''t3''" and ip' = None
          and now' = 3050 and q = "principal_at ex_logged_in ''t1'' 3005", THEN conjunct1,
          unfolded run [unfolded ex_recovered_def] sum.case prod.case outcome.case, THEN spec, THEN spec, THEN mp,
          OF conjI [OF u(1) conjI [OF u(3) conjI [OF u(4) refl]]]]
      by (elim exE conjE) (rule that)
    then show ?thesis using run unfolding h u(2) list.set by (intro exI [of _ db'] exI [of _ u'] exI [of _ left] conjI)
  qed
next
  have "\<not> isl ex_redeemed \<and> snd (projr ex_redeemed) = (Ok_outcome, Some Next_login)" by code_simp
  then obtain db' where run: "ex_redeemed = Inr (db', Ok_outcome, Some Next_login)" using result_run by metis
  have v: "find_user ex_auth_db 5 = Some ex_user" "u_activation_hash ex_user = Some (env_sha256 ex_env ''link'')"
      "other_hashes ex_auth_db 5 (env_sha256 ex_env ''link'')" "distinct (map u_id (ad_users ex_auth_db))"
      "min_password_length \<le> length ''a longer secret''" by code_simp+
  have h: "env_hash_password ex_env ''a longer secret'' = ''ha longer secret''" by code_simp
  from one_time_credentials [where env = ex_env and db = ex_auth_db and link = "''link''" and new = "''a longer secret''"
      and sid = 1 and st = "''t1''" and ip = None and now = 3000 and sid' = 2 and st' = "''t2''" and ip' = None
      and now' = 3050, THEN conjunct2, unfolded run [unfolded ex_redeemed_def] sum.case prod.case outcome.case,
      THEN spec, THEN spec, THEN spec, THEN mp, OF conjI [OF v(1) conjI [OF v(2) conjI [OF v(3) conjI [OF v(4,5)]]]]]
  obtain v' where "find_user db' 5 = Some v'" "u_password_hash v' = Some ''ha longer secret''"
    unfolding h by (elim exE conjE) (rule that)
  then show "\<exists>db' v'. ex_redeemed = Inr (db', Ok_outcome, Some Next_login) \<and> find_user db' 5 = Some v'
      \<and> u_password_hash v' = Some ''ha longer secret''"
    using run by (intro exI [of _ db'] exI [of _ v'] conjI)
qed



end
