(* ===== verification/ChartConfig.thy ===== *)
theory ChartConfig
  imports Prelude
begin

text \<open>
  The configuration of a company that says what an account of its ledger is: divisions, cost
  categories, the chart of accounts, the mapping of an account, and the rules that suggest one
  (\<open>app/domain/config\<close>: \<open>models.py\<close>, \<open>categories.py\<close>, \<open>service.py\<close>, \<open>rules.py\<close>, \<open>chart.py\<close>).
  The rows are those of one tenant; every operation is one transaction, a raised error undoes it.
  The regular expressions of the rules are data of the tenant: the engine that compiles and
  matches them is an argument. New row ids are arguments.
\<close>

section \<open>Rows\<close>

record division_row =
  dv_id :: uuid
  dv_code :: string
  dv_name :: string
  dv_digit :: "string option"
  dv_active :: bool
  dv_sort :: int

record category_row =
  cc_id :: uuid
  cc_slot :: string
  cc_name :: string
  cc_active :: bool
  cc_sort :: int

record account_row =
  ga_id :: uuid
  ga_no :: string
  ga_name :: string
  ga_ledger_type :: string
  ga_active :: bool
  ga_external_id :: "string option"
  ga_raw :: "uuid option"

datatype map_status = Suggested | Confirmed

record map_row =
  am_id :: uuid
  am_account :: uuid
  am_division :: "uuid option"
  am_category :: "uuid option"
  am_in_job_cost :: bool
  am_status :: map_status
  am_rule :: "string option"
  am_confirmed_by :: "uuid option"
  am_confirmed_at :: "int option"

record rule_row =
  sr_order :: int
  sr_name :: string
  sr_pattern :: string
  sr_division :: "uuid option"
  sr_from_digit :: "int option"
  sr_category :: "uuid option"
  sr_from_slot :: bool
  sr_in_job_cost :: bool
  sr_active :: bool

text \<open>The audit rows of the configuration: the event, and what was before and after.\<close>

datatype config_event = Division_created | Division_changed | Division_deactivated
  | Categories_seeded | Category_changed | Category_deactivated
  | Gl_account_added | Gl_account_renamed | Gl_account_deactivated | Gl_account_linked
  | Map_suggested | Map_suggestion_removed | Map_set | Map_confirmed | Rules_loaded

datatype plain_row = Division_plain string string "string option" bool int
  | Category_plain string string bool int
  | Map_plain "uuid option" "uuid option" bool map_status "string option"
  | Account_added_plain string string string
  | Account_plain string string bool
  | Active_plain bool
  | Linked_plain bool
  | Rules_plain "(int \<times> string \<times> string) list"
  | Slots_plain "string list"

record config_audit =
  ca_event :: config_event
  ca_entity :: "uuid option"
  ca_actor :: "uuid option"
  ca_before :: "plain_row option"
  ca_after :: "plain_row option"
  ca_account_no :: "string option"

record config_db =
  cf_divisions :: "division_row list"
  cf_categories :: "category_row list"
  cf_accounts :: "account_row list"
  cf_maps :: "map_row list"
  cf_rules :: "rule_row list"
  cf_log :: "config_audit list"

datatype rule_fault = Bad_length | Invalid_pattern | Digit_below_one | Unknown_division string
  | Unknown_category string | Division_or_digit | Category_or_slot

datatype config_error = Division_missing | Digit_not_one_character | Division_code_bad
  | Division_name_missing | Division_code_taken string | Digit_taken string | Category_missing
  | Category_name_missing | Account_missing | Choose_division | Choose_category | No_mapping
  | Rule_error string rule_fault | Rule_order_taken

definition config_note ::
  "config_event \<Rightarrow> uuid option \<Rightarrow> uuid option \<Rightarrow> plain_row option \<Rightarrow> plain_row option \<Rightarrow> string option
    \<Rightarrow> config_db \<Rightarrow> config_db" where
  "config_note event entity actor before after no db = db\<lparr>cf_log := cf_log db @ [\<lparr>ca_event = event,
     ca_entity = entity, ca_actor = actor, ca_before = before, ca_after = after, ca_account_no = no\<rparr>]\<rparr>"

section \<open>Divisions\<close>

definition division_plain :: "division_row \<Rightarrow> plain_row" where
  "division_plain d = Division_plain (dv_code d) (dv_name d) (dv_digit d) (dv_active d) (dv_sort d)"

definition check_digit :: "string option \<Rightarrow> (config_error, string option) result" where
  "check_digit digit = (let d = strip (case digit of None \<Rightarrow> [] | Some s \<Rightarrow> s) in
     if d = [] then Inr None else if length d \<noteq> 1 then Inl Digit_not_one_character else Inr (Some d))"

definition find_division :: "config_db \<Rightarrow> uuid \<Rightarrow> division_row option" where
  "find_division db i = List.find (\<lambda>d. dv_id d = i) (cf_divisions db)"

definition put_division :: "division_row \<Rightarrow> config_db \<Rightarrow> config_db" where
  "put_division d db = db\<lparr>cf_divisions := map (\<lambda>x. if dv_id x = dv_id d then d else x) (cf_divisions db)\<rparr>"

definition digit_used :: "config_db \<Rightarrow> string option \<Rightarrow> uuid option \<Rightarrow> bool" where
  "digit_used db digit except \<longleftrightarrow> (case digit of
     None \<Rightarrow> False
   | Some d \<Rightarrow> list_ex (\<lambda>x. dv_digit x = Some d \<and> Some (dv_id x) \<noteq> except) (cf_divisions db))"

definition create_division ::
  "config_db \<Rightarrow> uuid \<Rightarrow> string option \<Rightarrow> string option \<Rightarrow> string option \<Rightarrow> int \<Rightarrow> uuid option
    \<Rightarrow> (config_error, config_db \<times> division_row) result" where
  "create_division db new_id code0 name0 code_digit sort_order actor =
     (let code = upper (strip (case code0 of None \<Rightarrow> [] | Some s \<Rightarrow> s));
          name = strip (case name0 of None \<Rightarrow> [] | Some s \<Rightarrow> s) in
      if code = [] \<or> 20 < length code then Inl Division_code_bad
      else if name = [] then Inl Division_name_missing
      else (case check_digit code_digit of
        Inl e \<Rightarrow> Inl e
      | Inr digit \<Rightarrow>
          if list_ex (\<lambda>d. dv_code d = code) (cf_divisions db) then Inl (Division_code_taken code)
          else if digit_used db digit None then Inl (Digit_taken (case digit of None \<Rightarrow> [] | Some d \<Rightarrow> d))
          else (let row = \<lparr>dv_id = new_id, dv_code = code, dv_name = name, dv_digit = digit,
                  dv_active = True, dv_sort = sort_order\<rparr>
            in Inr (config_note Division_created (Some new_id) actor None (Some (division_plain row)) None
              (db\<lparr>cf_divisions := cf_divisions db @ [row]\<rparr>), row))))"

text \<open>The new digit of an update: cleared, given, or kept.\<close>

definition updated_digit ::
  "config_db \<Rightarrow> division_row \<Rightarrow> string option \<Rightarrow> bool \<Rightarrow> (config_error, string option) result" where
  "updated_digit db row code_digit clear =
     (if clear then Inr None
      else (case code_digit of
        None \<Rightarrow> Inr (dv_digit row)
      | Some d \<Rightarrow> (case check_digit (Some d) of
          Inl e \<Rightarrow> Inl e
        | Inr digit \<Rightarrow> if digit_used db digit (Some (dv_id row))
            then Inl (Digit_taken (case digit of None \<Rightarrow> [] | Some d \<Rightarrow> d)) else Inr digit)))"

definition update_division ::
  "config_db \<Rightarrow> uuid \<Rightarrow> string option \<Rightarrow> string option \<Rightarrow> bool \<Rightarrow> int option \<Rightarrow> uuid option
    \<Rightarrow> (config_error, config_db \<times> division_row) result" where
  "update_division db i name code_digit clear sort_order actor =
     (case find_division db i of
        None \<Rightarrow> Inl Division_missing
      | Some row \<Rightarrow>
          if (case name of None \<Rightarrow> False | Some n \<Rightarrow> strip n = []) then Inl Division_name_missing
          else (case updated_digit db row code_digit clear of
            Inl e \<Rightarrow> Inl e
          | Inr digit \<Rightarrow>
              (let row' = row\<lparr>dv_name := (case name of None \<Rightarrow> dv_name row | Some n \<Rightarrow> strip n),
                     dv_digit := digit,
                     dv_sort := (case sort_order of None \<Rightarrow> dv_sort row | Some s \<Rightarrow> s)\<rparr>;
                   db' = put_division row' db
               in Inr (if division_plain row' \<noteq> division_plain row
                 then config_note Division_changed (Some i) actor (Some (division_plain row))
                   (Some (division_plain row')) None db'
                 else db', row'))))"

definition deactivate_division ::
  "config_db \<Rightarrow> uuid \<Rightarrow> uuid option \<Rightarrow> (config_error, config_db \<times> division_row) result" where
  "deactivate_division db i actor = (case find_division db i of
     None \<Rightarrow> Inl Division_missing
   | Some row \<Rightarrow> if dv_active row
       then (let row' = row\<lparr>dv_active := False\<rparr> in
         Inr (config_note Division_deactivated (Some i) actor (Some (division_plain row))
           (Some (division_plain row')) None (put_division row' db), row'))
       else Inr (db, row))"

section \<open>Cost categories\<close>

definition d23_cost_categories :: "(string \<times> string) list" where
  "d23_cost_categories = [(''10'', ''Labor''), (''20'', ''Labor Burden''), (''30'', ''Materials''),
     (''35'', ''Supplies''), (''40'', ''Subcontractors''), (''45'', ''Equipment (owned)''),
     (''47'', ''Vehicles (owned)''), (''50'', ''Equipment Rental''), (''55'', ''Equipment Maintenance''),
     (''60'', ''Disposal''), (''65'', ''Fuel''), (''70'', ''Permits & Bonds''), (''80'', ''Warranty''),
     (''90'', ''Other'')]"

definition category_plain :: "category_row \<Rightarrow> plain_row" where
  "category_plain c = Category_plain (cc_slot c) (cc_name c) (cc_active c) (cc_sort c)"

definition seed_categories :: "(string \<Rightarrow> uuid) \<Rightarrow> config_db \<Rightarrow> uuid option \<Rightarrow> config_db \<times> nat" where
  "seed_categories new_id db actor =
     (if cf_categories db \<noteq> [] then (db, 0)
      else (let rows = map (\<lambda>(i, slot, name). \<lparr>cc_id = new_id slot, cc_slot = slot, cc_name = name,
              cc_active = True, cc_sort = int i\<rparr>) (enumerate 0 d23_cost_categories)
        in (config_note Categories_seeded None actor None (Some (Slots_plain (map fst d23_cost_categories))) None
          (db\<lparr>cf_categories := rows\<rparr>), length rows)))"

text \<open>The seed on first read is nobody's: the actor is the system.\<close>

definition ensure_cost_categories :: "(string \<Rightarrow> uuid) \<Rightarrow> config_db \<Rightarrow> config_db \<times> nat" where
  "ensure_cost_categories new_id db = seed_categories new_id db None"

definition cost_code :: "division_row option \<Rightarrow> category_row option \<Rightarrow> string option" where
  "cost_code d c = (case (d, c) of
     (Some division, Some category) \<Rightarrow> (case dv_digit division of
        None \<Rightarrow> None | Some digit \<Rightarrow> if digit = [] then None else Some (digit @ cc_slot category))
   | _ \<Rightarrow> None)"

definition find_category :: "config_db \<Rightarrow> uuid \<Rightarrow> category_row option" where
  "find_category db i = List.find (\<lambda>c. cc_id c = i) (cf_categories db)"

definition put_category :: "category_row \<Rightarrow> config_db \<Rightarrow> config_db" where
  "put_category c db = db\<lparr>cf_categories := map (\<lambda>x. if cc_id x = cc_id c then c else x) (cf_categories db)\<rparr>"

definition rename_cost_category ::
  "config_db \<Rightarrow> uuid \<Rightarrow> string \<Rightarrow> uuid option \<Rightarrow> (config_error, config_db \<times> category_row) result" where
  "rename_cost_category db i name actor = (case find_category db i of
     None \<Rightarrow> Inl Category_missing
   | Some row \<Rightarrow> if strip name = [] then Inl Category_name_missing
       else (let row' = row\<lparr>cc_name := take 60 (strip name)\<rparr>; db' = put_category row' db in
         Inr (if category_plain row' \<noteq> category_plain row
           then config_note Category_changed (Some i) actor (Some (category_plain row))
             (Some (category_plain row')) None db'
           else db', row')))"

definition deactivate_cost_category ::
  "config_db \<Rightarrow> uuid \<Rightarrow> uuid option \<Rightarrow> (config_error, config_db \<times> category_row) result" where
  "deactivate_cost_category db i actor = (case find_category db i of
     None \<Rightarrow> Inl Category_missing
   | Some row \<Rightarrow> if cc_active row
       then (let row' = row\<lparr>cc_active := False\<rparr> in
         Inr (config_note Category_deactivated (Some i) actor (Some (category_plain row))
           (Some (category_plain row')) None (put_category row' db), row'))
       else Inr (db, row))"

section \<open>The mapping of an account\<close>

definition map_plain :: "map_row \<Rightarrow> plain_row" where
  "map_plain m = Map_plain (am_division m) (am_category m) (am_in_job_cost m) (am_status m) (am_rule m)"

definition find_account :: "config_db \<Rightarrow> uuid \<Rightarrow> account_row option" where
  "find_account db i = List.find (\<lambda>a. ga_id a = i) (cf_accounts db)"

definition map_of_account :: "config_db \<Rightarrow> uuid \<Rightarrow> map_row option" where
  "map_of_account db i = List.find (\<lambda>m. am_account m = i) (cf_maps db)"

text \<open>A row of \<open>account_map\<close> is stored under its account, of which there is one.\<close>

definition put_map :: "map_row \<Rightarrow> config_db \<Rightarrow> config_db" where
  "put_map m db = db\<lparr>cf_maps := (if map_of_account db (am_account m) = None then cf_maps db @ [m]
     else map (\<lambda>x. if am_account x = am_account m then m else x) (cf_maps db))\<rparr>"

definition delete_map :: "uuid \<Rightarrow> config_db \<Rightarrow> config_db" where
  "delete_map i db = db\<lparr>cf_maps := filter (\<lambda>x. am_account x \<noteq> i) (cf_maps db)\<rparr>"

definition set_account_map ::
  "config_db \<Rightarrow> uuid \<Rightarrow> uuid \<Rightarrow> uuid option \<Rightarrow> uuid option \<Rightarrow> bool \<Rightarrow> bool \<Rightarrow> uuid option \<Rightarrow> int
    \<Rightarrow> (config_error, config_db \<times> map_row) result" where
  "set_account_map db new_id account division category in_job_cost confirm actor now =
     (case find_account db account of
        None \<Rightarrow> Inl Account_missing
      | Some a \<Rightarrow>
          if (case division of None \<Rightarrow> False | Some d \<Rightarrow> find_division db d = None) then Inl Choose_division
          else if (case category of None \<Rightarrow> False | Some c \<Rightarrow> find_category db c = None) then Inl Choose_category
          else (let old = map_of_account db account;
                    row = (case old of
                      None \<Rightarrow> \<lparr>am_id = new_id, am_account = account, am_division = None, am_category = None,
                        am_in_job_cost = in_job_cost, am_status = Suggested, am_rule = None,
                        am_confirmed_by = None, am_confirmed_at = None\<rparr>
                    | Some m \<Rightarrow> m);
                    set = row\<lparr>am_division := division, am_category := category,
                      am_in_job_cost := in_job_cost, am_rule := None\<rparr>;
                    row' = (if confirm then set\<lparr>am_status := Confirmed, am_confirmed_by := actor,
                      am_confirmed_at := Some now\<rparr> else set)
            in Inr (config_note (if confirm then Map_confirmed else Map_set) (Some (am_id row')) actor
                (map_option map_plain old) (Some (map_plain row')) (Some (ga_no a)) (put_map row' db), row')))"

definition confirm_row :: "config_db \<Rightarrow> map_row \<Rightarrow> uuid option \<Rightarrow> int \<Rightarrow> config_db \<times> map_row" where
  "confirm_row db row actor now =
     (if am_status row = Confirmed then (db, row)
      else (let row' = row\<lparr>am_status := Confirmed, am_confirmed_by := actor, am_confirmed_at := Some now\<rparr> in
        (config_note Map_confirmed (Some (am_id row)) actor (Some (map_plain row)) (Some (map_plain row'))
          (map_option ga_no (find_account db (am_account row))) (put_map row' db), row')))"

definition confirm_account_map ::
  "config_db \<Rightarrow> uuid \<Rightarrow> uuid option \<Rightarrow> int \<Rightarrow> (config_error, config_db \<times> map_row) result" where
  "confirm_account_map db account actor now = (case map_of_account db account of
     None \<Rightarrow> Inl No_mapping | Some row \<Rightarrow> Inr (confirm_row db row actor now))"

definition confirm_all_suggestions :: "config_db \<Rightarrow> uuid option \<Rightarrow> int \<Rightarrow> config_db \<times> nat" where
  "confirm_all_suggestions db actor now =
     (let rows = filter (\<lambda>m. am_status m = Suggested) (cf_maps db)
      in (foldl (\<lambda>d m. fst (confirm_row d m actor now)) db rows, length rows))"

definition unmapped_count :: "config_db \<Rightarrow> nat" where
  "unmapped_count db = length (filter (\<lambda>a. ga_active a \<and> \<not> list_ex (\<lambda>m. am_account m = ga_id a
     \<and> am_status m = Confirmed) (cf_maps db)) (cf_accounts db))"

section \<open>The rules that suggest a mapping\<close>

text \<open>The regular expression engine: does a pattern compile, and does it match a whole text.\<close>

record regex_engine =
  re_compiles :: "string \<Rightarrow> bool"
  re_fullmatch :: "string \<Rightarrow> string \<Rightarrow> bool"

record compiled_rule =
  cr_name :: string
  cr_pattern :: string
  cr_division :: "uuid option"
  cr_from_digit :: "int option"
  cr_category :: "uuid option"
  cr_from_slot :: bool
  cr_in_job_cost :: bool

record suggestion =
  sg_division :: "uuid option"
  sg_category :: "uuid option"
  sg_in_job_cost :: bool
  sg_rule :: string

definition pattern_max_length :: nat where
  "pattern_max_length = 100"

definition compile_pattern :: "regex_engine \<Rightarrow> string \<Rightarrow> string \<Rightarrow> (config_error, string) result" where
  "compile_pattern re name pattern =
     (if pattern = [] \<or> pattern_max_length < length pattern then Inl (Rule_error name Bad_length)
      else if \<not> re_compiles re pattern then Inl (Rule_error name Invalid_pattern)
      else Inr pattern)"

fun compile_all :: "regex_engine \<Rightarrow> rule_row list \<Rightarrow> (config_error, compiled_rule list) result" where
  "compile_all re [] = Inr []"
| "compile_all re (r # rs) =
     (if \<not> sr_active r then compile_all re rs
      else if (case sr_from_digit r of None \<Rightarrow> False | Some d \<Rightarrow> d < 1) then Inl (Rule_error (sr_name r) Digit_below_one)
      else (case compile_pattern re (sr_name r) (sr_pattern r) of
        Inl e \<Rightarrow> Inl e
      | Inr pattern \<Rightarrow> (case compile_all re rs of
          Inl e \<Rightarrow> Inl e
        | Inr out \<Rightarrow> Inr (\<lparr>cr_name = sr_name r, cr_pattern = pattern, cr_division = sr_division r,
            cr_from_digit = sr_from_digit r, cr_category = sr_category r, cr_from_slot = sr_from_slot r,
            cr_in_job_cost = sr_in_job_cost r\<rparr> # out))))"

definition compile_rules :: "regex_engine \<Rightarrow> rule_row list \<Rightarrow> (config_error, compiled_rule list) result" where
  "compile_rules re rows = compile_all re (sort_key sr_order rows)"

text \<open>What one rule suggests for an account number; \<open>None\<close> tries the next rule.\<close>

definition rule_division :: "compiled_rule \<Rightarrow> string \<Rightarrow> (string, uuid) dict \<Rightarrow> uuid option option" where
  "rule_division r no by_digit = (case cr_from_digit r of
     None \<Rightarrow> Some (cr_division r)
   | Some d \<Rightarrow> if int (length no) \<le> d - 1 then None
       else (case map_of by_digit [no ! nat (d - 1)] of None \<Rightarrow> None | Some i \<Rightarrow> Some (Some i)))"

definition rule_category :: "compiled_rule \<Rightarrow> string \<Rightarrow> (string, uuid) dict \<Rightarrow> uuid option option" where
  "rule_category r no by_slot =
     (if \<not> cr_from_slot r then Some (cr_category r)
      else if length no < 2 then None
      else (case map_of by_slot (drop (length no - 2) no) of None \<Rightarrow> None | Some i \<Rightarrow> Some (Some i)))"

definition rule_suggests ::
  "regex_engine \<Rightarrow> string \<Rightarrow> (string, uuid) dict \<Rightarrow> (string, uuid) dict \<Rightarrow> compiled_rule \<Rightarrow> suggestion option" where
  "rule_suggests re no by_digit by_slot r =
     (if \<not> re_fullmatch re (cr_pattern r) no then None
      else (case rule_division r no by_digit of
        None \<Rightarrow> None
      | Some division \<Rightarrow> (case rule_category r no by_slot of
          None \<Rightarrow> None
        | Some category \<Rightarrow> Some \<lparr>sg_division = division, sg_category = category,
            sg_in_job_cost = cr_in_job_cost r, sg_rule = cr_name r\<rparr>)))"

fun suggest_for ::
  "regex_engine \<Rightarrow> string \<Rightarrow> compiled_rule list \<Rightarrow> (string, uuid) dict \<Rightarrow> (string, uuid) dict
    \<Rightarrow> suggestion option" where
  "suggest_for re no [] by_digit by_slot = None"
| "suggest_for re no (r # rs) by_digit by_slot = (case rule_suggests re no by_digit by_slot r of
     Some s \<Rightarrow> Some s | None \<Rightarrow> suggest_for re no rs by_digit by_slot)"

section \<open>Suggesting\<close>

record suggest_counts =
  sc_suggested :: nat
  sc_unchanged :: nat
  sc_removed :: nat
  sc_unmatched :: nat

definition no_suggest_counts :: suggest_counts where
  "no_suggest_counts = \<lparr>sc_suggested = 0, sc_unchanged = 0, sc_removed = 0, sc_unmatched = 0\<rparr>"

definition divisions_by_digit :: "config_db \<Rightarrow> (string, uuid) dict" where
  "divisions_by_digit db = rev (List.map_filter (\<lambda>d. case dv_digit d of
     None \<Rightarrow> None | Some g \<Rightarrow> if dv_active d \<and> g \<noteq> [] then Some (g, dv_id d) else None) (cf_divisions db))"

definition categories_by_slot :: "config_db \<Rightarrow> (string, uuid) dict" where
  "categories_by_slot db = rev (map (\<lambda>c. (cc_slot c, cc_id c)) (filter cc_active (cf_categories db)))"

definition same_suggestion :: "map_row \<Rightarrow> suggestion \<Rightarrow> bool" where
  "same_suggestion m s \<longleftrightarrow> am_division m = sg_division s \<and> am_category m = sg_category s
     \<and> am_in_job_cost m = sg_in_job_cost s \<and> am_rule m = Some (sg_rule s)"

definition suggested_row :: "map_row \<Rightarrow> suggestion \<Rightarrow> map_row" where
  "suggested_row m s = m\<lparr>am_division := sg_division s, am_category := sg_category s,
     am_in_job_cost := sg_in_job_cost s, am_rule := Some (sg_rule s)\<rparr>"

definition new_suggested_row :: "uuid \<Rightarrow> uuid \<Rightarrow> suggestion \<Rightarrow> map_row" where
  "new_suggested_row new_id account s = \<lparr>am_id = new_id, am_account = account, am_division = sg_division s,
     am_category = sg_category s, am_in_job_cost = sg_in_job_cost s, am_status = Suggested,
     am_rule = Some (sg_rule s), am_confirmed_by = None, am_confirmed_at = None\<rparr>"

definition suggest_account ::
  "(uuid \<Rightarrow> uuid) \<Rightarrow> (string \<Rightarrow> suggestion option) \<Rightarrow> uuid option \<Rightarrow> config_db \<times> suggest_counts \<Rightarrow> account_row
    \<Rightarrow> config_db \<times> suggest_counts" where
  "suggest_account new_id suggests actor st a = (case st of (db, n) \<Rightarrow>
     (let current = map_of_account db (ga_id a) in
      if (case current of None \<Rightarrow> False | Some m \<Rightarrow> am_status m = Confirmed) then (db, n)
      else (case suggests (ga_no a) of
        None \<Rightarrow> (case current of
            None \<Rightarrow> (db, n\<lparr>sc_unmatched := Suc (sc_unmatched n)\<rparr>)
          | Some m \<Rightarrow> (delete_map (ga_id a) (config_note Map_suggestion_removed (Some (am_id m)) actor
                (Some (map_plain m)) None (Some (ga_no a)) db),
              n\<lparr>sc_unmatched := Suc (sc_unmatched n), sc_removed := Suc (sc_removed n)\<rparr>))
      | Some s \<Rightarrow> (case current of
            None \<Rightarrow> (let row = new_suggested_row (new_id (ga_id a)) (ga_id a) s in
              (config_note Map_suggested (Some (am_id row)) actor None (Some (map_plain row)) (Some (ga_no a))
                (put_map row db), n\<lparr>sc_suggested := Suc (sc_suggested n)\<rparr>))
          | Some m \<Rightarrow> if same_suggestion m s then (db, n\<lparr>sc_unchanged := Suc (sc_unchanged n)\<rparr>)
              else (let row = suggested_row m s in
                (config_note Map_suggested (Some (am_id row)) actor (Some (map_plain m)) (Some (map_plain row))
                  (Some (ga_no a)) (put_map row db), n\<lparr>sc_suggested := Suc (sc_suggested n)\<rparr>))))))"

definition suggest ::
  "regex_engine \<Rightarrow> (string \<Rightarrow> uuid) \<Rightarrow> (uuid \<Rightarrow> uuid) \<Rightarrow> config_db \<Rightarrow> uuid option
    \<Rightarrow> (config_error, config_db \<times> suggest_counts) result" where
  "suggest re new_category new_id db0 actor =
     (let db = fst (ensure_cost_categories new_category db0) in
      case compile_rules re (cf_rules db) of
        Inl e \<Rightarrow> Inl e
      | Inr rules \<Rightarrow> Inr (foldl (suggest_account new_id
            (\<lambda>no. suggest_for re no rules (divisions_by_digit db) (categories_by_slot db)) actor)
          (db, no_suggest_counts) (filter ga_active (cf_accounts db))))"

section \<open>Loading the rules\<close>

record spec_division =
  sd_code :: string
  sd_name :: "string option"
  sd_digit :: "string option"

record spec_rule =
  sp_name :: "string option"
  sp_order :: int
  sp_pattern :: "string option"
  sp_division :: "string option"
  sp_from_digit :: "int option"
  sp_category :: "string option"
  sp_from_slot :: bool
  sp_in_job_cost :: bool

definition or_text :: "string option \<Rightarrow> string \<Rightarrow> string" where
  "or_text s other = (case s of None \<Rightarrow> other | Some x \<Rightarrow> if x = [] then other else x)"

fun load_divisions ::
  "(string \<Rightarrow> uuid) \<Rightarrow> uuid option \<Rightarrow> (nat \<times> spec_division) list \<Rightarrow> config_db \<times> (string, uuid) dict
    \<Rightarrow> (config_error, config_db \<times> (string, uuid) dict) result" where
  "load_divisions new_id actor [] st = Inr st"
| "load_divisions new_id actor ((i, d) # ds) (db, divisions) =
     (let code = upper (strip (sd_code d)) in
      if code \<noteq> [] \<and> map_of divisions code = None
      then (case create_division db (new_id code) (Some code) (Some (or_text (sd_name d) code)) (sd_digit d)
          (int i) actor of
          Inl e \<Rightarrow> Inl e
        | Inr (db', row) \<Rightarrow> load_divisions new_id actor ds (db', AList.update code (dv_id row) divisions))
      else load_divisions new_id actor ds (db, divisions))"

definition load_rule ::
  "regex_engine \<Rightarrow> (string, uuid) dict \<Rightarrow> (string, uuid) dict \<Rightarrow> spec_rule \<Rightarrow> (config_error, rule_row) result" where
  "load_rule re divisions categories r =
     (let name = or_text (sp_name r) (''rule '' @ int_str (sp_order r)) in
      case compile_pattern re name (or_text (sp_pattern r) []) of
        Inl e \<Rightarrow> Inl e
      | Inr pattern \<Rightarrow>
          if (case sp_division r of None \<Rightarrow> False | Some d \<Rightarrow> map_of divisions d = None)
          then Inl (Rule_error name (Unknown_division (or_text (sp_division r) [])))
          else if (case sp_category r of None \<Rightarrow> False | Some c \<Rightarrow> map_of categories c = None)
          then Inl (Rule_error name (Unknown_category (or_text (sp_category r) [])))
          else if sp_division r \<noteq> None \<and> sp_from_digit r \<noteq> None then Inl (Rule_error name Division_or_digit)
          else if sp_category r \<noteq> None \<and> sp_from_slot r then Inl (Rule_error name Category_or_slot)
          else Inr \<lparr>sr_order = sp_order r, sr_name = take 100 name, sr_pattern = pattern,
            sr_division = (case sp_division r of None \<Rightarrow> None | Some d \<Rightarrow> map_of divisions d),
            sr_from_digit = sp_from_digit r,
            sr_category = (case sp_category r of None \<Rightarrow> None | Some c \<Rightarrow> map_of categories c),
            sr_from_slot = sp_from_slot r, sr_in_job_cost = sp_in_job_cost r, sr_active = True\<rparr>)"

fun load_rules ::
  "regex_engine \<Rightarrow> (string, uuid) dict \<Rightarrow> (string, uuid) dict \<Rightarrow> spec_rule list
    \<Rightarrow> (config_error, rule_row list) result" where
  "load_rules re divisions categories [] = Inr []"
| "load_rules re divisions categories (r # rs) = (case load_rule re divisions categories r of
     Inl e \<Rightarrow> Inl e
   | Inr row \<Rightarrow> (case load_rules re divisions categories rs of Inl e \<Rightarrow> Inl e | Inr rows \<Rightarrow> Inr (row # rows)))"

definition rules_plain :: "rule_row list \<Rightarrow> plain_row" where
  "rules_plain rows = Rules_plain (map (\<lambda>r. (sr_order r, sr_name r, sr_pattern r)) rows)"

text \<open>
  Two rules of one order break the unique index \<open>uq_account_suggest_rule_tenant_order\<close>: the flush
  raises and the load is undone.
\<close>

definition load_suggest_rules ::
  "regex_engine \<Rightarrow> (string \<Rightarrow> uuid) \<Rightarrow> (string \<Rightarrow> uuid) \<Rightarrow> config_db \<Rightarrow> spec_division list \<Rightarrow> spec_rule list
    \<Rightarrow> uuid option \<Rightarrow> (config_error, config_db \<times> nat) result" where
  "load_suggest_rules re new_category new_division db0 spec_divisions spec_rules actor =
     (let db = fst (ensure_cost_categories new_category db0);
          held = map (\<lambda>d. (dv_code d, dv_id d)) (cf_divisions db) in
      case load_divisions new_division actor (enumerate 0 spec_divisions) (db, held) of
        Inl e \<Rightarrow> Inl e
      | Inr (db1, divisions) \<Rightarrow>
          (case load_rules re divisions (rev (map (\<lambda>c. (cc_name c, cc_id c)) (cf_categories db1))) spec_rules of
             Inl e \<Rightarrow> Inl e
           | Inr rows \<Rightarrow> if \<not> distinct (map sr_order rows) then Inl Rule_order_taken
               else Inr (config_note Rules_loaded None actor (Some (rules_plain (cf_rules db1)))
                 (Some (rules_plain rows)) None (db1\<lparr>cf_rules := rows\<rparr>), length rows)))"

section \<open>The chart of accounts\<close>

datatype batch_status = Batch_received | Batch_processing | Batch_loaded | Batch_loaded_with_issues
  | Batch_failed | Batch_nothing_loaded

datatype followup = Followup_applied | Followup_superseded | Followup_unchanged

record import_batch =
  ib_id :: uuid
  ib_kind :: string
  ib_status :: batch_status
  ib_uploaded_at :: int
  ib_followup :: "followup option"

text \<open>A raw record of the chart, as its parser stores it.\<close>

record chart_record =
  cd_id :: uuid
  cd_external_id :: string
  cd_version :: nat
  cd_account_no :: "string option"
  cd_account_name :: "string option"
  cd_ledger_type :: "string option"

record chart_counts =
  cn_added :: nat
  cn_renamed :: nat
  cn_deactivated :: nat
  cn_unchanged :: nat
  cn_superseded :: bool

definition no_chart_counts :: chart_counts where
  "no_chart_counts = \<lparr>cn_added = 0, cn_renamed = 0, cn_deactivated = 0, cn_unchanged = 0, cn_superseded = False\<rparr>"

text \<open>Ordered by the account and its version, downwards; the first of each account.\<close>

definition latest_in_batch :: "chart_record list \<Rightarrow> chart_record list" where
  "latest_in_batch rows = map snd (foldl (\<lambda>d r. if map_of d (cd_external_id r) = None
       then d @ [(cd_external_id r, r)] else d) []
     (sort_key (\<lambda>r. (cd_external_id r, - int (cd_version r))) rows))"

definition holds_chart :: "import_batch \<Rightarrow> bool" where
  "holds_chart b \<longleftrightarrow> ib_status b \<in> {Batch_loaded, Batch_loaded_with_issues, Batch_processing}"

definition is_newest_chart_batch :: "import_batch list \<Rightarrow> import_batch \<Rightarrow> bool" where
  "is_newest_chart_batch batches b \<longleftrightarrow>
     (let at = map ib_uploaded_at (filter (\<lambda>x. ib_kind x = ib_kind b \<and> holds_chart x) batches)
      in at = [] \<or> Max (set at) \<le> ib_uploaded_at b)"

definition record_no :: "chart_record \<Rightarrow> string" where
  "record_no r = strip (or_text (cd_account_no r) (cd_external_id r))"

definition record_name :: "chart_record \<Rightarrow> string" where
  "record_name r = take 200 (strip (or_text (cd_account_name r) []))"

definition record_type :: "chart_record \<Rightarrow> string" where
  "record_type r = take 60 (strip (or_text (cd_ledger_type r) []))"

definition account_by_no :: "config_db \<Rightarrow> string \<Rightarrow> account_row option" where
  "account_by_no db no = List.find (\<lambda>a. ga_no a = no) (cf_accounts db)"

definition put_account :: "account_row \<Rightarrow> config_db \<Rightarrow> config_db" where
  "put_account a db = db\<lparr>cf_accounts := map (\<lambda>x. if ga_no x = ga_no a then a else x) (cf_accounts db)\<rparr>"

definition account_plain :: "account_row \<Rightarrow> plain_row" where
  "account_plain a = Account_plain (ga_name a) (ga_ledger_type a) (ga_active a)"

definition apply_record ::
  "(string \<Rightarrow> uuid) \<Rightarrow> uuid option \<Rightarrow> config_db \<times> chart_counts \<Rightarrow> chart_record \<Rightarrow> config_db \<times> chart_counts" where
  "apply_record new_id actor st r = (case st of (db, n) \<Rightarrow>
     (case account_by_no db (record_no r) of
        None \<Rightarrow> (let row = \<lparr>ga_id = new_id (record_no r), ga_no = record_no r, ga_name = record_name r,
              ga_ledger_type = record_type r, ga_active = True, ga_external_id = None, ga_raw = Some (cd_id r)\<rparr> in
            (config_note Gl_account_added (Some (ga_id row)) actor None
              (Some (Account_added_plain (record_no r) (record_name r) (record_type r))) None
              (db\<lparr>cf_accounts := cf_accounts db @ [row]\<rparr>), n\<lparr>cn_added := Suc (cn_added n)\<rparr>))
      | Some row \<Rightarrow>
          (let row' = row\<lparr>ga_name := record_name r, ga_ledger_type := record_type r, ga_active := True,
                 ga_raw := Some (cd_id r)\<rparr> in
           if account_plain row' \<noteq> account_plain row
           then (config_note Gl_account_renamed (Some (ga_id row)) actor (Some (account_plain row))
               (Some (account_plain row')) None (put_account row' db), n\<lparr>cn_renamed := Suc (cn_renamed n)\<rparr>)
           else (put_account row' db, n\<lparr>cn_unchanged := Suc (cn_unchanged n)\<rparr>))))"

definition missing_from :: "string set \<Rightarrow> string set \<Rightarrow> account_row \<Rightarrow> bool" where
  "missing_from present seen a \<longleftrightarrow> ga_active a \<and> ga_no a \<notin> present \<and> ga_no a \<notin> seen"

definition deactivate_account ::
  "string set \<Rightarrow> string set \<Rightarrow> uuid option \<Rightarrow> config_db \<times> chart_counts \<Rightarrow> account_row \<Rightarrow> config_db \<times> chart_counts" where
  "deactivate_account present seen actor st a = (case st of (db, n) \<Rightarrow>
     if missing_from present seen a
     then (config_note Gl_account_deactivated (Some (ga_id a)) actor (Some (Active_plain True))
         (Some (Active_plain False)) None (put_account (a\<lparr>ga_active := False\<rparr>) db),
       n\<lparr>cn_deactivated := Suc (cn_deactivated n)\<rparr>)
     else (db, n))"

definition apply_chart ::
  "(string \<Rightarrow> uuid) \<Rightarrow> chart_record list \<Rightarrow> string set option \<Rightarrow> config_db \<Rightarrow> uuid option
    \<Rightarrow> config_db \<times> chart_counts" where
  "apply_chart new_id records present db actor =
     (let rs = latest_in_batch records;
          st = foldl (apply_record new_id actor) (db, no_chart_counts) rs in
      case present of
        None \<Rightarrow> st
      | Some p \<Rightarrow> if p = {} then st
          else foldl (deactivate_account p (set (map record_no rs)) actor) st (cf_accounts (fst st)))"

definition set_followup :: "uuid \<Rightarrow> followup \<Rightarrow> import_batch list \<Rightarrow> import_batch list" where
  "set_followup i f batches = map (\<lambda>b. if ib_id b = i then b\<lparr>ib_followup := Some f\<rparr> else b) batches"

definition normalize_chart ::
  "(string \<Rightarrow> uuid) \<Rightarrow> import_batch list \<Rightarrow> uuid \<Rightarrow> chart_record list \<Rightarrow> string set option \<Rightarrow> config_db
    \<Rightarrow> uuid option \<Rightarrow> (import_batch list \<times> config_db \<times> chart_counts) option" where
  "normalize_chart new_id batches batch records present db actor =
     (case List.find (\<lambda>b. ib_id b = batch) batches of
        None \<Rightarrow> None
      | Some b \<Rightarrow>
          if \<not> is_newest_chart_batch batches b
          then Some (set_followup batch Followup_superseded batches, db, no_chart_counts\<lparr>cn_superseded := True\<rparr>)
          else Some (set_followup batch Followup_applied batches, apply_chart new_id records present db actor))"

end
