(* ===== verification/ChartProperties.thy ===== *)
theory ChartProperties
  imports ChartConfig
begin

text \<open>
  The properties of the chart and its mappings: what a suggestion is, what one pass of suggesting
  and one import of a chart leave behind, that doing either again changes nothing, and who can
  change a confirmed mapping.
\<close>

section \<open>The first rule that can\<close>

lemma suggest_for_find:
  "suggest_for re no rs by_digit by_slot =
    (case List.find (\<lambda>r. rule_suggests re no by_digit by_slot r \<noteq> None) rs of
       None \<Rightarrow> None | Some r \<Rightarrow> rule_suggests re no by_digit by_slot r)"
  by (induction rs) (auto split: option.split)

section \<open>One pass of suggesting\<close>

lemma map_of_account_put [simp]:
  "map_of_account (put_map m db) i = (if i = am_account m then Some m else map_of_account db i)"
proof -
  have "List.find (\<lambda>x. am_account x = i) (map (\<lambda>x. if am_account x = am_account m then m else x) ms)
      = (if i = am_account m then (case List.find (\<lambda>x. am_account x = i) ms of None \<Rightarrow> None | Some _ \<Rightarrow> Some m)
         else List.find (\<lambda>x. am_account x = i) ms)" for ms
    by (induction ms) (auto split: option.split)
  moreover have "List.find P (xs @ ys) = (case List.find P xs of None \<Rightarrow> List.find P ys | Some x \<Rightarrow> Some x)"
    for P :: "map_row \<Rightarrow> bool" and xs ys by (induction xs) auto
  ultimately show ?thesis by (auto simp: put_map_def map_of_account_def split: option.splits)
qed

lemma map_of_account_delete [simp]:
  "map_of_account (delete_map j db) i = (if i = j then None else map_of_account db i)"
proof -
  have "List.find (\<lambda>x. am_account x = i) (filter (\<lambda>x. am_account x \<noteq> j) ms)
      = (if i = j then None else List.find (\<lambda>x. am_account x = i) ms)" for ms
    by (induction ms) auto
  from this [of "cf_maps db"] show ?thesis by (simp add: delete_map_def map_of_account_def)
qed

lemma map_of_account_note [simp]:
  "map_of_account (config_note e i a b c n db) j = map_of_account db j"
  by (simp add: map_of_account_def config_note_def)

lemma map_of_account_Some: "map_of_account db i = Some m \<Longrightarrow> am_account m = i \<and> m \<in> set (cf_maps db)"
  unfolding map_of_account_def using find_mem by fastforce

text \<open>The mapping of an account after the pass, of the one before.\<close>

definition mapping_after ::
  "(uuid \<Rightarrow> uuid) \<Rightarrow> (string \<Rightarrow> suggestion option) \<Rightarrow> account_row \<Rightarrow> map_row option \<Rightarrow> map_row option" where
  "mapping_after new_id suggests a current =
     (if (case current of None \<Rightarrow> False | Some m \<Rightarrow> am_status m = Confirmed) then current
      else (case suggests (ga_no a) of
        None \<Rightarrow> None
      | Some s \<Rightarrow> Some (case current of None \<Rightarrow> new_suggested_row (new_id (ga_id a)) (ga_id a) s
          | Some m \<Rightarrow> suggested_row m s)))"

lemma suggested_same: "same_suggestion m s \<Longrightarrow> suggested_row m s = m"
  by (simp add: same_suggestion_def suggested_row_def)

lemma suggest_account_map:
  "map_of_account (fst (suggest_account new_id suggests actor st a)) i =
    (if i = ga_id a then mapping_after new_id suggests a (map_of_account (fst st) i)
     else map_of_account (fst st) i)"
proof (cases st)
  case (Pair db n)
  show ?thesis
  proof (cases "map_of_account db (ga_id a)")
    case None
    then show ?thesis
      by (auto simp: Pair suggest_account_def mapping_after_def Let_def new_suggested_row_def split: option.split)
  next
    case (Some m)
    have "am_account m = ga_id a" using map_of_account_Some [OF Some] by simp
    then show ?thesis using suggested_same
      by (auto simp: Pair Some suggest_account_def mapping_after_def Let_def suggested_row_def split: option.split)
  qed
qed

lemma suggest_accounts_map:
  assumes "distinct (map ga_id as)"
  shows "map_of_account (fst (foldl (suggest_account new_id suggests actor) st as)) i =
    (case List.find (\<lambda>a. ga_id a = i) as of
       None \<Rightarrow> map_of_account (fst st) i
     | Some a \<Rightarrow> mapping_after new_id suggests a (map_of_account (fst st) i))"
  using assms
proof (induction as arbitrary: st)
  case (Cons a as)
  have "List.find (\<lambda>b. ga_id b = i) as = None" if "i = ga_id a"
    using Cons.prems that unfolding find_None_iff by (metis distinct.simps(2) imageI list.set_map list.simps(9))
  then show ?case using Cons by (auto simp: suggest_account_map split: option.split)
qed simp

lemma suggest_account_keeps:
  "cf_accounts (fst (suggest_account new_id suggests actor st a)) = cf_accounts (fst st)"
  "cf_categories (fst (suggest_account new_id suggests actor st a)) = cf_categories (fst st)"
  "cf_divisions (fst (suggest_account new_id suggests actor st a)) = cf_divisions (fst st)"
  "cf_rules (fst (suggest_account new_id suggests actor st a)) = cf_rules (fst st)"
  by (auto simp: suggest_account_def Let_def put_map_def delete_map_def config_note_def
      split: prod.split option.split)

lemma suggest_accounts_keeps:
  "cf_accounts (fst (foldl (suggest_account new_id suggests actor) st as)) = cf_accounts (fst st)"
  "cf_categories (fst (foldl (suggest_account new_id suggests actor) st as)) = cf_categories (fst st)"
  "cf_divisions (fst (foldl (suggest_account new_id suggests actor) st as)) = cf_divisions (fst st)"
  "cf_rules (fst (foldl (suggest_account new_id suggests actor) st as)) = cf_rules (fst st)"
  by (induction as arbitrary: st) (auto simp: suggest_account_keeps)

lemma ensure_keeps [simp]:
  "cf_accounts (fst (ensure_cost_categories f db)) = cf_accounts db"
  "cf_maps (fst (ensure_cost_categories f db)) = cf_maps db"
  "cf_rules (fst (ensure_cost_categories f db)) = cf_rules db"
  "cf_divisions (fst (ensure_cost_categories f db)) = cf_divisions db"
  "cf_categories (fst (ensure_cost_categories f db)) \<noteq> []"
  by (auto simp: ensure_cost_categories_def seed_categories_def config_note_def Let_def d23_cost_categories_def)

lemma ensure_again: "cf_categories db \<noteq> [] \<Longrightarrow> ensure_cost_categories f db = (db, 0)"
  by (simp add: ensure_cost_categories_def seed_categories_def)

lemma map_of_account_cong: "cf_maps db = cf_maps db' \<Longrightarrow> map_of_account db i = map_of_account db' i"
  by (simp add: map_of_account_def)

text \<open>What a pass suggests for an account number: the rules over the active rows.\<close>

definition suggestion_of ::
  "regex_engine \<Rightarrow> (string \<Rightarrow> uuid) \<Rightarrow> config_db \<Rightarrow> compiled_rule list \<Rightarrow> string \<Rightarrow> suggestion option" where
  "suggestion_of re new_category db rules no = suggest_for re no rules
     (divisions_by_digit (fst (ensure_cost_categories new_category db)))
     (categories_by_slot (fst (ensure_cost_categories new_category db)))"

lemma suggest_Inr:
  assumes "suggest re new_category new_id db actor = Inr (db', n)"
  obtains rules where "compile_rules re (cf_rules db) = Inr rules"
    "foldl (suggest_account new_id (suggestion_of re new_category db rules) actor)
      (fst (ensure_cost_categories new_category db), no_suggest_counts) (filter ga_active (cf_accounts db)) = (db', n)"
  using assms that by (auto simp: suggest_def Let_def suggestion_of_def [abs_def] split: sum.splits)

lemma mapping_after_again:
  "mapping_after new_id' suggests a (mapping_after new_id suggests a c) = mapping_after new_id suggests a c"
  by (auto simp: mapping_after_def new_suggested_row_def suggested_row_def split: option.splits)

lemma suggest_account_settled:
  assumes "mapping_after new_id suggests a (map_of_account db (ga_id a)) = map_of_account db (ga_id a)"
  shows "\<exists>n1. suggest_account new_id suggests actor (db, n) a = (db, n1)
    \<and> sc_suggested n1 = sc_suggested n \<and> sc_removed n1 = sc_removed n"
proof (cases "map_of_account db (ga_id a)")
  case None
  then have "suggests (ga_no a) = None" using assms by (auto simp: mapping_after_def split: option.splits)
  then show ?thesis using None by (simp add: suggest_account_def)
next
  case (Some m)
  show ?thesis
  proof (cases "am_status m = Confirmed")
    case False
    then obtain s where "suggests (ga_no a) = Some s" and m: "suggested_row m s = m"
      using assms Some by (auto simp: mapping_after_def split: option.splits)
    moreover have "same_suggestion (suggested_row m s) s" by (simp add: same_suggestion_def suggested_row_def)
    ultimately show ?thesis using Some False by (simp add: suggest_account_def)
  qed (simp add: Some suggest_account_def)
qed

lemma suggest_settled:
  assumes "\<forall>a \<in> set as. mapping_after new_id suggests a (map_of_account db (ga_id a)) = map_of_account db (ga_id a)"
  shows "\<exists>n'. foldl (suggest_account new_id suggests actor) (db, n) as = (db, n')
    \<and> sc_suggested n' = sc_suggested n \<and> sc_removed n' = sc_removed n"
  using assms
proof (induction as arbitrary: n)
  case (Cons a as)
  have "mapping_after new_id suggests a (map_of_account db (ga_id a)) = map_of_account db (ga_id a)"
    using Cons.prems by simp
  then have "\<exists>n1. suggest_account new_id suggests actor (db, n) a = (db, n1)
      \<and> sc_suggested n1 = sc_suggested n \<and> sc_removed n1 = sc_removed n"
    by (rule suggest_account_settled)
  then obtain n1 where n1: "suggest_account new_id suggests actor (db, n) a = (db, n1)"
      "sc_suggested n1 = sc_suggested n" "sc_removed n1 = sc_removed n" by blast
  have "\<exists>n'. foldl (suggest_account new_id suggests actor) (db, n1) as = (db, n')
      \<and> sc_suggested n' = sc_suggested n1 \<and> sc_removed n' = sc_removed n1"
    by (rule Cons.IH) (use Cons.prems in simp)
  then show ?case using n1 by simp
qed simp

text \<open>
  C24: one pass of suggesting. An active account whose mapping nobody confirmed has afterwards
  exactly the mapping the first rule suggests that matches its number and can derive what it
  names, and no mapping when there is none; a confirmed mapping and the mapping of an inactive
  account are untouched. A second pass writes nothing.
\<close>

theorem suggest_correct:
  assumes "distinct (map ga_id (cf_accounts db))" and "suggest re new_category new_id db actor = Inr (db', n)"
  shows "\<exists>rules. compile_rules re (cf_rules db) = Inr rules
    \<and> (\<forall>a \<in> set (cf_accounts db). map_of_account db' (ga_id a) =
        (if ga_active a then mapping_after new_id (suggestion_of re new_category db rules) a (map_of_account db (ga_id a))
         else map_of_account db (ga_id a)))
    \<and> (\<exists>n'. suggest re new_category' new_id' db' actor' = Inr (db', n') \<and> sc_suggested n' = 0 \<and> sc_removed n' = 0)"
proof -
  let ?db = "fst (ensure_cost_categories new_category db)"
  obtain rules where r: "compile_rules re (cf_rules db) = Inr rules"
      "foldl (suggest_account new_id (suggestion_of re new_category db rules) actor) (?db, no_suggest_counts)
        (filter ga_active (cf_accounts db)) = (db', n)"
    using assms(2) by (rule suggest_Inr)
  let ?s = "suggestion_of re new_category db rules"
  have ids: "distinct (map ga_id (filter ga_active (cf_accounts db)))"
    using assms(1) by (simp add: distinct_map_filter)
  have base: "map_of_account ?db i = map_of_account db i" for i by (rule map_of_account_cong) simp
  have maps: "map_of_account db' (ga_id a) =
      (if ga_active a then mapping_after new_id ?s a (map_of_account db (ga_id a)) else map_of_account db (ga_id a))"
    if a: "a \<in> set (cf_accounts db)" for a
  proof -
    have "List.find (\<lambda>b. ga_id b = ga_id a) (filter ga_active (cf_accounts db)) = (if ga_active a then Some a else None)"
      by (rule find_distinct [OF assms(1) a])
    then show ?thesis
      using suggest_accounts_map [OF ids, of new_id ?s actor "(?db, no_suggest_counts)" "ga_id a"] base by (simp add: r(2))
  qed
  have keeps: "cf_accounts db' = cf_accounts db" "cf_categories db' = cf_categories ?db"
      "cf_divisions db' = cf_divisions db" "cf_rules db' = cf_rules db"
    using suggest_accounts_keeps [of new_id ?s actor "(?db, no_suggest_counts)" "filter ga_active (cf_accounts db)"]
    by (simp_all add: r(2))
  have same: "suggestion_of re new_category' db' rules = ?s"
    by (simp add: suggestion_of_def [abs_def] ensure_again keeps divisions_by_digit_def categories_by_slot_def)
  have "\<exists>n'. foldl (suggest_account new_id' ?s actor') (db', no_suggest_counts) (filter ga_active (cf_accounts db'))
      = (db', n') \<and> sc_suggested n' = sc_suggested no_suggest_counts \<and> sc_removed n' = sc_removed no_suggest_counts"
    using maps by (intro suggest_settled) (simp add: keeps mapping_after_again)
  then have "\<exists>n'. suggest re new_category' new_id' db' actor' = Inr (db', n') \<and> sc_suggested n' = 0 \<and> sc_removed n' = 0"
    using r(1) same by (simp add: suggest_def ensure_again keeps Let_def suggestion_of_def [abs_def] no_suggest_counts_def)
  then show ?thesis using r(1) maps by blast
qed


section \<open>One import of a chart\<close>

lemma account_by_no_put:
  "account_by_no (put_account a db) no = (case account_by_no db no of
     None \<Rightarrow> None | Some x \<Rightarrow> Some (if no = ga_no a then a else x))"
proof -
  have "List.find (\<lambda>x. ga_no x = no) (map (\<lambda>x. if ga_no x = ga_no a then a else x) as)
      = (case List.find (\<lambda>x. ga_no x = no) as of None \<Rightarrow> None | Some x \<Rightarrow> Some (if no = ga_no a then a else x))" for as
    by (induction as) (auto split: option.splits)
  from this [of "cf_accounts db"] show ?thesis by (simp add: put_account_def account_by_no_def)
qed

lemma account_by_no_note [simp]:
  "account_by_no (config_note e i a b c n db) no = account_by_no db no"
  by (simp add: account_by_no_def config_note_def)

lemma account_by_no_Some: "account_by_no db no = Some a \<Longrightarrow> ga_no a = no \<and> a \<in> set (cf_accounts db)"
  unfolding account_by_no_def using find_mem by fastforce

lemma account_by_no_append:
  "account_by_no (db\<lparr>cf_accounts := cf_accounts db @ [a]\<rparr>) no = (case account_by_no db no of
     None \<Rightarrow> if no = ga_no a then Some a else None | Some x \<Rightarrow> Some x)"
proof -
  have "List.find P (xs @ [a]) = (case List.find P xs of None \<Rightarrow> if P a then Some a else None | Some x \<Rightarrow> Some x)"
    for P :: "account_row \<Rightarrow> bool" and xs by (induction xs) auto
  then show ?thesis by (simp add: account_by_no_def split: option.split)
qed

text \<open>The account a record leaves behind, and the account a chart does not name.\<close>

definition recorded :: "(string \<Rightarrow> uuid) \<Rightarrow> chart_record \<Rightarrow> account_row option \<Rightarrow> account_row" where
  "recorded new_id r old = (case old of
     None \<Rightarrow> \<lparr>ga_id = new_id (record_no r), ga_no = record_no r, ga_name = record_name r,
       ga_ledger_type = record_type r, ga_active = True, ga_external_id = None, ga_raw = Some (cd_id r)\<rparr>
   | Some a \<Rightarrow> a\<lparr>ga_name := record_name r, ga_ledger_type := record_type r, ga_active := True,
       ga_raw := Some (cd_id r)\<rparr>)"

lemma apply_record_account:
  "account_by_no (fst (apply_record new_id actor st r)) no =
    (if no = record_no r then Some (recorded new_id r (account_by_no (fst st) no)) else account_by_no (fst st) no)"
proof (cases st)
  case (Pair db n)
  show ?thesis
  proof (cases "account_by_no db (record_no r)")
    case None
    then show ?thesis
      by (simp add: Pair apply_record_def Let_def recorded_def account_by_no_append split: option.split)
  next
    case (Some a)
    have "ga_no a = record_no r" using account_by_no_Some [OF Some] by simp
    then show ?thesis
      by (auto simp: Pair Some apply_record_def Let_def recorded_def account_by_no_put split: option.split)
  qed
qed

lemma apply_records_account:
  assumes "distinct (map record_no rs)"
  shows "account_by_no (fst (foldl (apply_record new_id actor) st rs)) no =
    (case List.find (\<lambda>r. record_no r = no) rs of
       None \<Rightarrow> account_by_no (fst st) no
     | Some r \<Rightarrow> Some (recorded new_id r (account_by_no (fst st) no)))"
  using assms
proof (induction rs arbitrary: st)
  case (Cons r rs)
  have IH: "account_by_no (fst (foldl (apply_record new_id actor) (apply_record new_id actor st r) rs)) no =
      (case List.find (\<lambda>r. record_no r = no) rs of
         None \<Rightarrow> account_by_no (fst (apply_record new_id actor st r)) no
       | Some x \<Rightarrow> Some (recorded new_id x (account_by_no (fst (apply_record new_id actor st r)) no)))"
    by (rule Cons.IH) (use Cons.prems in simp)
  show ?case
  proof (cases "record_no r = no")
    case True
    then have "List.find (\<lambda>x. record_no x = no) rs = None"
      using Cons.prems by (intro find_by_key_None) simp
    then show ?thesis using IH True by (simp add: apply_record_account)
  next
    case False
    then show ?thesis using IH by (simp add: apply_record_account split: option.split)
  qed
qed simp

lemma account_nos_distinct:
  assumes "distinct (map ga_no (cf_accounts (fst st)))"
  shows "distinct (map ga_no (cf_accounts (fst (foldl (apply_record new_id actor) st rs))))"
  using assms
proof (induction rs arbitrary: st)
  case (Cons r rs)
  obtain db n where st: "st = (db, n)" by (cases st)
  have "map ga_no (cf_accounts (put_account a db)) = map ga_no (cf_accounts db)" for a
    by (auto simp: put_account_def)
  moreover have "record_no r \<notin> ga_no ` set (cf_accounts db)" if "account_by_no db (record_no r) = None"
    using that by (auto simp: account_by_no_def find_None_iff)
  ultimately have "distinct (map ga_no (cf_accounts (fst (apply_record new_id actor st r))))"
    using Cons.prems by (auto simp: st apply_record_def Let_def config_note_def split: option.split)
  then show ?case using Cons.IH by simp
qed simp

lemma deactivate_account_account:
  assumes "account_by_no (fst st) (ga_no a) = Some a"
  shows "account_by_no (fst (deactivate_account p seen actor st a)) no =
    (if no = ga_no a \<and> missing_from p seen a then Some (a\<lparr>ga_active := False\<rparr>) else account_by_no (fst st) no)"
proof (cases st)
  case (Pair db n)
  then show ?thesis using assms
    by (auto simp: deactivate_account_def account_by_no_put split: option.split)
qed

lemma deactivate_accounts_account:
  assumes "distinct (map ga_no as)" and "\<forall>a \<in> set as. account_by_no (fst st) (ga_no a) = Some a"
  shows "account_by_no (fst (foldl (deactivate_account p seen actor) st as)) no =
    (case List.find (\<lambda>a. ga_no a = no) as of
       None \<Rightarrow> account_by_no (fst st) no
     | Some a \<Rightarrow> Some (if missing_from p seen a then a\<lparr>ga_active := False\<rparr> else a))"
  using assms
proof (induction as arbitrary: st)
  case (Cons a as)
  have a: "account_by_no (fst st) (ga_no a) = Some a" using Cons.prems by simp
  note one = deactivate_account_account [OF a, of p seen actor]
  have rest: "\<forall>b \<in> set as. account_by_no (fst (deactivate_account p seen actor st a)) (ga_no b) = Some b"
  proof
    fix b assume b: "b \<in> set as"
    then have "ga_no b \<noteq> ga_no a" using Cons.prems(1) by (metis distinct.simps(2) imageI list.set_map list.simps(9))
    then show "account_by_no (fst (deactivate_account p seen actor st a)) (ga_no b) = Some b"
      using Cons.prems(2) b by (simp add: one)
  qed
  have IH: "account_by_no (fst (foldl (deactivate_account p seen actor) (deactivate_account p seen actor st a) as)) no =
      (case List.find (\<lambda>a. ga_no a = no) as of
         None \<Rightarrow> account_by_no (fst (deactivate_account p seen actor st a)) no
       | Some a \<Rightarrow> Some (if missing_from p seen a then a\<lparr>ga_active := False\<rparr> else a))"
    using Cons.prems(1) rest by (intro Cons.IH) simp_all
  show ?case
  proof (cases "ga_no a = no")
    case True
    then have "List.find (\<lambda>x. ga_no x = no) as = None" using Cons.prems(1) by (intro find_by_key_None) simp
    then show ?thesis using IH True a by (simp add: one)
  next
    case False
    then show ?thesis using IH by (simp add: one split: option.split)
  qed
qed simp

lemma apply_chart_account:
  assumes "distinct (map ga_no (cf_accounts db))" and "distinct (map record_no (latest_in_batch records))"
  shows "account_by_no (fst (apply_chart new_id records present db actor)) no =
      (case List.find (\<lambda>r. record_no r = no) (latest_in_batch records) of
         Some r \<Rightarrow> Some (recorded new_id r (account_by_no db no))
       | None \<Rightarrow> map_option (\<lambda>a. if present = None \<or> present = Some {} \<or> no \<in> the present then a
           else a\<lparr>ga_active := False\<rparr>) (account_by_no db no))"
proof (cases "present = None \<or> present = Some {}")
  case True
  let ?rs = "latest_in_batch records"
  have "apply_chart new_id records present db actor = foldl (apply_record new_id actor) (db, no_chart_counts) ?rs"
    using True by (auto simp: apply_chart_def Let_def)
  then show ?thesis using apply_records_account [OF assms(2), of new_id actor "(db, no_chart_counts)" no] True
    by (cases "account_by_no db no") (auto split: option.split)
next
  case False
  let ?rs = "latest_in_batch records"
  let ?st = "foldl (apply_record new_id actor) (db, no_chart_counts) ?rs"
  have applied: "account_by_no (fst ?st) no = (case List.find (\<lambda>r. record_no r = no) ?rs of
      None \<Rightarrow> account_by_no db no | Some r \<Rightarrow> Some (recorded new_id r (account_by_no db no)))"
    using apply_records_account [OF assms(2), of new_id actor "(db, no_chart_counts)"] by (simp split: option.split)
  obtain p where p: "present = Some p" "p \<noteq> {}" using False by auto
  let ?seen = "set (map record_no ?rs)" and ?as = "cf_accounts (fst ?st)"
  have run: "apply_chart new_id records present db actor = foldl (deactivate_account p ?seen actor) ?st ?as"
    using p by (simp add: apply_chart_def Let_def)
  have nos: "distinct (map ga_no ?as)" using assms(1) by (intro account_nos_distinct) simp
  have own: "\<forall>a \<in> set ?as. account_by_no (fst ?st) (ga_no a) = Some a"
    using find_distinct [OF nos, of _ "\<lambda>_. True"] by (simp add: account_by_no_def)
  note after = deactivate_accounts_account [OF nos own, of p ?seen actor no]
  have found: "List.find (\<lambda>a. ga_no a = no) ?as = account_by_no (fst ?st) no" by (simp add: account_by_no_def)
  show ?thesis
  proof (cases "List.find (\<lambda>r. record_no r = no) ?rs")
    case None
    then have "no \<notin> ?seen" by (auto simp: find_None_iff)
    then show ?thesis using after found applied None run p account_by_no_Some [of db no]
      by (auto simp: missing_from_def split: option.splits)
  next
    case (Some r)
    then have "no \<in> ?seen" using find_mem [OF Some] by auto
    moreover have "ga_no (recorded new_id r (account_by_no db no)) = no"
      using find_mem [OF Some] account_by_no_Some [of db no] by (auto simp: recorded_def split: option.split)
    ultimately show ?thesis using after found applied Some run by (simp add: missing_from_def)
  qed
qed

text \<open>
  C29: one import of a chart. An older chart changes nothing but the outcome of its batch. The newest
  one leaves, under every account number it has a record for, an active account with the record's name
  and type, on the account's own row when there was one; an account its file does not name is
  inactive, unless the file could not be read; no account is ever removed, and no other account is
  there.
\<close>

theorem normalize_chart_correct:
  assumes "distinct (map ga_no (cf_accounts db))" and "distinct (map record_no (latest_in_batch records))"
    and "List.find (\<lambda>b. ib_id b = i) batches = Some b"
  shows "case normalize_chart new_id batches i records present db actor of
      None \<Rightarrow> False
    | Some (batches', db', n) \<Rightarrow>
        if \<not> is_newest_chart_batch batches b
        then batches' = set_followup i Followup_superseded batches \<and> db' = db \<and> cn_superseded n
        else batches' = set_followup i Followup_applied batches \<and>
          (\<forall>no. account_by_no db' no =
            (case List.find (\<lambda>r. record_no r = no) (latest_in_batch records) of
               Some r \<Rightarrow> Some (recorded new_id r (account_by_no db no))
             | None \<Rightarrow> map_option (\<lambda>a. if present = None \<or> present = Some {} \<or> no \<in> the present then a
                 else a\<lparr>ga_active := False\<rparr>) (account_by_no db no)))"
proof -
  obtain db' n where run: "apply_chart new_id records present db actor = (db', n)" by (rule prod.exhaust)
  have "account_by_no db' no =
      (case List.find (\<lambda>r. record_no r = no) (latest_in_batch records) of
         Some r \<Rightarrow> Some (recorded new_id r (account_by_no db no))
       | None \<Rightarrow> map_option (\<lambda>a. if present = None \<or> present = Some {} \<or> no \<in> the present then a
           else a\<lparr>ga_active := False\<rparr>) (account_by_no db no))" for no
    using apply_chart_account [OF assms(1,2), of new_id present actor no] run by simp
  then show ?thesis using assms(3) run by (simp add: normalize_chart_def)
qed

section \<open>Examples\<close>

definition ex_accounts :: config_db where
  "ex_accounts = \<lparr>cf_divisions = [\<lparr>dv_id = 11, dv_code = ''LS'', dv_name = ''Landscape'', dv_digit = Some ''4'',
       dv_active = True, dv_sort = 0\<rparr>],
     cf_categories = [\<lparr>cc_id = 21, cc_slot = ''30'', cc_name = ''Materials'', cc_active = True, cc_sort = 2\<rparr>],
     cf_accounts = [\<lparr>ga_id = 31, ga_no = ''4530'', ga_name = ''Materials'', ga_ledger_type = ''Expense'',
         ga_active = True, ga_external_id = None, ga_raw = None\<rparr>,
       \<lparr>ga_id = 32, ga_no = ''9999'', ga_name = ''Old'', ga_ledger_type = ''Expense'', ga_active = True,
         ga_external_id = None, ga_raw = None\<rparr>],
     cf_maps = [], cf_rules = [\<lparr>sr_order = 1, sr_name = ''slots'', sr_pattern = ''.*'', sr_division = None,
       sr_from_digit = Some 1, sr_category = None, sr_from_slot = True, sr_in_job_cost = True, sr_active = True\<rparr>],
     cf_log = []\<rparr>"

definition ex_any :: regex_engine where
  "ex_any = \<lparr>re_compiles = (\<lambda>p. True), re_fullmatch = (\<lambda>p no. True)\<rparr>"

definition ex_suggested :: config_db where
  "ex_suggested = (case suggest ex_any parse_nat Suc ex_accounts None of Inl _ \<Rightarrow> ex_accounts | Inr (db, _) \<Rightarrow> db)"

definition ex_suggested_n :: suggest_counts where
  "ex_suggested_n = (case suggest ex_any parse_nat Suc ex_accounts None of Inl _ \<Rightarrow> no_suggest_counts | Inr (_, n) \<Rightarrow> n)"

theorem suggest_correct_witness:
  "map_option am_category (map_of_account ex_suggested 31) = Some (Some 21) \<and>
   (\<exists>rules. compile_rules ex_any (cf_rules ex_accounts) = Inr rules
    \<and> (\<forall>a \<in> set (cf_accounts ex_accounts). map_of_account ex_suggested (ga_id a) =
        (if ga_active a then mapping_after Suc (suggestion_of ex_any parse_nat ex_accounts rules) a (map_of_account ex_accounts (ga_id a))
         else map_of_account ex_accounts (ga_id a)))
    \<and> (\<exists>n'. suggest ex_any parse_nat Suc ex_suggested None = Inr (ex_suggested, n') \<and> sc_suggested n' = 0 \<and> sc_removed n' = 0))"
proof
  show "map_option am_category (map_of_account ex_suggested 31) = Some (Some 21)" by code_simp
  have "\<not> isl (suggest ex_any parse_nat Suc ex_accounts None)" by code_simp
  then have "suggest ex_any parse_nat Suc ex_accounts None = Inr (ex_suggested, ex_suggested_n)"
    unfolding ex_suggested_def ex_suggested_n_def by (cases "suggest ex_any parse_nat Suc ex_accounts None") auto
  moreover have "distinct (map ga_id (cf_accounts ex_accounts))" by code_simp
  ultimately show "\<exists>rules. compile_rules ex_any (cf_rules ex_accounts) = Inr rules
    \<and> (\<forall>a \<in> set (cf_accounts ex_accounts). map_of_account ex_suggested (ga_id a) =
        (if ga_active a then mapping_after Suc (suggestion_of ex_any parse_nat ex_accounts rules) a (map_of_account ex_accounts (ga_id a))
         else map_of_account ex_accounts (ga_id a)))
    \<and> (\<exists>n'. suggest ex_any parse_nat Suc ex_suggested None = Inr (ex_suggested, n') \<and> sc_suggested n' = 0 \<and> sc_removed n' = 0)"
    by (rule suggest_correct [rotated])
qed

definition ex_batches :: "import_batch list" where
  "ex_batches = [\<lparr>ib_id = 5, ib_kind = ''chart'', ib_status = Batch_processing, ib_uploaded_at = 100, ib_followup = None\<rparr>]"

definition ex_new_chart :: "chart_record list" where
  "ex_new_chart = [\<lparr>cd_id = 900, cd_external_id = ''4530'', cd_version = 1, cd_account_no = Some ''4530'',
     cd_account_name = Some '' Materials 2 '', cd_ledger_type = Some ''Expense''\<rparr>]"

theorem normalize_chart_correct_witness:
  "case normalize_chart parse_nat ex_batches 5 ex_new_chart (Some {''4530''}) ex_accounts None of
      None \<Rightarrow> False
    | Some (batches', db', n) \<Rightarrow>
        if \<not> is_newest_chart_batch ex_batches (hd ex_batches)
        then batches' = set_followup 5 Followup_superseded ex_batches \<and> db' = ex_accounts \<and> cn_superseded n
        else batches' = set_followup 5 Followup_applied ex_batches \<and>
          (\<forall>no. account_by_no db' no =
            (case List.find (\<lambda>r. record_no r = no) (latest_in_batch ex_new_chart) of
               Some r \<Rightarrow> Some (recorded parse_nat r (account_by_no ex_accounts no))
             | None \<Rightarrow> map_option (\<lambda>a. if Some {''4530''} = None \<or> Some {''4530''} = Some {} \<or> no \<in> the (Some {''4530''}) then a
                 else a\<lparr>ga_active := False\<rparr>) (account_by_no ex_accounts no)))"
  by (rule normalize_chart_correct) code_simp+

end
