(* ===== verification/ConfigSafety.thy ===== *)
theory ConfigSafety
  imports ChartProperties "HOL-Library.Countable"
begin

text \<open>
  The configuration as a state machine: its steps are the operations of the services, the worker's
  suggesting and the import of a chart, each as one transaction. The invariant is what the tables'
  unique indexes and foreign keys demand and a little more; the safety property is that a confirmed
  mapping is never taken back by the rules or by a new chart.
\<close>

section \<open>The steps\<close>

definition fresh :: "('k \<Rightarrow> uuid) \<Rightarrow> uuid set \<Rightarrow> bool" where
  "fresh new_id used \<longleftrightarrow> inj new_id \<and> range new_id \<inter> used = {}"

abbreviation division_ids :: "config_db \<Rightarrow> uuid set" where
  "division_ids db \<equiv> dv_id ` set (cf_divisions db)"

abbreviation category_ids :: "config_db \<Rightarrow> uuid set" where
  "category_ids db \<equiv> cc_id ` set (cf_categories db)"

abbreviation account_ids :: "config_db \<Rightarrow> uuid set" where
  "account_ids db \<equiv> ga_id ` set (cf_accounts db)"

inductive config_step :: "regex_engine \<Rightarrow> config_db \<Rightarrow> config_db \<Rightarrow> bool" for re where
  cs_create: "create_division db i code name digit order actor = Inr (db', row) \<Longrightarrow> i \<notin> division_ids db
    \<Longrightarrow> config_step re db db'"
| cs_update: "update_division db i name' digit clear order' actor = Inr (db', row) \<Longrightarrow> config_step re db db'"
| cs_retire: "deactivate_division db i actor = Inr (db', row) \<Longrightarrow> config_step re db db'"
| cs_seed: "seed_categories new_id db actor = (db', n) \<Longrightarrow> inj new_id \<Longrightarrow> config_step re db db'"
| cs_rename: "rename_cost_category db i name actor = Inr (db', category) \<Longrightarrow> config_step re db db'"
| cs_retire_category: "deactivate_cost_category db i actor = Inr (db', category) \<Longrightarrow> config_step re db db'"
| cs_map: "set_account_map db i account d c in_job_cost confirm actor now = Inr (db', m) \<Longrightarrow> config_step re db db'"
| cs_confirm: "confirm_account_map db account actor now = Inr (db', m) \<Longrightarrow> config_step re db db'"
| cs_confirm_all: "confirm_all_suggestions db actor now = (db', n) \<Longrightarrow> config_step re db db'"
| cs_suggest: "suggest re new_category new_map db actor = Inr (db', counts) \<Longrightarrow> inj new_category
    \<Longrightarrow> config_step re db db'"
| cs_load: "load_suggest_rules re new_category new_division db ds rs actor = Inr (db', n) \<Longrightarrow> inj new_category
    \<Longrightarrow> fresh new_division (division_ids db) \<Longrightarrow> config_step re db db'"
| cs_chart: "apply_chart new_account records present db actor = (db', chart_n)
    \<Longrightarrow> fresh new_account (account_ids db) \<Longrightarrow> config_step re db db'"

definition config_start :: "config_db \<Rightarrow> bool" where
  "config_start db \<longleftrightarrow> db = \<lparr>cf_divisions = [], cf_categories = [], cf_accounts = [], cf_maps = [], cf_rules = [],
     cf_log = []\<rparr>"

section \<open>The invariant\<close>

definition divisions_ok :: "config_db \<Rightarrow> bool" where
  "divisions_ok db \<longleftrightarrow> distinct (map dv_id (cf_divisions db)) \<and> distinct (map dv_code (cf_divisions db))
     \<and> (\<forall>d \<in> set (cf_divisions db). \<forall>e \<in> set (cf_divisions db). dv_digit d = dv_digit e \<longrightarrow> dv_digit d = None \<or> dv_id d = dv_id e)
     \<and> (\<forall>d \<in> set (cf_divisions db). dv_code d \<noteq> [] \<and> length (dv_code d) \<le> 20 \<and> (\<forall>g. dv_digit d = Some g \<longrightarrow> length g = 1))"

definition categories_ok :: "config_db \<Rightarrow> bool" where
  "categories_ok db \<longleftrightarrow> distinct (map cc_id (cf_categories db)) \<and> distinct (map cc_slot (cf_categories db))"

definition accounts_ok :: "config_db \<Rightarrow> bool" where
  "accounts_ok db \<longleftrightarrow> distinct (map ga_id (cf_accounts db)) \<and> distinct (map ga_no (cf_accounts db))"

definition refs_ok :: "config_db \<Rightarrow> uuid option \<Rightarrow> uuid option \<Rightarrow> bool" where
  "refs_ok db d c \<longleftrightarrow> (\<forall>i. d = Some i \<longrightarrow> i \<in> division_ids db) \<and> (\<forall>i. c = Some i \<longrightarrow> i \<in> category_ids db)"

definition map_ok :: "config_db \<Rightarrow> map_row \<Rightarrow> bool" where
  "map_ok db m \<longleftrightarrow> am_account m \<in> account_ids db \<and> refs_ok db (am_division m) (am_category m)
     \<and> (am_status m = Confirmed \<longrightarrow> am_confirmed_at m \<noteq> None)"

definition maps_ok :: "config_db \<Rightarrow> bool" where
  "maps_ok db \<longleftrightarrow> distinct (map am_account (cf_maps db)) \<and> (\<forall>m \<in> set (cf_maps db). map_ok db m)"

definition rules_ok :: "config_db \<Rightarrow> bool" where
  "rules_ok db \<longleftrightarrow> distinct (map sr_order (cf_rules db)) \<and> (\<forall>r \<in> set (cf_rules db). refs_ok db (sr_division r) (sr_category r)
     \<and> \<not> (sr_division r \<noteq> None \<and> sr_from_digit r \<noteq> None) \<and> \<not> (sr_category r \<noteq> None \<and> sr_from_slot r)
     \<and> length (sr_name r) \<le> 100 \<and> sr_pattern r \<noteq> [] \<and> length (sr_pattern r) \<le> pattern_max_length)"

definition config_inv :: "config_db \<Rightarrow> bool" where
  "config_inv db \<longleftrightarrow> divisions_ok db \<and> categories_ok db \<and> accounts_ok db \<and> maps_ok db \<and> rules_ok db"

lemma refs_mono:
  "refs_ok db d c \<Longrightarrow> division_ids db \<subseteq> division_ids db' \<Longrightarrow> category_ids db \<subseteq> category_ids db' \<Longrightarrow> refs_ok db' d c"
  unfolding refs_ok_def by blast

text \<open>What a step that leaves the mappings, the accounts and the rules alone keeps.\<close>

lemma keep_maps_rules:
  assumes "config_inv db" and "cf_maps db' = cf_maps db" and "cf_accounts db' = cf_accounts db"
    and "cf_rules db' = cf_rules db" and "division_ids db \<subseteq> division_ids db'" and "category_ids db \<subseteq> category_ids db'"
    and "divisions_ok db'" and "categories_ok db'"
  shows "config_inv db'"
  using assms refs_mono [OF _ assms(5,6)]
  unfolding config_inv_def maps_ok_def map_ok_def rules_ok_def accounts_ok_def by simp

section \<open>Divisions and categories keep it\<close>

lemma note_ok [simp]:
  "config_inv (config_note e i a b c n db) = config_inv db"
  by (simp add: config_note_def config_inv_def divisions_ok_def categories_ok_def accounts_ok_def maps_ok_def
      map_ok_def rules_ok_def refs_ok_def)

lemma put_division_ids [simp]: "map dv_id (cf_divisions (put_division d db)) = map dv_id (cf_divisions db)"
  by (auto simp: put_division_def)

lemma put_division_codes:
  assumes "distinct (map dv_id (cf_divisions db))" and "find_division db i = Some row"
    and "dv_id d = i" and "dv_code d = dv_code row"
  shows "map dv_code (cf_divisions (put_division d db)) = map dv_code (cf_divisions db)"
proof -
  have row: "row \<in> set (cf_divisions db)" "dv_id row = i"
    using find_mem [of _ "cf_divisions db" row] assms(2) by (auto simp: find_division_def)
  have "dv_code x = dv_code row" if "x \<in> set (cf_divisions db)" and "dv_id x = i" for x
    using assms(1) row that by (auto simp: distinct_map dest: inj_onD)
  then show ?thesis using assms(3,4) by (auto simp: put_division_def)
qed

lemma put_division_inv:
  assumes "config_inv db" and "find_division db i = Some row" and "dv_id d = i" and "dv_code d = dv_code row"
    and "\<forall>g. dv_digit d = Some g \<longrightarrow> length g = 1"
    and "\<forall>x \<in> set (cf_divisions db). dv_id x \<noteq> i \<longrightarrow> dv_digit d = dv_digit x \<longrightarrow> dv_digit d = None"
  shows "config_inv (put_division d db)"
proof (rule keep_maps_rules [OF assms(1)])
  have ok: "divisions_ok db" "categories_ok db" using assms(1) by (simp_all add: config_inv_def)
  have row: "row \<in> set (cf_divisions db)" using find_mem [of _ "cf_divisions db" row] assms(2)
    by (auto simp: find_division_def)
  have ids: "distinct (map dv_id (cf_divisions db))" using ok by (simp add: divisions_ok_def)
  have mem: "x = d \<or> (x \<in> set (cf_divisions db) \<and> dv_id x \<noteq> i)" if "x \<in> set (cf_divisions (put_division d db))" for x
    using that assms(3) by (auto simp: put_division_def)
  show "divisions_ok (put_division d db)"
    unfolding divisions_ok_def
  proof (intro conjI ballI impI)
    show "distinct (map dv_id (cf_divisions (put_division d db)))" using ids by simp
    show "distinct (map dv_code (cf_divisions (put_division d db)))"
      using put_division_codes [OF ids assms(2-4)] ok by (simp add: divisions_ok_def)
  next
    fix x y assume "x \<in> set (cf_divisions (put_division d db))" "y \<in> set (cf_divisions (put_division d db))"
      "dv_digit x = dv_digit y"
    then show "dv_digit x = None \<or> dv_id x = dv_id y"
      using mem [of x] mem [of y] assms(6) ok by (auto simp: divisions_ok_def)
  next
    fix x assume "x \<in> set (cf_divisions (put_division d db))"
    then have "x = d \<or> x \<in> set (cf_divisions db)" using mem by blast
    then show "dv_code x \<noteq> []" and "length (dv_code x) \<le> 20" and "\<forall>g. dv_digit x = Some g \<longrightarrow> length g = 1"
      using ok row assms(4,5) by (auto simp: divisions_ok_def)
  qed
  show "categories_ok (put_division d db)" using ok by (simp add: categories_ok_def put_division_def)
  show "division_ids db \<subseteq> division_ids (put_division d db)"
    by (metis list.set_map order_refl put_division_ids)
qed (simp_all add: put_division_def)

lemma check_digit_Inr: "check_digit s = Inr digit \<Longrightarrow> \<forall>g. digit = Some g \<longrightarrow> length g = 1"
  by (auto simp: check_digit_def Let_def split: if_splits)

lemma create_division_inv:
  assumes "create_division db i code name digit order actor = Inr (db', row)" and "i \<notin> division_ids db"
    and "config_inv db"
  shows "config_inv db'"
proof -
  obtain c n g where row: "db' = config_note Division_created (Some i) actor None (Some (division_plain row)) None
        (db\<lparr>cf_divisions := cf_divisions db @ [row]\<rparr>)"
      "row = \<lparr>dv_id = i, dv_code = c, dv_name = n, dv_digit = g, dv_active = True, dv_sort = order\<rparr>"
      "c \<noteq> []" "length c \<le> 20" "\<forall>d. g = Some d \<longrightarrow> length d = 1" "\<forall>d \<in> set (cf_divisions db). dv_code d \<noteq> c"
      "\<not> digit_used db g None"
    using assms(1)
    by (auto simp: create_division_def Let_def list_ex_iff split: if_splits sum.splits dest: check_digit_Inr)
  have "config_inv (db\<lparr>cf_divisions := cf_divisions db @ [row]\<rparr>)"
  proof (rule keep_maps_rules [OF assms(3)])
    have ok: "divisions_ok db" using assms(3) by (simp add: config_inv_def)
    have new: "dv_digit row = None \<or> (\<forall>d \<in> set (cf_divisions db). dv_digit d \<noteq> dv_digit row)"
      using row(2,7) by (auto simp: digit_used_def list_ex_iff split: option.splits)
    show "divisions_ok (db\<lparr>cf_divisions := cf_divisions db @ [row]\<rparr>)"
      unfolding divisions_ok_def
    proof (intro conjI ballI impI)
      show "distinct (map dv_id (cf_divisions (db\<lparr>cf_divisions := cf_divisions db @ [row]\<rparr>)))"
        using ok assms(2) row(2) by (simp add: divisions_ok_def)
      show "distinct (map dv_code (cf_divisions (db\<lparr>cf_divisions := cf_divisions db @ [row]\<rparr>)))"
        using ok row(2,6) by (auto simp: divisions_ok_def)
    next
      fix x y assume "x \<in> set (cf_divisions (db\<lparr>cf_divisions := cf_divisions db @ [row]\<rparr>))"
        "y \<in> set (cf_divisions (db\<lparr>cf_divisions := cf_divisions db @ [row]\<rparr>))" "dv_digit x = dv_digit y"
      then show "dv_digit x = None \<or> dv_id x = dv_id y" using new ok by (auto simp: divisions_ok_def)
    next
      fix x assume "x \<in> set (cf_divisions (db\<lparr>cf_divisions := cf_divisions db @ [row]\<rparr>))"
      then have "x = row \<or> x \<in> set (cf_divisions db)" by auto
      then show "dv_code x \<noteq> []" and "length (dv_code x) \<le> 20" and "\<forall>g. dv_digit x = Some g \<longrightarrow> length g = 1"
        using ok row(2-5) by (auto simp: divisions_ok_def)
    qed
    show "categories_ok (db\<lparr>cf_divisions := cf_divisions db @ [row]\<rparr>)"
      using assms(3) by (simp add: config_inv_def categories_ok_def)
  qed auto
  then show ?thesis using row(1) by simp
qed

lemma divisions_ok_digit:
  "divisions_ok db \<Longrightarrow> x \<in> set (cf_divisions db) \<Longrightarrow> y \<in> set (cf_divisions db) \<Longrightarrow> dv_digit x = dv_digit y
    \<Longrightarrow> dv_id x \<noteq> dv_id y \<Longrightarrow> dv_digit x = None"
  unfolding divisions_ok_def by blast

lemma divisions_ok_length:
  "divisions_ok db \<Longrightarrow> x \<in> set (cf_divisions db) \<Longrightarrow> \<forall>g. dv_digit x = Some g \<longrightarrow> length g = 1"
  by (simp add: divisions_ok_def)

lemma updated_digit_Inr:
  assumes "updated_digit db row digit clear = Inr g" and "divisions_ok db" and "row \<in> set (cf_divisions db)"
  shows "(\<forall>d. g = Some d \<longrightarrow> length d = 1)
    \<and> (\<forall>x \<in> set (cf_divisions db). dv_id x \<noteq> dv_id row \<longrightarrow> g = dv_digit x \<longrightarrow> g = None)"
proof -
  have "g = None \<or> g = dv_digit row
      \<or> (\<exists>d. check_digit (Some d) = Inr g \<and> \<not> digit_used db g (Some (dv_id row)))"
    using assms(1) unfolding updated_digit_def
    by (cases clear; cases digit) (auto split: if_split_asm sum.split_asm)
  then consider "g = None" | "g = dv_digit row"
    | d where "check_digit (Some d) = Inr g" "\<not> digit_used db g (Some (dv_id row))" by blast
  then show ?thesis
  proof cases
    case 2
    show ?thesis
    proof (intro conjI ballI impI)
      show "\<forall>d. g = Some d \<longrightarrow> length d = 1" using 2 divisions_ok_length [OF assms(2,3)] by simp
      fix x assume "x \<in> set (cf_divisions db)" "dv_id x \<noteq> dv_id row" "g = dv_digit x"
      then show "g = None" using 2 divisions_ok_digit [OF assms(2) _ assms(3), of x] by simp
    qed
  next
    case 3
    then show ?thesis using check_digit_Inr [of "Some d" g]
      by (cases g) (auto simp: digit_used_def list_ex_iff)
  qed simp
qed

lemma find_division_Some: "find_division db i = Some row \<Longrightarrow> row \<in> set (cf_divisions db) \<and> dv_id row = i"
  unfolding find_division_def using find_mem by fastforce

lemma update_division_inv:
  assumes "update_division db i name digit clear order actor = Inr (db', row')" and "config_inv db"
  shows "config_inv db'"
proof -
  obtain row g where r: "find_division db i = Some row" "updated_digit db row digit clear = Inr g"
      "dv_id row' = dv_id row" "dv_code row' = dv_code row" "dv_digit row' = g"
      "config_inv db' = config_inv (put_division row' db)"
    using assms(1) by (auto simp: update_division_def Let_def split: option.splits if_splits sum.splits)
  have row: "row \<in> set (cf_divisions db)" "dv_id row = i" using find_division_Some [OF r(1)] by simp_all
  have ok: "divisions_ok db" using assms(2) by (simp add: config_inv_def)
  note digit = updated_digit_Inr [OF r(2) ok row(1)]
  have "config_inv (put_division row' db)"
  proof (rule put_division_inv [OF assms(2) r(1) _ r(4)])
    show "dv_id row' = i" using r(3) row by simp
    show "\<forall>g. dv_digit row' = Some g \<longrightarrow> length g = 1" using digit r(5) by simp
    show "\<forall>x \<in> set (cf_divisions db). dv_id x \<noteq> i \<longrightarrow> dv_digit row' = dv_digit x \<longrightarrow> dv_digit row' = None"
      using digit r(5) row(2) by auto
  qed
  then show ?thesis using r(6) by simp
qed

lemma deactivate_division_inv:
  assumes "deactivate_division db i actor = Inr (db', row')" and "config_inv db"
  shows "config_inv db'"
proof -
  have ok: "divisions_ok db" using assms(2) by (simp add: config_inv_def)
  have "config_inv (put_division (row\<lparr>dv_active := False\<rparr>) db)" if r: "find_division db i = Some row" for row
  proof -
    have row: "row \<in> set (cf_divisions db)" "dv_id row = i" using find_division_Some [OF r] by simp_all
    show ?thesis
      using row divisions_ok_length [OF ok row(1)] divisions_ok_digit [OF ok row(1)]
      by (intro put_division_inv [OF assms(2) r]) auto
  qed
  then show ?thesis using assms by (auto simp: deactivate_division_def Let_def split: option.splits if_splits)
qed

lemma put_category_inv:
  assumes "config_inv db" and "find_category db i = Some row" and "cc_id c = i" and "cc_slot c = cc_slot row"
  shows "config_inv (put_category c db)"
proof (rule keep_maps_rules [OF assms(1)])
  have ok: "divisions_ok db" "categories_ok db" using assms(1) by (simp_all add: config_inv_def)
  have row: "row \<in> set (cf_categories db)" "cc_id row = i"
    using find_mem [of _ "cf_categories db" row] assms(2) by (auto simp: find_category_def)
  have "cc_slot x = cc_slot row" if "x \<in> set (cf_categories db)" and "cc_id x = i" for x
    using ok row that by (auto simp: categories_ok_def distinct_map dest: inj_onD)
  then have "map cc_slot (cf_categories (put_category c db)) = map cc_slot (cf_categories db)"
    using assms(3,4) by (auto simp: put_category_def)
  moreover have ids: "map cc_id (cf_categories (put_category c db)) = map cc_id (cf_categories db)"
    by (auto simp: put_category_def)
  ultimately show "categories_ok (put_category c db)" using ok by (simp add: categories_ok_def)
  show "category_ids db \<subseteq> category_ids (put_category c db)" by (metis ids list.set_map order_refl)
  show "divisions_ok (put_category c db)" using ok by (simp add: divisions_ok_def put_category_def)
qed (simp_all add: put_category_def)

lemma find_category_Some: "find_category db i = Some row \<Longrightarrow> row \<in> set (cf_categories db) \<and> cc_id row = i"
  unfolding find_category_def using find_mem by fastforce

lemma rename_category_inv:
  assumes "rename_cost_category db i name actor = Inr (db', row')" and "config_inv db"
  shows "config_inv db'"
proof -
  have "config_inv (put_category (row\<lparr>cc_name := n\<rparr>) db)" if "find_category db i = Some row" for row n
    using find_category_Some [OF that] by (intro put_category_inv [OF assms(2) that]) simp_all
  then show ?thesis using assms(1) by (auto simp: rename_cost_category_def Let_def split: option.splits if_splits)
qed

lemma deactivate_category_inv:
  assumes "deactivate_cost_category db i actor = Inr (db', row')" and "config_inv db"
  shows "config_inv db'"
proof -
  have "config_inv (put_category (row\<lparr>cc_active := False\<rparr>) db)" if "find_category db i = Some row" for row
    using find_category_Some [OF that] by (intro put_category_inv [OF assms(2) that]) simp_all
  then show ?thesis using assms by (auto simp: deactivate_cost_category_def Let_def split: option.splits if_splits)
qed

lemma seed_categories_inv:
  assumes "inj new_id" and "config_inv db"
  shows "config_inv (fst (seed_categories new_id db actor))"
proof (cases "cf_categories db = []")
  case True
  let ?rows = "map (\<lambda>(i, slot, name). \<lparr>cc_id = new_id slot, cc_slot = slot, cc_name = name,
      cc_active = True, cc_sort = int i\<rparr>) (enumerate 0 d23_cost_categories)"
  have "config_inv (db\<lparr>cf_categories := ?rows\<rparr>)"
  proof (rule keep_maps_rules [OF assms(2)])
    have slots: "map cc_slot ?rows = map fst d23_cost_categories" by (simp add: d23_cost_categories_def)
    moreover have "map cc_id ?rows = map new_id (map fst d23_cost_categories)" by (simp add: d23_cost_categories_def)
    moreover have "distinct (map fst d23_cost_categories)" by (simp add: d23_cost_categories_def)
    ultimately show "categories_ok (db\<lparr>cf_categories := ?rows\<rparr>)"
      using assms(1) by (simp add: categories_ok_def distinct_map inj_on_subset [OF assms(1)] del: map_map)
    show "divisions_ok (db\<lparr>cf_categories := ?rows\<rparr>)" using assms(2) by (simp add: config_inv_def divisions_ok_def)
  qed (simp_all add: True)
  then show ?thesis by (simp add: seed_categories_def True Let_def)
qed (simp add: seed_categories_def assms(2))

section \<open>Mappings keep it\<close>

text \<open>What a change of the mappings alone keeps.\<close>

lemma keep_others:
  assumes "config_inv db" and "cf_divisions db' = cf_divisions db" and "cf_categories db' = cf_categories db"
    and "cf_accounts db' = cf_accounts db" and "cf_rules db' = cf_rules db"
    and "distinct (map am_account (cf_maps db'))" and "\<forall>m \<in> set (cf_maps db'). map_ok db m"
  shows "config_inv db'"
  using assms by (simp add: config_inv_def divisions_ok_def categories_ok_def accounts_ok_def maps_ok_def map_ok_def
      rules_ok_def refs_ok_def)

lemma put_map_keeps [simp]:
  "cf_divisions (put_map m db) = cf_divisions db" "cf_categories (put_map m db) = cf_categories db"
  "cf_accounts (put_map m db) = cf_accounts db" "cf_rules (put_map m db) = cf_rules db"
  "cf_log (put_map m db) = cf_log db"
  by (simp_all add: put_map_def)

lemma put_map_accounts:
  "map am_account (cf_maps (put_map m db)) =
     (if am_account m \<in> am_account ` set (cf_maps db) then map am_account (cf_maps db)
      else map am_account (cf_maps db) @ [am_account m])"
proof -
  have "map_of_account db (am_account m) = None \<longleftrightarrow> am_account m \<notin> am_account ` set (cf_maps db)"
    by (auto simp: map_of_account_def find_None_iff image_iff)
  then show ?thesis by (simp add: put_map_def comp_def if_distrib cong: if_cong)
qed

lemma put_map_set: "x \<in> set (cf_maps (put_map m db)) \<Longrightarrow> x = m \<or> x \<in> set (cf_maps db)"
  by (auto simp: put_map_def split: if_splits)

lemma put_map_inv:
  assumes "config_inv db" and "map_ok db m"
  shows "config_inv (put_map m db)"
  using assms(1)
proof (rule keep_others)
  have maps: "maps_ok db" using assms(1) by (simp add: config_inv_def)
  then show "distinct (map am_account (cf_maps (put_map m db)))"
    by (simp add: put_map_accounts maps_ok_def)
  show "\<forall>x \<in> set (cf_maps (put_map m db)). map_ok db x"
    using put_map_set maps assms(2) by (auto simp: maps_ok_def)
qed simp_all

lemma delete_map_inv:
  assumes "config_inv db"
  shows "config_inv (delete_map i db)"
  using assms
  by (rule keep_others) (use assms in \<open>simp_all add: delete_map_def config_inv_def maps_ok_def distinct_map_filter\<close>)

lemma config_note_inv_delete:
  "config_inv (delete_map i (config_note e k a b c n db)) = config_inv (delete_map i db)"
proof -
  have "delete_map i (config_note e k a b c n db) = config_note e k a b c n (delete_map i db)"
    by (simp add: delete_map_def config_note_def)
  then show ?thesis by simp
qed

lemma map_ok_held: "config_inv db \<Longrightarrow> m \<in> set (cf_maps db) \<Longrightarrow> map_ok db m"
  by (simp add: config_inv_def maps_ok_def)

lemma find_account_Some: "find_account db i = Some a \<Longrightarrow> a \<in> set (cf_accounts db) \<and> ga_id a = i"
  unfolding find_account_def using find_mem by fastforce

lemma set_account_map_Inr:
  assumes "set_account_map db i account d c in_job_cost confirm actor now = Inr (db', row)"
  obtains a before where "find_account db account = Some a" "refs_ok db d c" "before = map_of_account db account"
    "am_account row = (case before of None \<Rightarrow> account | Some m \<Rightarrow> am_account m)"
    "am_id row = (case before of None \<Rightarrow> i | Some m \<Rightarrow> am_id m)"
    "am_division row = d" "am_category row = c" "am_in_job_cost row = in_job_cost"
    "am_status row = (if confirm then Confirmed else case before of None \<Rightarrow> Suggested | Some m \<Rightarrow> am_status m)"
    "am_confirmed_at row = (if confirm then Some now else case before of None \<Rightarrow> None | Some m \<Rightarrow> am_confirmed_at m)"
    "db' = config_note (if confirm then Map_confirmed else Map_set) (Some (am_id row)) actor
       (map_option map_plain before) (Some (map_plain row)) (Some (ga_no a)) (put_map row db)"
proof -
  obtain a where a: "find_account db account = Some a"
    using assms by (cases "find_account db account") (simp_all add: set_account_map_def)
  have found: "\<not> (case d of None \<Rightarrow> False | Some d \<Rightarrow> find_division db d = None)"
      "\<not> (case c of None \<Rightarrow> False | Some c \<Rightarrow> find_category db c = None)"
    using assms a by (simp_all add: set_account_map_def split: if_split_asm)
  then have refs: "refs_ok db d c"
    using find_division_Some [of db] find_category_Some [of db] by (force simp: refs_ok_def)
  from found show thesis
    using assms a refs that [of a "map_of_account db account"]
    by (cases "map_of_account db account"; cases confirm) (auto simp: set_account_map_def Let_def)
qed

lemma set_account_map_inv:
  assumes "set_account_map db i account d c in_job_cost confirm actor now = Inr (db', row)" and "config_inv db"
  shows "config_inv db'"
  using assms(1)
proof (rule set_account_map_Inr)
  fix a before
  assume r: "find_account db account = Some a" "refs_ok db d c" "before = map_of_account db account"
    "am_account row = (case before of None \<Rightarrow> account | Some m \<Rightarrow> am_account m)"
    "am_division row = d" "am_category row = c"
    "am_status row = (if confirm then Confirmed else case before of None \<Rightarrow> Suggested | Some m \<Rightarrow> am_status m)"
    "am_confirmed_at row = (if confirm then Some now else case before of None \<Rightarrow> None | Some m \<Rightarrow> am_confirmed_at m)"
    "db' = config_note (if confirm then Map_confirmed else Map_set) (Some (am_id row)) actor
       (map_option map_plain before) (Some (map_plain row)) (Some (ga_no a)) (put_map row db)"
  have "account \<in> account_ids db" using find_account_Some [OF r(1)] by auto
  moreover have "map_ok db m" if "before = Some m" for m
    using that r(3) map_of_account_Some [of db account m] map_ok_held [OF assms(2)] by simp
  ultimately have "map_ok db row" using r(2-8) by (auto simp: map_ok_def split: option.splits)
  then show ?thesis using put_map_inv [OF assms(2)] r(9) by simp
qed

lemma confirm_row_inv:
  assumes "config_inv db" and "map_ok db m"
  shows "config_inv (fst (confirm_row db m actor now))"
proof -
  have "map_ok db (m\<lparr>am_status := Confirmed, am_confirmed_by := actor, am_confirmed_at := Some now\<rparr>)"
    using assms(2) by (simp add: map_ok_def)
  then show ?thesis using assms(1) put_map_inv by (simp add: confirm_row_def Let_def)
qed

lemma confirm_row_keeps [simp]:
  "cf_divisions (fst (confirm_row db m actor now)) = cf_divisions db"
  "cf_categories (fst (confirm_row db m actor now)) = cf_categories db"
  "cf_accounts (fst (confirm_row db m actor now)) = cf_accounts db"
  by (simp_all add: confirm_row_def Let_def config_note_def)

lemma map_ok_cong:
  "cf_divisions db' = cf_divisions db \<Longrightarrow> cf_categories db' = cf_categories db \<Longrightarrow> cf_accounts db' = cf_accounts db
    \<Longrightarrow> map_ok db' m = map_ok db m"
  by (simp add: map_ok_def refs_ok_def)

lemma confirm_rows_inv:
  "config_inv db \<Longrightarrow> \<forall>m \<in> set ms. map_ok db m
    \<Longrightarrow> config_inv (foldl (\<lambda>d m. fst (confirm_row d m actor now)) db ms)"
proof (induction ms arbitrary: db)
  case (Cons m ms)
  have "config_inv (fst (confirm_row db m actor now))" using Cons.prems by (intro confirm_row_inv) simp_all
  moreover have "\<forall>x \<in> set ms. map_ok (fst (confirm_row db m actor now)) x"
    using Cons.prems map_ok_cong [of "fst (confirm_row db m actor now)" db] by simp
  ultimately show ?case using Cons.IH by simp
qed simp

section \<open>Suggesting keeps it\<close>

lemma compile_all_rule:
  "compile_all re rs = Inr out \<Longrightarrow> r \<in> set out
    \<Longrightarrow> \<exists>x \<in> set rs. cr_division r = sr_division x \<and> cr_category r = sr_category x"
proof (induction rs arbitrary: out)
  case (Cons x rs)
  show ?case
  proof (cases "compile_all re (x # rs) = compile_all re rs")
    case True
    then show ?thesis using Cons by fastforce
  next
    case False
    then obtain out' r' where "compile_all re rs = Inr out'" "out = r' # out'"
        "cr_division r' = sr_division x" "cr_category r' = sr_category x"
      using Cons.prems(1) by (auto split: if_split_asm option.split_asm sum.split_asm)
    then show ?thesis using Cons.IH [of out'] Cons.prems(2) by auto
  qed
qed simp

lemma map_of_mem: "map_of t k = Some v \<Longrightarrow> v \<in> snd ` set t"
  by (metis image_eqI map_of_SomeD snd_conv)

lemma suggestion_refs:
  assumes "suggestion_of re new_category db rules no = Some s" and "compile_rules re (cf_rules db) = Inr rules"
    and "rules_ok db"
  shows "refs_ok (fst (ensure_cost_categories new_category db)) (sg_division s) (sg_category s)"
proof -
  let ?db = "fst (ensure_cost_categories new_category db)"
  obtain r where r: "r \<in> set rules" "rule_suggests re no (divisions_by_digit ?db) (categories_by_slot ?db) r = Some s"
    using assms(1) unfolding suggestion_of_def suggest_for_find
    by (auto split: option.split_asm dest: find_mem)
  obtain x where x: "x \<in> set (cf_rules db)" "cr_division r = sr_division x" "cr_category r = sr_category x"
    using compile_all_rule [of re "sort_key sr_order (cf_rules db)" rules r] assms(2) r(1)
    by (auto simp: compile_rules_def)
  have "cf_categories db = [] \<or> cf_categories ?db = cf_categories db"
    by (simp add: ensure_cost_categories_def seed_categories_def)
  then have refs: "refs_ok ?db (cr_division r) (cr_category r)"
    using x assms(3) by (auto simp: rules_ok_def refs_ok_def)
  have digits: "snd ` set (divisions_by_digit ?db) \<subseteq> division_ids ?db"
    by (auto simp: divisions_by_digit_def set_map_filter split: option.splits if_split_asm)
  have slots: "snd ` set (categories_by_slot ?db) \<subseteq> category_ids ?db"
    by (auto simp: categories_by_slot_def)
  obtain d c where dc: "rule_division r no (divisions_by_digit ?db) = Some d"
      "rule_category r no (categories_by_slot ?db) = Some c" "sg_division s = d" "sg_category s = c"
    using r(2) by (auto simp: rule_suggests_def split: if_split_asm option.split_asm)
  have "\<forall>i. d = Some i \<longrightarrow> i \<in> division_ids ?db"
    using dc(1) refs digits map_of_mem [of "divisions_by_digit ?db"]
    by (auto simp: rule_division_def refs_ok_def split: if_split_asm option.split_asm)
  moreover have "\<forall>i. c = Some i \<longrightarrow> i \<in> category_ids ?db"
    using dc(2) refs slots map_of_mem [of "categories_by_slot ?db"]
    by (auto simp: rule_category_def refs_ok_def split: if_split_asm option.split_asm)
  ultimately show ?thesis using dc(3,4) by (simp add: refs_ok_def)
qed

lemma suggest_account_inv:
  assumes "config_inv (fst st)" and "ga_id a \<in> account_ids (fst st)"
    and "\<And>s. suggests (ga_no a) = Some s \<Longrightarrow> refs_ok (fst st) (sg_division s) (sg_category s)"
  shows "config_inv (fst (suggest_account new_id suggests actor st a))"
proof -
  obtain db n where st: "st = (db, n)" by (rule prod.exhaust)
  have held: "map_ok db m" "am_account m = ga_id a" if "map_of_account db (ga_id a) = Some m" for m
    using map_of_account_Some [OF that] map_ok_held assms(1) by (simp_all add: st)
  have "map_ok db (new_suggested_row i (ga_id a) s)" if "suggests (ga_no a) = Some s" for i s
    using assms(2) assms(3) [OF that] by (simp add: map_ok_def new_suggested_row_def st)
  moreover have "map_ok db (suggested_row m s)"
    if "suggests (ga_no a) = Some s" and "map_of_account db (ga_id a) = Some m" for m s
    using held [OF that(2)] assms(3) [OF that(1)] by (simp add: map_ok_def suggested_row_def st)
  ultimately show ?thesis
    using assms(1) put_map_inv [of db] delete_map_inv [of db "ga_id a"]
    by (auto simp: st suggest_account_def Let_def config_note_inv_delete split: option.split)
qed

lemma suggest_accounts_inv:
  assumes "config_inv (fst st)" and "ga_id ` set as \<subseteq> account_ids (fst st)"
    and "\<And>no s. suggests no = Some s \<Longrightarrow> refs_ok (fst st) (sg_division s) (sg_category s)"
  shows "config_inv (fst (foldl (suggest_account new_id suggests actor) st as))"
  using assms
proof (induction as arbitrary: st)
  case (Cons a as)
  let ?st = "suggest_account new_id suggests actor st a"
  have "config_inv (fst ?st)" using Cons.prems by (intro suggest_account_inv) auto
  moreover have "ga_id ` set as \<subseteq> account_ids (fst ?st)" using Cons.prems(2) by (simp add: suggest_account_keeps)
  moreover have "refs_ok (fst ?st) (sg_division s) (sg_category s)" if "suggests no = Some s" for no s
    using Cons.prems(3) [OF that] by (simp add: refs_ok_def suggest_account_keeps)
  ultimately show ?case using Cons.IH [of ?st] by simp
qed simp

lemma suggest_inv:
  assumes "suggest re new_category new_map db actor = Inr (db', n)" and "inj new_category" and "config_inv db"
  shows "config_inv db'"
  using assms(1)
proof (rule suggest_Inr)
  let ?db = "fst (ensure_cost_categories new_category db)"
  fix rules
  assume r: "compile_rules re (cf_rules db) = Inr rules"
    "foldl (suggest_account new_map (suggestion_of re new_category db rules) actor)
      (?db, no_suggest_counts) (filter ga_active (cf_accounts db)) = (db', n)"
  have "rules_ok db" using assms(3) by (simp add: config_inv_def)
  then have "refs_ok ?db (sg_division s) (sg_category s)" if "suggestion_of re new_category db rules no = Some s" for no s
    using suggestion_refs [OF that r(1)] by simp
  moreover have "config_inv ?db" using seed_categories_inv [OF assms(2,3)] by (simp add: ensure_cost_categories_def)
  ultimately have "config_inv (fst (foldl (suggest_account new_map (suggestion_of re new_category db rules) actor)
      (?db, no_suggest_counts) (filter ga_active (cf_accounts db))))"
    by (intro suggest_accounts_inv) auto
  then show ?thesis using r(2) by simp
qed

section \<open>A chart keeps it\<close>

abbreviation account_pairs :: "config_db \<Rightarrow> (uuid \<times> string) list" where
  "account_pairs db \<equiv> map (\<lambda>a. (ga_id a, ga_no a)) (cf_accounts db)"

lemma accounts_ok_pairs:
  "accounts_ok db \<longleftrightarrow> distinct (map fst (account_pairs db)) \<and> distinct (map snd (account_pairs db))"
  by (simp add: accounts_ok_def comp_def)

lemma account_ids_pairs: "account_ids db = fst ` set (account_pairs db)"
  by force

lemma keep_accounts:
  assumes "config_inv db" and "cf_divisions db' = cf_divisions db" and "cf_categories db' = cf_categories db"
    and "cf_maps db' = cf_maps db" and "cf_rules db' = cf_rules db"
    and "accounts_ok db'" and "account_ids db \<subseteq> account_ids db'"
  shows "config_inv db'"
  using assms by (auto simp: config_inv_def divisions_ok_def categories_ok_def maps_ok_def map_ok_def
      rules_ok_def refs_ok_def)

lemma put_account_pairs:
  assumes "distinct (map ga_no (cf_accounts db))" and "(ga_id a, ga_no a) \<in> set (account_pairs db)"
  shows "account_pairs (put_account a db) = account_pairs db"
proof -
  have "ga_id x = ga_id a" if "x \<in> set (cf_accounts db)" and "ga_no x = ga_no a" for x
    using assms that by (auto simp: distinct_map dest: inj_onD)
  then show ?thesis by (auto simp: put_account_def)
qed

text \<open>Every id given so far is the one given for the number of its account.\<close>

definition given_ids :: "(string \<Rightarrow> uuid) \<Rightarrow> (uuid \<times> string) list \<Rightarrow> bool" where
  "given_ids new_id pairs \<longleftrightarrow> (\<forall>(i, no) \<in> set pairs. i \<in> range new_id \<longrightarrow> i = new_id no)"

lemma given_ids_fresh:
  assumes "given_ids new_id pairs" and "inj new_id" and "no \<notin> snd ` set pairs"
  shows "new_id no \<notin> fst ` set pairs"
proof
  assume "new_id no \<in> fst ` set pairs"
  then obtain no' where held: "(new_id no, no') \<in> set pairs" by force
  then have "new_id no = new_id no'" using assms(1) unfolding given_ids_def by blast
  then have "no = no'" by (rule injD [OF assms(2)])
  then show False using held assms(3) by force
qed

lemma apply_record_pairs:
  assumes "accounts_ok (fst st)"
  shows "account_pairs (fst (apply_record new_id actor st r)) =
    (if record_no r \<in> snd ` set (account_pairs (fst st)) then account_pairs (fst st)
     else account_pairs (fst st) @ [(new_id (record_no r), record_no r)])"
proof -
  obtain db n where st: "st = (db, n)" by (rule prod.exhaust)
  show ?thesis
  proof (cases "account_by_no db (record_no r)")
    case None
    then have "record_no r \<notin> ga_no ` set (cf_accounts db)" by (auto simp: account_by_no_def find_None_iff)
    then show ?thesis by (auto simp: st apply_record_def None Let_def config_note_def)
  next
    case (Some a)
    let ?a = "a\<lparr>ga_name := record_name r, ga_ledger_type := record_type r, ga_active := True, ga_raw := Some (cd_id r)\<rparr>"
    have a: "ga_no a = record_no r" "a \<in> set (cf_accounts db)" using account_by_no_Some [OF Some] by simp_all
    then have "account_pairs (put_account ?a db) = account_pairs db"
      using assms by (intro put_account_pairs) (auto simp: st accounts_ok_def)
    moreover have "record_no r \<in> snd ` set (account_pairs db)" using a by force
    ultimately show ?thesis by (simp add: st apply_record_def Some Let_def config_note_def)
  qed
qed

lemma apply_record_keeps:
  "cf_divisions (fst (apply_record new_id actor st r)) = cf_divisions (fst st)"
  "cf_categories (fst (apply_record new_id actor st r)) = cf_categories (fst st)"
  "cf_maps (fst (apply_record new_id actor st r)) = cf_maps (fst st)"
  "cf_rules (fst (apply_record new_id actor st r)) = cf_rules (fst st)"
  by (auto simp: apply_record_def Let_def put_account_def config_note_def split: prod.split option.split)

lemma apply_record_inv:
  assumes "config_inv (fst st)" and "inj new_id" and "given_ids new_id (account_pairs (fst st))"
  shows "config_inv (fst (apply_record new_id actor st r)) \<and> given_ids new_id (account_pairs (fst (apply_record new_id actor st r)))"
proof -
  let ?st = "apply_record new_id actor st r" and ?no = "record_no r"
  have ok: "accounts_ok (fst st)" using assms(1) by (simp add: config_inv_def)
  note pairs = apply_record_pairs [OF ok, of new_id actor r]
  have fresh: "new_id ?no \<notin> fst ` set (account_pairs (fst st))" if "?no \<notin> snd ` set (account_pairs (fst st))"
    using given_ids_fresh [OF assms(3,2) that] .
  have "accounts_ok (fst ?st)"
    using ok fresh by (simp add: accounts_ok_pairs pairs del: map_map split: if_split)
  moreover have "account_ids (fst st) \<subseteq> account_ids (fst ?st)" by (auto simp: account_ids_pairs pairs simp del: set_map)
  ultimately have "config_inv (fst ?st)" using keep_accounts [OF assms(1)] apply_record_keeps by metis
  moreover have "given_ids new_id (account_pairs (fst ?st))"
    using assms(3) unfolding pairs by (auto simp: given_ids_def)
  ultimately show ?thesis by blast
qed

lemma apply_records_inv:
  "config_inv (fst st) \<Longrightarrow> inj new_id \<Longrightarrow> given_ids new_id (account_pairs (fst st))
    \<Longrightarrow> config_inv (fst (foldl (apply_record new_id actor) st rs))"
proof (induction rs arbitrary: st)
  case (Cons r rs)
  show ?case using apply_record_inv [OF Cons.prems, of actor r] Cons.IH Cons.prems(2) by simp
qed simp

lemma deactivate_account_inv:
  assumes "config_inv (fst st)" and "(ga_id a, ga_no a) \<in> set (account_pairs (fst st))"
  shows "config_inv (fst (deactivate_account p seen actor st a))
    \<and> account_pairs (fst (deactivate_account p seen actor st a)) = account_pairs (fst st)"
proof -
  obtain db n where st: "st = (db, n)" by (rule prod.exhaust)
  let ?db = "put_account (a\<lparr>ga_active := False\<rparr>) db"
  have pairs: "account_pairs ?db = account_pairs db"
    using assms by (intro put_account_pairs) (auto simp: st config_inv_def accounts_ok_def)
  have "accounts_ok db" using assms(1) by (simp add: st config_inv_def)
  then have ok: "accounts_ok ?db" by (simp add: accounts_ok_pairs pairs del: map_map)
  have ids: "account_ids db \<subseteq> account_ids ?db" by (metis account_ids_pairs pairs order_refl)
  have "config_inv ?db"
    by (rule keep_accounts [OF _ _ _ _ _ ok ids]) (use assms(1) in \<open>simp_all add: st put_account_def\<close>)
  then show ?thesis using assms(1) pairs by (simp add: st deactivate_account_def config_note_def [THEN arg_cong [of _ _ cf_accounts]])
qed

lemma deactivate_accounts_inv:
  "config_inv (fst st) \<Longrightarrow> (\<lambda>a. (ga_id a, ga_no a)) ` set as \<subseteq> set (account_pairs (fst st))
    \<Longrightarrow> config_inv (fst (foldl (deactivate_account p seen actor) st as))"
proof (induction as arbitrary: st)
  case (Cons a as)
  have a: "(ga_id a, ga_no a) \<in> set (account_pairs (fst st))" using Cons.prems(2) by (simp del: set_map)
  note one = deactivate_account_inv [OF Cons.prems(1) a, of p seen actor]
  have "(\<lambda>a. (ga_id a, ga_no a)) ` set as \<subseteq> set (account_pairs (fst (deactivate_account p seen actor st a)))"
    using Cons.prems(2) one by (simp del: set_map)
  from Cons.IH [OF conjunct1 [OF one] this] show ?case by simp
qed simp

lemma apply_chart_inv:
  assumes "fresh new_id (account_ids db)" and "config_inv db"
  shows "config_inv (fst (apply_chart new_id records present db actor))"
proof -
  let ?st = "foldl (apply_record new_id actor) (db, no_chart_counts) (latest_in_batch records)"
  have "given_ids new_id (account_pairs db)" using assms(1) by (force simp: given_ids_def fresh_def)
  then have "config_inv (fst ?st)"
    using assms by (intro apply_records_inv) (simp_all add: fresh_def)
  moreover from this have "config_inv (fst (foldl (deactivate_account p seen actor) ?st (cf_accounts (fst ?st))))" for p seen
    by (rule deactivate_accounts_inv) simp
  ultimately show ?thesis by (simp add: apply_chart_def Let_def split: option.split)
qed

section \<open>Loading the rules keeps it\<close>

text \<open>The divisions met so far: each id is one held before, or the one given for a code that is known.\<close>

definition load_ok :: "(string \<Rightarrow> uuid) \<Rightarrow> uuid set \<Rightarrow> config_db \<Rightarrow> (string, uuid) dict \<Rightarrow> bool" where
  "load_ok new_id old db divisions \<longleftrightarrow> config_inv db \<and> snd ` set divisions \<subseteq> division_ids db
     \<and> (\<forall>i \<in> division_ids db. i \<in> old \<or> (\<exists>c. i = new_id c \<and> c \<in> fst ` set divisions))"

lemma update_new_key: "k \<notin> fst ` set t \<Longrightarrow> AList.update k v t = t @ [(k, v)]"
  by (induction t) auto

lemma create_division_row:
  assumes "create_division db i code name digit order actor = Inr (db', row)"
  shows "dv_id row = i \<and> division_ids db' = insert i (division_ids db) \<and> cf_rules db' = cf_rules db
    \<and> cf_categories db' = cf_categories db \<and> cf_maps db' = cf_maps db \<and> cf_accounts db' = cf_accounts db"
  using assms by (auto simp: create_division_def Let_def config_note_def split: if_split_asm sum.split_asm)

lemma load_divisions_ok:
  "load_divisions new_id actor ds (db, divisions) = Inr (db', divisions') \<Longrightarrow> fresh new_id old
    \<Longrightarrow> load_ok new_id old db divisions
    \<Longrightarrow> load_ok new_id old db' divisions' \<and> cf_rules db' = cf_rules db \<and> cf_categories db' = cf_categories db"
proof (induction new_id actor ds "(db, divisions)" arbitrary: db divisions rule: load_divisions.induct)
  case (2 new_id actor k d ds db divisions)
  let ?code = "upper (strip (sd_code d))"
  show ?case
  proof (cases "?code \<noteq> [] \<and> map_of divisions ?code = None")
    case True
    then obtain db1 row where c: "create_division db (new_id ?code) (Some ?code) (Some (or_text (sd_name d) ?code))
        (sd_digit d) (int k) actor = Inr (db1, row)"
        "load_divisions new_id actor ds (db1, AList.update ?code (dv_id row) divisions) = Inr (db', divisions')"
      using "2.prems"(1) by (auto simp: Let_def split: sum.split_asm)
    have new: "?code \<notin> fst ` set divisions" using True by (simp add: map_of_eq_None_iff)
    have "new_id ?code \<notin> division_ids db"
    proof
      assume "new_id ?code \<in> division_ids db"
      then have "new_id ?code \<in> old \<or> (\<exists>c. new_id ?code = new_id c \<and> c \<in> fst ` set divisions)"
        using "2.prems"(3) unfolding load_ok_def by blast
      then show False using "2.prems"(2) new by (auto simp: fresh_def disjoint_iff dest: injD)
    qed
    then have inv: "config_inv db1" using create_division_inv [OF c(1)] "2.prems"(3) by (simp add: load_ok_def)
    note row = create_division_row [OF c(1)]
    have "set (AList.update ?code (dv_id row) divisions) = insert (?code, dv_id row) (set divisions)"
      using new by (simp add: update_new_key)
    moreover have "snd ` set divisions \<subseteq> division_ids db"
        "\<forall>i \<in> division_ids db. i \<in> old \<or> (\<exists>c. i = new_id c \<and> c \<in> fst ` set divisions)"
      using "2.prems"(3) unfolding load_ok_def by blast+
    ultimately have "load_ok new_id old db1 (AList.update ?code (dv_id row) divisions)"
      unfolding load_ok_def conjunct1 [OF conjunct2 [OF row]] conjunct1 [OF row]
      by (intro conjI inv ballI) (simp_all, blast+)
    then show ?thesis using "2.hyps"(1) [OF refl True c(1) refl c(2) "2.prems"(2)] row by simp
  next
    case False
    then have "load_divisions new_id actor ds (db, divisions) = Inr (db', divisions')"
      using "2.prems"(1) by (simp add: Let_def split: if_split_asm)
    then show ?thesis using "2.hyps"(2) [OF refl False _ "2.prems"(2,3)] by simp
  qed
qed simp

lemma load_rule_Inr:
  assumes "load_rule re divisions categories r = Inr row"
  shows "(\<forall>i. sr_division row = Some i \<longrightarrow> i \<in> snd ` set divisions)
    \<and> (\<forall>i. sr_category row = Some i \<longrightarrow> i \<in> snd ` set categories)
    \<and> \<not> (sr_division row \<noteq> None \<and> sr_from_digit row \<noteq> None) \<and> \<not> (sr_category row \<noteq> None \<and> sr_from_slot row)
    \<and> length (sr_name row) \<le> 100 \<and> sr_pattern row \<noteq> [] \<and> length (sr_pattern row) \<le> pattern_max_length"
proof -
  obtain pattern where p: "compile_pattern re (or_text (sp_name r) (''rule '' @ int_str (sp_order r)))
      (or_text (sp_pattern r) []) = Inr pattern"
    using assms by (auto simp: load_rule_def Let_def split: sum.split_asm)
  then have row: "sr_pattern row = pattern" "length (sr_name row) \<le> 100"
      "\<not> (sr_division row \<noteq> None \<and> sr_from_digit row \<noteq> None)" "\<not> (sr_category row \<noteq> None \<and> sr_from_slot row)"
      "sr_division row = (case sp_division r of None \<Rightarrow> None | Some d \<Rightarrow> map_of divisions d)"
      "sr_category row = (case sp_category r of None \<Rightarrow> None | Some c \<Rightarrow> map_of categories c)"
    using assms by (auto simp: load_rule_def Let_def split: if_split_asm)
  have "pattern \<noteq> []" "length pattern \<le> pattern_max_length"
    using p by (auto simp: compile_pattern_def split: if_split_asm)
  moreover have "\<forall>i. sr_division row = Some i \<longrightarrow> i \<in> snd ` set divisions"
    using row(5) map_of_mem [of divisions] by (auto split: option.split_asm)
  moreover have "\<forall>i. sr_category row = Some i \<longrightarrow> i \<in> snd ` set categories"
    using row(6) map_of_mem [of categories] by (auto split: option.split_asm)
  ultimately show ?thesis using row(1-4) by simp
qed

lemma load_rules_mem:
  "load_rules re divisions categories rs = Inr rows \<Longrightarrow> row \<in> set rows
    \<Longrightarrow> \<exists>r \<in> set rs. load_rule re divisions categories r = Inr row"
  by (induction rs arbitrary: rows) (auto split: sum.split_asm)

lemma load_suggest_rules_inv:
  assumes "load_suggest_rules re new_category new_division db ds rs actor = Inr (db', n)" and "inj new_category"
    and "fresh new_division (division_ids db)" and "config_inv db"
  shows "config_inv db'"
proof -
  let ?db = "fst (ensure_cost_categories new_category db)"
  let ?held = "map (\<lambda>d. (dv_code d, dv_id d)) (cf_divisions ?db)"
  have inv: "config_inv ?db" using seed_categories_inv [OF assms(2,4)] by (simp add: ensure_cost_categories_def)
  obtain db1 divisions rows where l: "load_divisions new_division actor (enumerate 0 ds) (?db, ?held) = Inr (db1, divisions)"
      "load_rules re divisions (rev (map (\<lambda>c. (cc_name c, cc_id c)) (cf_categories db1))) rs = Inr rows"
      "distinct (map sr_order rows)" "config_inv db' = config_inv (db1\<lparr>cf_rules := rows\<rparr>)"
    using assms(1) by (auto simp: load_suggest_rules_def Let_def split: sum.split_asm if_split_asm)
  have "load_ok new_division (division_ids db) ?db ?held" using inv by (force simp: load_ok_def)
  note loaded = load_divisions_ok [OF l(1) assms(3) this]
  have rows: "refs_ok db1 (sr_division row) (sr_category row)
      \<and> \<not> (sr_division row \<noteq> None \<and> sr_from_digit row \<noteq> None) \<and> \<not> (sr_category row \<noteq> None \<and> sr_from_slot row)
      \<and> length (sr_name row) \<le> 100 \<and> sr_pattern row \<noteq> [] \<and> length (sr_pattern row) \<le> pattern_max_length"
    if row: "row \<in> set rows" for row
  proof -
    obtain r where "load_rule re divisions (rev (map (\<lambda>c. (cc_name c, cc_id c)) (cf_categories db1))) r = Inr row"
      using load_rules_mem [OF l(2) row] by blast
    note load_rule_Inr [OF this]
    then show ?thesis using loaded by (fastforce simp: refs_ok_def load_ok_def)
  qed
  have "config_inv db1" using loaded by (simp add: load_ok_def)
  then have "config_inv (db1\<lparr>cf_rules := rows\<rparr>)"
    using rows l(3) by (simp add: config_inv_def divisions_ok_def categories_ok_def accounts_ok_def
        maps_ok_def map_ok_def rules_ok_def refs_ok_def)
  then show ?thesis using l(4) by simp
qed

section \<open>Every reachable configuration\<close>

lemma config_inv_step:
  assumes "config_step re db db'" and "config_inv db"
  shows "config_inv db'"
  using assms
proof (cases rule: config_step.cases)
  case (cs_create i code name digit order actor row)
  show ?thesis by (rule create_division_inv [OF cs_create assms(2)])
next
  case (cs_seed new_id actor n)
  then show ?thesis using seed_categories_inv [OF cs_seed(2) assms(2), of actor] by simp
next
  case (cs_map i account d c in_job_cost confirm actor now m)
  show ?thesis by (rule set_account_map_inv [OF cs_map assms(2)])
next
  case (cs_confirm account actor now m)
  then obtain row where row: "map_of_account db account = Some row" "confirm_row db row actor now = (db', m)"
    by (auto simp: confirm_account_map_def split: option.split_asm)
  have "row \<in> set (cf_maps db)" using map_of_account_Some [OF row(1)] by simp
  then show ?thesis using confirm_row_inv [OF assms(2) map_ok_held [OF assms(2)], of row actor now] row(2) by simp
next
  case (cs_confirm_all actor now n)
  have "config_inv (foldl (\<lambda>d m. fst (confirm_row d m actor now)) db (filter (\<lambda>m. am_status m = Suggested) (cf_maps db)))"
    using assms(2) by (intro confirm_rows_inv) (auto intro: map_ok_held)
  then show ?thesis using cs_confirm_all by (simp add: confirm_all_suggestions_def Let_def)
next
  case (cs_chart new_account records present actor chart_n)
  then show ?thesis using apply_chart_inv [OF cs_chart(2) assms(2), of records present actor] by simp
next
  case (cs_update i name' digit clear order' actor row)
  show ?thesis by (rule update_division_inv [OF cs_update assms(2)])
next
  case (cs_retire i actor row)
  show ?thesis by (rule deactivate_division_inv [OF cs_retire assms(2)])
next
  case (cs_rename i name actor category)
  show ?thesis by (rule rename_category_inv [OF cs_rename assms(2)])
next
  case (cs_retire_category i actor category)
  show ?thesis by (rule deactivate_category_inv [OF cs_retire_category assms(2)])
next
  case (cs_suggest new_category new_map actor counts)
  show ?thesis by (rule suggest_inv [OF cs_suggest assms(2)])
next
  case (cs_load new_category new_division ds rs actor n)
  show ?thesis by (rule load_suggest_rules_inv [OF cs_load assms(2)])
qed

interpretation config_machine: state_machine config_start "config_step re" config_inv
proof
  show "config_inv db" if "config_start db" for db
    using that by (simp add: config_start_def config_inv_def divisions_ok_def categories_ok_def accounts_ok_def
        maps_ok_def rules_ok_def)
  show "config_inv db'" if "config_inv db" "config_step re db db'" for db db'
    using config_inv_step [OF that(2,1)] .
qed

section \<open>A confirmed mapping\<close>

text \<open>
  What happens to the confirmed mapping of an account on the way from one state to another: it is
  kept, or an audit row that names it holds what it was before a person changed it.
\<close>

definition map_audited :: "map_row \<Rightarrow> config_audit \<Rightarrow> bool" where
  "map_audited m e \<longleftrightarrow> ca_event e \<in> {Map_set, Map_confirmed} \<and> ca_entity e = Some (am_id m)
     \<and> ca_before e = Some (map_plain m)"

definition confirmed_path :: "uuid \<Rightarrow> config_db \<Rightarrow> config_db \<Rightarrow> bool" where
  "confirmed_path i db db' \<longleftrightarrow> (\<exists>es. cf_log db' = cf_log db @ es \<and>
     (\<forall>m. map_of_account db i = Some m \<and> am_status m = Confirmed \<longrightarrow>
       (\<exists>m'. map_of_account db' i = Some m' \<and> am_status m' = Confirmed \<and> am_id m' = am_id m
         \<and> (m' = m \<or> (\<exists>e \<in> set es. map_audited m e)))))"

lemma confirmed_pathI:
  assumes "cf_log db' = cf_log db @ es"
    and "\<And>m. map_of_account db i = Some m \<Longrightarrow> am_status m = Confirmed \<Longrightarrow>
      \<exists>m'. map_of_account db' i = Some m' \<and> am_status m' = Confirmed \<and> am_id m' = am_id m
         \<and> (m' = m \<or> (\<exists>e \<in> set es. map_audited m e))"
  shows "confirmed_path i db db'"
  using assms unfolding confirmed_path_def by blast

lemma confirmed_path_same:
  "cf_maps db' = cf_maps db \<Longrightarrow> cf_log db' = cf_log db @ es \<Longrightarrow> confirmed_path i db db'"
  by (rule confirmed_pathI [of _ _ es]) (simp_all add: map_of_account_def)

lemma confirmed_path_refl: "confirmed_path i db db"
  by (rule confirmed_path_same [of _ _ "[]"]) simp_all

lemma confirmed_path_trans:
  assumes "confirmed_path i db db1" and "confirmed_path i db1 db2"
  shows "confirmed_path i db db2"
proof -
  obtain es where es: "cf_log db1 = cf_log db @ es"
    "\<forall>m. map_of_account db i = Some m \<and> am_status m = Confirmed \<longrightarrow>
       (\<exists>m'. map_of_account db1 i = Some m' \<and> am_status m' = Confirmed \<and> am_id m' = am_id m
         \<and> (m' = m \<or> (\<exists>e \<in> set es. map_audited m e)))"
    using assms(1) unfolding confirmed_path_def by blast
  obtain fs where fs: "cf_log db2 = cf_log db1 @ fs"
    "\<forall>m. map_of_account db1 i = Some m \<and> am_status m = Confirmed \<longrightarrow>
       (\<exists>m'. map_of_account db2 i = Some m' \<and> am_status m' = Confirmed \<and> am_id m' = am_id m
         \<and> (m' = m \<or> (\<exists>e \<in> set fs. map_audited m e)))"
    using assms(2) unfolding confirmed_path_def by blast
  show ?thesis
  proof (rule confirmed_pathI [of _ _ "es @ fs"])
    show "cf_log db2 = cf_log db @ es @ fs" using es fs by simp
    fix m assume m: "map_of_account db i = Some m" "am_status m = Confirmed"
    obtain m1 where m1: "map_of_account db1 i = Some m1" "am_status m1 = Confirmed" "am_id m1 = am_id m"
        "m1 = m \<or> (\<exists>e \<in> set es. map_audited m e)" using es(2) m by blast
    obtain m2 where m2: "map_of_account db2 i = Some m2" "am_status m2 = Confirmed" "am_id m2 = am_id m1"
        "m2 = m1 \<or> (\<exists>e \<in> set fs. map_audited m1 e)" using fs(2) m1 by blast
    show "\<exists>m'. map_of_account db2 i = Some m' \<and> am_status m' = Confirmed \<and> am_id m' = am_id m
        \<and> (m' = m \<or> (\<exists>e \<in> set (es @ fs). map_audited m e))"
      using m1(3,4) m2 by (intro exI [of _ m2]) auto
  qed
qed

lemma confirmed_path_fold:
  "(\<And>st x. x \<in> set xs \<Longrightarrow> confirmed_path i (fst st) (fst (f st x)))
    \<Longrightarrow> confirmed_path i (fst st) (fst (foldl f st xs))"
proof (induction xs arbitrary: st)
  case (Cons x xs)
  have "confirmed_path i (fst (f st x)) (fst (foldl f (f st x) xs))" using Cons.prems by (intro Cons.IH) simp
  moreover have "confirmed_path i (fst st) (fst (f st x))" using Cons.prems by simp
  ultimately show ?case by (simp add: confirmed_path_trans)
qed (simp add: confirmed_path_refl)

lemma suggest_account_path: "confirmed_path i (fst st) (fst (suggest_account new_id suggests actor st a))"
proof -
  have log: "\<exists>es. cf_log (fst (suggest_account new_id suggests actor st a)) = cf_log (fst st) @ es"
    by (auto simp: suggest_account_def Let_def config_note_def delete_map_def split: prod.split option.split)
  have "map_of_account (fst (suggest_account new_id suggests actor st a)) i = Some m"
    if "map_of_account (fst st) i = Some m" and "am_status m = Confirmed" for m
    using that by (cases "i = ga_id a") (simp_all add: suggest_account_map mapping_after_def)
  then show ?thesis using log by (auto intro: confirmed_pathI)
qed

lemma seed_path: "confirmed_path i db (fst (seed_categories new_id db actor))"
  by (auto simp: seed_categories_def Let_def config_note_def intro: confirmed_path_same confirmed_path_refl)

lemma suggest_path:
  assumes "suggest re new_category new_map db actor = Inr (db', n)"
  shows "confirmed_path i db db'"
  using assms
proof (rule suggest_Inr)
  let ?db = "fst (ensure_cost_categories new_category db)"
  fix rules
  assume "foldl (suggest_account new_map (suggestion_of re new_category db rules) actor)
      (?db, no_suggest_counts) (filter ga_active (cf_accounts db)) = (db', n)"
  moreover have "confirmed_path i (fst (?db, no_suggest_counts)) (fst (foldl (suggest_account new_map
      (suggestion_of re new_category db rules) actor) (?db, no_suggest_counts) (filter ga_active (cf_accounts db))))"
    by (rule confirmed_path_fold) (rule suggest_account_path)
  moreover have "confirmed_path i db ?db" using seed_path by (simp add: ensure_cost_categories_def)
  ultimately show ?thesis by (simp add: confirmed_path_trans)
qed

lemma apply_chart_path: "confirmed_path i db (fst (apply_chart new_id records present db actor))"
proof -
  have one: "confirmed_path i (fst st) (fst (apply_record new_id actor st r))" for st r
    by (auto simp: apply_record_def Let_def config_note_def put_account_def split: prod.split option.split
        intro: confirmed_path_same)
  have gone: "confirmed_path i (fst st) (fst (deactivate_account p seen actor st a))" for p seen st a
    by (auto simp: deactivate_account_def config_note_def put_account_def split: prod.split
        intro: confirmed_path_same confirmed_path_refl)
  let ?st = "foldl (apply_record new_id actor) (db, no_chart_counts) (latest_in_batch records)"
  have "confirmed_path i (fst (db, no_chart_counts)) (fst ?st)" by (rule confirmed_path_fold) (rule one)
  then have "confirmed_path i db (fst ?st)" by simp
  moreover have "confirmed_path i (fst ?st) (fst (foldl (deactivate_account p seen actor) ?st as))" for p seen as
    by (rule confirmed_path_fold) (rule gone)
  ultimately show ?thesis
    by (auto simp: apply_chart_def Let_def split: option.split intro: confirmed_path_trans)
qed

lemma load_divisions_path:
  "load_divisions new_id actor ds (db, divisions) = Inr (db', divisions')
    \<Longrightarrow> cf_maps db' = cf_maps db \<and> (\<exists>es. cf_log db' = cf_log db @ es)"
proof (induction new_id actor ds "(db, divisions)" arbitrary: db divisions rule: load_divisions.induct)
  case (2 new_id actor k d ds db divisions)
  let ?code = "upper (strip (sd_code d))"
  show ?case
  proof (cases "?code \<noteq> [] \<and> map_of divisions ?code = None")
    case True
    then obtain db1 row where c: "create_division db (new_id ?code) (Some ?code) (Some (or_text (sd_name d) ?code))
        (sd_digit d) (int k) actor = Inr (db1, row)"
        "load_divisions new_id actor ds (db1, AList.update ?code (dv_id row) divisions) = Inr (db', divisions')"
      using "2.prems"(1) by (auto simp: Let_def split: sum.split_asm)
    have "\<exists>es. cf_log db1 = cf_log db @ es" "cf_maps db1 = cf_maps db"
      using c(1) by (auto simp: create_division_def Let_def config_note_def split: if_split_asm sum.split_asm)
    then show ?thesis using "2.hyps"(1) [OF refl True c(1) refl c(2)] by auto
  next
    case False
    then have "load_divisions new_id actor ds (db, divisions) = Inr (db', divisions')"
      using "2.prems"(1) by (simp add: Let_def split: if_split_asm)
    then show ?thesis using "2.hyps"(2) [OF refl False] by simp
  qed
qed simp

lemma load_suggest_rules_path:
  assumes "load_suggest_rules re new_category new_division db ds rs actor = Inr (db', n)"
  shows "confirmed_path i db db'"
proof -
  let ?db = "fst (ensure_cost_categories new_category db)"
  obtain db1 divisions rows where l: "load_divisions new_division actor (enumerate 0 ds)
        (?db, map (\<lambda>d. (dv_code d, dv_id d)) (cf_divisions ?db)) = Inr (db1, divisions)"
      "db' = config_note Rules_loaded None actor (Some (rules_plain (cf_rules db1)))
        (Some (rules_plain rows)) None (db1\<lparr>cf_rules := rows\<rparr>)"
    using assms by (auto simp: load_suggest_rules_def Let_def split: sum.split_asm if_split_asm)
  have "confirmed_path i db ?db" using seed_path by (simp add: ensure_cost_categories_def)
  moreover have "confirmed_path i ?db db'"
    using load_divisions_path [OF l(1)] by (auto simp: l(2) config_note_def intro: confirmed_path_same)
  ultimately show ?thesis by (rule confirmed_path_trans)
qed

lemma set_account_map_path:
  assumes "set_account_map db k account d c in_job_cost confirm actor now = Inr (db', row)"
  shows "confirmed_path i db db'"
  using assms
proof (rule set_account_map_Inr)
  fix a before
  assume r: "before = map_of_account db account"
    "am_account row = (case before of None \<Rightarrow> account | Some m \<Rightarrow> am_account m)"
    "am_id row = (case before of None \<Rightarrow> k | Some m \<Rightarrow> am_id m)"
    "am_status row = (if confirm then Confirmed else case before of None \<Rightarrow> Suggested | Some m \<Rightarrow> am_status m)"
    "db' = config_note (if confirm then Map_confirmed else Map_set) (Some (am_id row)) actor
       (map_option map_plain before) (Some (map_plain row)) (Some (ga_no a)) (put_map row db)"
  have row: "am_account row = account"
    using r(1,2) map_of_account_Some [of db account] by (auto split: option.split)
  show ?thesis
  proof (rule confirmed_pathI)
    show "cf_log db' = cf_log db @ [\<lparr>ca_event = (if confirm then Map_confirmed else Map_set),
        ca_entity = Some (am_id row), ca_actor = actor, ca_before = map_option map_plain before,
        ca_after = Some (map_plain row), ca_account_no = Some (ga_no a)\<rparr>]"
      by (simp add: r(5) config_note_def)
  qed (use r(1,3,4) row in \<open>cases "i = account", auto simp: r(5) map_audited_def\<close>)
qed

lemma confirm_row_log: "\<exists>es. cf_log (fst (confirm_row db row actor now)) = cf_log db @ es"
  by (auto simp: confirm_row_def Let_def config_note_def)

lemma confirm_row_path:
  assumes "am_account row \<noteq> i \<or> map_of_account db i = Some row"
  shows "confirmed_path i db (fst (confirm_row db row actor now))"
proof (cases "am_status row = Confirmed")
  case True
  then show ?thesis by (simp add: confirm_row_def confirmed_path_refl)
next
  case False
  let ?db = "fst (confirm_row db row actor now)"
  obtain es where "cf_log ?db = cf_log db @ es" using confirm_row_log by blast
  then show ?thesis
  proof (rule confirmed_pathI)
    fix m assume "map_of_account db i = Some m" "am_status m = Confirmed"
    then have "map_of_account ?db i = Some m" using assms False by (auto simp: confirm_row_def Let_def)
    then show "\<exists>m'. map_of_account ?db i = Some m' \<and> am_status m' = Confirmed \<and> am_id m' = am_id m
        \<and> (m' = m \<or> (\<exists>e \<in> set es. map_audited m e))"
      using \<open>am_status m = Confirmed\<close> by simp
  qed
qed

lemma confirm_rows_log:
  "\<exists>es. cf_log (foldl (\<lambda>d m. fst (confirm_row d m actor now)) db ms) = cf_log db @ es"
proof (induction ms arbitrary: db)
  case (Cons m ms)
  obtain es where "cf_log (fst (confirm_row db m actor now)) = cf_log db @ es" using confirm_row_log by blast
  moreover obtain fs where "cf_log (foldl (\<lambda>d m. fst (confirm_row d m actor now)) (fst (confirm_row db m actor now)) ms)
      = cf_log (fst (confirm_row db m actor now)) @ fs"
    using Cons.IH by blast
  ultimately show ?case by simp
qed simp

lemma confirm_rows_path:
  "\<forall>m \<in> set ms. am_account m \<noteq> i \<Longrightarrow> confirmed_path i db (foldl (\<lambda>d m. fst (confirm_row d m actor now)) db ms)"
proof (induction ms arbitrary: db)
  case (Cons m ms)
  have "confirmed_path i db (fst (confirm_row db m actor now))" using Cons.prems by (intro confirm_row_path) simp
  moreover have "confirmed_path i (fst (confirm_row db m actor now))
      (foldl (\<lambda>d m. fst (confirm_row d m actor now)) (fst (confirm_row db m actor now)) ms)"
    by (rule Cons.IH) (use Cons.prems in simp)
  ultimately show ?case by (simp add: confirmed_path_trans)
qed (simp add: confirmed_path_refl)

lemma confirm_all_path:
  assumes "confirm_all_suggestions db actor now = (db', n)" and "config_inv db"
  shows "confirmed_path i db db'"
proof -
  let ?rows = "filter (\<lambda>m. am_status m = Suggested) (cf_maps db)"
  let ?db = "foldl (\<lambda>d m. fst (confirm_row d m actor now)) db ?rows"
  have "confirmed_path i db ?db"
  proof (cases "\<exists>m. map_of_account db i = Some m \<and> am_status m = Confirmed")
    case True
    then obtain m where m: "map_of_account db i = Some m" "am_status m = Confirmed" by blast
    have inj: "inj_on am_account (set (cf_maps db))"
      using assms(2) by (simp add: config_inv_def maps_ok_def distinct_map)
    have "\<forall>x \<in> set ?rows. am_account x \<noteq> i"
    proof
      fix x assume x: "x \<in> set ?rows"
      have "x = m" if "am_account x = i"
        by (rule inj_onD [OF inj]) (use that x map_of_account_Some [OF m(1)] in auto)
      then show "am_account x \<noteq> i" using x m(2) by auto
    qed
    then show ?thesis by (rule confirm_rows_path)
  next
    case False
    obtain es where "cf_log ?db = cf_log db @ es" using confirm_rows_log by blast
    then show ?thesis by (rule confirmed_pathI) (use False in blast)
  qed
  then show ?thesis using assms(1) by (simp add: confirm_all_suggestions_def Let_def)
qed

lemma config_step_path:
  assumes "config_step re db db'" and "config_inv db"
  shows "confirmed_path i db db'"
  using assms(1)
proof (cases rule: config_step.cases)
  case (cs_create k code name digit order actor row)
  then show ?thesis
    by (auto simp: create_division_def Let_def config_note_def split: if_split_asm sum.split_asm intro: confirmed_path_same)
next
  case (cs_update k name' digit clear order' actor row)
  then show ?thesis
    by (auto simp: update_division_def Let_def config_note_def put_division_def
        split: if_split_asm sum.split_asm option.split_asm intro: confirmed_path_same)
next
  case (cs_retire k actor row)
  then show ?thesis
    by (auto simp: deactivate_division_def Let_def config_note_def put_division_def
        split: if_split_asm option.split_asm intro: confirmed_path_same confirmed_path_refl)
next
  case (cs_seed new_id actor n)
  then show ?thesis using seed_path [of i db new_id actor] by simp
next
  case (cs_rename k name actor category)
  then show ?thesis
    by (auto simp: rename_cost_category_def Let_def config_note_def put_category_def
        split: if_split_asm option.split_asm intro: confirmed_path_same)
next
  case (cs_retire_category k actor category)
  then show ?thesis
    by (auto simp: deactivate_cost_category_def Let_def config_note_def put_category_def
        split: if_split_asm option.split_asm intro: confirmed_path_same confirmed_path_refl)
next
  case (cs_map k account d c in_job_cost confirm actor now m)
  show ?thesis by (rule set_account_map_path [OF cs_map])
next
  case (cs_confirm account actor now m)
  then obtain row where row: "map_of_account db account = Some row" "confirm_row db row actor now = (db', m)"
    by (auto simp: confirm_account_map_def split: option.split_asm)
  have "am_account row \<noteq> i \<or> map_of_account db i = Some row" using row(1) map_of_account_Some [OF row(1)] by auto
  then show ?thesis using confirm_row_path [of row i db actor now] row(2) by simp
next
  case (cs_confirm_all actor now n)
  show ?thesis by (rule confirm_all_path [OF cs_confirm_all assms(2)])
next
  case (cs_suggest new_category new_map actor counts)
  show ?thesis by (rule suggest_path [OF cs_suggest(1)])
next
  case (cs_load new_category new_division ds rs actor n)
  show ?thesis by (rule load_suggest_rules_path [OF cs_load(1)])
next
  case (cs_chart new_account records present actor chart_n)
  then show ?thesis using apply_chart_path [of i db new_account records present actor] by simp
qed

section \<open>The properties\<close>


definition ex_engine :: regex_engine where
  "ex_engine = \<lparr>re_compiles = (\<lambda>p. p \<noteq> ''(''), re_fullmatch = (\<lambda>p no. p = ''.*'' \<or> p = no)\<rparr>"

definition ex_config0 :: config_db where
  "ex_config0 = \<lparr>cf_divisions = [], cf_categories = [], cf_accounts = [], cf_maps = [], cf_rules = [], cf_log = []\<rparr>"

definition ex_chart :: "chart_record list" where
  "ex_chart = [\<lparr>cd_id = 900, cd_external_id = ''4530'', cd_version = 1, cd_account_no = Some ''4530'',
     cd_account_name = Some ''Materials'', cd_ledger_type = Some ''Cost of Goods Sold''\<rparr>]"

definition ex_code_id :: "string \<Rightarrow> uuid" where
  "ex_code_id s = (if s = ''4530'' then 0 else Suc (to_nat s))"

lemma ex_code_id_inj: "inj ex_code_id"
  by (rule injI) (simp add: ex_code_id_def split: if_split_asm)

definition ex_config1 :: config_db where
  "ex_config1 = fst (apply_chart ex_code_id ex_chart None ex_config0 None)"

definition ex_config2 :: config_db where
  "ex_config2 = (case set_account_map ex_config1 50 (ex_code_id ''4530'') None None True True (Some 7) 1000 of
     Inl _ \<Rightarrow> ex_config1 | Inr (db, _) \<Rightarrow> db)"

definition ex_config3 :: config_db where
  "ex_config3 = (case set_account_map ex_config2 51 (ex_code_id ''4530'') None None False False (Some 8) 2000 of
     Inl _ \<Rightarrow> ex_config2 | Inr (db, _) \<Rightarrow> db)"

lemma made_by: "\<not> isl r \<Longrightarrow> \<exists>row. r = Inr (case r of Inl _ \<Rightarrow> db | Inr (db', _) \<Rightarrow> db', row)"
  by (cases r) auto

lemma ex_config_reach:
  "reachable_from config_start (config_step ex_engine) ex_config2"
  "config_step ex_engine ex_config2 ex_config3"
proof -
  have "config_step ex_engine ex_config0 ex_config1"
    by (rule cs_chart [of ex_code_id ex_chart None _ None _ "snd (apply_chart ex_code_id ex_chart None ex_config0 None)"])
      (simp_all add: ex_config1_def fresh_def ex_code_id_inj ex_config0_def)
  moreover have "\<not> isl (set_account_map ex_config1 50 (ex_code_id ''4530'') None None True True (Some 7) 1000)"
    by code_simp
  then have "config_step ex_engine ex_config1 ex_config2"
    unfolding ex_config2_def by (elim exE [OF made_by]) (rule cs_map)
  moreover have "reachable_from config_start (config_step ex_engine) ex_config0"
    by (rule reach_start) (simp add: config_start_def ex_config0_def)
  ultimately show "reachable_from config_start (config_step ex_engine) ex_config2" by (blast intro: reach_step)
  have "\<not> isl (set_account_map ex_config2 51 (ex_code_id ''4530'') None None False False (Some 8) 2000)"
    by code_simp
  then show "config_step ex_engine ex_config2 ex_config3"
    unfolding ex_config3_def by (elim exE [OF made_by]) (rule cs_map)
qed


text \<open>
  C21: a confirmed mapping is never taken back. Whatever happens after a reachable configuration in
  which the mapping of an account is confirmed (another pass of the rules, a new chart, an account
  that becomes inactive, a retired division), the account keeps that row and it stays confirmed; and
  if it says anything else than before, the audit log has gained a row of a person's set or confirm
  that names it and holds what it said.
\<close>

theorem confirmed_map_changed_by:
  assumes "reachable_from config_start (config_step re) db" and "(config_step re)\<^sup>*\<^sup>* db db'"
    and "map_of_account db i = Some m" and "am_status m = Confirmed"
  shows "\<exists>es m'. cf_log db' = cf_log db @ es \<and> map_of_account db' i = Some m' \<and> am_status m' = Confirmed
    \<and> am_id m' = am_id m \<and> (m' = m \<or> (\<exists>e \<in> set es. map_audited m e))"
proof -
  have "config_inv db" by (rule config_machine.reachable_inv [OF assms(1)])
  have "confirmed_path i db db'"
    using assms(2)
  proof (induction rule: rtranclp_induct)
    case base
    show ?case by (rule confirmed_path_refl)
  next
    case (step db1 db2)
    have "config_inv db1" by (rule config_machine.steps_inv [OF \<open>config_inv db\<close> step(1)])
    from confirmed_path_trans [OF step.IH config_step_path [OF step(2) this]] show ?case .
  qed
  then show ?thesis using assms(3,4) unfolding confirmed_path_def by blast
qed

definition ex_confirmed :: map_row where
  "ex_confirmed = hd (cf_maps ex_config2)"

theorem confirmed_map_changed_by_witness:
  "am_in_job_cost ex_confirmed \<and> (\<exists>es m'. cf_log ex_config3 = cf_log ex_config2 @ es \<and> map_of_account ex_config3 0 = Some m'
    \<and> am_status m' = Confirmed \<and> am_id m' = am_id ex_confirmed
    \<and> (m' = ex_confirmed \<or> (\<exists>e \<in> set es. map_audited ex_confirmed e)))"
proof
  show "am_in_job_cost ex_confirmed" by code_simp
  have "map_of_account ex_config2 0 = Some ex_confirmed" "am_status ex_confirmed = Confirmed" by code_simp+
  then show "\<exists>es m'. cf_log ex_config3 = cf_log ex_config2 @ es \<and> map_of_account ex_config3 0 = Some m'
    \<and> am_status m' = Confirmed \<and> am_id m' = am_id ex_confirmed
    \<and> (m' = ex_confirmed \<or> (\<exists>e \<in> set es. map_audited ex_confirmed e))"
    by (rule confirmed_map_changed_by [OF ex_config_reach(1) r_into_rtranclp [of "config_step ex_engine", OF ex_config_reach(2)]])
qed

lemma compile_all_bad:
  "x \<in> set rs \<Longrightarrow> sr_active x \<Longrightarrow> sr_from_digit x = Some d \<Longrightarrow> d < 1 \<Longrightarrow> \<exists>e. compile_all re rs = Inl e"
  by (induction rs) (auto split: option.split sum.split)

lemma load_rules_each:
  "load_rules re divisions categories rs = Inr rows \<Longrightarrow> r \<in> set rs
    \<Longrightarrow> \<exists>row \<in> set rows. load_rule re divisions categories r = Inr row"
  by (induction rs arbitrary: rows) (auto split: sum.split_asm)

text \<open>
  C38: a load that accepts a rule whose digit position is below one leaves a configuration in which
  no suggestion can be made: every later pass over the accounts fails while compiling the rules. (The
  load is meant to refuse a bad rule and name it; it checks the pattern, not the position.)
\<close>

theorem loaded_rule_stops_suggest:
  assumes "load_suggest_rules re new_category new_division db ds rs actor = Inr (db', n)" and "r \<in> set rs"
    and "sp_from_digit r = Some d" and "d < 1"
  shows "\<exists>e. suggest re new_category' new_map db' actor' = Inl e"
proof -
  have "\<exists>divisions categories. load_rules re divisions categories rs = Inr (cf_rules db')"
    using assms(1)
    by (auto simp: load_suggest_rules_def Let_def config_note_def split: sum.split_asm if_split_asm) (intro exI, assumption)
  then obtain divisions categories where l: "load_rules re divisions categories rs = Inr (cf_rules db')" by blast
  obtain row where row: "row \<in> set (cf_rules db')" "load_rule re divisions categories r = Inr row"
    using load_rules_each [OF l assms(2)] by blast
  have "sr_active row \<and> sr_from_digit row = Some d"
    using row(2) assms(3) by (auto simp: load_rule_def Let_def split: if_split_asm sum.split_asm)
  then have "\<exists>e. compile_rules re (cf_rules db') = Inl e"
    unfolding compile_rules_def using row(1) assms(4) by (intro compile_all_bad [of row]) simp_all
  then show ?thesis by (auto simp: suggest_def Let_def)
qed

definition ex_bad_rule :: spec_rule where
  "ex_bad_rule = \<lparr>sp_name = Some ''by digit'', sp_order = 1, sp_pattern = Some ''.*'', sp_division = None,
     sp_from_digit = Some 0, sp_category = None, sp_from_slot = True, sp_in_job_cost = True\<rparr>"

definition ex_slot_id :: "string \<Rightarrow> uuid" where
  "ex_slot_id s = parse_nat s"

definition ex_config_bad :: config_db where
  "ex_config_bad = (case load_suggest_rules ex_engine ex_slot_id ex_slot_id ex_config1 [] [ex_bad_rule] None of
     Inl _ \<Rightarrow> ex_config1 | Inr (db, _) \<Rightarrow> db)"

theorem loaded_rule_stops_suggest_witness:
  "\<exists>e. suggest ex_engine ex_slot_id Suc ex_config_bad None = Inl e"
proof -
  have "\<not> isl (load_suggest_rules ex_engine ex_slot_id ex_slot_id ex_config1 [] [ex_bad_rule] None)" by code_simp
  then obtain n where "load_suggest_rules ex_engine ex_slot_id ex_slot_id ex_config1 [] [ex_bad_rule] None = Inr (ex_config_bad, n)"
    unfolding ex_config_bad_def by (elim exE [OF made_by])
  then show ?thesis
    by (rule loaded_rule_stops_suggest [of _ _ _ _ _ _ _ _ _ ex_bad_rule 0]) (simp_all add: ex_bad_rule_def)
qed

end
