(* ===== verification/CostFigures.thy ===== *)
theory CostFigures
  imports BillingFigures ChartConfig ExceptionRegistry
begin

text \<open>
  The cost figures: \<open>app/domain/cost/figures.py\<close>, and the reads of \<open>load.py\<close> that turn the ledger
  lines, the chart of accounts with its confirmed mappings and the WIP basis into their inputs. A
  line is one of five parts; cost to date, the unassigned documents, labor in the ledger, the tie-out
  and the division mismatches are sums over them.
\<close>

section \<open>Accounts and lines\<close>

record account_in =
  ai_key :: string
  ai_gl_account :: "uuid option"
  ai_no :: "string option"
  ai_name :: "string option"
  ai_in_chart :: bool
  ai_mapped :: bool
  ai_in_job_cost :: bool
  ai_slot :: "string option"
  ai_category :: "string option"
  ai_division :: "uuid option"
  ai_division_code :: "string option"
  ai_division_name :: "string option"
  ai_words :: "string option"

record cost_line =
  cl_id :: uuid
  cl_type :: string
  cl_txn :: string
  cl_line :: string
  cl_no :: int
  cl_doc :: "string option"
  cl_date :: date
  cl_account :: string
  cl_vendor :: "string option"
  cl_customer :: "string option"
  cl_job :: "uuid option"
  cl_amount :: cents
  cl_description :: "string option"
  cl_memo :: "string option"
  cl_deleted :: bool

record cost_policy =
  cp_basis :: "string set option"
  cp_categories :: "(string \<times> string) list"

datatype cost_part = On_jobs | Memo_part | Unassigned_part | Labor_part | Outside_part

definition labor_slots :: "string set" where
  "labor_slots = {''10'', ''20''}"

definition no_account :: string where
  "no_account = []"

definition labor :: "account_in \<Rightarrow> bool" where
  "labor a \<longleftrightarrow> ai_mapped a \<and> (case ai_slot a of None \<Rightarrow> False | Some s \<Rightarrow> s \<in> labor_slots)"

definition job_cost_account :: "account_in \<Rightarrow> bool" where
  "job_cost_account a \<longleftrightarrow> ai_mapped a \<and> ai_in_job_cost a \<and> \<not> labor a"

definition text_or :: "string option \<Rightarrow> string" where
  "text_or t = (case t of None \<Rightarrow> [] | Some s \<Rightarrow> s)"

definition account_label :: "account_in \<Rightarrow> string" where
  "account_label a =
     (if ai_key a = no_account then ''No account''
      else if \<not> ai_in_chart a
      then ''Not in the chart: '' @ (if text_or (ai_words a) = [] then ''QuickBooks account '' @ ai_key a else text_or (ai_words a))
      else join_space (filter (\<lambda>p. p \<noteq> []) [text_or (ai_no a), text_or (ai_name a)]))"

definition account_sort_key :: "account_in \<Rightarrow> nat \<times> string \<times> string" where
  "account_sort_key a = ((if ai_in_chart a then 0 else 1), text_or (ai_no a), ai_key a)"

definition no_account_in :: account_in where
  "no_account_in = \<lparr>ai_key = no_account, ai_gl_account = None, ai_no = None, ai_name = None, ai_in_chart = False,
     ai_mapped = False, ai_in_job_cost = False, ai_slot = None, ai_category = None, ai_division = None,
     ai_division_code = None, ai_division_name = None, ai_words = None\<rparr>"

definition account_of :: "cost_line \<Rightarrow> (string, account_in) dict \<Rightarrow> account_in" where
  "account_of l accounts = dict_get accounts (cl_account l) no_account_in"

text \<open>\<open>CostPolicy.in_basis\<close>: \<open>None\<close> while the basis is not decided.\<close>

definition in_basis :: "cost_policy \<Rightarrow> string option \<Rightarrow> bool option" where
  "in_basis p slot = (case cp_basis p of
     None \<Rightarrow> None | Some b \<Rightarrow> Some (case slot of None \<Rightarrow> False | Some s \<Rightarrow> s \<in> b))"

definition part_of :: "cost_line \<Rightarrow> account_in \<Rightarrow> cost_policy \<Rightarrow> cost_part option" where
  "part_of l a p =
     (if cl_deleted l then None
      else if labor a then Some Labor_part
      else if \<not> job_cost_account a then Some Outside_part
      else if cl_job l = None then Some Unassigned_part
      else if in_basis p (ai_slot a) = Some False then Some Memo_part
      else Some On_jobs)"

abbreviation line_part :: "(string, account_in) dict \<Rightarrow> cost_policy \<Rightarrow> cost_line \<Rightarrow> cost_part option" where
  "line_part accounts p l \<equiv> part_of l (account_of l accounts) p"

section \<open>Cost to date on a job\<close>

record category_cost =
  kc_slot :: string
  kc_name :: string
  kc_amount :: cents
  kc_in_basis :: "bool option"

record job_cost =
  jc_by_category :: "category_cost list"
  jc_in_basis :: "cents option"
  jc_memo :: cents
  jc_lines :: nat
  jc_basis_decided :: bool

definition jc_total :: "job_cost \<Rightarrow> cents" where
  "jc_total c = (\<Sum>k \<leftarrow> jc_by_category c. kc_amount k)"

text \<open>The lines the loop counts, with the slot each is added under.\<close>

definition counted_line :: "(string, account_in) dict \<Rightarrow> date \<Rightarrow> cost_line \<Rightarrow> bool" where
  "counted_line accounts as_of l \<longleftrightarrow> \<not> (cl_deleted l \<or> \<not> job_cost_account (account_of l accounts)
     \<or> as_of < cl_date l \<or> ai_slot (account_of l accounts) = None)"

definition slot_entries :: "(string, account_in) dict \<Rightarrow> date \<Rightarrow> cost_line list \<Rightarrow> (string \<times> cents) list" where
  "slot_entries accounts as_of lines =
     map (\<lambda>l. (text_or (ai_slot (account_of l accounts)), cl_amount l)) (filter (counted_line accounts as_of) lines)"

definition job_cost_of ::
  "cost_line list \<Rightarrow> (string, account_in) dict \<Rightarrow> cost_policy \<Rightarrow> date \<Rightarrow> job_cost" where
  "job_cost_of lines accounts p as_of =
     (let amounts = dict_add_all [] (slot_entries accounts as_of lines);
          rows = map (\<lambda>(slot, name). \<lparr>kc_slot = slot, kc_name = name, kc_amount = dict_at amounts slot,
            kc_in_basis = in_basis p (Some slot)\<rparr>) (cp_categories p);
          decided = cp_basis p \<noteq> None
      in \<lparr>jc_by_category = rows,
        jc_in_basis = (if decided then Some (\<Sum>k \<leftarrow> filter (\<lambda>k. kc_in_basis k = Some True) rows. kc_amount k) else None),
        jc_memo = (\<Sum>k \<leftarrow> filter (\<lambda>k. kc_in_basis k = Some False) rows. kc_amount k),
        jc_lines = length (filter (counted_line accounts as_of) lines),
        jc_basis_decided = decided\<rparr>)"

section \<open>Unassigned, by document\<close>

record unassigned_doc =
  ud_type :: string
  ud_txn :: string
  ud_doc :: "string option"
  ud_date :: date
  ud_vendor :: "string option"
  ud_customer :: "string option"
  ud_labels :: "string list"
  ud_numbers :: "string list"
  ud_amount :: cents
  ud_lines :: nat

definition document_name :: "string option \<Rightarrow> string \<Rightarrow> string" where
  "document_name no txn = (if text_or no = [] then ''QuickBooks id '' @ txn else text_or no)"

definition ud_document :: "unassigned_doc \<Rightarrow> string" where
  "ud_document d = document_name (ud_doc d) (ud_txn d)"

definition doc_key :: "cost_line \<Rightarrow> string \<times> string \<times> string option" where
  "doc_key l = (cl_type l, cl_txn l, cl_customer l)"

text \<open>The labels in the order they are met, each with the number of its first account.\<close>

definition add_label :: "string list \<times> string list \<Rightarrow> account_in \<Rightarrow> string list \<times> string list" where
  "add_label st a = (case st of (labels, numbers) \<Rightarrow>
     if account_label a \<in> set labels then (labels, numbers)
     else (labels @ [account_label a], numbers @ [if text_or (ai_no a) = [] then ai_key a else text_or (ai_no a)]))"

definition unassigned_row ::
  "(string \<times> string \<times> string option) \<times> (cost_line \<times> account_in) list \<Rightarrow> unassigned_doc" where
  "unassigned_row g = (case g of ((txn_type, txn, customer), rows) \<Rightarrow>
     (let names = foldl add_label ([], []) (map snd rows); l = fst (hd rows) in
      \<lparr>ud_type = txn_type, ud_txn = txn, ud_doc = cl_doc l, ud_date = cl_date l, ud_vendor = cl_vendor l,
       ud_customer = customer, ud_labels = fst names, ud_numbers = snd names,
       ud_amount = (\<Sum>r \<leftarrow> rows. cl_amount (fst r)), ud_lines = length rows\<rparr>))"

definition unassigned_entries ::
  "cost_line list \<Rightarrow> (string, account_in) dict \<Rightarrow> cost_policy
    \<Rightarrow> ((string \<times> string \<times> string option) \<times> (cost_line \<times> account_in)) list" where
  "unassigned_entries lines accounts p = map (\<lambda>l. (doc_key l, (l, account_of l accounts)))
     (filter (\<lambda>l. line_part accounts p l = Some Unassigned_part) lines)"

definition unassigned_documents ::
  "cost_line list \<Rightarrow> (string, account_in) dict \<Rightarrow> cost_policy \<Rightarrow> unassigned_doc list" where
  "unassigned_documents lines accounts p =
     sort_key (\<lambda>d. (ud_date d, ud_type d, ud_txn d, text_or (ud_customer d)))
       (map unassigned_row (dict_group (unassigned_entries lines accounts p)))"

section \<open>Labor in the ledger\<close>

record labor_row =
  lb_month :: string
  lb_code :: "string option"
  lb_name :: "string option"
  lb_amount :: cents

definition labor_entries ::
  "cost_line list \<Rightarrow> (string, account_in) dict \<Rightarrow> cost_policy \<Rightarrow> ((string \<times> string option \<times> string option) \<times> cents) list" where
  "labor_entries lines accounts p = map (\<lambda>l. ((month_key (cl_date l), ai_division_code (account_of l accounts),
       ai_division_name (account_of l accounts)), cl_amount l))
     (filter (\<lambda>l. line_part accounts p l = Some Labor_part) lines)"

definition labor_in_ledger :: "cost_line list \<Rightarrow> (string, account_in) dict \<Rightarrow> cost_policy \<Rightarrow> labor_row list" where
  "labor_in_ledger lines accounts p =
     map (\<lambda>((m, code, name), amount). \<lparr>lb_month = m, lb_code = code, lb_name = name, lb_amount = amount\<rparr>)
       (sort_key (\<lambda>((m, code, name), amount). (m, text_or code)) (dict_add_all [] (labor_entries lines accounts p)))"

section \<open>The tie-out\<close>

text \<open>The cell of one month and account: \<open>dict.fromkeys((*PARTS, "total"), ZERO)\<close>.\<close>

record tie_cell =
  ce_on_jobs :: cents
  ce_memo :: cents
  ce_unassigned :: cents
  ce_labor :: cents
  ce_outside :: cents
  ce_total :: cents

definition empty_cell :: tie_cell where
  "empty_cell = \<lparr>ce_on_jobs = 0, ce_memo = 0, ce_unassigned = 0, ce_labor = 0, ce_outside = 0, ce_total = 0\<rparr>"

definition cell_add :: "cost_part \<Rightarrow> cents \<Rightarrow> tie_cell \<Rightarrow> tie_cell" where
  "cell_add part v c =
     (let c' = (case part of On_jobs \<Rightarrow> c\<lparr>ce_on_jobs := ce_on_jobs c + v\<rparr>
        | Memo_part \<Rightarrow> c\<lparr>ce_memo := ce_memo c + v\<rparr>
        | Unassigned_part \<Rightarrow> c\<lparr>ce_unassigned := ce_unassigned c + v\<rparr>
        | Labor_part \<Rightarrow> c\<lparr>ce_labor := ce_labor c + v\<rparr>
        | Outside_part \<Rightarrow> c\<lparr>ce_outside := ce_outside c + v\<rparr>)
      in c'\<lparr>ce_total := ce_total c' + v\<rparr>)"

record tie_row = tie_cell +
  ti_month :: string
  ti_account :: account_in

definition ti_parts :: "tie_row \<Rightarrow> cents" where
  "ti_parts r = ce_on_jobs r + ce_memo r + ce_unassigned r + ce_labor r + ce_outside r"

definition ti_difference :: "tie_row \<Rightarrow> cents" where
  "ti_difference r = ti_parts r - ce_total r"

definition balanced :: "tie_row \<Rightarrow> bool" where
  "balanced r \<longleftrightarrow> ti_difference r = 0"

definition tie_add ::
  "(string, account_in) dict \<Rightarrow> cost_policy \<Rightarrow> (string \<times> string, tie_cell) dict \<Rightarrow> cost_line
    \<Rightarrow> (string \<times> string, tie_cell) dict" where
  "tie_add accounts p sums l = (case line_part accounts p l of
     None \<Rightarrow> sums
   | Some part \<Rightarrow> (let k = (month_key (cl_date l), ai_key (account_of l accounts))
       in AList.update k (cell_add part (cl_amount l) (dict_get sums k empty_cell)) sums))"

definition cell_row :: "(string, account_in) dict \<Rightarrow> (string \<times> string) \<times> tie_cell \<Rightarrow> tie_row" where
  "cell_row accounts kc = (case kc of ((m, k), c) \<Rightarrow>
     tie_cell.extend c \<lparr>ti_month = m, ti_account = dict_get accounts k no_account_in, \<dots> = ()\<rparr>)"

definition tie_out :: "cost_line list \<Rightarrow> (string, account_in) dict \<Rightarrow> cost_policy \<Rightarrow> tie_row list" where
  "tie_out lines accounts p =
     sort_key (\<lambda>r. (ti_month r, account_sort_key (ti_account r)))
       (map (cell_row accounts) (foldl (tie_add accounts p) [] lines))"

datatype tie_status = Nothing_to_tie | Does_not_tie nat nat | Ties nat nat nat

text \<open>\<open>Ties months accounts skipped\<close>: ties to the cent, with so many payloads that could not be read.\<close>

definition tie_out_status :: "tie_row list \<Rightarrow> nat \<Rightarrow> tie_status" where
  "tie_out_status rows skipped =
     (if rows = [] then Nothing_to_tie
      else (let off = filter (\<lambda>r. \<not> balanced r) rows in
        if off \<noteq> [] then Does_not_tie (length off) (length rows)
        else Ties (card (ti_month ` set rows)) (card ((\<lambda>r. ai_key (ti_account r)) ` set rows)) skipped))"

section \<open>Division mismatches\<close>

record division_mismatch =
  dm_type :: string
  dm_txn :: string
  dm_doc :: "string option"
  dm_job :: uuid
  dm_amount :: cents
  dm_label :: string
  dm_no :: "string option"
  dm_account_division :: string
  dm_job_division :: string

type_synonym job_divisions = "(uuid, uuid option \<times> string) dict"

definition dm_document :: "division_mismatch \<Rightarrow> string" where
  "dm_document m = document_name (dm_doc m) (dm_txn m)"

text \<open>The job of a line whose account's division is not the job's, both set.\<close>

definition mismatched :: "(string, account_in) dict \<Rightarrow> job_divisions \<Rightarrow> cost_line \<Rightarrow> uuid option" where
  "mismatched accounts divisions l =
     (let a = account_of l accounts in
      if cl_deleted l \<or> \<not> job_cost_account a \<or> cl_job l = None \<or> ai_division a = None then None
      else (case cl_job l of
        None \<Rightarrow> None
      | Some j \<Rightarrow> (case map_of divisions j of
          None \<Rightarrow> None
        | Some (d, _) \<Rightarrow> if d = None \<or> d = ai_division a then None else Some j)))"

definition mismatch_entries ::
  "cost_line list \<Rightarrow> (string, account_in) dict \<Rightarrow> job_divisions
    \<Rightarrow> ((string \<times> string \<times> uuid \<times> string) \<times> (cost_line \<times> account_in)) list" where
  "mismatch_entries lines accounts divisions = List.map_filter
     (\<lambda>l. map_option (\<lambda>j. ((cl_type l, cl_txn l, j, ai_key (account_of l accounts)), (l, account_of l accounts)))
       (mismatched accounts divisions l)) lines"

definition mismatch_row ::
  "job_divisions \<Rightarrow> (string \<times> string \<times> uuid \<times> string) \<times> (cost_line \<times> account_in) list \<Rightarrow> division_mismatch" where
  "mismatch_row divisions g = (case g of ((txn_type, txn, job, _), rows) \<Rightarrow>
     (case hd rows of (l, a) \<Rightarrow>
       \<lparr>dm_type = txn_type, dm_txn = txn, dm_doc = cl_doc l, dm_job = job,
        dm_amount = (\<Sum>r \<leftarrow> rows. cl_amount (fst r)), dm_label = account_label a, dm_no = ai_no a,
        dm_account_division = (if text_or (ai_division_name a) = [] then text_or (ai_division_code a)
          else text_or (ai_division_name a)),
        dm_job_division = snd (dict_get divisions job (None, []))\<rparr>))"

definition division_mismatches ::
  "cost_line list \<Rightarrow> (string, account_in) dict \<Rightarrow> job_divisions \<Rightarrow> division_mismatch list" where
  "division_mismatches lines accounts divisions =
     sort_key (\<lambda>m. (dm_type m, dm_txn m, dm_job m))
       (map (mismatch_row divisions) (dict_group (mismatch_entries lines accounts divisions)))"

section \<open>The view of the cost lines of jobs\<close>

record job_cost_line =
  jl_basis :: string
  jl_job :: uuid
  jl_date :: date
  jl_account :: string
  jl_slot :: "string option"
  jl_amount :: cents
  jl_source :: string

definition gl_direct :: string where
  "gl_direct = ''gl_direct''"

definition job_cost_lines ::
  "cost_line list \<Rightarrow> (string, account_in) dict \<Rightarrow> cost_policy \<Rightarrow> job_cost_line list" where
  "job_cost_lines lines accounts p = List.map_filter (\<lambda>l.
     if line_part accounts p l \<in> {Some On_jobs, Some Memo_part}
     then map_option (\<lambda>j. \<lparr>jl_basis = gl_direct, jl_job = j, jl_date = cl_date l, jl_account = cl_account l,
       jl_slot = ai_slot (account_of l accounts), jl_amount = cl_amount l,
       jl_source = cl_type l @ '' '' @ cl_txn l @ '' line '' @ int_str (cl_no l)\<rparr>) (cl_job l)
     else None) lines"

section \<open>What is read\<close>

text \<open>
  The accounts a line can name: the accounts of the chart with a QuickBooks id, and the QuickBooks
  accounts of an expense type the chart does not hold, from their raw records.
\<close>

record raw_account =
  ra_type :: "string option"
  ra_number :: "string option"
  ra_name :: "string option"
  ra_active :: bool

definition expense_side_types :: "string set" where
  "expense_side_types = {''Cost of Goods Sold'', ''Expense'', ''Expenses''}"

definition confirmed_map :: "config_db \<Rightarrow> uuid \<Rightarrow> map_row option" where
  "confirmed_map db i = List.find (\<lambda>m. am_account m = i) (filter (\<lambda>m. am_status m = Confirmed) (cf_maps db))"

definition chart_account :: "config_db \<Rightarrow> account_row \<Rightarrow> string \<Rightarrow> account_in" where
  "chart_account db a ext =
     (let m = confirmed_map db (ga_id a);
          d = Option.bind m (\<lambda>m. Option.bind (am_division m) (find_division db));
          c = Option.bind m (\<lambda>m. Option.bind (am_category m) (find_category db))
      in \<lparr>ai_key = ext, ai_gl_account = Some (ga_id a), ai_no = Some (ga_no a), ai_name = Some (ga_name a),
        ai_in_chart = True, ai_mapped = (m \<noteq> None),
        ai_in_job_cost = (case m of None \<Rightarrow> False | Some m \<Rightarrow> am_in_job_cost m),
        ai_slot = map_option cc_slot c, ai_category = map_option cc_name c,
        ai_division = map_option dv_id d, ai_division_code = map_option dv_code d,
        ai_division_name = map_option dv_name d, ai_words = None\<rparr>)"

definition some_text :: "string \<Rightarrow> string option" where
  "some_text s = (if s = [] then None else Some s)"

definition outside_account :: "string \<Rightarrow> raw_account \<Rightarrow> account_in" where
  "outside_account key r = \<lparr>ai_key = key, ai_gl_account = None, ai_no = ra_number r, ai_name = ra_name r,
     ai_in_chart = False, ai_mapped = False, ai_in_job_cost = False, ai_slot = None, ai_category = None,
     ai_division = None, ai_division_code = None, ai_division_name = None,
     ai_words = some_text (join_space (filter (\<lambda>p. p \<noteq> []) [text_or (ra_number r), text_or (ra_name r)]))\<rparr>"

definition load_accounts :: "config_db \<Rightarrow> (string, raw_account) dict \<Rightarrow> (string, account_in) dict" where
  "load_accounts db raws =
     (let chart = foldl (\<lambda>out a. case ga_external_id a of None \<Rightarrow> out
            | Some ext \<Rightarrow> AList.update ext (chart_account db a ext) out) [] (cf_accounts db)
      in foldl (\<lambda>out (key, r). if map_of out key \<noteq> None \<or> (case ra_type r of None \<Rightarrow> True | Some t \<Rightarrow> t \<notin> expense_side_types)
          then out else AList.update key (outside_account key r) out) chart raws)"

text \<open>The categories are the active ones, seeded on the first read; the basis is the decided policy.\<close>

definition load_policy :: "(string \<Rightarrow> uuid) \<Rightarrow> config_db \<Rightarrow> string list option \<Rightarrow> config_db \<times> cost_policy" where
  "load_policy new_id db0 wip_basis = (let db = fst (ensure_cost_categories new_id db0) in
     (db, \<lparr>cp_basis = map_option set wip_basis,
       cp_categories = map (\<lambda>c. (cc_slot c, cc_name c)) (sort_key cc_sort (filter cc_active (cf_categories db)))\<rparr>))"

definition load_lines :: "cost_line list \<Rightarrow> uuid list option \<Rightarrow> cost_line list" where
  "load_lines held jobs =
     sort_key (\<lambda>l. (cl_date l, cl_type l, cl_txn l, cl_no l))
       (case jobs of None \<Rightarrow> held
        | Some js \<Rightarrow> filter (\<lambda>l. case cl_job l of None \<Rightarrow> False | Some j \<Rightarrow> j \<in> set js) held)"

section \<open>The sentences\<close>

definition txn_type_labels :: "(string \<times> string) list" where
  "txn_type_labels = [(''Bill'', ''Bill''), (''VendorCredit'', ''Vendor credit''), (''Purchase'', ''Expense''),
     (''JournalEntry'', ''Journal entry''), (''Deposit'', ''Deposit'')]"

definition document_words :: "string \<Rightarrow> string \<Rightarrow> string" where
  "document_words txn_type doc = dict_get txn_type_labels txn_type txn_type @ '' '' @ doc"

fun join_comma :: "string list \<Rightarrow> string" where
  "join_comma [] = []"
| "join_comma [w] = w"
| "join_comma (w # ws) = w @ '', '' @ join_comma ws"

definition accounts_words :: "string list \<Rightarrow> string" where
  "accounts_words labels = (case labels of [] \<Rightarrow> ''no account'' | [l] \<Rightarrow> l
     | _ \<Rightarrow> join_comma (butlast labels) @ '' and '' @ last labels)"

text \<open>\<open>str(amount)\<close> of an amount of two places, and of a row id.\<close>

definition amount_str :: "cents \<Rightarrow> string" where
  "amount_str a = (if a < 0 then ''-'' else []) @ nat_str (nat \<bar>a\<bar> div 100) @ ''.'' @ pad2 (nat \<bar>a\<bar> mod 100)"

definition hex_digit :: "nat \<Rightarrow> char" where
  "hex_digit k = ''0123456789abcdef'' ! k"

fun hex_str :: "nat \<Rightarrow> string" where
  "hex_str n = (if n < 16 then [hex_digit n] else hex_str (n div 16) @ [hex_digit (n mod 16)])"

declare hex_str.simps [simp del]

definition uuid_str :: "uuid \<Rightarrow> string" where
  "uuid_str i = (let h = hex_str i; d = replicate (32 - length h) CHR ''0'' @ h in
     take 8 d @ ''-'' @ take 4 (drop 8 d) @ ''-'' @ take 4 (drop 12 d) @ ''-'' @ take 4 (drop 16 d)
     @ ''-'' @ drop 20 d)"

definition opt_str :: "string option \<Rightarrow> detail_value" where
  "opt_str t = (case t of None \<Rightarrow> D_none | Some s \<Rightarrow> D_str s)"

definition unassigned_issue :: "unassigned_doc \<Rightarrow> string option \<Rightarrow> bool \<Rightarrow> issue" where
  "unassigned_issue d customer_name customer_known =
     (let quote = [char_of (34 :: nat)];
          place = (if \<not> customer_known then ''no customer''
            else if text_or customer_name \<noteq> [] then quote @ text_or customer_name @ quote @ '', which has no job''
            else ''QuickBooks customer '' @ text_or (ud_customer d) @ '', which has no job'')
      in \<lparr>is_code = ''COST_UNASSIGNED'',
        is_message = document_words (ud_type d) (ud_document d) @ '', '' @ words (ud_amount d) @ '' to ''
          @ accounts_words (ud_labels d) @ '', is coded to '' @ place @ ''.'',
        is_detail = [(''amount'', D_str (amount_str (ud_amount d))), (''account_no'', D_str (join_comma (ud_numbers d))),
          (''txn_type'', D_str (ud_type d)), (''txn_external_id'', D_str (ud_txn d)),
          (''document'', D_str (ud_document d)), (''customer_external_id'', opt_str (ud_customer d)),
          (''lines'', D_int (int (ud_lines d)))]\<rparr>)"

definition division_mismatch_issue :: "division_mismatch \<Rightarrow> issue" where
  "division_mismatch_issue m = \<lparr>is_code = ''COST_DIVISION_MISMATCH'',
     is_message = document_words (dm_type m) (dm_document m) @ '' posts '' @ words (dm_amount m) @ '' to ''
       @ dm_label m @ '' ('' @ dm_account_division m @ '') on a '' @ dm_job_division m @ '' job.'',
     is_detail = [(''amount'', D_str (amount_str (dm_amount m))), (''account_no'', D_str (text_or (dm_no m))),
       (''txn_type'', D_str (dm_type m)), (''txn_external_id'', D_str (dm_txn m)),
       (''document'', D_str (dm_document m)), (''job_id'', D_str (uuid_str (dm_job m)))]\<rparr>"

section \<open>The cost of the jobs and the report\<close>

record job_cost_view =
  jv_cost :: job_cost
  jv_issues :: "issue list"

definition job_costs ::
  "cost_line list \<Rightarrow> (string, account_in) dict \<Rightarrow> cost_policy \<Rightarrow> job_divisions \<Rightarrow> date \<Rightarrow> uuid list
    \<Rightarrow> (uuid \<times> job_cost_view) list" where
  "job_costs lines accounts p divisions as_of jobs =
     (let raised = map (\<lambda>m. (dm_job m, division_mismatch_issue m)) (division_mismatches lines accounts divisions)
      in map (\<lambda>j. (j, \<lparr>jv_cost = job_cost_of (filter (\<lambda>l. cl_job l = Some j) lines) accounts p as_of,
        jv_issues = map snd (filter (\<lambda>r. fst r = j) raised)\<rparr>)) jobs)"

record copy_customer =
  cu_id :: uuid
  cu_name :: string
  cu_tracked :: bool

record unassigned_view =
  uv_doc :: unassigned_doc
  uv_vendor :: "string option"
  uv_customer :: "uuid option"
  uv_name :: "string option"
  uv_tracked :: bool

definition uv_issue :: "unassigned_view \<Rightarrow> issue" where
  "uv_issue v = unassigned_issue (uv_doc v) (uv_name v) (ud_customer (uv_doc v) \<noteq> None)"

definition view_of_doc ::
  "(string, copy_customer) dict \<Rightarrow> (string, string) dict \<Rightarrow> unassigned_doc \<Rightarrow> unassigned_view" where
  "view_of_doc customers vendors d =
     (let c = (if text_or (ud_customer d) = [] then None else map_of customers (text_or (ud_customer d)))
      in \<lparr>uv_doc = d,
        uv_vendor = (if text_or (ud_vendor d) = [] then None else map_of vendors (text_or (ud_vendor d))),
        uv_customer = map_option cu_id c, uv_name = map_option cu_name c,
        uv_tracked = (case c of None \<Rightarrow> False | Some c \<Rightarrow> cu_tracked c)\<rparr>)"

definition unassigned_views ::
  "cost_line list \<Rightarrow> (string, account_in) dict \<Rightarrow> cost_policy \<Rightarrow> (string, copy_customer) dict
    \<Rightarrow> (string, string) dict \<Rightarrow> unassigned_view list" where
  "unassigned_views lines accounts p customers vendors =
     map (view_of_doc customers vendors) (unassigned_documents lines accounts p)"

record cost_report =
  ct_as_of :: date
  ct_policy :: cost_policy
  ct_accounts :: "(string, account_in) dict"
  ct_lines :: "cost_line list"
  ct_tie_out :: "tie_row list"
  ct_unassigned :: "unassigned_view list"
  ct_labor :: "labor_row list"
  ct_held :: nat

definition ct_balanced :: "cost_report \<Rightarrow> bool" where
  "ct_balanced r \<longleftrightarrow> list_all balanced (ct_tie_out r)"

definition make_cost_report ::
  "(string \<Rightarrow> uuid) \<Rightarrow> config_db \<Rightarrow> string list option \<Rightarrow> (string, raw_account) dict \<Rightarrow> cost_line list
    \<Rightarrow> (string, copy_customer) dict \<Rightarrow> (string, string) dict \<Rightarrow> date \<Rightarrow> config_db \<times> cost_report" where
  "make_cost_report new_id db wip_basis raws held customers vendors today =
     (case load_policy new_id db wip_basis of (db', p) \<Rightarrow>
       (let accounts = load_accounts db' raws; lines = load_lines held None in
        (db', \<lparr>ct_as_of = today, ct_policy = p, ct_accounts = accounts, ct_lines = lines,
          ct_tie_out = tie_out lines accounts p,
          ct_unassigned = unassigned_views lines accounts p customers vendors,
          ct_labor = labor_in_ledger lines accounts p,
          ct_held = length (filter (\<lambda>l. \<not> cl_deleted l) held)\<rparr>)))"

end
