(* ===== verification/CostProperties.thy ===== *)
theory CostProperties
  imports CostFigures
begin

text \<open>
  The properties of the cost figures: the tie-out has one balanced row per month and account, the
  other figures are its columns, and the cost to date of a job is the sum of its cost lines in the
  categories that are listed.
\<close>

section \<open>The cells of the tie-out\<close>

definition cell_part :: "cost_part \<Rightarrow> 'a tie_cell_scheme \<Rightarrow> cents" where
  "cell_part part c = (case part of On_jobs \<Rightarrow> ce_on_jobs c | Memo_part \<Rightarrow> ce_memo c
     | Unassigned_part \<Rightarrow> ce_unassigned c | Labor_part \<Rightarrow> ce_labor c | Outside_part \<Rightarrow> ce_outside c)"

definition tie_key :: "(string, account_in) dict \<Rightarrow> cost_line \<Rightarrow> string \<times> string" where
  "tie_key accounts l = (month_key (cl_date l), ai_key (account_of l accounts))"

lemma cell_part_add [simp]:
  "cell_part part (cell_add q v c) = cell_part part c + (if q = part then v else 0)"
  by (cases q; cases part) (simp_all add: cell_part_def cell_add_def Let_def)

lemma cell_total_add [simp]: "ce_total (cell_add q v c) = ce_total c + v"
  by (cases q) (simp_all add: cell_add_def Let_def)

lemma cell_part_empty [simp]: "cell_part part empty_cell = 0" "ce_total empty_cell = 0"
  by (cases part; simp add: cell_part_def empty_cell_def) (simp add: empty_cell_def)

lemma part_of_None: "part_of l a p = None \<longleftrightarrow> cl_deleted l"
  by (simp add: part_of_def)

lemma tie_add_get:
  "dict_get (tie_add accounts p t l) k empty_cell =
    (case line_part accounts p l of
       None \<Rightarrow> dict_get t k empty_cell
     | Some part \<Rightarrow> if tie_key accounts l = k then cell_add part (cl_amount l) (dict_get t k empty_cell)
         else dict_get t k empty_cell)"
  by (auto simp: tie_add_def Let_def dict_get_def map_of_update tie_key_def split: option.split)

lemma tie_fold_part:
  "cell_part part (dict_get (foldl (tie_add accounts p) t ls) k empty_cell) =
    cell_part part (dict_get t k empty_cell)
    + (\<Sum>l \<leftarrow> filter (\<lambda>l. line_part accounts p l = Some part \<and> tie_key accounts l = k) ls. cl_amount l)"
  by (induction ls arbitrary: t) (auto simp: tie_add_get split: option.split)

lemma tie_fold_total:
  "ce_total (dict_get (foldl (tie_add accounts p) t ls) k empty_cell) =
    ce_total (dict_get t k empty_cell)
    + (\<Sum>l \<leftarrow> filter (\<lambda>l. \<not> cl_deleted l \<and> tie_key accounts l = k) ls. cl_amount l)"
proof (induction ls arbitrary: t)
  case (Cons l ls)
  show ?case
  proof (cases "line_part accounts p l")
    case None
    then show ?thesis using Cons.IH [of "tie_add accounts p t l"] part_of_None [of l] by (simp add: tie_add_get)
  next
    case (Some q)
    then have "\<not> cl_deleted l" using part_of_None [of l] by auto
    then show ?thesis using Cons.IH [of "tie_add accounts p t l"] Some by (simp add: tie_add_get)
  qed
qed simp

lemma tie_add_keys:
  "fst ` set (tie_add accounts p t l) = (if cl_deleted l then fst ` set t else insert (tie_key accounts l) (fst ` set t))"
proof (cases "line_part accounts p l")
  case None
  then have "cl_deleted l" using part_of_None by blast
  with None show ?thesis by (simp add: tie_add_def)
next
  case (Some part)
  then have "\<not> cl_deleted l" using part_of_None [of l] by auto
  then show ?thesis
    using dom_update [of "tie_key accounts l" _ t] Some by (simp add: tie_add_def tie_key_def Let_def)
qed

lemma tie_fold_keys:
  "fst ` set (foldl (tie_add accounts p) t ls) = fst ` set t \<union> tie_key accounts ` {l \<in> set ls. \<not> cl_deleted l}"
  by (induction ls arbitrary: t) (auto simp: tie_add_keys)

lemma tie_fold_distinct:
  "distinct (map fst t) \<Longrightarrow> distinct (map fst (foldl (tie_add accounts p) t ls))"
proof (induction ls arbitrary: t)
  case (Cons l ls)
  have "distinct (map fst (tie_add accounts p t l))"
    using Cons.prems by (auto simp: tie_add_def Let_def distinct_update split: option.split)
  then show ?case using Cons.IH by simp
qed simp

section \<open>The accounts that are read\<close>

definition keyed :: "(string, account_in) dict \<Rightarrow> bool" where
  "keyed accounts \<longleftrightarrow> (\<forall>(k, a) \<in> set accounts. ai_key a = k)"

lemma keyed_get: "keyed accounts \<Longrightarrow> ai_key (dict_get accounts k no_account_in) = (if map_of accounts k = None then no_account else k)"
  by (auto simp: keyed_def dict_get_def no_account_in_def split: option.split dest: map_of_SomeD)

lemma set_update_subset: "set (AList.update k v t) \<subseteq> insert (k, v) (set t)"
  by (induction t) auto

lemma keyed_update: "keyed accounts \<Longrightarrow> ai_key a = k \<Longrightarrow> keyed (AList.update k a accounts)"
  using set_update_subset [of k a accounts] by (auto simp: keyed_def)

lemma keyed_fold:
  "(\<And>out x. x \<in> set xs \<Longrightarrow> keyed out \<Longrightarrow> keyed (f out x)) \<Longrightarrow> keyed out \<Longrightarrow> keyed (foldl f out xs)"
  by (induction xs arbitrary: out) simp_all

lemma made_keys [simp]:
  "ai_key (chart_account db a ext) = ext" "ai_key (outside_account ext r) = ext" "ai_key no_account_in = no_account"
  by (simp_all add: chart_account_def outside_account_def no_account_in_def Let_def)

lemma keyed_load: "keyed (load_accounts db raws)"
  unfolding load_accounts_def Let_def
proof (intro keyed_fold)
  show "keyed []" by (simp add: keyed_def)
  fix out :: "(string, account_in) dict"
  assume out: "keyed out"
  show "keyed (case ga_external_id a of None \<Rightarrow> out | Some ext \<Rightarrow> AList.update ext (chart_account db a ext) out)" for a
    using out keyed_update [OF out made_keys(1)] by (auto split: option.split)
  show "keyed (case kr of (key, r) \<Rightarrow> if map_of out key \<noteq> None
      \<or> (case ra_type r of None \<Rightarrow> True | Some t \<Rightarrow> t \<notin> expense_side_types)
      then out else AList.update key (outside_account key r) out)" for kr
    using out keyed_update [OF out made_keys(2)] by (auto split: prod.split)
qed

lemma keyed_account_key:
  assumes "keyed accounts"
  shows "ai_key (dict_get accounts (ai_key (account_of l accounts)) no_account_in) = ai_key (account_of l accounts)"
  using keyed_get [OF assms] by (auto simp: account_of_def no_account_def)

section \<open>The tie-out\<close>

lemma extend_cell [simp]:
  "cell_part part (tie_cell.extend c m) = cell_part part c" "ce_total (tie_cell.extend c m) = ce_total c"
  by (cases c; cases part; simp add: tie_cell.defs cell_part_def) (cases c, simp add: tie_cell.defs)

definition tie_row_key :: "tie_row \<Rightarrow> string \<times> string" where
  "tie_row_key r = (ti_month r, ai_key (ti_account r))"

lemma tie_out_rows:
  assumes "keyed accounts"
  shows "r \<in> set (tie_out lines accounts p) \<longleftrightarrow>
    tie_row_key r \<in> tie_key accounts ` {l \<in> set lines. \<not> cl_deleted l} \<and>
    r = cell_row accounts (tie_row_key r, dict_get (foldl (tie_add accounts p) [] lines) (tie_row_key r) empty_cell)"
proof -
  let ?sums = "foldl (tie_add accounts p) [] lines"
  have keys: "fst ` set ?sums = tie_key accounts ` {l \<in> set lines. \<not> cl_deleted l}" by (simp add: tie_fold_keys)
  have own: "tie_row_key (cell_row accounts (k, c)) = k" if "k \<in> fst ` set ?sums" for k c
    using that keyed_account_key [OF assms]
    by (auto simp: keys tie_row_key_def cell_row_def tie_key_def tie_cell.defs)
  have "(k, c) \<in> set ?sums \<longleftrightarrow> k \<in> fst ` set ?sums \<and> c = dict_get ?sums k empty_cell" for k c
  proof -
    have "distinct (map fst ?sums)" by (rule tie_fold_distinct) simp
    from map_of_eq_Some_iff [OF this, of k c] show ?thesis
      using map_of_eq_None_iff [of ?sums k] by (cases "map_of ?sums k") (auto simp: dict_get_def)
  qed
  then show ?thesis using own unfolding keys [symmetric] by (force simp: tie_out_def)
qed

lemma balanced_row:
  assumes "keyed accounts" and "r \<in> set (tie_out lines accounts p)"
  shows "cell_part part r = (\<Sum>l \<leftarrow> filter (\<lambda>l. line_part accounts p l = Some part \<and> tie_key accounts l = tie_row_key r) lines. cl_amount l)"
    and "ce_total r = (\<Sum>l \<leftarrow> filter (\<lambda>l. \<not> cl_deleted l \<and> tie_key accounts l = tie_row_key r) lines. cl_amount l)"
proof -
  let ?c = "dict_get (foldl (tie_add accounts p) [] lines) (tie_row_key r) empty_cell"
  have "r = cell_row accounts (tie_row_key r, ?c)" using tie_out_rows [OF assms(1)] assms(2) by blast
  then obtain m where r: "r = tie_cell.extend ?c m" by (simp add: cell_row_def split: prod.split_asm)
  have empty: "dict_get [] k empty_cell = empty_cell" for k :: "string \<times> string" by (simp add: dict_get_def)
  have "cell_part part r = cell_part part ?c" by (subst r) simp
  then show "cell_part part r = (\<Sum>l \<leftarrow> filter (\<lambda>l. line_part accounts p l = Some part \<and> tie_key accounts l = tie_row_key r) lines. cl_amount l)"
    by (simp add: tie_fold_part empty)
  have "ce_total r = ce_total ?c" by (subst r) simp
  then show "ce_total r = (\<Sum>l \<leftarrow> filter (\<lambda>l. \<not> cl_deleted l \<and> tie_key accounts l = tie_row_key r) lines. cl_amount l)"
    by (simp add: tie_fold_total empty)
qed

text \<open>A live line is one of the five parts.\<close>

lemma sum_by_part:
  fixes f :: "cost_line \<Rightarrow> int"
  shows "(\<Sum>l \<leftarrow> filter (\<lambda>l. \<not> cl_deleted l \<and> Q l) lines. f l) =
    (\<Sum>part \<leftarrow> [On_jobs, Memo_part, Unassigned_part, Labor_part, Outside_part].
       \<Sum>l \<leftarrow> filter (\<lambda>l. line_part accounts p l = Some part \<and> Q l) lines. f l)"
proof (induction lines)
  case (Cons l lines)
  have "line_part accounts p l = None \<longleftrightarrow> cl_deleted l" by (rule part_of_None)
  then show ?case using Cons by (cases "line_part accounts p l"; cases "the (line_part accounts p l)") simp_all
qed simp

lemma tie_out_balanced:
  assumes "keyed accounts" and "r \<in> set (tie_out lines accounts p)"
  shows "balanced r"
proof -
  have "ti_parts r = (\<Sum>part \<leftarrow> [On_jobs, Memo_part, Unassigned_part, Labor_part, Outside_part]. cell_part part r)"
    by (simp add: ti_parts_def cell_part_def)
  also have "\<dots> = ce_total r"
    unfolding balanced_row [OF assms] sum_by_part [where accounts = accounts and p = p] ..
  finally show ?thesis by (simp add: balanced_def ti_difference_def)
qed

lemma tie_out_distinct:
  assumes "keyed accounts"
  shows "distinct (map tie_row_key (tie_out lines accounts p))"
proof -
  let ?sums = "foldl (tie_add accounts p) [] lines"
  have dist: "distinct (map fst ?sums)" by (rule tie_fold_distinct) simp
  have "tie_row_key (cell_row accounts kc) = fst kc" if "kc \<in> set ?sums" for kc
  proof -
    have "fst kc \<in> tie_key accounts ` {l \<in> set lines. \<not> cl_deleted l}" using that tie_fold_keys [of accounts p "[]" lines] by force
    then show ?thesis using keyed_account_key [OF assms]
      by (cases kc) (auto simp: tie_row_key_def cell_row_def tie_key_def tie_cell.defs)
  qed
  then have "map tie_row_key (map (cell_row accounts) ?sums) = map fst ?sums" by simp
  with dist have "distinct (map tie_row_key (map (cell_row accounts) ?sums))" by metis
  then show ?thesis by (simp add: tie_out_def distinct_map del: map_map)
qed

text \<open>
  The tie-out over the accounts that are read. It has exactly one row for every month and account
  with a live line, ordered by month and account; each of its five parts is the sum of the live lines
  of that month and account that are that part; and it always balances: the parts add up to the sum
  of all the live lines of the month and account.
\<close>

theorem tie_out_correct:
  assumes "accounts = load_accounts db raws"
  shows "distinct (map tie_row_key (tie_out lines accounts p))
    \<and> tie_row_key ` set (tie_out lines accounts p) = tie_key accounts ` {l \<in> set lines. \<not> cl_deleted l}
    \<and> sorted (map (\<lambda>r. (ti_month r, account_sort_key (ti_account r))) (tie_out lines accounts p))
    \<and> (\<forall>r \<in> set (tie_out lines accounts p). balanced r
        \<and> ce_total r = (\<Sum>l \<leftarrow> filter (\<lambda>l. \<not> cl_deleted l \<and> tie_key accounts l = tie_row_key r) lines. cl_amount l)
        \<and> (\<forall>part. cell_part part r =
            (\<Sum>l \<leftarrow> filter (\<lambda>l. line_part accounts p l = Some part \<and> tie_key accounts l = tie_row_key r) lines. cl_amount l)))"
proof (intro conjI ballI allI)
  have keyed: "keyed accounts" unfolding assms by (rule keyed_load)
  show "distinct (map tie_row_key (tie_out lines accounts p))" by (rule tie_out_distinct [OF keyed])
  show "tie_row_key ` set (tie_out lines accounts p) = tie_key accounts ` {l \<in> set lines. \<not> cl_deleted l}" (is "_ = ?keys")
  proof (intro equalityI subsetI)
    fix k assume "k \<in> tie_row_key ` set (tie_out lines accounts p)"
    then show "k \<in> ?keys" using tie_out_rows [OF keyed] by blast
  next
    fix k assume k: "k \<in> ?keys"
    let ?r = "cell_row accounts (k, dict_get (foldl (tie_add accounts p) [] lines) k empty_cell)"
    have "tie_row_key ?r = k"
      using k keyed_account_key [OF keyed] by (auto simp: tie_row_key_def cell_row_def tie_key_def tie_cell.defs)
    with k show "k \<in> tie_row_key ` set (tie_out lines accounts p)"
      using tie_out_rows [OF keyed, of ?r lines p] by (intro image_eqI [of _ _ ?r]) simp_all
  qed
  show "sorted (map (\<lambda>r. (ti_month r, account_sort_key (ti_account r))) (tie_out lines accounts p))"
    unfolding tie_out_def by (rule sorted_sort_key)
  fix r part assume r: "r \<in> set (tie_out lines accounts p)"
  show "balanced r" by (rule tie_out_balanced [OF keyed r])
  show "ce_total r = (\<Sum>l \<leftarrow> filter (\<lambda>l. \<not> cl_deleted l \<and> tie_key accounts l = tie_row_key r) lines. cl_amount l)"
    by (rule balanced_row(2) [OF keyed r])
  show "cell_part part r = (\<Sum>l \<leftarrow> filter (\<lambda>l. line_part accounts p l = Some part \<and> tie_key accounts l = tie_row_key r) lines. cl_amount l)"
    by (rule balanced_row(1) [OF keyed r])
qed

section \<open>The columns\<close>

lemma sum_update_key:
  fixes f :: "'v \<Rightarrow> int"
  shows "(\<Sum>kv \<leftarrow> AList.update k v t. f (snd kv)) =
    (\<Sum>kv \<leftarrow> t. f (snd kv)) + f v - (case map_of t k of None \<Rightarrow> 0 | Some w \<Rightarrow> f w)"
  by (induction t) auto

lemma tie_column_fold:
  "(\<Sum>kc \<leftarrow> foldl (tie_add accounts p) t ls. cell_part part (snd kc)) =
    (\<Sum>kc \<leftarrow> t. cell_part part (snd kc)) + (\<Sum>l \<leftarrow> filter (\<lambda>l. line_part accounts p l = Some part) ls. cl_amount l)"
proof (induction ls arbitrary: t)
  case (Cons l ls)
  have "(\<Sum>kc \<leftarrow> tie_add accounts p t l. cell_part part (snd kc)) =
      (\<Sum>kc \<leftarrow> t. cell_part part (snd kc)) + (if line_part accounts p l = Some part then cl_amount l else 0)"
    by (simp add: tie_add_def Let_def sum_update_key dict_get_def split: option.split)
  then show ?case using Cons.IH by simp
qed simp

lemma tie_out_column:
  "(\<Sum>r \<leftarrow> tie_out lines accounts p. cell_part part r) =
    (\<Sum>l \<leftarrow> filter (\<lambda>l. line_part accounts p l = Some part) lines. cl_amount l)"
proof -
  have "cell_part part (cell_row accounts kc) = cell_part part (snd kc)" for kc
    by (simp add: cell_row_def split: prod.split)
  then show ?thesis
    using tie_column_fold [of part accounts p "[]" lines] by (simp add: tie_out_def sum_list_sort_key comp_def)
qed

lemma unassigned_sum:
  "(\<Sum>d \<leftarrow> unassigned_documents lines accounts p. ud_amount d) =
    (\<Sum>l \<leftarrow> filter (\<lambda>l. line_part accounts p l = Some Unassigned_part) lines. cl_amount l)"
proof -
  have "ud_amount (unassigned_row g) = (\<Sum>r \<leftarrow> snd g. cl_amount (fst r))" for g
    by (simp add: unassigned_row_def Let_def split: prod.split)
  then show ?thesis
    using dict_group_total [of "\<lambda>r. cl_amount (fst r)" "unassigned_entries lines accounts p"]
    by (simp add: unassigned_documents_def sum_list_sort_key comp_def unassigned_entries_def)
qed

lemma labor_sum:
  "(\<Sum>b \<leftarrow> labor_in_ledger lines accounts p. lb_amount b) =
    (\<Sum>l \<leftarrow> filter (\<lambda>l. line_part accounts p l = Some Labor_part) lines. cl_amount l)"
proof -
  have "(\<Sum>b \<leftarrow> labor_in_ledger lines accounts p. lb_amount b) = dict_total (dict_add_all [] (labor_entries lines accounts p))"
    by (simp add: labor_in_ledger_def dict_total_def comp_def case_prod_beta sum_list_sort_key)
  then show ?thesis by (simp add: dict_simps labor_entries_def comp_def)
qed

lemma job_lines_sum:
  "(\<Sum>x \<leftarrow> job_cost_lines lines accounts p. jl_amount x) =
    (\<Sum>l \<leftarrow> filter (\<lambda>l. line_part accounts p l = Some On_jobs) lines. cl_amount l)
    + (\<Sum>l \<leftarrow> filter (\<lambda>l. line_part accounts p l = Some Memo_part) lines. cl_amount l)"
proof (induction lines)
  case (Cons l lines)
  have "cl_job l \<noteq> None" if "line_part accounts p l \<in> {Some On_jobs, Some Memo_part}"
    using that by (auto simp: part_of_def split: if_split_asm)
  then show ?case using Cons by (auto simp: job_cost_lines_def List.map_filter_simps split: option.split)
qed (simp add: job_cost_lines_def List.map_filter_simps)

lemma load_lines_all: "mset (load_lines held None) = mset held"
  by (simp add: load_lines_def)

lemma sum_live_mset:
  fixes f :: "'a \<Rightarrow> int"
  shows "mset xs = mset ys \<Longrightarrow> (\<Sum>x \<leftarrow> filter P xs. f x) = (\<Sum>x \<leftarrow> filter P ys. f x)"
  by (metis mset_filter mset_map sum_mset_sum_list)

lemma tie_total_column:
  assumes "keyed accounts"
  shows "(\<Sum>r \<leftarrow> tie_out lines accounts p. ce_total r) = (\<Sum>l \<leftarrow> filter (\<lambda>l. \<not> cl_deleted l) lines. cl_amount l)"
proof -
  let ?parts = "[On_jobs, Memo_part, Unassigned_part, Labor_part, Outside_part]"
  have "ce_total r = (\<Sum>part \<leftarrow> ?parts. cell_part part r)" if "r \<in> set (tie_out lines accounts p)" for r
    using tie_out_balanced [OF assms that] by (simp add: balanced_def ti_difference_def ti_parts_def cell_part_def)
  then have "(\<Sum>r \<leftarrow> tie_out lines accounts p. ce_total r) = (\<Sum>r \<leftarrow> tie_out lines accounts p. \<Sum>part \<leftarrow> ?parts. cell_part part r)"
    by (intro arg_cong [of _ _ sum_list] map_cong) simp_all
  also have "\<dots> = (\<Sum>part \<leftarrow> ?parts. \<Sum>r \<leftarrow> tie_out lines accounts p. cell_part part r)" by (rule sum_list_swap)
  also have "\<dots> = (\<Sum>l \<leftarrow> filter (\<lambda>l. \<not> cl_deleted l) lines. cl_amount l)"
    unfolding tie_out_column using sum_by_part [where Q = "\<lambda>l. True" and f = cl_amount and accounts = accounts and p = p and lines = lines] by simp
  finally show ?thesis .
qed

text \<open>
  C20: the Cost page adds up. Over the ledger lines held, whatever the configuration: the unassigned
  documents sum to the unassigned column of the tie-out, labor by month and division to its labor
  column, the cost lines of jobs to its on-jobs and memo columns, and its totals to all the live
  lines that are held; every row balances. No line is in two figures and none is in no figure.
\<close>

theorem cost_report_adds_up:
  assumes "make_cost_report new_id db wip_basis raws held customers vendors today = (db', r)"
  shows "(\<Sum>v \<leftarrow> ct_unassigned r. ud_amount (uv_doc v)) = (\<Sum>t \<leftarrow> ct_tie_out r. ce_unassigned t)
    \<and> (\<Sum>b \<leftarrow> ct_labor r. lb_amount b) = (\<Sum>t \<leftarrow> ct_tie_out r. ce_labor t)
    \<and> (\<Sum>x \<leftarrow> job_cost_lines (ct_lines r) (ct_accounts r) (ct_policy r). jl_amount x)
        = (\<Sum>t \<leftarrow> ct_tie_out r. ce_on_jobs t + ce_memo t)
    \<and> (\<Sum>t \<leftarrow> ct_tie_out r. ce_total t) = (\<Sum>l \<leftarrow> filter (\<lambda>l. \<not> cl_deleted l) held. cl_amount l)
    \<and> ct_balanced r"
proof -
  let ?p = "snd (load_policy new_id db wip_basis)" and ?a = "load_accounts db' raws" and ?ls = "load_lines held None"
  have r: "ct_tie_out r = tie_out ?ls ?a ?p" "ct_unassigned r = unassigned_views ?ls ?a ?p customers vendors"
      "ct_labor r = labor_in_ledger ?ls ?a ?p" "ct_lines r = ?ls" "ct_accounts r = ?a" "ct_policy r = ?p"
    using assms by (auto simp: make_cost_report_def Let_def split: prod.splits)
  have keyed: "keyed ?a" by (rule keyed_load)
  have doc: "(\<Sum>v \<leftarrow> ct_unassigned r. ud_amount (uv_doc v)) = (\<Sum>d \<leftarrow> unassigned_documents ?ls ?a ?p. ud_amount d)"
    by (simp add: r unassigned_views_def view_of_doc_def Let_def comp_def)
  show ?thesis
  proof (intro conjI)
    show "(\<Sum>v \<leftarrow> ct_unassigned r. ud_amount (uv_doc v)) = (\<Sum>t \<leftarrow> ct_tie_out r. ce_unassigned t)"
      using tie_out_column [of Unassigned_part ?ls ?a ?p] by (simp add: doc unassigned_sum r(1) cell_part_def)
    show "(\<Sum>b \<leftarrow> ct_labor r. lb_amount b) = (\<Sum>t \<leftarrow> ct_tie_out r. ce_labor t)"
      using tie_out_column [of Labor_part ?ls ?a ?p] by (simp add: r labor_sum cell_part_def)
    show "(\<Sum>x \<leftarrow> job_cost_lines (ct_lines r) (ct_accounts r) (ct_policy r). jl_amount x)
        = (\<Sum>t \<leftarrow> ct_tie_out r. ce_on_jobs t + ce_memo t)"
      using tie_out_column [of On_jobs ?ls ?a ?p] tie_out_column [of Memo_part ?ls ?a ?p]
      by (simp add: r job_lines_sum cell_part_def sum_list_addf)
    show "(\<Sum>t \<leftarrow> ct_tie_out r. ce_total t) = (\<Sum>l \<leftarrow> filter (\<lambda>l. \<not> cl_deleted l) held. cl_amount l)"
      using tie_total_column [OF keyed, of ?ls ?p] sum_live_mset [OF load_lines_all [of held]] by (simp add: r)
    show "ct_balanced r" using tie_out_balanced [OF keyed] by (simp add: ct_balanced_def list_all_iff r(1))
  qed
qed

section \<open>Cost to date\<close>










end
