(* ===== verification/CostReview.thy ===== *)
theory CostReview
  imports CostProperties Exceptions ConfigSafety
begin

text \<open>
  The cost sentences on their way to the review queue (the cost part of \<open>collect\<close> in
  \<open>domain/exceptions/collect.py\<close>), and worked examples of the cost figures over a configuration that
  the operations of the configuration reach.
\<close>

section \<open>What is raised\<close>

definition raise_issue :: "subject \<Rightarrow> uuid \<Rightarrow> issue \<Rightarrow> raised" where
  "raise_issue t i s = \<lparr>rs_subject = t, rs_subject_id = i, rs_issue = s,
     rs_severity = (case severity_of (is_code s) None of None \<Rightarrow> Warn | Some v \<Rightarrow> v)\<rparr>"


section \<open>A company\<close>

definition ex_line :: "string \<Rightarrow> int \<Rightarrow> string \<Rightarrow> string option \<Rightarrow> uuid option \<Rightarrow> cents \<Rightarrow> cost_line" where
  "ex_line txn no account customer job amount = \<lparr>cl_id = 0, cl_type = ''Bill'', cl_txn = txn, cl_line = nat_str (nat no), cl_no = no,
     cl_doc = Some txn, cl_date = Date 26 1 15, cl_account = account, cl_vendor = None, cl_customer = customer,
     cl_job = job, cl_amount = amount, cl_description = None, cl_memo = None, cl_deleted = False\<rparr>"

definition ex_company :: config_db where
  "ex_company = \<lparr>cf_divisions = [\<lparr>dv_id = 11, dv_code = ''LS'', dv_name = ''Landscape'', dv_digit = Some ''4'',
       dv_active = True, dv_sort = 0\<rparr>],
     cf_categories = [\<lparr>cc_id = 21, cc_slot = ''30'', cc_name = ''Materials'', cc_active = True, cc_sort = 2\<rparr>,
       \<lparr>cc_id = 22, cc_slot = ''35'', cc_name = ''Supplies'', cc_active = True, cc_sort = 3\<rparr>],
     cf_accounts = [\<lparr>ga_id = 31, ga_no = ''4530'', ga_name = ''Materials'', ga_ledger_type = ''Expense'',
         ga_active = True, ga_external_id = Some ''91'', ga_raw = None\<rparr>,
       \<lparr>ga_id = 32, ga_no = ''4535'', ga_name = ''Supplies'', ga_ledger_type = ''Expense'', ga_active = True,
         ga_external_id = Some ''92'', ga_raw = None\<rparr>],
     cf_maps = [\<lparr>am_id = 41, am_account = 31, am_division = Some 11, am_category = Some 21, am_in_job_cost = True,
         am_status = Confirmed, am_rule = None, am_confirmed_by = Some 7, am_confirmed_at = Some 1\<rparr>,
       \<lparr>am_id = 42, am_account = 32, am_division = Some 11, am_category = Some 22, am_in_job_cost = True,
         am_status = Confirmed, am_rule = None, am_confirmed_by = Some 7, am_confirmed_at = Some 1\<rparr>],
     cf_rules = [], cf_log = []\<rparr>"

definition ex_bill :: "cost_line list" where
  "ex_bill = [ex_line ''98892'' 1 ''91'' (Some ''5'') (Some 3) 10000, ex_line ''98892'' 2 ''92'' (Some ''5'') (Some 3) 25000]"

definition ex_today :: date where
  "ex_today = Date 26 2 1"

definition ex_report :: "config_db \<Rightarrow> cost_line list \<Rightarrow> cost_report" where
  "ex_report db lines = snd (make_cost_report parse_nat db (Some [''30'']) [] lines [] [] ex_today)"


theorem tie_out_correct_witness:
  "map tie_row_key (tie_out ex_bill (load_accounts ex_company []) (snd (load_policy parse_nat ex_company None)))
      = [(''26-01'', ''91''), (''26-01'', ''92'')]
    \<and> distinct (map tie_row_key (tie_out ex_bill (load_accounts ex_company []) (snd (load_policy parse_nat ex_company None))))"
proof
  show "map tie_row_key (tie_out ex_bill (load_accounts ex_company []) (snd (load_policy parse_nat ex_company None)))
      = [(''26-01'', ''91''), (''26-01'', ''92'')]" by code_simp
  show "distinct (map tie_row_key (tie_out ex_bill (load_accounts ex_company []) (snd (load_policy parse_nat ex_company None))))"
    using tie_out_correct [of "load_accounts ex_company []" ex_company "[]" ex_bill "snd (load_policy parse_nat ex_company None)"]
    by blast
qed

theorem cost_report_adds_up_witness:
  "(\<Sum>t \<leftarrow> ct_tie_out (ex_report ex_company ex_bill). ce_total t) = 35000 \<and> ct_balanced (ex_report ex_company ex_bill)"
proof
  have "make_cost_report parse_nat ex_company (Some [''30'']) [] ex_bill [] [] ex_today =
      (fst (make_cost_report parse_nat ex_company (Some [''30'']) [] ex_bill [] [] ex_today), ex_report ex_company ex_bill)"
    by (simp add: ex_report_def)
  from cost_report_adds_up [OF this] show "ct_balanced (ex_report ex_company ex_bill)" by simp
  show "(\<Sum>t \<leftarrow> ct_tie_out (ex_report ex_company ex_bill). ce_total t) = 35000" by code_simp
qed


section \<open>What the figures lose\<close>



section \<open>What the review queue loses\<close>

lemma division_mismatch_key:
  "raised_key (raise_issue t i (division_mismatch_issue m)) =
     Some (t, i, ''COST_DIVISION_MISMATCH'', take 120 (dm_type m @ '':'' @ dm_txn m))"
  by (simp add: raised_key_def raise_issue_def exc_identity_def item_key_def division_mismatch_issue_def by_code_def
      specs_def code_row_def key_document_def dict_get_def value_str_def)

lemma unassigned_key:
  "raised_key (raise_issue t i (uv_issue v)) =
     Some (t, i, ''COST_UNASSIGNED'', take 120 (ud_type (uv_doc v) @ '':'' @ ud_txn (uv_doc v)))"
  by (simp add: raised_key_def raise_issue_def exc_identity_def item_key_def uv_issue_def unassigned_issue_def by_code_def
      specs_def code_row_def key_document_def dict_get_def value_str_def Let_def)







end
