(* ===== verification/JsonCodec.thy ===== *)
theory JsonCodec
  imports ExceptionRegistry
begin

text \<open>
  JSON values as the program holds them and the one codec that writes them
  (\<open>app/core/jsoncodec.py\<close>): a number is an unbounded integer or a \<open>Decimal\<close> kept as sign,
  coefficient and exponent, a dictionary is the list of its entries in their order, with distinct
  keys. \<open>json.loads\<close> reads the words \<open>NaN\<close> and \<open>Infinity\<close> as floats; no other float is read. \<open>canonical_json\<close> is what \<open>payload_sha256\<close> hashes. The Python operations the readers of a
  payload use on such values (\<open>get\<close>, truth, \<open>str\<close>, comparison with a number, ISO dates) are here too.
\<close>

section \<open>Values\<close>

datatype not_finite = Nan | Infinity bool

datatype json = J_null | J_bool bool | J_int int
  | J_dec bool nat int
  | J_dec_nonfinite not_finite
  | J_float not_finite
  | J_str string | J_list "json list" | J_obj "(string \<times> json) list"

text \<open>\<open>payload.get(name)\<close>: a missing entry is \<open>None\<close>.\<close>

definition jget :: "(string \<times> json) list \<Rightarrow> string \<Rightarrow> json" where
  "jget d k = (case map_of d k of None \<Rightarrow> J_null | Some v \<Rightarrow> v)"

text \<open>The truth of a value: empty texts, lists and dictionaries, zero, \<open>False\<close> and \<open>None\<close> are false.\<close>

fun truthy :: "json \<Rightarrow> bool" where
  "truthy J_null = False"
| "truthy (J_bool b) = b"
| "truthy (J_int i) = (i \<noteq> 0)"
| "truthy (J_dec s c e) = (c \<noteq> 0)"
| "truthy (J_dec_nonfinite n) = True"
| "truthy (J_float n) = True"
| "truthy (J_str s) = (s \<noteq> [])"
| "truthy (J_list vs) = (vs \<noteq> [])"
| "truthy (J_obj d) = (d \<noteq> [])"

text \<open>\<open>value == n\<close> for an integer \<open>n\<close>; a \<open>bool\<close> is an integer.\<close>

fun equals_int :: "json \<Rightarrow> int \<Rightarrow> bool" where
  "equals_int (J_int i) n = (i = n)"
| "equals_int (J_bool b) n = ((if b then 1 else 0) = n)"
| "equals_int (J_dec s c e) n =
     (let v = (if s then - int c else int c) in if 0 \<le> e then v * 10 ^ nat e = n else v = n * 10 ^ nat (- e))"
| "equals_int _ n = False"

section \<open>Numbers as text\<close>

text \<open>
  \<open>str(Decimal)\<close>: the digits of the coefficient with the point where the exponent puts it, in
  scientific notation when the exponent is positive or the number is very small.
\<close>

definition signed_str :: "int \<Rightarrow> string" where
  "signed_str x = (if 0 \<le> x then CHR ''+'' # nat_str (nat x) else CHR ''-'' # nat_str (nat (- x)))"

definition dec_str :: "bool \<Rightarrow> nat \<Rightarrow> int \<Rightarrow> string" where
  "dec_str s c e =
     (let ds = nat_str c; left_digits = e + int (length ds);
          dot = (if e \<le> 0 \<and> - 6 < left_digits then left_digits else 1);
          body = (if dot \<le> 0 then ''0.'' @ replicate (nat (- dot)) CHR ''0'' @ ds
                  else if int (length ds) \<le> dot then ds @ replicate (nat dot - length ds) CHR ''0''
                  else take (nat dot) ds @ CHR ''.'' # drop (nat dot) ds);
          tail_text = (if left_digits = dot then [] else CHR ''E'' # signed_str (left_digits - dot))
      in (if s then ''-'' else []) @ body @ tail_text)"

text \<open>\<open>repr\<close> and \<open>str\<close> of a value.\<close>

fun not_finite_str :: "string \<Rightarrow> string \<Rightarrow> not_finite \<Rightarrow> string" where
  "not_finite_str nan infinity Nan = nan"
| "not_finite_str nan infinity (Infinity negative) = (if negative then CHR ''-'' # infinity else infinity)"

fun json_repr :: "json \<Rightarrow> string" where
  "json_repr J_null = ''None''"
| "json_repr (J_bool b) = (if b then ''True'' else ''False'')"
| "json_repr (J_int i) = int_str i"
| "json_repr (J_dec s c e) = ''Decimal('' @ [CHR 0x27] @ dec_str s c e @ [CHR 0x27] @ '')''"
| "json_repr (J_dec_nonfinite n) = ''Decimal('' @ [CHR 0x27] @ not_finite_str ''NaN'' ''Infinity'' n @ [CHR 0x27] @ '')''"
| "json_repr (J_float n) = not_finite_str ''nan'' ''inf'' n"
| "json_repr (J_str s) = str_repr s"
| "json_repr (J_list vs) = ''['' @ join_comma (map json_repr vs) @ '']''"
| "json_repr (J_obj d) = ''{'' @ join_comma (map (\<lambda>(k, v). str_repr k @ '': '' @ json_repr v) d) @ ''}''"

fun json_str :: "json \<Rightarrow> string" where
  "json_str (J_str s) = s"
| "json_str (J_dec s c e) = dec_str s c e"
| "json_str (J_dec_nonfinite n) = not_finite_str ''NaN'' ''Infinity'' n"
| "json_str v = json_repr v"

section \<open>The codec\<close>

text \<open>\<open>json.dumps(text, ensure_ascii=False)\<close>: quotes, backslashes and control characters are escaped.\<close>

definition json_char :: "char \<Rightarrow> string" where
  "json_char c =
     (let n = (of_char c :: nat) in
      if n = 34 \<or> n = 92 then [CHR 0x5C, c]
      else if n = 8 then [CHR 0x5C, CHR ''b'']
      else if n = 9 then [CHR 0x5C, CHR ''t'']
      else if n = 10 then [CHR 0x5C, CHR ''n'']
      else if n = 12 then [CHR 0x5C, CHR ''f'']
      else if n = 13 then [CHR 0x5C, CHR ''r'']
      else if n < 32 then [CHR 0x5C, CHR ''u'', CHR ''0'', CHR ''0'', hex_digit (n div 16), hex_digit (n mod 16)]
      else [c])"

definition json_quote :: "string \<Rightarrow> string" where
  "json_quote s = CHR 0x22 # concat (map json_char s) @ [CHR 0x22]"

fun commas :: "string list \<Rightarrow> string" where
  "commas [] = []"
| "commas [w] = w"
| "commas (w # v # ws) = w @ CHR '','' # commas (v # ws)"

text \<open>The first value that is refused ends the encoding.\<close>

fun all_results :: "('e, 'a) result list \<Rightarrow> ('e, 'a list) result" where
  "all_results [] = Inr []"
| "all_results (r # rs) = (case r of Inl e \<Rightarrow> Inl e
     | Inr x \<Rightarrow> (case all_results rs of Inl e \<Rightarrow> Inl e | Inr xs \<Rightarrow> Inr (x # xs)))"

function encode :: "string \<Rightarrow> json \<Rightarrow> (string, string) result" where
  "encode path J_null = Inr ''null''"
| "encode path (J_bool b) = Inr (if b then ''true'' else ''false'')"
| "encode path (J_str s) = Inr (json_quote s)"
| "encode path (J_int i) = Inr (int_str i)"
| "encode path (J_dec s c e) = Inr (dec_str s c e)"
| "encode path (J_dec_nonfinite n) = Inl (''non-finite Decimal at '' @ path)"
| "encode path (J_float n) = Inl (''float at '' @ path @ '': money and measures must be Decimal'')"
| "encode path (J_obj d) =
     (case all_results (map (\<lambda>(k, v). map_sum id (\<lambda>t. json_quote k @ CHR '':'' # t) (encode (path @ CHR ''.'' # k) v))
         (sort_key fst d)) of
        Inl e \<Rightarrow> Inl e | Inr ts \<Rightarrow> Inr (CHR ''{'' # commas ts @ ''}''))"
| "encode path (J_list vs) =
     (case all_results (map (\<lambda>(i, v). encode (path @ CHR ''['' # nat_str i @ '']'') v) (zip [0 ..< length vs] vs)) of
        Inl e \<Rightarrow> Inl e | Inr ts \<Rightarrow> Inr (CHR ''['' # commas ts @ '']''))"
  by pat_completeness auto
termination
proof (relation "measure (size \<circ> snd)", goal_cases)
  case (2 path d kv k v)
  then have "(k, v) \<in> set d" by simp
  then have "size v < size_list (size_prod (\<lambda>_. 0) size) d"
    by (induction d) auto
  then show ?case by simp
next
  case (3 path vs iv i v)
  then have "v \<in> set vs" by (auto dest: set_zip_rightD)
  then have "size v < size_list size vs" by (induction vs) auto
  then show ?case by simp
qed simp

definition canonical_json :: "json \<Rightarrow> (string, string) result" where
  "canonical_json v = encode ''$'' v"

text \<open>The hash of the canonical text; the hash function is the library's.\<close>

definition payload_sha256 :: "(string \<Rightarrow> string) \<Rightarrow> json \<Rightarrow> (string, string) result" where
  "payload_sha256 sha v = map_sum id sha (canonical_json v)"

section \<open>ISO dates\<close>

text \<open>
  \<open>date.fromisoformat\<close>: a calendar date with or without dashes, or an ISO week with or without
  its day; \<open>None\<close> is the \<open>ValueError\<close>.
\<close>

definition days_in_month :: "int \<Rightarrow> int \<Rightarrow> int" where
  "days_in_month y m = (if m = 2 then (if is_leap y then 29 else 28) else if m \<in> {4, 6, 9, 11} then 30 else 31)"

definition valid_date :: "int \<Rightarrow> int \<Rightarrow> int \<Rightarrow> date option" where
  "valid_date y m d =
     (if 1 \<le> y \<and> y \<le> 9999 \<and> 1 \<le> m \<and> m \<le> 12 \<and> 1 \<le> d \<and> d \<le> days_in_month y m then Some (Date y m d) else None)"

definition date_of_ordinal :: "int \<Rightarrow> date option" where
  "date_of_ordinal ordinal =
     (let n = ordinal - 1; n400 = n div 146097; n = n mod 146097; n100 = n div 36524; n = n mod 36524;
          n4 = n div 1461; n = n mod 1461; n1 = n div 365; n = n mod 365;
          y = n400 * 400 + 1 + n100 * 100 + n4 * 4 + n1
      in if n1 = 4 \<or> n100 = 4 then valid_date (y - 1) 12 31
         else (let guess = (n + 50) div 32; m = (if days_before_month y guess > n then guess - 1 else guess)
               in valid_date y m (n - days_before_month y m + 1)))"

definition iso_week_date :: "int \<Rightarrow> int \<Rightarrow> int \<Rightarrow> date option" where
  "iso_week_date y w d =
     (let first = days_before_year y + 1; weekday = (first + 6) mod 7; monday = first - weekday;
          week1 = (if 3 < weekday then monday + 7 else monday);
          long = (first mod 7 = 4 \<or> (first mod 7 = 3 \<and> is_leap y))
      in if 1 \<le> y \<and> (1 \<le> w \<and> w \<le> 52 \<or> w = 53 \<and> long) \<and> 1 \<le> d \<and> d \<le> 7
         then date_of_ordinal (week1 + (w - 1) * 7 + (d - 1)) else None)"

definition digits_int :: "string \<Rightarrow> int" where
  "digits_int s = int (parse_nat s)"

definition from_iso_format :: "string \<Rightarrow> date option" where
  "from_iso_format s =
     (let digits = list_all is_digit; y = take 4 s; r = drop 4 s; n = length s in
      if \<not> (8 \<le> n \<or> n = 7) \<or> 10 < n \<or> n = 9 \<or> \<not> digits y then None
      else if n = 10 \<and> digits (take 2 (drop 1 r)) \<and> digits (drop 4 r) \<and> r ! 0 = CHR ''-'' \<and> r ! 3 = CHR ''-''
      then valid_date (digits_int y) (digits_int (take 2 (drop 1 r))) (digits_int (drop 4 r))
      else if n = 8 \<and> digits r then valid_date (digits_int y) (digits_int (take 2 r)) (digits_int (drop 2 r))
      else if n = 10 \<and> take 2 r = ''-W'' \<and> digits (take 2 (drop 2 r)) \<and> r ! 4 = CHR ''-'' \<and> digits (drop 5 r)
      then iso_week_date (digits_int y) (digits_int (take 2 (drop 2 r))) (digits_int (drop 5 r))
      else if n = 8 \<and> take 2 r = ''-W'' \<and> digits (drop 2 r)
      then iso_week_date (digits_int y) (digits_int (drop 2 r)) 1
      else if n = 8 \<and> r ! 0 = CHR ''W'' \<and> digits (drop 1 r)
      then iso_week_date (digits_int y) (digits_int (take 2 (drop 1 r))) (digits_int (drop 3 r))
      else if n = 7 \<and> r ! 0 = CHR ''W'' \<and> digits (drop 1 r)
      then iso_week_date (digits_int y) (digits_int (drop 1 r)) 1
      else None)"

end
