(* ===== verification/RawStore.thy ===== *)
theory RawStore
  imports JsonCodec
begin

text \<open>
  The raw store: \<open>app/ingest/raw.py\<close> over the rows of \<open>RawRecord\<close> in \<open>app/ingest/models.py\<close>. A record of
  a source is the list of its versions; a version is never changed, a change and a delete are new ones.
  The hash of the canonical text is the library's function; the rows are those of one tenant. New row
  ids and the time of the insert are arguments.
\<close>

section \<open>Rows\<close>

type_synonym raw_key = "string \<times> string \<times> string"

datatype raw_origin = From_import uuid | From_sync uuid

record raw_row =
  rr_id :: uuid
  rr_key :: raw_key
  rr_version :: nat
  rr_payload :: json
  rr_sha256 :: string
  rr_deleted :: bool
  rr_fetched_at :: int
  rr_origin :: raw_origin

abbreviation rr_source :: "raw_row \<Rightarrow> string" where "rr_source r \<equiv> fst (rr_key r)"
abbreviation rr_entity :: "raw_row \<Rightarrow> string" where "rr_entity r \<equiv> fst (snd (rr_key r))"
abbreviation rr_external :: "raw_row \<Rightarrow> string" where "rr_external r \<equiv> snd (snd (rr_key r))"

text \<open>\<open>RawOrigin\<close>: exactly one of the two, or the \<open>ValueError\<close>.\<close>

definition make_origin :: "uuid option \<Rightarrow> uuid option \<Rightarrow> raw_origin option" where
  "make_origin batch run = (case (batch, run) of
     (Some b, None) \<Rightarrow> Some (From_import b) | (None, Some r) \<Rightarrow> Some (From_sync r) | _ \<Rightarrow> None)"

section \<open>Reads\<close>

definition of_key :: "raw_key \<Rightarrow> raw_row list \<Rightarrow> raw_row list" where
  "of_key k rows = filter (\<lambda>r. rr_key r = k) rows"

text \<open>\<open>ORDER BY version DESC LIMIT 1\<close>, and the versions in their order.\<close>

definition latest_raw :: "raw_key \<Rightarrow> raw_row list \<Rightarrow> raw_row option" where
  "latest_raw k rows = (case rev (sort_key rr_version (of_key k rows)) of [] \<Rightarrow> None | r # rs \<Rightarrow> Some r)"

definition raw_history :: "raw_key \<Rightarrow> raw_row list \<Rightarrow> raw_row list" where
  "raw_history k rows = sort_key rr_version (of_key k rows)"

text \<open>\<open>DISTINCT ON (external_id) \<dots> ORDER BY external_id, version DESC\<close>.\<close>

definition latest_raw_versions :: "string \<Rightarrow> string \<Rightarrow> raw_row list \<Rightarrow> raw_row list" where
  "latest_raw_versions source entity rows =
     List.map_filter (\<lambda>ext. latest_raw (source, entity, ext) rows)
       (sort (remdups (map rr_external (filter (\<lambda>r. rr_source r = source \<and> rr_entity r = entity) rows))))"

section \<open>Writes\<close>

text \<open>The version written, if any, and the number of the current one; a payload the codec refuses writes nothing.\<close>

definition store_raw ::
  "(string \<Rightarrow> string) \<Rightarrow> uuid \<Rightarrow> int \<Rightarrow> raw_key \<Rightarrow> json \<Rightarrow> raw_origin \<Rightarrow> bool \<Rightarrow> raw_row list
    \<Rightarrow> (string, raw_row list \<times> raw_row option \<times> nat) result" where
  "store_raw sha new_id now k payload origin deleted rows =
     (let current = latest_raw k rows;
          payload = (case current of Some c \<Rightarrow> if deleted \<and> payload = J_null then rr_payload c else payload | None \<Rightarrow> payload)
      in case payload_sha256 sha payload of
           Inl e \<Rightarrow> Inl e
         | Inr digest \<Rightarrow>
             (let fresh = (\<lambda>v. \<lparr>rr_id = new_id, rr_key = k, rr_version = v, rr_payload = payload, rr_sha256 = digest,
                    rr_deleted = deleted, rr_fetched_at = now, rr_origin = origin\<rparr>)
              in case current of
                   Some c \<Rightarrow> if rr_sha256 c = digest \<and> rr_deleted c = deleted then Inr (rows, None, rr_version c)
                     else Inr (rows @ [fresh (rr_version c + 1)], Some (fresh (rr_version c + 1)), rr_version c + 1)
                 | None \<Rightarrow> Inr (rows @ [fresh 1], Some (fresh 1), 1)))"

definition store_delete ::
  "(string \<Rightarrow> string) \<Rightarrow> uuid \<Rightarrow> int \<Rightarrow> raw_key \<Rightarrow> json \<Rightarrow> raw_origin \<Rightarrow> raw_row list
    \<Rightarrow> (string, raw_row list \<times> raw_row option \<times> nat) result" where
  "store_delete sha new_id now k stub origin rows =
     store_raw sha new_id now k (if latest_raw k rows = None then stub else J_null) origin True rows"

section \<open>The machine\<close>

text \<open>A step stores a payload or a delete; ids are new.\<close>

inductive raw_step :: "(string \<Rightarrow> string) \<Rightarrow> raw_row list \<Rightarrow> raw_row list \<Rightarrow> bool" for sha where
  store: "new_id \<notin> rr_id ` set rows \<Longrightarrow> store_raw sha new_id now k payload origin deleted rows = Inr (rows', w)
    \<Longrightarrow> raw_step sha rows rows'"
| delete: "new_id \<notin> rr_id ` set rows \<Longrightarrow> store_delete sha new_id now k stub origin rows = Inr (rows', w)
    \<Longrightarrow> raw_step sha rows rows'"

abbreviation reachable_raw :: "(string \<Rightarrow> string) \<Rightarrow> raw_row list \<Rightarrow> bool" where
  "reachable_raw sha \<equiv> reachable_from (\<lambda>rows. rows = []) (raw_step sha)"

text \<open>
  What the versions of a record are: numbered from one without a gap in the order they came, each
  with the hash of its payload, and never two alike in a row. A delete of a record that was held
  keeps the payload of the version before it.
\<close>

fun versions_ok :: "(string \<Rightarrow> string) \<Rightarrow> nat \<Rightarrow> raw_row option \<Rightarrow> raw_row list \<Rightarrow> bool" where
  "versions_ok sha n before [] = True"
| "versions_ok sha n before (r # rs) \<longleftrightarrow> rr_version r = n
     \<and> payload_sha256 sha (rr_payload r) = Inr (rr_sha256 r)
     \<and> (case before of None \<Rightarrow> True | Some b \<Rightarrow> (rr_sha256 b, rr_deleted b) \<noteq> (rr_sha256 r, rr_deleted r))
     \<and> versions_ok sha (n + 1) (Some r) rs"

definition raw_inv :: "(string \<Rightarrow> string) \<Rightarrow> raw_row list \<Rightarrow> bool" where
  "raw_inv sha rows \<longleftrightarrow> distinct (map rr_id rows) \<and> (\<forall>k. versions_ok sha 1 None (of_key k rows))"

lemma raw_inv_key: "raw_inv sha rows \<Longrightarrow> versions_ok sha 1 None (of_key k rows)"
  unfolding raw_inv_def by blast

lemma versions_snoc:
  "versions_ok sha n before (rs @ [r]) \<longleftrightarrow> versions_ok sha n before rs \<and> rr_version r = n + length rs
     \<and> payload_sha256 sha (rr_payload r) = Inr (rr_sha256 r)
     \<and> (case (if rs = [] then before else Some (last rs)) of None \<Rightarrow> True
        | Some b \<Rightarrow> (rr_sha256 b, rr_deleted b) \<noteq> (rr_sha256 r, rr_deleted r))"
  by (induction rs arbitrary: n before) auto

lemma versions_numbers: "versions_ok sha n before rs \<Longrightarrow> map rr_version rs = [n ..< n + length rs]"
proof (induction rs arbitrary: n before)
  case (Cons r rs)
  then have "map rr_version rs = [n + 1 ..< n + 1 + length rs]" by (intro Cons.IH [of _ "Some r"]) simp
  moreover have "rr_version r = n" using Cons.prems by simp
  moreover have "[n ..< n + length (r # rs)] = n # [n + 1 ..< n + 1 + length rs]"
    by (subst upt_conv_Cons) (simp_all del: upt_Suc)
  ultimately show ?case by (simp only: list.map)
qed simp

text \<open>In a store that is as it should be the rows of a record are in the order of their versions.\<close>

lemma history_in_order:
  assumes "raw_inv sha rows"
  shows "raw_history k rows = of_key k rows"
    and "latest_raw k rows = (if of_key k rows = [] then None else Some (last (of_key k rows)))"
proof -
  have "map rr_version (of_key k rows) = [1 ..< 1 + length (of_key k rows)]"
    using raw_inv_key [OF assms] by (rule versions_numbers)
  then have "sorted (map rr_version (of_key k rows))" by (simp only: sorted_upt)
  then have *: "sort_key rr_version (of_key k rows) = of_key k rows" by (intro properties_for_sort_key) simp_all
  then show "raw_history k rows = of_key k rows" by (simp add: raw_history_def)
  show "latest_raw k rows = (if of_key k rows = [] then None else Some (last (of_key k rows)))"
    using * by (cases "of_key k rows" rule: rev_cases) (simp_all add: latest_raw_def)
qed

lemma store_raw_keeps:
  assumes inv: "raw_inv sha rows" and new: "new_id \<notin> rr_id ` set rows"
    and store: "store_raw sha new_id now k payload origin deleted rows = Inr (rows', w, v)"
  shows "raw_inv sha rows' \<and> take (length rows) rows' = rows"
proof -
  consider (same) "rows' = rows"
    | (new_row) r where "rows' = rows @ [r]" and "rr_id r = new_id" and "rr_key r = k"
      and "rr_version r = 1 + length (of_key k rows)" and "payload_sha256 sha (rr_payload r) = Inr (rr_sha256 r)"
      and "of_key k rows \<noteq> [] \<longrightarrow> (rr_sha256 (last (of_key k rows)), rr_deleted (last (of_key k rows))) \<noteq> (rr_sha256 r, rr_deleted r)"
  proof (cases "of_key k rows = []")
    case True
    then have "latest_raw k rows = None" using history_in_order [OF inv, of k] by simp
    then show ?thesis
      using store True new_row by (auto simp: store_raw_def Let_def split: sum.splits)
  next
    case False
    then have latest: "latest_raw k rows = Some (last (of_key k rows))" using history_in_order [OF inv, of k] by simp
    have "versions_ok sha 1 None (butlast (of_key k rows) @ [last (of_key k rows)])"
      using raw_inv_key [OF inv, of k] False by simp
    then have "rr_version (last (of_key k rows)) = 1 + length (butlast (of_key k rows))"
      unfolding versions_snoc by blast
    then have number: "rr_version (last (of_key k rows)) + 1 = 1 + length (of_key k rows)" using False by (cases "of_key k rows") auto
    show ?thesis
      using store False latest number new_row same by (auto simp: store_raw_def Let_def split: sum.splits if_splits)
  qed
  then show ?thesis
  proof cases
    case same
    then show ?thesis using inv by simp
  next
    case (new_row r)
    have "versions_ok sha 1 None (of_key k' rows')" for k'
    proof (cases "k' = k")
      case True
      have "of_key k' rows' = of_key k rows @ [r]" using True new_row by (simp add: of_key_def)
      then show ?thesis using raw_inv_key [OF inv, of k] new_row by (simp add: versions_snoc)
    next
      case False
      then have "of_key k' rows' = of_key k' rows" using new_row by (simp add: of_key_def)
      then show ?thesis using raw_inv_key [OF inv, of k'] by simp
    qed
    then show ?thesis using inv new new_row by (auto simp: raw_inv_def)
  qed
qed

interpretation raw_machine: state_machine "\<lambda>rows. rows = []" "raw_step sha" "raw_inv sha" for sha
proof
  show "rows = [] \<Longrightarrow> raw_inv sha rows" for rows by (simp add: raw_inv_def of_key_def)
  show "raw_inv sha rows'" if "raw_inv sha rows" and "raw_step sha rows rows'" for rows rows'
    using that(2)
  proof cases
    case (store new_id now k payload origin deleted w)
    then show ?thesis using store_raw_keeps [OF that(1)] by (cases w) blast
  next
    case (delete new_id now k stub origin w)
    then show ?thesis using store_raw_keeps [OF that(1)] by (cases w) (auto simp: store_delete_def)
  qed
qed

lemma raw_step_appends:
  assumes "raw_inv sha rows" and "raw_step sha rows rows'"
  shows "take (length rows) rows' = rows"
  using assms(2)
proof cases
  case (store new_id now k payload origin deleted w)
  then show ?thesis using store_raw_keeps [OF assms(1)] by (cases w) blast
next
  case (delete new_id now k stub origin w)
  then show ?thesis using store_raw_keeps [OF assms(1)] by (cases w) (auto simp: store_delete_def)
qed

lemma versions_nth:
  assumes "versions_ok sha n before rs" and "i < length rs"
  shows "payload_sha256 sha (rr_payload (rs ! i)) = Inr (rr_sha256 (rs ! i))
    \<and> (0 < i \<longrightarrow> (rr_sha256 (rs ! (i - 1)), rr_deleted (rs ! (i - 1))) \<noteq> (rr_sha256 (rs ! i), rr_deleted (rs ! i)))"
  using assms
proof (induction rs arbitrary: n before i)
  case (Cons r rs)
  show ?case
  proof (cases i)
    case 0
    then show ?thesis using Cons.prems by simp
  next
    case (Suc j)
    have tail: "versions_ok sha (n + 1) (Some r) rs" "j < length rs" using Cons.prems Suc by simp_all
    note * = Cons.IH [OF tail]
    show ?thesis
    proof (cases j)
      case 0
      then show ?thesis using * tail Suc by (cases rs) auto
    next
      case (Suc j')
      then show ?thesis using * \<open>i = Suc j\<close> by simp
    qed
  qed
qed simp

text \<open>Storing again what is current writes nothing.\<close>

lemma store_again:
  assumes "raw_inv sha rows" and "latest_raw k rows = Some c"
  shows "store_raw sha new_id now k (rr_payload c) origin (rr_deleted c) rows = Inr (rows, None, rr_version c)"
proof -
  have "of_key k rows \<noteq> []" and c: "c = last (of_key k rows)"
    using history_in_order(2) [OF assms(1), of k] assms(2) by (auto split: if_splits)
  then have "versions_ok sha 1 None (butlast (of_key k rows) @ [c])" using raw_inv_key [OF assms(1), of k] by simp
  then have "payload_sha256 sha (rr_payload c) = Inr (rr_sha256 c)" unfolding versions_snoc by blast
  then show ?thesis using assms(2) by (simp add: store_raw_def)
qed

lemma delete_again:
  assumes "raw_inv sha rows" and "latest_raw k rows = Some c" and "rr_deleted c"
  shows "store_delete sha new_id now k stub origin rows = Inr (rows, None, rr_version c)"
proof -
  have "store_delete sha new_id now k stub origin rows = store_raw sha new_id now k (rr_payload c) origin True rows"
    using assms(2) by (simp add: store_delete_def store_raw_def)
  then show ?thesis using store_again [OF assms(1,2)] assms(3) by simp
qed

text \<open>
  C25: the raw store is an append-only history: the versions of every record are numbered 1, 2, 3 and so
  on in the order they came, each carries the hash of its payload, no two in a row are alike, and the
  latest is the last of them. Storing the current payload again, or deleting again what is deleted,
  writes nothing; no step ever changes or removes a stored version.
\<close>

theorem raw_store_versions:
  assumes "reachable_raw sha rows"
  shows "(let h = raw_history k rows in map rr_version h = [1 ..< 1 + length h]
      \<and> (\<forall>i < length h. payload_sha256 sha (rr_payload (h ! i)) = Inr (rr_sha256 (h ! i))
          \<and> (0 < i \<longrightarrow> (rr_sha256 (h ! (i - 1)), rr_deleted (h ! (i - 1))) \<noteq> (rr_sha256 (h ! i), rr_deleted (h ! i))))
      \<and> latest_raw k rows = (if h = [] then None else Some (last h)))
    \<and> (\<forall>c new_id now origin stub. latest_raw k rows = Some c \<longrightarrow>
        store_raw sha new_id now k (rr_payload c) origin (rr_deleted c) rows = Inr (rows, None, rr_version c)
        \<and> (rr_deleted c \<longrightarrow> store_delete sha new_id now k stub origin rows = Inr (rows, None, rr_version c)))
    \<and> (\<forall>rows'. raw_step sha rows rows' \<longrightarrow> take (length rows) rows' = rows)"
proof -
  have inv: "raw_inv sha rows" using assms by (rule raw_machine.reachable_inv)
  have "map rr_version (of_key k rows) = [1 ..< 1 + length (of_key k rows)]"
    using raw_inv_key [OF inv] by (rule versions_numbers)
  then show ?thesis
    using history_in_order [OF inv, of k] versions_nth [OF raw_inv_key [OF inv, of k]] store_again [OF inv]
      delete_again [OF inv] raw_step_appends [OF inv]
    by (simp add: Let_def)
qed

text \<open>A customer stored, changed and deleted twice.\<close>

definition ex_raw_key :: raw_key where "ex_raw_key = (''qbo'', ''Customer'', ''3'')"

definition ex_raw_payload :: "string \<Rightarrow> json" where
  "ex_raw_payload name = J_obj [(''Id'', J_str ''3''), (''DisplayName'', J_str name)]"

definition ex_raw_version :: "uuid \<Rightarrow> string \<Rightarrow> nat \<Rightarrow> bool \<Rightarrow> raw_row" where
  "ex_raw_version i name v deleted = \<lparr>rr_id = i, rr_key = ex_raw_key, rr_version = v, rr_payload = ex_raw_payload name,
     rr_sha256 = ''{\"DisplayName\":\"'' @ name @ ''\",\"Id\":\"3\"}'', rr_deleted = deleted, rr_fetched_at = 5,
     rr_origin = From_sync 0\<rparr>"

definition ex_raw1 :: "raw_row list" where "ex_raw1 = [ex_raw_version 1 ''Elm'' 1 False]"
definition ex_raw2 :: "raw_row list" where "ex_raw2 = ex_raw1 @ [ex_raw_version 2 ''Oak'' 2 False]"
definition ex_raw3 :: "raw_row list" where "ex_raw3 = ex_raw2 @ [ex_raw_version 3 ''Oak'' 3 True]"

lemma store_reach:
  assumes "reachable_raw sha rows" and "new_id \<notin> rr_id ` set rows"
    and "store_raw sha new_id now k payload origin deleted rows = Inr (rows', w)"
  shows "reachable_raw sha rows'"
  using assms(1) raw_step.store [OF assms(2,3)] by (rule reachable_from.reach_step)

lemma delete_reach:
  assumes "reachable_raw sha rows" and "new_id \<notin> rr_id ` set rows"
    and "store_delete sha new_id now k stub origin rows = Inr (rows', w)"
  shows "reachable_raw sha rows'"
  using assms(1) raw_step.delete [OF assms(2,3)] by (rule reachable_from.reach_step)

theorem raw_store_versions_witness:
  "reachable_raw id ex_raw3 \<and> map rr_version (raw_history ex_raw_key ex_raw3) = [1, 2, 3]
   \<and> store_delete id 4 9 ex_raw_key (J_obj []) (From_sync 0) ex_raw3 = Inr (ex_raw3, None, 3)"
proof -
  have s: "store_raw id 1 5 ex_raw_key (ex_raw_payload ''Elm'') (From_sync 0) False [] = Inr (ex_raw1, Some (ex_raw_version 1 ''Elm'' 1 False), 1)"
    "store_raw id 2 5 ex_raw_key (ex_raw_payload ''Oak'') (From_sync 0) False ex_raw1 = Inr (ex_raw2, Some (ex_raw_version 2 ''Oak'' 2 False), 2)"
    "store_delete id 3 5 ex_raw_key (J_obj []) (From_sync 0) ex_raw2 = Inr (ex_raw3, Some (ex_raw_version 3 ''Oak'' 3 True), 3)"
    by code_simp+
  have new: "1 \<notin> rr_id ` set []" "2 \<notin> rr_id ` set ex_raw1" "3 \<notin> rr_id ` set ex_raw2"
    by (simp_all add: ex_raw1_def ex_raw2_def ex_raw_version_def)
  have "reachable_raw id []" by (rule reachable_from.reach_start) (rule refl)
  from store_reach [OF this new(1) s(1)] have "reachable_raw id ex_raw1" .
  from store_reach [OF this new(2) s(2)] have "reachable_raw id ex_raw2" .
  from delete_reach [OF this new(3) s(3)] have r: "reachable_raw id ex_raw3" .
  have latest: "latest_raw ex_raw_key ex_raw3 = Some (ex_raw_version 3 ''Oak'' 3 True)" by code_simp
  have "store_delete id 4 9 ex_raw_key (J_obj []) (From_sync 0) ex_raw3 = Inr (ex_raw3, None, 3)"
    using raw_store_versions [OF r, of ex_raw_key] latest by (simp add: ex_raw_version_def)
  moreover have "map rr_version (raw_history ex_raw_key ex_raw3) = [1, 2, 3]" by code_simp
  ultimately show ?thesis using r by (intro conjI)
qed

end
