(* ===== verification/QboPayloads.thy ===== *)
theory QboPayloads
  imports JsonCodec Money
begin

text \<open>
  From a QuickBooks payload to the values of a row: \<open>app/integrations/qbo/normalize\<close> (\<open>money.py\<close>,
  \<open>customer.py\<close>, \<open>billing.py\<close>, \<open>payment.py\<close>, \<open>cost.py\<close>). A payload that cannot be read is \<open>Unreadable\<close>
  with its reason; \<open>Crash\<close> is an exception these functions do not mean to raise (a decimal operation
  or an attribute error), which no caller catches. Amounts are cents; they are exact while a
  number has at most 28 digits, the precision of the decimal context.
\<close>

section \<open>Results\<close>

datatype norm_error = Unreadable string | Crash string

definition bind_r :: "('e, 'a) result \<Rightarrow> ('a \<Rightarrow> ('e, 'b) result) \<Rightarrow> ('e, 'b) result" where
  "bind_r r f = (case r of Inl e \<Rightarrow> Inl e | Inr x \<Rightarrow> f x)"

lemma bind_r_simps [simp]: "bind_r (Inl e) f = Inl e" "bind_r (Inr x) f = f x"
  by (simp_all add: bind_r_def)

lemma bind_r_Inr [simp]: "bind_r r f = Inr y \<longleftrightarrow> (\<exists>x. r = Inr x \<and> f x = Inr y)"
  by (cases r) simp_all

definition unless :: "bool \<Rightarrow> 'e \<Rightarrow> ('e, 'a) result \<Rightarrow> ('e, 'a) result" where
  "unless b e r = (if b then Inl e else r)"

lemma unless_Inr [simp]: "unless b e r = Inr y \<longleftrightarrow> \<not> b \<and> r = Inr y"
  by (simp add: unless_def)

lemma unless_simps [simp]: "unless True e r = Inl e" "unless False e r = r"
  by (simp_all add: unless_def)

section \<open>Numbers, dates and references\<close>

definition round_half_even :: "int \<Rightarrow> int \<Rightarrow> int" where
  "round_half_even n d = (let q = n div d; r = n mod d in
     if 2 * r < d \<or> (2 * r = d \<and> even q) then q else q + 1)"

text \<open>
  \<open>amount.quantize(CENT)\<close> in cents and whether it is the amount; a result of more than 28 digits is
  the \<open>InvalidOperation\<close> of the decimal context.
\<close>

definition quantize_cent :: "int \<Rightarrow> int \<Rightarrow> (int \<times> bool) option" where
  "quantize_cent c e =
     (let (n, exact) = (if - 2 \<le> e then (c * 10 ^ nat (e + 2), True)
                        else (round_half_even c (10 ^ nat (- 2 - e)), c mod 10 ^ nat (- 2 - e) = 0))
      in if c = 0 then Some (0, True) else if n < 10 ^ 28 then Some (n, exact) else None)"

definition cents_of :: "bool \<Rightarrow> int \<Rightarrow> int \<Rightarrow> string \<Rightarrow> (norm_error, cents) result" where
  "cents_of s c e field = (case quantize_cent c e of
     None \<Rightarrow> Inl (Crash ''InvalidOperation'')
   | Some (n, exact) \<Rightarrow>
       if exact then Inr (if s then - n else n)
       else Inl (Unreadable (field @ ''_more_than_two_decimals'')))"

fun to_cents :: "json \<Rightarrow> string \<Rightarrow> (norm_error, cents) result" where
  "to_cents (J_int i) field = cents_of (i < 0) \<bar>i\<bar> 0 field"
| "to_cents (J_dec s c e) field = cents_of s (int c) e field"
| "to_cents (J_dec_nonfinite n) field = Inl (Unreadable (field @ ''_not_finite''))"
| "to_cents _ field = Inl (Unreadable (field @ ''_not_a_number''))"

definition cents_or_zero :: "json \<Rightarrow> string \<Rightarrow> (norm_error, cents) result" where
  "cents_or_zero v field = (if v = J_null then Inr 0 else to_cents v field)"

fun iso_date :: "json \<Rightarrow> string \<Rightarrow> (norm_error, date) result" where
  "iso_date (J_str s) field = (case from_iso_format s of
     None \<Rightarrow> Inl (Unreadable (field @ ''_not_a_date'')) | Some d \<Rightarrow> Inr d)"
| "iso_date _ field = Inl (Unreadable (field @ ''_missing''))"

definition ref_unreadable :: "string \<Rightarrow> (norm_error, 'a) result" where
  "ref_unreadable field = Inl (Unreadable (field @ ''_unreadable''))"

fun ref_value :: "json \<Rightarrow> string \<Rightarrow> bool \<Rightarrow> (norm_error, string option) result" where
  "ref_value J_null field required = (if required then Inl (Unreadable (field @ ''_missing'')) else Inr None)"
| "ref_value (J_obj d) field required = (case jget d ''value'' of
     J_str s \<Rightarrow> if s = [] then ref_unreadable field else Inr (Some s)
   | _ \<Rightarrow> ref_unreadable field)"
| "ref_value _ field required = ref_unreadable field"

definition required_ref :: "json \<Rightarrow> string \<Rightarrow> (norm_error, string) result" where
  "required_ref v field = bind_r (ref_value v field True) (\<lambda>r. Inr (case r of None \<Rightarrow> [] | Some s \<Rightarrow> s))"

definition external_id :: "(string \<times> json) list \<Rightarrow> (norm_error, string) result" where
  "external_id d = (case jget d ''Id'' of
     J_str s \<Rightarrow> if s = [] then Inl (Unreadable ''id_missing'') else Inr s
   | _ \<Rightarrow> Inl (Unreadable ''id_missing''))"

definition home_currency_only :: "(string \<times> json) list \<Rightarrow> (norm_error, unit) result" where
  "home_currency_only d = (let rate = jget d ''ExchangeRate'' in
     unless (rate \<noteq> J_null \<and> \<not> equals_int rate 1) (Unreadable ''foreign_currency'') (Inr ()))"

text \<open>A payload that is an object, and the list of its lines.\<close>

fun as_object :: "json \<Rightarrow> string \<Rightarrow> (norm_error, (string \<times> json) list) result" where
  "as_object (J_obj d) reason = Inr d"
| "as_object _ reason = Inl (Unreadable reason)"

definition list_or_empty :: "json \<Rightarrow> string \<Rightarrow> (norm_error, json list) result" where
  "list_or_empty v reason =
     (if \<not> truthy v then Inr [] else case v of J_list vs \<Rightarrow> Inr vs | _ \<Rightarrow> Inl (Unreadable reason))"

fun as_text :: "json \<Rightarrow> string option" where
  "as_text (J_str s) = Some s"
| "as_text _ = None"

definition cut :: "nat \<Rightarrow> json \<Rightarrow> string option" where
  "cut n v = map_option (take n) (as_text v)"

section \<open>Customers\<close>

record customer_values =
  nc_external :: string
  nc_name :: string
  nc_parent :: "string option"
  nc_project :: bool
  nc_active :: bool

definition normalize_customer :: "json \<Rightarrow> (norm_error, customer_values) result" where
  "normalize_customer payload =
     bind_r (as_object payload ''payload_not_an_object'') (\<lambda>d.
     case as_text (jget d ''DisplayName'') of
       None \<Rightarrow> Inl (Unreadable ''display_name_missing'')
     | Some name \<Rightarrow>
         unless (name = []) (Unreadable ''display_name_missing'')
         (bind_r (external_id d) (\<lambda>ext.
          bind_r (ref_value (jget d ''ParentRef'') ''parent'' False) (\<lambda>parent.
          Inr \<lparr>nc_external = ext, nc_name = take 500 name, nc_parent = parent,
            nc_project = (jget d ''IsProject'' = J_bool True), nc_active = (jget d ''Active'' \<noteq> J_bool False)\<rparr>))))"

section \<open>Invoices, credit memos and sales receipts\<close>

record billing_line_values =
  bv_no :: nat
  bv_external :: "string option"
  bv_kind :: string
  bv_description :: "string option"
  bv_item :: "string option"
  bv_amount :: cents

record billing_values =
  nb_kind :: string
  nb_external :: string
  nb_doc_number :: "string option"
  nb_date :: date
  nb_due :: "date option"
  nb_customer :: string
  nb_subtotal :: cents
  nb_discount :: cents
  nb_tax :: cents
  nb_total :: cents
  nb_balance :: cents
  nb_voided :: bool
  nb_deposit_account :: "string option"
  nb_lines :: "billing_line_values list"

definition kind_by_entity :: "string \<Rightarrow> string option" where
  "kind_by_entity = map_of [(''Invoice'', ''invoice''), (''CreditMemo'', ''credit_memo''), (''SalesReceipt'', ''sales_receipt'')]"

definition subtotal_line :: string where "subtotal_line = ''SubTotalLineDetail''"
definition sales_item_line :: string where "sales_item_line = ''SalesItemLineDetail''"
definition discount_line :: string where "discount_line = ''DiscountLineDetail''"

definition starts_voided :: "json \<Rightarrow> bool" where
  "starts_voided v \<longleftrightarrow> (case as_text v of None \<Rightarrow> False | Some s \<Rightarrow> take 6 s = ''Voided'')"

definition is_voided :: "(string \<times> json) list \<Rightarrow> cents \<Rightarrow> bool \<Rightarrow> bool" where
  "is_voided d amount had_nonzero \<longleftrightarrow> amount = 0 \<and> starts_voided (jget d ''PrivateNote'') \<and> had_nonzero"

text \<open>What the loop over the lines keeps: the subtotal line, the items, whether one was seen, the discounts.\<close>

record line_sums =
  ls_subtotal :: "cents option"
  ls_items :: cents
  ls_saw_item :: bool
  ls_discount :: cents
  ls_lines :: "billing_line_values list"

definition add_billing_line :: "line_sums \<Rightarrow> json \<Rightarrow> (norm_error, line_sums) result" where
  "add_billing_line s raw =
     bind_r (as_object raw ''line_unreadable'') (\<lambda>d.
     case as_text (jget d ''DetailType'') of
       None \<Rightarrow> Inl (Unreadable ''line_kind_missing'')
     | Some kind \<Rightarrow>
         unless (kind = []) (Unreadable ''line_kind_missing'')
         (bind_r (cents_or_zero (jget d ''Amount'') ''line_amount'') (\<lambda>amount.
          if kind = subtotal_line then Inr (s\<lparr>ls_subtotal := Some amount\<rparr>)
          else (let s = (if kind = sales_item_line then s\<lparr>ls_items := ls_items s + amount, ls_saw_item := True\<rparr>
                         else if kind = discount_line then s\<lparr>ls_discount := ls_discount s + amount\<rparr> else s)
                in bind_r (case jget d kind of J_obj detail \<Rightarrow> ref_value (jget detail ''ItemRef'') ''item'' False
                           | _ \<Rightarrow> Inr None) (\<lambda>item.
                   Inr (s\<lparr>ls_lines := ls_lines s @ [\<lparr>bv_no = length (ls_lines s) + 1,
                     bv_external = (if jget d ''Id'' = J_null then None else Some (json_str (jget d ''Id''))),
                     bv_kind = take 40 kind, bv_description = cut 4000 (jget d ''Description''),
                     bv_item = item, bv_amount = amount\<rparr>]\<rparr>))))))"

fun add_billing_lines :: "line_sums \<Rightarrow> json list \<Rightarrow> (norm_error, line_sums) result" where
  "add_billing_lines s [] = Inr s"
| "add_billing_lines s (raw # raws) = bind_r (add_billing_line s raw) (\<lambda>s'. add_billing_lines s' raws)"

definition no_lines :: line_sums where
  "no_lines = \<lparr>ls_subtotal = None, ls_items = 0, ls_saw_item = False, ls_discount = 0, ls_lines = []\<rparr>"

definition subtotal_of :: "line_sums \<Rightarrow> cents \<Rightarrow> cents \<Rightarrow> cents" where
  "subtotal_of s amount_total tax = (case ls_subtotal s of
     Some amount \<Rightarrow> amount | None \<Rightarrow> if ls_saw_item s then ls_items s else amount_total - tax)"

definition normalize_billing :: "string \<Rightarrow> json \<Rightarrow> bool \<Rightarrow> (norm_error, billing_values) result" where
  "normalize_billing entity payload had_nonzero =
     (case kind_by_entity entity of None \<Rightarrow> Inl (Unreadable ''not_a_billing_entity'') | Some kind \<Rightarrow>
      bind_r (as_object payload ''payload_not_an_object'') (\<lambda>d.
      bind_r (home_currency_only d) (\<lambda>_.
      bind_r (to_cents (jget d ''TotalAmt'') ''total'') (\<lambda>tot.
      bind_r (cents_or_zero (case jget d ''TxnTaxDetail'' of J_obj t \<Rightarrow> jget t ''TotalTax'' | _ \<Rightarrow> J_null) ''tax_total'') (\<lambda>tax.
      bind_r (list_or_empty (jget d ''Line'') ''lines_unreadable'') (\<lambda>raws.
      bind_r (add_billing_lines no_lines raws) (\<lambda>s.
      let subtotal = subtotal_of s tot tax in
      unless (subtotal - ls_discount s + tax \<noteq> tot) (Unreadable ''total_identity_fails'')
      (bind_r (external_id d) (\<lambda>ext.
       bind_r (iso_date (jget d ''TxnDate'') ''txn_date'') (\<lambda>day.
       bind_r (if truthy (jget d ''DueDate'') then map_sum id Some (iso_date (jget d ''DueDate'') ''due_date'') else Inr None) (\<lambda>due.
       bind_r (required_ref (jget d ''CustomerRef'') ''customer'') (\<lambda>customer.
       bind_r (cents_or_zero (jget d ''Balance'') ''balance'') (\<lambda>balance.
       bind_r (ref_value (jget d ''DepositToAccountRef'') ''deposit_account'' False) (\<lambda>deposit.
       Inr \<lparr>nb_kind = kind, nb_external = ext, nb_doc_number = cut 40 (jget d ''DocNumber''), nb_date = day,
         nb_due = due, nb_customer = customer, nb_subtotal = subtotal, nb_discount = ls_discount s,
         nb_tax = tax, nb_total = tot, nb_balance = balance, nb_voided = is_voided d tot had_nonzero,
         nb_deposit_account = deposit, nb_lines = ls_lines s\<rparr>))))))))))))))"

section \<open>Payments\<close>

record application_values =
  pv_no :: nat
  pv_linked_type :: string
  pv_linked :: string
  pv_amount :: cents

record payment_values =
  np_kind :: string
  np_external :: string
  np_date :: date
  np_customer :: string
  np_total :: cents
  np_unapplied :: cents
  np_deposit_account :: "string option"
  np_applications :: "application_values list"

definition add_application ::
  "application_values list \<Rightarrow> json \<Rightarrow> (norm_error, application_values list) result" where
  "add_application apps raw =
     bind_r (as_object raw ''line_unreadable'') (\<lambda>d.
     bind_r (list_or_empty (jget d ''LinkedTxn'') ''linked_txn_unreadable'') (\<lambda>links.
     case links of [] \<Rightarrow> Inr apps
     | link # others \<Rightarrow>
         unless (others \<noteq> []) (Unreadable ''line_with_several_linked_txns'')
         (case link of
            J_obj l \<Rightarrow> (case (as_text (jget l ''TxnType''), as_text (jget l ''TxnId'')) of
              (Some txn_type, Some txn_id) \<Rightarrow>
                unless (txn_id = []) (Unreadable ''linked_txn_unreadable'')
                (bind_r (to_cents (jget d ''Amount'') ''line_amount'') (\<lambda>amount.
                 Inr (apps @ [\<lparr>pv_no = length apps + 1, pv_linked_type = take 40 txn_type, pv_linked = txn_id,
                   pv_amount = amount\<rparr>])))
            | _ \<Rightarrow> Inl (Unreadable ''linked_txn_unreadable''))
          | _ \<Rightarrow> Inl (Crash ''AttributeError''))))"

fun add_applications ::
  "application_values list \<Rightarrow> json list \<Rightarrow> (norm_error, application_values list) result" where
  "add_applications apps [] = Inr apps"
| "add_applications apps (raw # raws) = bind_r (add_application apps raw) (\<lambda>apps'. add_applications apps' raws)"

definition normalize_payment :: "json \<Rightarrow> (norm_error, payment_values) result" where
  "normalize_payment payload =
     bind_r (as_object payload ''payload_not_an_object'') (\<lambda>d.
     bind_r (home_currency_only d) (\<lambda>_.
     bind_r (list_or_empty (jget d ''Line'') ''lines_unreadable'') (\<lambda>raws.
     bind_r (add_applications [] raws) (\<lambda>apps.
     bind_r (external_id d) (\<lambda>ext.
     bind_r (iso_date (jget d ''TxnDate'') ''txn_date'') (\<lambda>day.
     bind_r (required_ref (jget d ''CustomerRef'') ''customer'') (\<lambda>customer.
     bind_r (to_cents (jget d ''TotalAmt'') ''total'') (\<lambda>tot.
     bind_r (cents_or_zero (jget d ''UnappliedAmt'') ''unapplied'') (\<lambda>unapplied.
     bind_r (ref_value (jget d ''DepositToAccountRef'') ''deposit_account'' False) (\<lambda>deposit.
     Inr \<lparr>np_kind = ''payment'', np_external = ext, np_date = day, np_customer = customer, np_total = tot,
       np_unapplied = unapplied, np_deposit_account = deposit, np_applications = apps\<rparr>))))))))))"

definition payment_from_sales_receipt :: "billing_values \<Rightarrow> (norm_error, payment_values) result" where
  "payment_from_sales_receipt receipt =
     unless (nb_kind receipt \<noteq> ''sales_receipt'') (Unreadable ''not_a_sales_receipt'')
     (Inr \<lparr>np_kind = ''sales_receipt'', np_external = nb_external receipt, np_date = nb_date receipt,
       np_customer = nb_customer receipt, np_total = nb_total receipt, np_unapplied = 0,
       np_deposit_account = nb_deposit_account receipt,
       np_applications = [\<lparr>pv_no = 1, pv_linked_type = ''SalesReceipt'', pv_linked = nb_external receipt,
         pv_amount = nb_total receipt\<rparr>]\<rparr>)"

section \<open>Bills, vendor credits, expenses, journal entries and deposits\<close>

record account_side =
  as_expense :: "string set"
  as_items :: "(string, string option) dict"

record cost_line_values =
  lv_external :: string
  lv_no :: nat
  lv_account :: "string option"
  lv_vendor :: "string option"
  lv_customer :: "string option"
  lv_amount :: cents
  lv_description :: "string option"
  lv_item :: "string option"

record cost_doc =
  cd_type :: string
  cd_external :: string
  cd_date :: date
  cd_doc_number :: "string option"
  cd_vendor :: "string option"
  cd_memo :: "string option"
  cd_voided :: bool
  cd_lines :: "cost_line_values list"

definition cost_entities :: "string list" where
  "cost_entities = [''Bill'', ''VendorCredit'', ''Purchase'', ''JournalEntry'', ''Deposit'']"

definition account_based :: string where "account_based = ''AccountBasedExpenseLineDetail''"
definition item_based :: string where "item_based = ''ItemBasedExpenseLineDetail''"
definition journal_line :: string where "journal_line = ''JournalEntryLineDetail''"
definition deposit_line :: string where "deposit_line = ''DepositLineDetail''"

definition text_cut :: "nat \<Rightarrow> json \<Rightarrow> string option" where
  "text_cut n v = (case as_text v of None \<Rightarrow> None | Some s \<Rightarrow> if s = [] then None else Some (take n s))"

text \<open>\<open>_entity\<close>: the customer and the vendor a journal or deposit line names.\<close>

definition line_entity :: "(string \<times> json) list \<Rightarrow> (norm_error, string option \<times> string option) result" where
  "line_entity detail = (case jget detail ''Entity'' of
     J_obj entity \<Rightarrow>
       (let kind = (if truthy (jget entity ''Type'') then jget entity ''Type'' else jget entity ''type'');
            ref = (if map_of entity ''EntityRef'' \<noteq> None then jget entity ''EntityRef'' else J_obj entity)
        in bind_r (case ref of J_obj r \<Rightarrow> ref_value ref ''entity'' False | _ \<Rightarrow> Inr None) (\<lambda>v. Inr
             (if v = None then (None, None) else if kind = J_str ''Customer'' then (v, None)
              else if kind = J_str ''Vendor'' then (None, v) else (None, None))))
   | _ \<Rightarrow> Inr (None, None))"

definition document_vendor :: "string \<Rightarrow> (string \<times> json) list \<Rightarrow> (norm_error, string option) result" where
  "document_vendor entity d =
     (if entity \<in> {''Bill'', ''VendorCredit''} then ref_value (jget d ''VendorRef'') ''vendor'' False
      else if entity = ''Purchase'' then
        (case jget d ''EntityRef'' of
           J_obj r \<Rightarrow> if jget r ''type'' \<in> {J_null, J_str ''Vendor''} then ref_value (J_obj r) ''vendor'' False else Inr None
         | ref \<Rightarrow> ref_value ref ''vendor'' False)
      else Inr None)"

definition document_sign :: "string \<Rightarrow> (string \<times> json) list \<Rightarrow> int" where
  "document_sign entity d =
     (if entity \<in> {''VendorCredit'', ''Deposit''} then - 1
      else if entity = ''Purchase'' \<and> jget d ''Credit'' = J_bool True then - 1 else 1)"

definition expense_side :: "account_side \<Rightarrow> string option \<Rightarrow> bool" where
  "expense_side side account = (case account of None \<Rightarrow> False | Some a \<Rightarrow> a \<in> as_expense side)"

text \<open>The kind of a line; a deposit line that banks a payment has none.\<close>

definition line_kind_of :: "string \<Rightarrow> (string \<times> json) list \<Rightarrow> (norm_error, string) result" where
  "line_kind_of entity raw =
     (let kind = (case as_text (jget raw ''DetailType'') of None \<Rightarrow> [] | Some k \<Rightarrow> k) in
      if kind \<noteq> [] then Inr kind
      else if entity = ''Deposit'' \<and> (truthy (jget raw ''LinkedTxn'') \<or> map_of raw deposit_line \<noteq> None)
      then Inr deposit_line else Inl (Unreadable ''line_kind_missing''))"

text \<open>
  Where a line posts: its account, its own vendor and customer, its item and its sign; \<open>None\<close> when
  it posts to no account of the expense side.
\<close>

type_synonym posting = "string option \<times> string option \<times> string option \<times> string option \<times> int"

definition line_posting ::
  "string \<Rightarrow> string \<Rightarrow> (string \<times> json) list \<Rightarrow> int \<Rightarrow> account_side \<Rightarrow> (norm_error, posting option) result" where
  "line_posting entity kind detail doc_sign side =
     (if kind = account_based then
        bind_r (ref_value (jget detail ''AccountRef'') ''account'' False) (\<lambda>account.
        bind_r (ref_value (jget detail ''CustomerRef'') ''customer'' False) (\<lambda>customer.
        Inr (if expense_side side account then Some (account, None, customer, None, doc_sign) else None)))
      else if kind = item_based then
        bind_r (ref_value (jget detail ''ItemRef'') ''item'' False) (\<lambda>item.
        bind_r (ref_value (jget detail ''CustomerRef'') ''customer'' False) (\<lambda>customer. Inr
        (case item of None \<Rightarrow> None
         | Some i \<Rightarrow> (let account = dict_get (as_items side) i None in
             if account \<noteq> None \<and> \<not> expense_side side account then None
             else Some (account, None, customer, item, doc_sign)))))
      else if kind = journal_line \<and> entity = ''JournalEntry'' then
        bind_r (ref_value (jget detail ''AccountRef'') ''account'' False) (\<lambda>account.
        if \<not> expense_side side account then Inr None
        else unless (jget detail ''PostingType'' \<notin> {J_str ''Debit'', J_str ''Credit''}) (Unreadable ''posting_type_unreadable'')
          (bind_r (line_entity detail) (\<lambda>(customer, vendor). Inr (Some (account, vendor, customer, None,
             if jget detail ''PostingType'' = J_str ''Debit'' then 1 else - 1)))))
      else if kind = deposit_line \<and> entity = ''Deposit'' then
        bind_r (ref_value (jget detail ''AccountRef'') ''account'' False) (\<lambda>account.
        if \<not> expense_side side account then Inr None
        else bind_r (line_entity detail) (\<lambda>(customer, vendor). Inr (Some (account, vendor, customer, None, doc_sign))))
      else Inr None)"

definition line_external_id :: "(string \<times> json) list \<Rightarrow> nat \<Rightarrow> string" where
  "line_external_id raw position =
     (let i = (if jget raw ''Id'' \<in> {J_null, J_str []} then jget raw ''LineNum'' else jget raw ''Id'')
      in take 80 (if i \<in> {J_null, J_str []} then CHR ''n'' # nat_str position else json_str i))"

definition cost_line_of ::
  "string \<Rightarrow> (string \<times> json) list \<Rightarrow> nat \<Rightarrow> int \<Rightarrow> string option \<Rightarrow> account_side
    \<Rightarrow> (norm_error, cost_line_values option) result" where
  "cost_line_of entity raw position doc_sign doc_vendor side =
     bind_r (line_kind_of entity raw) (\<lambda>kind.
     bind_r (line_posting entity kind (case jget raw kind of J_obj d \<Rightarrow> d | _ \<Rightarrow> []) doc_sign side) (\<lambda>posting.
     case posting of None \<Rightarrow> Inr None
     | Some (account, vendor, customer, item, sign) \<Rightarrow>
         bind_r (cents_or_zero (jget raw ''Amount'') ''line_amount'') (\<lambda>amount. Inr (Some
           \<lparr>lv_external = line_external_id raw position, lv_no = position, lv_account = account,
            lv_vendor = (if vendor = None then doc_vendor else vendor), lv_customer = customer,
            lv_amount = sign * amount, lv_description = text_cut 4000 (jget raw ''Description''), lv_item = item\<rparr>))))"

fun cost_lines_from ::
  "string \<Rightarrow> nat \<Rightarrow> json list \<Rightarrow> int \<Rightarrow> string option \<Rightarrow> account_side \<Rightarrow> (norm_error, cost_line_values list) result" where
  "cost_lines_from entity position [] doc_sign doc_vendor side = Inr []"
| "cost_lines_from entity position (v # raws) doc_sign doc_vendor side =
     bind_r (as_object v ''line_unreadable'') (\<lambda>raw.
     bind_r (cost_line_of entity raw position doc_sign doc_vendor side) (\<lambda>row.
     bind_r (cost_lines_from entity (position + 1) raws doc_sign doc_vendor side) (\<lambda>rows.
     Inr (case row of None \<Rightarrow> rows | Some r \<Rightarrow> r # rows))))"

definition normalize_cost :: "string \<Rightarrow> json \<Rightarrow> account_side \<Rightarrow> (norm_error, cost_doc) result" where
  "normalize_cost entity payload side =
     unless (entity \<notin> set cost_entities) (Unreadable ''not_a_cost_entity'')
     (bind_r (as_object payload ''payload_not_an_object'') (\<lambda>d.
      bind_r (home_currency_only d) (\<lambda>_.
      bind_r (external_id d) (\<lambda>ext.
      bind_r (iso_date (jget d ''TxnDate'') ''txn_date'') (\<lambda>day.
      bind_r (list_or_empty (jget d ''Line'') ''lines_unreadable'') (\<lambda>raws.
      bind_r (document_vendor entity d) (\<lambda>doc_vendor.
      bind_r (cost_lines_from entity 1 raws (document_sign entity d) doc_vendor side) (\<lambda>lines.
      Inr \<lparr>cd_type = entity, cd_external = ext, cd_date = day, cd_doc_number = text_cut 40 (jget d ''DocNumber''),
        cd_vendor = doc_vendor, cd_memo = text_cut 4000 (jget d ''PrivateNote''),
        cd_voided = (starts_voided (jget d ''PrivateNote'') \<and> lines \<noteq> [] \<and> list_all (\<lambda>l. lv_amount l = 0) lines),
        cd_lines = lines\<rparr>))))))))"

end
