(* ===== verification/CostSync.thy ===== *)
theory CostSync
  imports RawStore QboPayloads CostFigures
begin

text \<open>
  The copy of the ledger: \<open>app/domain/cost/sync.py\<close> (what the normalizer is told about accounts, one
  document's lines written in place, deletes and voids, the job of a line from the aliases, the full
  run), \<open>run.py\<close>, and the nightly check of \<open>report.py\<close> that re-sums the payloads. The rows are those of
  one tenant and of QuickBooks, the only source; one operation is one transaction. New row ids are an
  argument, a function of the line they are for.
\<close>

section \<open>Rows\<close>

record ledger_row =
  gr_id :: uuid
  gr_type :: string
  gr_txn :: string
  gr_line :: string
  gr_no :: nat
  gr_date :: date
  gr_doc :: "string option"
  gr_gl :: "uuid option"
  gr_account :: "string option"
  gr_vendor :: "string option"
  gr_customer :: "string option"
  gr_job :: "uuid option"
  gr_amount :: cents
  gr_description :: "string option"
  gr_memo :: "string option"
  gr_deleted :: "int option"
  gr_raw :: uuid

abbreviation ledger_key :: "ledger_row \<Rightarrow> string \<times> string \<times> string" where
  "ledger_key r \<equiv> (gr_type r, gr_txn r, gr_line r)"

record alias_row =
  al_system :: string
  al_external :: string
  al_job :: uuid

definition qbo :: string where "qbo = ''qbo''"
definition qbo_customer :: string where "qbo_customer = ''qbo_customer''"

text \<open>\<open>Outcome\<close>; an exception no one catches is the left value of a result and undoes the transaction.\<close>

datatype applied = Applied | Deleted | Skipped | Ignored

record outcome =
  oc_entity :: string
  oc_external :: string
  oc_result :: applied
  oc_reason :: "string option"

datatype uncaught = Uncaught string

section \<open>What the normalizer is told\<close>

record cost_lookup =
  lk_side :: account_side
  lk_accounts :: "(string, uuid) dict"
  lk_jobs :: "(string, uuid) dict"
  lk_not_in_chart :: "(string, string) dict"

text \<open>The live records of an entity whose payload is an object, by their \<open>Id\<close>.\<close>

definition live_objects :: "string \<Rightarrow> raw_row list \<Rightarrow> (string, (string \<times> json) list) dict" where
  "live_objects entity raws = foldl (\<lambda>out r. case rr_payload r of
       J_obj d \<Rightarrow> (case as_text (jget d ''Id'') of
           Some i \<Rightarrow> if i = [] then out else AList.update i d out | None \<Rightarrow> out)
     | _ \<Rightarrow> out) [] (filter (\<lambda>r. \<not> rr_deleted r) (latest_raw_versions qbo entity raws))"

definition raw_accounts :: "raw_row list \<Rightarrow> (string, (string \<times> json) list) dict" where
  "raw_accounts raws = live_objects ''Account'' raws"

definition item_accounts :: "raw_row list \<Rightarrow> (string, string option) dict" where
  "item_accounts raws = map (\<lambda>(i, d). (i, case jget d ''ExpenseAccountRef'' of
       J_obj ref \<Rightarrow> Option.bind (as_text (jget ref ''value'')) some_text | _ \<Rightarrow> None)) (live_objects ''Item'' raws)"

definition job_by_customer :: "alias_row list \<Rightarrow> (string, uuid) dict" where
  "job_by_customer aliases = foldl (\<lambda>out a. AList.update (al_external a) (al_job a) out) []
     (filter (\<lambda>a. al_system a = qbo_customer) aliases)"

definition chart_by_external :: "config_db \<Rightarrow> (string, account_row) dict" where
  "chart_by_external cfg = foldl (\<lambda>out a. case ga_external_id a of None \<Rightarrow> out | Some ext \<Rightarrow> AList.update ext a out)
     [] (cf_accounts cfg)"

definition mapped_as_cost :: "config_db \<Rightarrow> uuid set" where
  "mapped_as_cost cfg = am_account ` set (filter (\<lambda>m. am_status m = Confirmed
     \<and> (am_in_job_cost m \<or> am_category m \<noteq> None)) (cf_maps cfg))"

text \<open>A QuickBooks account of an expense type that the chart does not hold, and its words.\<close>

definition outside_chart :: "(string, account_row) dict \<Rightarrow> raw_row list \<Rightarrow> (string, string) dict" where
  "outside_chart accounts raws = List.map_filter (\<lambda>(i, d).
     if map_of accounts i = None \<and> (case jget d ''AccountType'' of J_str t \<Rightarrow> t \<in> expense_side_types | _ \<Rightarrow> False)
       \<and> jget d ''Active'' \<noteq> J_bool False
     then (let words = join_space (filter (\<lambda>p. p \<noteq> []) [text_or (as_text (jget d ''AcctNum'')), text_or (as_text (jget d ''Name''))])
           in Some (i, if words = [] then i else words))
     else None) (raw_accounts raws)"

text \<open>A type that is a list or an object cannot be looked up in a set: the \<open>TypeError\<close>.\<close>

definition unhashable :: "json \<Rightarrow> bool" where
  "unhashable v \<longleftrightarrow> (case v of J_list vs \<Rightarrow> True | J_obj d \<Rightarrow> True | _ \<Rightarrow> False)"

definition load_lookup :: "config_db \<Rightarrow> alias_row list \<Rightarrow> raw_row list \<Rightarrow> (uncaught, cost_lookup) result" where
  "load_lookup cfg aliases raws =
     (let accounts = chart_by_external cfg; outside = outside_chart accounts raws
      in if list_ex (\<lambda>(i, d). map_of accounts i = None \<and> unhashable (jget d ''AccountType'')) (raw_accounts raws)
         then Inl (Uncaught ''TypeError'')
         else Inr \<lparr>lk_side = \<lparr>as_expense =
               fst ` set (filter (\<lambda>(ext, a). ga_ledger_type a \<in> expense_side_types \<or> ga_id a \<in> mapped_as_cost cfg) accounts)
               \<union> fst ` set outside, as_items = item_accounts raws\<rparr>,
             lk_accounts = map (\<lambda>(ext, a). (ext, ga_id a)) accounts, lk_jobs = job_by_customer aliases,
             lk_not_in_chart = outside\<rparr>)"

section \<open>Writing one document\<close>

text \<open>The values of a line, but for when it was deleted and its ids.\<close>

definition ledger_values :: "uuid \<Rightarrow> cost_doc \<Rightarrow> cost_lookup \<Rightarrow> int option \<Rightarrow> cost_line_values \<Rightarrow> ledger_row \<Rightarrow> ledger_row" where
  "ledger_values raw_id doc lk deleted_at ln row = row\<lparr>gr_no := lv_no ln, gr_date := cd_date doc,
     gr_doc := cd_doc_number doc, gr_gl := Option.bind (lv_account ln) (map_of (lk_accounts lk)),
     gr_account := lv_account ln, gr_vendor := lv_vendor ln, gr_customer := lv_customer ln,
     gr_job := Option.bind (lv_customer ln) (map_of (lk_jobs lk)), gr_amount := lv_amount ln,
     gr_description := lv_description ln, gr_memo := cd_memo doc, gr_deleted := deleted_at, gr_raw := raw_id\<rparr>"

definition new_ledger_row :: "uuid \<Rightarrow> uuid \<Rightarrow> cost_doc \<Rightarrow> cost_lookup \<Rightarrow> int option \<Rightarrow> cost_line_values \<Rightarrow> ledger_row" where
  "new_ledger_row new_id raw_id doc lk deleted_at ln = ledger_values raw_id doc lk deleted_at ln
     \<lparr>gr_id = new_id, gr_type = cd_type doc, gr_txn = cd_external doc, gr_line = lv_external ln, gr_no = 0,
      gr_date = cd_date doc, gr_doc = None, gr_gl = None, gr_account = None, gr_vendor = None, gr_customer = None,
      gr_job = None, gr_amount = 0, gr_description = None, gr_memo = None, gr_deleted = None, gr_raw = raw_id\<rparr>"

text \<open>A void keeps the first time the program learned of it; the raw version alone is no change.\<close>

definition rewritten :: "uuid \<Rightarrow> cost_doc \<Rightarrow> cost_lookup \<Rightarrow> int option \<Rightarrow> cost_line_values \<Rightarrow> ledger_row \<Rightarrow> ledger_row" where
  "rewritten raw_id doc lk deleted_at ln row =
     ledger_values raw_id doc lk (if gr_deleted row \<noteq> None \<and> deleted_at \<noteq> None then gr_deleted row else deleted_at) ln row"

definition of_doc :: "string \<Rightarrow> string \<Rightarrow> ledger_row \<Rightarrow> bool" where
  "of_doc txn_type external r \<longleftrightarrow> gr_type r = txn_type \<and> gr_txn r = external"

definition write_line ::
  "(string \<Rightarrow> uuid) \<Rightarrow> uuid \<Rightarrow> cost_doc \<Rightarrow> cost_lookup \<Rightarrow> int option \<Rightarrow> string set
    \<Rightarrow> ledger_row list \<times> nat \<Rightarrow> cost_line_values \<Rightarrow> ledger_row list \<times> nat" where
  "write_line new_id raw_id doc lk deleted_at known s ln =
     (let (rows, changed) = s; k = (cd_type doc, cd_external doc, lv_external ln) in
      if lv_external ln \<in> known then
        (map (\<lambda>r. if ledger_key r = k then rewritten raw_id doc lk deleted_at ln r else r) rows,
         changed + (if list_ex (\<lambda>r. ledger_key r = k \<and> (rewritten raw_id doc lk deleted_at ln r)\<lparr>gr_raw := gr_raw r\<rparr> \<noteq> r) rows
                    then 1 else 0))
      else (rows @ [new_ledger_row (new_id (lv_external ln)) raw_id doc lk deleted_at ln], changed + 1))"

text \<open>
  \<open>_write\<close>: the lines in place, the lines the document no longer has removed; two new lines of one
  key break the unique constraint, which ends the transaction.
\<close>

definition write_doc ::
  "(string \<Rightarrow> uuid) \<Rightarrow> raw_row \<Rightarrow> cost_doc \<Rightarrow> cost_lookup \<Rightarrow> ledger_row list \<Rightarrow> (uncaught, ledger_row list \<times> nat) result" where
  "write_doc new_id raw doc lk rows =
     (let mine = of_doc (cd_type doc) (cd_external doc); known = gr_line ` set (filter mine rows);
          seen = lv_external ` set (cd_lines doc);
          deleted_at = (if cd_voided doc then Some (rr_fetched_at raw) else None);
          (written, changed) = foldl (write_line new_id (rr_id raw) doc lk deleted_at known) (rows, 0) (cd_lines doc);
          gone = (\<lambda>r. mine r \<and> gr_line r \<in> known \<and> gr_line r \<notin> seen);
          kept = filter (\<lambda>r. \<not> gone r) written
      in if distinct (map ledger_key kept)
         then Inr (kept, changed + length (filter gone written)) else Inl (Uncaught ''IntegrityError''))"

text \<open>\<open>_mark_deleted\<close>: what is live of the document is deleted now; nothing else changes.\<close>

definition mark_deleted :: "raw_row \<Rightarrow> string \<Rightarrow> ledger_row list \<Rightarrow> ledger_row list \<times> outcome" where
  "mark_deleted raw reason rows =
     (let hit = (\<lambda>r. of_doc (rr_entity raw) (rr_external raw) r \<and> gr_deleted r = None)
      in (map (\<lambda>r. if hit r then r\<lparr>gr_deleted := Some (rr_fetched_at raw), gr_raw := rr_id raw\<rparr> else r) rows,
          if list_ex hit rows
          then \<lparr>oc_entity = rr_entity raw, oc_external = rr_external raw, oc_result = Deleted, oc_reason = Some reason\<rparr>
          else \<lparr>oc_entity = rr_entity raw, oc_external = rr_external raw, oc_result = Ignored, oc_reason = None\<rparr>))"

definition before_history_start :: "json \<Rightarrow> date \<Rightarrow> bool" where
  "before_history_start payload start = (case payload of
     J_obj d \<Rightarrow> (case iso_date (jget d ''TxnDate'') ''txn_date'' of Inl e \<Rightarrow> False | Inr day \<Rightarrow> day < start)
   | _ \<Rightarrow> False)"

definition apply_raw ::
  "(string \<Rightarrow> uuid) \<Rightarrow> date option \<Rightarrow> cost_lookup \<Rightarrow> raw_row \<Rightarrow> ledger_row list
    \<Rightarrow> (uncaught, ledger_row list \<times> outcome) result" where
  "apply_raw new_id start lk raw rows =
     (let out = (\<lambda>result reason. \<lparr>oc_entity = rr_entity raw, oc_external = rr_external raw, oc_result = result, oc_reason = reason\<rparr>)
      in if rr_source raw \<noteq> qbo then Inr (rows, out Ignored (Some ''not_qbo''))
         else if rr_entity raw \<notin> set cost_entities then Inr (rows, out Ignored (Some ''not_a_cost_entity''))
         else if rr_deleted raw then Inr (mark_deleted raw ''deleted'' rows)
         else if (case start of None \<Rightarrow> False | Some s \<Rightarrow> before_history_start (rr_payload raw) s)
         then (let (rows', oc) = mark_deleted raw ''before_history_start'' rows in
               Inr (if oc_result oc = Deleted then (rows', oc) else (rows', out Skipped (Some ''before_history_start''))))
         else (case normalize_cost (rr_entity raw) (rr_payload raw) (lk_side lk) of
             Inl (Unreadable reason) \<Rightarrow> Inr (rows, out Skipped (Some reason))
           | Inl (Crash e) \<Rightarrow> Inl (Uncaught e)
           | Inr doc \<Rightarrow> (case write_doc new_id raw doc lk rows of
                 Inl e \<Rightarrow> Inl e
               | Inr (rows', changed) \<Rightarrow> Inr (rows', (out Applied (Some (if changed = 0 then ''unchanged'' else ''changed'')))
                   \<lparr>oc_external := cd_external doc\<rparr>))))"

section \<open>After a link or an unlink\<close>

definition alias_job :: "alias_row list \<Rightarrow> string \<Rightarrow> uuid option" where
  "alias_job aliases ext = map_option al_job (List.find (\<lambda>a. al_system a = qbo_customer \<and> al_external a = ext) aliases)"

definition refill_job_ids :: "alias_row list \<Rightarrow> ledger_row list \<Rightarrow> ledger_row list \<times> nat" where
  "refill_job_ids aliases rows =
     (let job = (\<lambda>r. Option.bind (gr_customer r) (alias_job aliases));
          fills = (\<lambda>r. job r \<noteq> None \<and> gr_job r \<noteq> job r);
          filled = map (\<lambda>r. if fills r then r\<lparr>gr_job := job r\<rparr> else r) rows;
          clears = (\<lambda>r. gr_job r \<noteq> None \<and> job r = None)
      in (map (\<lambda>r. if clears r then r\<lparr>gr_job := None\<rparr> else r) filled,
          length (filter fills rows) + length (filter clears filled)))"

record cost_counts =
  ct_applied :: nat
  ct_changed :: nat
  ct_skipped :: nat
  ct_deleted :: nat

definition count_outcome :: "outcome \<Rightarrow> cost_counts \<Rightarrow> cost_counts" where
  "count_outcome oc n = (case oc_result oc of
     Applied \<Rightarrow> n\<lparr>ct_applied := ct_applied n + 1, ct_changed := ct_changed n + (if oc_reason oc = Some ''changed'' then 1 else 0)\<rparr>
   | Skipped \<Rightarrow> n\<lparr>ct_skipped := ct_skipped n + 1\<rparr> | Deleted \<Rightarrow> n\<lparr>ct_deleted := ct_deleted n + 1\<rparr> | Ignored \<Rightarrow> n)"

fun apply_all ::
  "(raw_row \<Rightarrow> string \<Rightarrow> uuid) \<Rightarrow> date option \<Rightarrow> cost_lookup \<Rightarrow> raw_row list \<Rightarrow> ledger_row list \<times> cost_counts
    \<Rightarrow> (uncaught, ledger_row list \<times> cost_counts) result" where
  "apply_all new_id start lk [] s = Inr s"
| "apply_all new_id start lk (raw # raws) (rows, n) = (case apply_raw (new_id raw) start lk raw rows of
     Inl e \<Rightarrow> Inl e | Inr (rows', oc) \<Rightarrow> apply_all new_id start lk raws (rows', count_outcome oc n))"

definition cost_versions :: "raw_row list \<Rightarrow> raw_row list" where
  "cost_versions raws = concat (map (\<lambda>entity. latest_raw_versions qbo entity raws) cost_entities)"

definition apply_everything ::
  "(raw_row \<Rightarrow> string \<Rightarrow> uuid) \<Rightarrow> date option \<Rightarrow> config_db \<Rightarrow> alias_row list \<Rightarrow> raw_row list \<Rightarrow> ledger_row list
    \<Rightarrow> (uncaught, ledger_row list \<times> cost_counts) result" where
  "apply_everything new_id start cfg aliases raws rows =
     bind_r (load_lookup cfg aliases raws) (\<lambda>lk.
     bind_r (apply_all new_id start lk (cost_versions raws) (rows, \<lparr>ct_applied = 0, ct_changed = 0, ct_skipped = 0, ct_deleted = 0\<rparr>))
       (\<lambda>(rows', n). let (rows'', changed) = refill_job_ids aliases rows'
         in Inr (rows'', n\<lparr>ct_changed := ct_changed n + changed\<rparr>)))"

section \<open>The nightly check\<close>

text \<open>Sums by month and account: the months hold the accounts in the code, here a month and an account are one key.\<close>

type_synonym month_sums = "(string \<times> string, cents) dict"

definition ledger_sums :: "ledger_row list \<Rightarrow> month_sums" where
  "ledger_sums rows = dict_add_all [] (map (\<lambda>r. ((month_key (gr_date r), text_or (gr_account r)), gr_amount r))
     (filter (\<lambda>r. gr_deleted r = None) rows))"

definition raw_doc :: "date option \<Rightarrow> account_side \<Rightarrow> raw_row \<Rightarrow> (norm_error, cost_doc) result option" where
  "raw_doc start side raw =
     (if rr_deleted raw \<or> (case rr_payload raw of J_obj d \<Rightarrow> False | _ \<Rightarrow> True)
         \<or> (case start of None \<Rightarrow> False | Some s \<Rightarrow> before_history_start (rr_payload raw) s) then None
      else Some (normalize_cost (rr_entity raw) (rr_payload raw) side))"

definition skipped_counts :: "date option \<Rightarrow> account_side \<Rightarrow> raw_row list \<Rightarrow> (string, nat) dict" where
  "skipped_counts start side raws = map (\<lambda>entity. (entity, length (filter
     (\<lambda>raw. case raw_doc start side raw of Some (Inl (Unreadable reason)) \<Rightarrow> True | _ \<Rightarrow> False)
     (latest_raw_versions qbo entity raws)))) cost_entities"

definition doc_sums :: "cost_doc \<Rightarrow> ((string \<times> string) \<times> cents) list" where
  "doc_sums doc = (if cd_voided doc then [] else map (\<lambda>ln. ((month_key (cd_date doc), text_or (lv_account ln)), lv_amount ln)) (cd_lines doc))"

fun raw_sums_from :: "date option \<Rightarrow> account_side \<Rightarrow> raw_row list \<Rightarrow> month_sums \<Rightarrow> (uncaught, month_sums) result" where
  "raw_sums_from start side [] sums = Inr sums"
| "raw_sums_from start side (raw # raws) sums = (case raw_doc start side raw of
     None \<Rightarrow> raw_sums_from start side raws sums
   | Some (Inl (Crash e)) \<Rightarrow> Inl (Uncaught e)
   | Some (Inl (Unreadable reason)) \<Rightarrow> raw_sums_from start side raws sums
   | Some (Inr doc) \<Rightarrow> raw_sums_from start side raws (dict_add_all sums (doc_sums doc)))"

definition raw_sums :: "date option \<Rightarrow> account_side \<Rightarrow> raw_row list \<Rightarrow> (uncaught, month_sums) result" where
  "raw_sums start side raws = raw_sums_from start side (cost_versions raws) []"

definition cost_differences :: "month_sums \<Rightarrow> month_sums \<Rightarrow> ((string \<times> string) \<times> cents \<times> cents) list" where
  "cost_differences lines raw = map (\<lambda>k. (k, dict_at lines k, dict_at raw k))
     (filter (\<lambda>k. dict_at lines k \<noteq> dict_at raw k) (sort (remdups (map fst lines @ map fst raw))))"

end
