(* ===== verification/CostSyncFacts.thy ===== *)
theory CostSyncFacts
  imports CostSync
begin

text \<open>
  What the copy of the ledger does to its rows: a written document has one row per line and nothing
  else of it, a version changes the rows of its own document only, and after every current version
  has been applied the live lines add up to what the payloads say.
\<close>

section \<open>The lines of one document\<close>

abbreviation line_key :: "cost_doc \<Rightarrow> cost_line_values \<Rightarrow> string \<times> string \<times> string" where
  "line_key doc ln \<equiv> (cd_type doc, cd_external doc, lv_external ln)"

text \<open>A row that holds the values of a line.\<close>

definition holds_line :: "uuid \<Rightarrow> cost_doc \<Rightarrow> cost_lookup \<Rightarrow> cost_line_values \<Rightarrow> ledger_row \<Rightarrow> bool" where
  "holds_line raw_id doc lk ln r \<longleftrightarrow> ledger_key r = line_key doc ln
     \<and> ledger_values raw_id doc lk (gr_deleted r) ln r = r \<and> (gr_deleted r = None \<longleftrightarrow> \<not> cd_voided doc)"

lemma ledger_values_key [simp]:
  "gr_type (ledger_values raw_id doc lk d ln r) = gr_type r"
  "gr_txn (ledger_values raw_id doc lk d ln r) = gr_txn r"
  "gr_line (ledger_values raw_id doc lk d ln r) = gr_line r"
  by (simp_all add: ledger_values_def)

lemma ledger_values_again [simp]:
  "ledger_values raw_id doc lk d (ln) (ledger_values raw_id doc lk d' ln r) = ledger_values raw_id doc lk d ln r"
  "gr_deleted (ledger_values raw_id doc lk d ln r) = d"
  by (simp_all add: ledger_values_def)

lemma rewritten_holds:
  assumes "ledger_key r = line_key doc ln"
  shows "holds_line raw_id doc lk ln (rewritten raw_id doc lk (if cd_voided doc then Some t else None) ln r)"
  using assms by (auto simp: holds_line_def rewritten_def ledger_values_def)

lemma new_row_holds: "holds_line raw_id doc lk ln (new_ledger_row i raw_id doc lk (if cd_voided doc then Some t else None) ln)"
  by (auto simp: holds_line_def new_ledger_row_def ledger_values_def)

lemma rewritten_same:
  assumes "holds_line raw_id doc lk ln r"
  shows "rewritten raw_id doc lk (if cd_voided doc then Some t else None) ln r = r"
  using assms by (auto simp: holds_line_def rewritten_def)

text \<open>What the rows are after some lines: those of the lines hold them, the others are as they were.\<close>

definition lines_written ::
  "uuid \<Rightarrow> cost_doc \<Rightarrow> cost_lookup \<Rightarrow> cost_line_values list \<Rightarrow> ledger_row list \<Rightarrow> ledger_row list \<Rightarrow> bool" where
  "lines_written raw_id doc lk lns rows rows' \<longleftrightarrow> distinct (map ledger_key rows')
     \<and> ledger_key ` set rows' = ledger_key ` set rows \<union> line_key doc ` set lns
     \<and> (\<forall>r \<in> set rows'. (\<forall>ln \<in> set lns. ledger_key r = line_key doc ln \<longrightarrow> holds_line raw_id doc lk ln r)
         \<and> (ledger_key r \<notin> line_key doc ` set lns \<longrightarrow> r \<in> set rows))
     \<and> filter (\<lambda>r. \<not> of_doc (cd_type doc) (cd_external doc) r) rows' =
         filter (\<lambda>r. \<not> of_doc (cd_type doc) (cd_external doc) r) rows"

lemma rewritten_key [simp]:
  "gr_type (rewritten raw_id doc lk d ln r) = gr_type r"
  "gr_txn (rewritten raw_id doc lk d ln r) = gr_txn r"
  "gr_line (rewritten raw_id doc lk d ln r) = gr_line r"
  by (simp_all add: rewritten_def)

lemma map_if_key:
  assumes "\<And>r. ledger_key (f r) = ledger_key r"
  shows "map ledger_key (map (\<lambda>r. if P r then f r else r) rows) = map ledger_key rows"
  using assms by auto

lemma filter_map_other:
  assumes "\<And>r. P r \<Longrightarrow> Q r" and "\<And>r. P r \<Longrightarrow> Q (f r)"
  shows "filter (\<lambda>r. \<not> Q r) (map (\<lambda>r. if P r then f r else r) rows) = filter (\<lambda>r. \<not> Q r) rows"
  using assms by (induction rows) auto

lemma write_line_step:
  assumes written: "lines_written (rr_id raw) doc lk lns rows0 rows"
    and new: "lv_external ln \<notin> lv_external ` set lns"
    and known: "known = gr_line ` set (filter (of_doc (cd_type doc) (cd_external doc)) rows0)"
    and result: "write_line new_id (rr_id raw) doc lk (if cd_voided doc then Some (rr_fetched_at raw) else None) known (rows, c) ln = (rows', c')"
  shows "lines_written (rr_id raw) doc lk (lns @ [ln]) rows0 rows'"
proof (cases "lv_external ln \<in> known")
  case True
  let ?d = "if cd_voided doc then Some (rr_fetched_at raw) else None"
  let ?f = "rewritten (rr_id raw) doc lk ?d ln" and ?P = "\<lambda>r. ledger_key r = line_key doc ln"
  have rows': "rows' = map (\<lambda>r. if ?P r then ?f r else r) rows"
    using result True by (auto simp: write_line_def Let_def)
  have keys: "map ledger_key rows' = map ledger_key rows" unfolding rows' by (intro map_if_key) simp
  obtain r0 where r0: "r0 \<in> set rows0" "ledger_key r0 = line_key doc ln"
    using True known by (auto simp: of_doc_def)
  have old: "line_key doc ln \<in> ledger_key ` set rows0" using imageI [OF r0(1), of ledger_key] r0(2) by simp
  have set_keys: "ledger_key ` set rows' = ledger_key ` set rows" using arg_cong [OF keys, of set] by simp
  have rest: "filter (\<lambda>r. \<not> of_doc (cd_type doc) (cd_external doc) r) rows' = filter (\<lambda>r. \<not> of_doc (cd_type doc) (cd_external doc) r) rows"
    unfolding rows' by (intro filter_map_other) (auto simp: of_doc_def)
  have each: "(\<forall>l \<in> set (lns @ [ln]). ledger_key r = line_key doc l \<longrightarrow> holds_line (rr_id raw) doc lk l r)
      \<and> (ledger_key r \<notin> line_key doc ` set (lns @ [ln]) \<longrightarrow> r \<in> set rows0)" if r: "r \<in> set rows'" for r
  proof -
    obtain q where q: "q \<in> set rows" "r = (if ?P q then ?f q else q)" using r unfolding rows' by auto
    show ?thesis
    proof (cases "?P q")
      case True
      then have "ledger_key r = line_key doc ln" and "holds_line (rr_id raw) doc lk ln r"
        using q rewritten_holds [OF True] by simp_all
      moreover have "\<forall>l \<in> set lns. ledger_key r \<noteq> line_key doc l" using calculation(1) new by auto
      ultimately show ?thesis by auto
    next
      case False
      then show ?thesis using q written unfolding lines_written_def by auto
    qed
  qed
  show ?thesis
    unfolding lines_written_def using written old set_keys rest keys each unfolding lines_written_def by auto
next
  case False
  let ?r = "new_ledger_row (new_id (lv_external ln)) (rr_id raw) doc lk (if cd_voided doc then Some (rr_fetched_at raw) else None) ln"
  have rows': "rows' = rows @ [?r]" using result False by (auto simp: write_line_def Let_def)
  have holds: "holds_line (rr_id raw) doc lk ln ?r" by (rule new_row_holds)
  then have key: "ledger_key ?r = line_key doc ln" by (simp add: holds_line_def)
  have "line_key doc ln \<notin> ledger_key ` set rows0" using False known by (auto simp: of_doc_def)
  moreover have "line_key doc ln \<notin> line_key doc ` set lns" using new by auto
  ultimately have fresh: "line_key doc ln \<notin> ledger_key ` set rows" using written by (auto simp: lines_written_def)
  have mine: "of_doc (cd_type doc) (cd_external doc) ?r" using key by (simp add: of_doc_def)
  have each: "(\<forall>l \<in> set (lns @ [ln]). ledger_key r = line_key doc l \<longrightarrow> holds_line (rr_id raw) doc lk l r)
      \<and> (ledger_key r \<notin> line_key doc ` set (lns @ [ln]) \<longrightarrow> r \<in> set rows0)" if "r \<in> set rows'" for r
  proof (cases "r = ?r")
    case True
    then show ?thesis using holds key new by auto
  next
    case False
    then have "r \<in> set rows" using that rows' by simp
    have "ledger_key r \<noteq> line_key doc ln" using imageI [OF \<open>r \<in> set rows\<close>, of ledger_key] fresh by auto
    with \<open>r \<in> set rows\<close> show ?thesis using written unfolding lines_written_def by auto
  qed
  show ?thesis
    unfolding lines_written_def using written fresh key mine each unfolding lines_written_def rows' by auto
qed


lemma write_lines:
  assumes "distinct (map ledger_key rows)" and "distinct (map lv_external lns)"
    and "known = gr_line ` set (filter (of_doc (cd_type doc) (cd_external doc)) rows)"
    and "foldl (write_line new_id (rr_id raw) doc lk (if cd_voided doc then Some (rr_fetched_at raw) else None) known) (rows, c) lns = (rows', c')"
  shows "lines_written (rr_id raw) doc lk lns rows rows'"
  using assms(2,4)
proof (induction lns arbitrary: rows' c' rule: rev_induct)
  case Nil
  then show ?case using assms(1) by (simp add: lines_written_def)
next
  case (snoc ln lns)
  let ?w = "write_line new_id (rr_id raw) doc lk (if cd_voided doc then Some (rr_fetched_at raw) else None) known"
  obtain rows1 c1 where one: "foldl ?w (rows, c) lns = (rows1, c1)" by (rule prod.exhaust)
  then have "lines_written (rr_id raw) doc lk lns rows rows1" using snoc.prems(1) by (intro snoc.IH) simp_all
  moreover have "lv_external ln \<notin> lv_external ` set lns" using snoc.prems(1) by simp
  moreover have "?w (rows1, c1) ln = (rows', c')" using snoc.prems(2) one by simp
  ultimately show ?case using write_line_step assms(3) by blast
qed

text \<open>What a written document leaves: its rows are its lines, one each, and the rest is as it was.\<close>

definition doc_written ::
  "uuid \<Rightarrow> cost_doc \<Rightarrow> cost_lookup \<Rightarrow> ledger_row list \<Rightarrow> ledger_row list \<Rightarrow> bool" where
  "doc_written raw_id doc lk rows rows' \<longleftrightarrow> distinct (map ledger_key rows')
     \<and> ledger_key ` set (filter (of_doc (cd_type doc) (cd_external doc)) rows') = line_key doc ` set (cd_lines doc)
     \<and> (\<forall>r \<in> set rows'. \<forall>ln \<in> set (cd_lines doc). ledger_key r = line_key doc ln \<longrightarrow> holds_line raw_id doc lk ln r)
     \<and> filter (\<lambda>r. \<not> of_doc (cd_type doc) (cd_external doc) r) rows' =
         filter (\<lambda>r. \<not> of_doc (cd_type doc) (cd_external doc) r) rows"

lemma write_doc_written:
  assumes rows: "distinct (map ledger_key rows)" and lines: "distinct (map lv_external (cd_lines doc))"
  obtains rows' n where "write_doc new_id raw doc lk rows = Inr (rows', n)" and "doc_written (rr_id raw) doc lk rows rows'"
proof -
  let ?mine = "of_doc (cd_type doc) (cd_external doc)"
  let ?known = "gr_line ` set (filter ?mine rows)" and ?seen = "lv_external ` set (cd_lines doc)"
  let ?gone = "\<lambda>r. ?mine r \<and> gr_line r \<in> ?known \<and> gr_line r \<notin> ?seen"
  obtain written c where w: "foldl (write_line new_id (rr_id raw) doc lk (if cd_voided doc then Some (rr_fetched_at raw) else None) ?known)
      (rows, 0) (cd_lines doc) = (written, c)" by (rule prod.exhaust)
  have lw: "lines_written (rr_id raw) doc lk (cd_lines doc) rows written"
    using write_lines [OF rows lines refl w] .
  let ?kept = "filter (\<lambda>r. \<not> ?gone r) written"
  have distinct: "distinct (map ledger_key ?kept)" using lw by (simp add: lines_written_def distinct_map_filter)
  then have result: "write_doc new_id raw doc lk rows = Inr (?kept, c + length (filter ?gone written))"
    using w by (simp add: write_doc_def Let_def)
  have keys: "ledger_key ` set written = ledger_key ` set rows \<union> line_key doc ` set (cd_lines doc)"
    using lw by (simp add: lines_written_def)
  have "ledger_key ` set (filter ?mine ?kept) = line_key doc ` set (cd_lines doc)"
  proof (intro equalityI subsetI)
    fix k assume "k \<in> ledger_key ` set (filter ?mine ?kept)"
    then obtain r where r: "r \<in> set written" "?mine r" "\<not> ?gone r" "k = ledger_key r" by auto
    have "gr_line r \<in> ?seen"
    proof (rule ccontr)
      assume no: "gr_line r \<notin> ?seen"
      then have "ledger_key r \<notin> line_key doc ` set (cd_lines doc)" by auto
      then have "r \<in> set rows" using lw r(1) by (simp add: lines_written_def)
      then have "gr_line r \<in> ?known" using r(2) by simp
      with no r show False by simp
    qed
    then show "k \<in> line_key doc ` set (cd_lines doc)" using r by (auto simp: of_doc_def)
  next
    fix k assume "k \<in> line_key doc ` set (cd_lines doc)"
    then obtain ln where ln: "ln \<in> set (cd_lines doc)" "k = line_key doc ln" by blast
    then have "k \<in> ledger_key ` set written" using keys by simp
    then obtain r where r: "r \<in> set written" "k = ledger_key r" by blast
    then have mine: "?mine r" and "gr_line r = lv_external ln" using ln(2) by (auto simp: of_doc_def)
    then have "gr_line r \<in> ?seen" using imageI [OF ln(1), of lv_external] by simp
    with r mine show "k \<in> ledger_key ` set (filter ?mine ?kept)" by auto
  qed
  moreover have "filter (\<lambda>r. \<not> ?mine r) ?kept = filter (\<lambda>r. \<not> ?mine r) rows"
  proof -
    have "filter (\<lambda>r. \<not> ?mine r) ?kept = filter (\<lambda>r. \<not> ?mine r) written" by (simp only: filter_filter) (rule filter_cong, auto)
    then show ?thesis using lw by (simp add: lines_written_def)
  qed
  moreover have "\<forall>r \<in> set ?kept. \<forall>ln \<in> set (cd_lines doc). ledger_key r = line_key doc ln \<longrightarrow> holds_line (rr_id raw) doc lk ln r"
    using lw by (simp add: lines_written_def)
  ultimately have "doc_written (rr_id raw) doc lk rows ?kept" using distinct unfolding doc_written_def by blast
  with result show ?thesis by (rule that)
qed

text \<open>A document that is written already is not changed by writing it again.\<close>

lemma write_again:
  assumes "doc_written (rr_id raw) doc lk rows0 rows"
  shows "write_doc new_id raw doc lk rows = Inr (rows, 0)"
proof -
  let ?mine = "of_doc (cd_type doc) (cd_external doc)" and ?d = "if cd_voided doc then Some (rr_fetched_at raw) else None"
  let ?known = "gr_line ` set (filter ?mine rows)"
  have keys: "ledger_key ` set (filter ?mine rows) = line_key doc ` set (cd_lines doc)"
    using assms by (simp add: doc_written_def)
  then have "(\<lambda>(t, x, l). l) ` ledger_key ` set (filter ?mine rows) = (\<lambda>(t, x, l). l) ` line_key doc ` set (cd_lines doc)"
    by (rule arg_cong)
  then have known: "?known = lv_external ` set (cd_lines doc)" by (simp add: image_image)
  have one: "write_line new_id (rr_id raw) doc lk ?d ?known (rows, 0) ln = (rows, 0)" if ln: "ln \<in> set (cd_lines doc)" for ln
  proof -
    have same: "rewritten (rr_id raw) doc lk ?d ln r = r" if "r \<in> set rows" "ledger_key r = line_key doc ln" for r
      using assms that ln by (intro rewritten_same) (simp add: doc_written_def)
    have "map (\<lambda>r. if ledger_key r = line_key doc ln then rewritten (rr_id raw) doc lk ?d ln r else r) rows = rows"
      by (rule map_idI) (auto simp: same)
    moreover have "\<not> list_ex (\<lambda>r. ledger_key r = line_key doc ln \<and> (rewritten (rr_id raw) doc lk ?d ln r)\<lparr>gr_raw := gr_raw r\<rparr> \<noteq> r) rows"
      using same by (auto simp: list_ex_iff)
    ultimately show ?thesis using ln known by (simp add: write_line_def Let_def)
  qed
  have "set lns \<subseteq> set (cd_lines doc) \<Longrightarrow> foldl (write_line new_id (rr_id raw) doc lk ?d ?known) (rows, 0) lns = (rows, 0)" for lns
  proof (induction lns)
    case (Cons ln lns)
    then have "ln \<in> set (cd_lines doc)" and "set lns \<subseteq> set (cd_lines doc)" by simp_all
    then show ?case using Cons.IH one by (simp only: foldl.simps)
  qed simp
  then have fold: "foldl (write_line new_id (rr_id raw) doc lk ?d ?known) (rows, 0) (cd_lines doc) = (rows, 0)" by simp
  have none: "filter (\<lambda>r. ?mine r \<and> gr_line r \<in> ?known \<and> gr_line r \<notin> lv_external ` set (cd_lines doc)) rows = []"
    using known by (auto simp: filter_empty_conv)
  have all: "filter (\<lambda>r. \<not> (?mine r \<and> gr_line r \<in> ?known \<and> gr_line r \<notin> lv_external ` set (cd_lines doc))) rows = rows"
    using known by (auto simp: filter_id_conv)
  have "distinct (map ledger_key rows)" using assms by (simp add: doc_written_def)
  then show ?thesis unfolding write_doc_def Let_def fold prod.case none all by simp
qed

section \<open>What one version does\<close>

lemma sum_by_keys:
  fixes g :: "'a \<Rightarrow> int" and h :: "'b \<Rightarrow> int"
  assumes "distinct (map f xs)" and "distinct (map k ys)" and same: "f ` set xs = k ` set ys"
    and agree: "\<And>x y. x \<in> set xs \<Longrightarrow> y \<in> set ys \<Longrightarrow> f x = k y \<Longrightarrow> g x = h y"
  shows "(\<Sum>x \<leftarrow> xs. g x) = (\<Sum>y \<leftarrow> ys. h y)"
proof -
  define G where "G = (\<lambda>i. g (the_inv_into (set xs) f i))"
  have inj: "inj_on f (set xs)" "inj_on k (set ys)" and dist: "distinct xs" "distinct ys"
    using assms(1,2) by (simp_all add: distinct_map)
  have x: "G (f x) = g x" if "x \<in> set xs" for x
    using that by (simp add: G_def the_inv_into_f_f [OF inj(1)])
  have y: "G (k y) = h y" if "y \<in> set ys" for y
  proof -
    have "k y \<in> f ` set xs" using same that by simp
    then obtain x where "x \<in> set xs" "f x = k y" by (elim imageE) simp
    then show ?thesis using agree [of x y] x [of x] that by simp
  qed
  have "(\<Sum>x \<leftarrow> xs. g x) = sum g (set xs)" using dist(1) by (simp add: sum_list_distinct_conv_sum_set)
  also have "\<dots> = sum G (f ` set xs)" using inj(1) x by (simp add: sum.reindex)
  also have "\<dots> = sum G (k ` set ys)" using same by simp
  also have "\<dots> = sum h (set ys)" using inj(2) y by (simp add: sum.reindex)
  also have "\<dots> = (\<Sum>y \<leftarrow> ys. h y)" using dist(2) by (simp add: sum_list_distinct_conv_sum_set)
  finally show ?thesis .
qed

text \<open>The payload of a record names it.\<close>

definition names_itself :: "raw_row \<Rightarrow> bool" where
  "names_itself r \<longleftrightarrow> (case rr_payload r of J_obj d \<Rightarrow> jget d ''Id'' = J_str (rr_external r) \<and> rr_external r \<noteq> [] | _ \<Rightarrow> False)"

lemma normalize_cost_names:
  assumes "normalize_cost entity payload side = Inr doc"
  shows "cd_type doc = entity \<and> (\<exists>d. payload = J_obj d \<and> jget d ''Id'' = J_str (cd_external doc))"
proof -
  obtain d where d: "payload = J_obj d"
    using assms by (cases payload) (auto simp: normalize_cost_def)
  from assms obtain ext where "external_id d = Inr ext" "cd_type doc = entity" "cd_external doc = ext"
    by (auto simp: normalize_cost_def d)
  then show ?thesis using d by (auto simp: external_id_def split: json.splits if_splits)
qed

text \<open>A line is live when nothing deleted it; its month and account are what the check sums by.\<close>

definition sum_key :: "ledger_row \<Rightarrow> string \<times> string" where
  "sum_key r = (month_key (gr_date r), text_or (gr_account r))"

definition live_sum :: "(ledger_row \<Rightarrow> bool) \<Rightarrow> string \<times> string \<Rightarrow> ledger_row list \<Rightarrow> int" where
  "live_sum P k rows = (\<Sum>r \<leftarrow> filter P rows. if gr_deleted r = None \<and> sum_key r = k then gr_amount r else 0)"

definition doc_sum :: "cost_doc \<Rightarrow> string \<times> string \<Rightarrow> int" where
  "doc_sum doc k = (\<Sum>(k', v) \<leftarrow> doc_sums doc. if k' = k then v else 0)"

lemma written_sum:
  assumes "doc_written raw_id doc lk rows rows'" and "distinct (map lv_external (cd_lines doc))"
  shows "live_sum (of_doc (cd_type doc) (cd_external doc)) k rows' = doc_sum doc k"
proof -
  let ?mine = "of_doc (cd_type doc) (cd_external doc)"
  have "live_sum ?mine k rows' = (\<Sum>ln \<leftarrow> cd_lines doc.
      if \<not> cd_voided doc \<and> (month_key (cd_date doc), text_or (lv_account ln)) = k then lv_amount ln else 0)"
    unfolding live_sum_def
  proof (rule sum_by_keys [of ledger_key _ "line_key doc"])
    show "distinct (map ledger_key (filter ?mine rows'))" using assms(1) by (simp add: doc_written_def distinct_map_filter)
    have "map (line_key doc) (cd_lines doc) = map (\<lambda>l. (cd_type doc, cd_external doc, l)) (map lv_external (cd_lines doc))" by simp
    then show "distinct (map (line_key doc) (cd_lines doc))" using assms(2) by (simp only: distinct_map) (auto simp: inj_on_def)
    show "ledger_key ` set (filter ?mine rows') = line_key doc ` set (cd_lines doc)" using assms(1) by (simp add: doc_written_def)
    fix r ln assume "r \<in> set (filter ?mine rows')" "ln \<in> set (cd_lines doc)" "ledger_key r = line_key doc ln"
    then have h: "holds_line raw_id doc lk ln r" using assms(1) by (simp add: doc_written_def)
    then have v: "ledger_values raw_id doc lk (gr_deleted r) ln r = r" by (simp add: holds_line_def)
    have "gr_amount r = lv_amount ln" "gr_date r = cd_date doc" "gr_account r = lv_account ln"
      by (subst v [symmetric], simp add: ledger_values_def)+
    then show "(if gr_deleted r = None \<and> sum_key r = k then gr_amount r else 0) =
        (if \<not> cd_voided doc \<and> (month_key (cd_date doc), text_or (lv_account ln)) = k then lv_amount ln else 0)"
      using h by (simp add: sum_key_def holds_line_def)
  qed
  also have "\<dots> = doc_sum doc k" by (simp add: doc_sum_def doc_sums_def comp_def)
  finally show ?thesis .
qed

lemma mark_deleted_effect:
  assumes "distinct (map ledger_key rows)" and "mark_deleted raw reason rows = (rows', oc)"
  shows "distinct (map ledger_key rows')
    \<and> filter (\<lambda>r. \<not> of_doc (rr_entity raw) (rr_external raw) r) rows' = filter (\<lambda>r. \<not> of_doc (rr_entity raw) (rr_external raw) r) rows
    \<and> live_sum (of_doc (rr_entity raw) (rr_external raw)) k rows' = 0"
proof -
  let ?mine = "of_doc (rr_entity raw) (rr_external raw)"
  let ?P = "\<lambda>r. ?mine r \<and> gr_deleted r = None" and ?f = "\<lambda>r. r\<lparr>gr_deleted := Some (rr_fetched_at raw), gr_raw := rr_id raw\<rparr>"
  have rows': "rows' = map (\<lambda>r. if ?P r then ?f r else r) rows" using assms(2) by (simp add: mark_deleted_def Let_def)
  have "map ledger_key rows' = map ledger_key rows" unfolding rows' by (intro map_if_key) simp
  moreover have "filter (\<lambda>r. \<not> ?mine r) rows' = filter (\<lambda>r. \<not> ?mine r) rows"
    unfolding rows' by (intro filter_map_other) (auto simp: of_doc_def)
  moreover have "live_sum ?mine k rows' = (\<Sum>r \<leftarrow> filter ?mine rows'. 0)"
    unfolding live_sum_def rows' by (intro arg_cong [where f = sum_list] map_cong refl) (auto simp: of_doc_def)
  ultimately show ?thesis using assms(1) by simp
qed

text \<open>What the check takes from a version, when it can be read.\<close>

definition version_sum :: "date option \<Rightarrow> account_side \<Rightarrow> raw_row \<Rightarrow> string \<times> string \<Rightarrow> int" where
  "version_sum start side raw k = (case raw_doc start side raw of Some (Inr doc) \<Rightarrow> doc_sum doc k | _ \<Rightarrow> 0)"

definition readable :: "date option \<Rightarrow> account_side \<Rightarrow> raw_row \<Rightarrow> bool" where
  "readable start side raw \<longleftrightarrow> (case raw_doc start side raw of
     Some (Inl (Unreadable reason)) \<Rightarrow> False
   | Some (Inr doc) \<Rightarrow> distinct (map lv_external (cd_lines doc)) | _ \<Rightarrow> True)"

lemma apply_effect:
  assumes rows: "distinct (map ledger_key rows)" and source: "rr_source raw = qbo" "rr_entity raw \<in> set cost_entities"
    and self: "names_itself raw" and readable: "readable start (lk_side lk) raw"
    and done_: "apply_raw new_id start lk raw rows = Inr (rows', oc)"
  shows "distinct (map ledger_key rows')
    \<and> filter (\<lambda>r. \<not> of_doc (rr_entity raw) (rr_external raw) r) rows' = filter (\<lambda>r. \<not> of_doc (rr_entity raw) (rr_external raw) r) rows
    \<and> live_sum (of_doc (rr_entity raw) (rr_external raw)) k rows' = version_sum start (lk_side lk) raw k"
proof -
  obtain d where d: "rr_payload raw = J_obj d" "jget d ''Id'' = J_str (rr_external raw)"
    using self by (cases "rr_payload raw") (auto simp: names_itself_def)
  let ?early = "case start of None \<Rightarrow> False | Some s \<Rightarrow> before_history_start (rr_payload raw) s"
  show ?thesis
  proof (cases "rr_deleted raw \<or> ?early")
    case True
    then have none: "version_sum start (lk_side lk) raw k = 0" by (auto simp: version_sum_def raw_doc_def)
    have "\<exists>reason. rows' = fst (mark_deleted raw reason rows)"
    proof (cases "rr_deleted raw")
      case True
      then show ?thesis using done_ source by (intro exI [of _ "''deleted''"]) (simp add: apply_raw_def Let_def)
    next
      case False
      then show ?thesis using True done_ source
        by (intro exI [of _ "''before_history_start''"]) (simp add: apply_raw_def Let_def split: prod.splits if_splits)
    qed
    then obtain reason where m: "rows' = fst (mark_deleted raw reason rows)" by (elim exE)
    obtain oc' where "mark_deleted raw reason rows = (rows', oc')" using m by (cases "mark_deleted raw reason rows") simp
    from mark_deleted_effect [OF rows this, of k] none show ?thesis by simp
  next
    case False
    then have rd: "raw_doc start (lk_side lk) raw = Some (normalize_cost (rr_entity raw) (rr_payload raw) (lk_side lk))"
      by (simp add: raw_doc_def d)
    have run: "apply_raw new_id start lk raw rows = (case normalize_cost (rr_entity raw) (rr_payload raw) (lk_side lk) of
             Inl (Unreadable reason) \<Rightarrow> Inr (rows, \<lparr>oc_entity = rr_entity raw, oc_external = rr_external raw, oc_result = Skipped, oc_reason = Some reason\<rparr>)
           | Inl (Crash e) \<Rightarrow> Inl (Uncaught e)
           | Inr doc \<Rightarrow> (case write_doc new_id raw doc lk rows of
                 Inl e \<Rightarrow> Inl e
               | Inr (rows', changed) \<Rightarrow> Inr (rows', \<lparr>oc_entity = rr_entity raw, oc_external = rr_external raw, oc_result = Applied,
                   oc_reason = Some (if changed = 0 then ''unchanged'' else ''changed'')\<rparr>\<lparr>oc_external := cd_external doc\<rparr>)))"
      using False source by (simp add: apply_raw_def Let_def)
    show ?thesis
    proof (cases "normalize_cost (rr_entity raw) (rr_payload raw) (lk_side lk)")
      case (Inl e)
      then show ?thesis using readable done_ run rd by (cases e) (simp_all add: readable_def)
    next
      case (Inr doc)
      have names: "cd_type doc = rr_entity raw" "cd_external doc = rr_external raw"
        using normalize_cost_names [OF Inr] d by auto
      have lines: "distinct (map lv_external (cd_lines doc))" using readable rd Inr by (simp add: readable_def)
      obtain rows1 n where w: "write_doc new_id raw doc lk rows = Inr (rows1, n)" "doc_written (rr_id raw) doc lk rows rows1"
        using write_doc_written [OF rows lines] by metis
      have "rows1 = rows'" using done_ run Inr w(1) by simp
      then show ?thesis using w(2) written_sum [OF w(2) lines, of k] names rd Inr
        by (simp add: doc_written_def version_sum_def)
    qed
  qed
qed

section \<open>A full run\<close>

abbreviation doc_of :: "raw_row \<Rightarrow> ledger_row \<Rightarrow> bool" where
  "doc_of v \<equiv> of_doc (rr_entity v) (rr_external v)"

definition cost_version :: "raw_row \<Rightarrow> bool" where
  "cost_version v \<longleftrightarrow> rr_source v = qbo \<and> rr_entity v \<in> set cost_entities \<and> names_itself v"

lemma live_sum_filter:
  assumes "filter Q rows = filter Q rows'" and "\<And>r. P r \<Longrightarrow> Q r"
  shows "live_sum P k rows = live_sum P k rows'"
proof -
  have "filter P (filter Q xs) = filter P xs" for xs using assms(2) by (induction xs) auto
  then have "filter P rows = filter P rows'" using arg_cong [OF assms(1), of "filter P"] by simp
  then show ?thesis by (simp add: live_sum_def)
qed

lemma filter_weaker:
  assumes "filter Q rows = filter Q rows'" and "\<And>r. P r \<Longrightarrow> Q r"
  shows "filter P rows = filter P rows'"
proof -
  have "filter P (filter Q xs) = filter P xs" for xs using assms(2) by (induction xs) auto
  then show ?thesis using arg_cong [OF assms(1), of "filter P"] by simp
qed

lemma apply_all_sums:
  assumes "distinct (map ledger_key rows)" and "distinct (map (\<lambda>v. snd (rr_key v)) raws)"
    and "\<forall>v \<in> set raws. cost_version v \<and> readable start (lk_side lk) v"
    and "apply_all new_id start lk raws (rows, n) = Inr (rows', n')"
  shows "distinct (map ledger_key rows')
    \<and> (\<forall>v \<in> set raws. live_sum (doc_of v) k rows' = version_sum start (lk_side lk) v k)
    \<and> filter (\<lambda>r. \<forall>v \<in> set raws. \<not> doc_of v r) rows' = filter (\<lambda>r. \<forall>v \<in> set raws. \<not> doc_of v r) rows"
  using assms
proof (induction raws arbitrary: rows n)
  case (Cons v raws)
  obtain rows1 oc where one: "apply_raw (new_id v) start lk v rows = Inr (rows1, oc)"
    and rest: "apply_all new_id start lk raws (rows1, count_outcome oc n) = Inr (rows', n')"
    using Cons.prems(4) by (auto split: sum.splits)
  have v: "cost_version v" "readable start (lk_side lk) v" using Cons.prems(3) by simp_all
  have eff: "distinct (map ledger_key rows1)"
    "filter (\<lambda>r. \<not> doc_of v r) rows1 = filter (\<lambda>r. \<not> doc_of v r) rows"
    "live_sum (doc_of v) k rows1 = version_sum start (lk_side lk) v k"
    using apply_effect [OF Cons.prems(1) _ _ _ v(2) one, of k] v(1) by (simp_all add: cost_version_def)
  have ih: "distinct (map ledger_key rows')"
    "\<forall>v \<in> set raws. live_sum (doc_of v) k rows' = version_sum start (lk_side lk) v k"
    "filter (\<lambda>r. \<forall>v \<in> set raws. \<not> doc_of v r) rows' = filter (\<lambda>r. \<forall>v \<in> set raws. \<not> doc_of v r) rows1"
    using Cons.IH [OF eff(1) _ _ rest] Cons.prems(2,3) by simp_all
  have other: "\<forall>w \<in> set raws. \<not> doc_of w r" if "doc_of v r" for r
  proof (intro ballI notI)
    fix w assume "w \<in> set raws" "doc_of w r"
    then have "snd (rr_key w) = snd (rr_key v)" using that by (simp add: of_doc_def prod_eq_iff)
    with \<open>w \<in> set raws\<close> show False using Cons.prems(2) by (auto simp: image_iff)
  qed
  have "live_sum (doc_of v) k rows' = live_sum (doc_of v) k rows1"
    using ih(3) by (rule live_sum_filter) (rule other)
  moreover have "filter (\<lambda>r. \<forall>w \<in> set (v # raws). \<not> doc_of w r) rows' = filter (\<lambda>r. \<forall>w \<in> set (v # raws). \<not> doc_of w r) rows1"
    using ih(3) by (rule filter_weaker) simp
  moreover have "filter (\<lambda>r. \<forall>w \<in> set (v # raws). \<not> doc_of w r) rows1 = filter (\<lambda>r. \<forall>w \<in> set (v # raws). \<not> doc_of w r) rows"
    using eff(2) by (rule filter_weaker) simp
  ultimately show ?case using ih eff by simp
qed simp

lemma live_sum_partition:
  assumes "distinct (map (\<lambda>v. snd (rr_key v)) raws)" and "\<forall>r \<in> set rows. \<exists>v \<in> set raws. doc_of v r"
  shows "live_sum (\<lambda>_. True) k rows = (\<Sum>v \<leftarrow> raws. live_sum (doc_of v) k rows)"
  using assms(2)
proof (induction rows)
  case (Cons r rows)
  obtain v where v: "v \<in> set raws" "doc_of v r" using Cons.prems by auto
  have only: "w = v" if "w \<in> set raws" "doc_of w r" for w
  proof -
    have "snd (rr_key w) = snd (rr_key v)" using that v by (simp add: of_doc_def prod_eq_iff)
    then show ?thesis using that(1) v(1) assms(1) by (simp add: distinct_map inj_on_def)
  qed
  have one: "doc_of w r \<longleftrightarrow> w = v" if "w \<in> set raws" for w
    using v(2) by (auto dest: only [OF that])
  let ?x = "if gr_deleted r = None \<and> sum_key r = k then gr_amount r else 0"
  have "(\<Sum>w \<leftarrow> raws. if doc_of w r then ?x else 0) = ?x"
    by (rule sum_list_one_class [OF _ v(1) one]) (use assms(1) in \<open>simp_all add: distinct_map\<close>)
  moreover have "live_sum (doc_of w) k (r # rows) = (if doc_of w r then ?x else 0) + live_sum (doc_of w) k rows" for w
    by (simp add: live_sum_def)
  moreover have "live_sum (\<lambda>_. True) k (r # rows) = ?x + live_sum (\<lambda>_. True) k rows" by (simp add: live_sum_def)
  moreover have "live_sum (\<lambda>_. True) k rows = (\<Sum>v \<leftarrow> raws. live_sum (doc_of v) k rows)"
    using Cons.prems by (intro Cons.IH) simp
  ultimately show ?case by (simp add: sum_list_addf)
qed (simp add: live_sum_def)

lemma ledger_sums_at: "dict_at (ledger_sums rows) k = live_sum (\<lambda>_. True) k rows"
proof -
  have "(\<Sum>(k', v) \<leftarrow> filter (\<lambda>kv. fst kv = k) (map (\<lambda>r. (sum_key r, gr_amount r)) (filter (\<lambda>r. gr_deleted r = None) rows)). v)
      = live_sum (\<lambda>_. True) k rows"
    by (induction rows) (auto simp: live_sum_def)
  moreover have "dict_at [] k = 0" by (simp add: dict_at_def dict_get_def)
  ultimately show ?thesis by (simp add: ledger_sums_def dict_add_all_at sum_key_def)
qed

lemma dict_add_doc: "dict_at (dict_add_all sums (doc_sums doc)) k = dict_at sums k + doc_sum doc k"
proof -
  have "(\<Sum>(k', v) \<leftarrow> filter (\<lambda>kv. fst kv = k) kvs. v) = (\<Sum>(k', v) \<leftarrow> kvs. if k' = k then v else 0)"
    for kvs :: "((string \<times> string) \<times> int) list"
    by (induction kvs) auto
  then show ?thesis by (simp add: dict_add_all_at doc_sum_def)
qed

lemma raw_sums_at:
  assumes "raw_sums_from start side raws sums = Inr sums'"
  shows "dict_at sums' k = dict_at sums k + (\<Sum>v \<leftarrow> raws. version_sum start side v k)"
  using assms
proof (induction raws arbitrary: sums)
  case (Cons v raws)
  show ?case
  proof (cases "raw_doc start side v")
    case None
    then show ?thesis using Cons by (simp add: version_sum_def)
  next
    case (Some r)
    show ?thesis
    proof (cases r)
      case (Inl e)
      then show ?thesis using Cons Some by (cases e) (simp_all add: version_sum_def)
    next
      case (Inr doc)
      then have "dict_at sums' k = dict_at (dict_add_all sums (doc_sums doc)) k + (\<Sum>v \<leftarrow> raws. version_sum start side v k)"
        using Cons Some by simp
      then show ?thesis using Some Inr by (simp add: version_sum_def dict_add_doc)
    qed
  qed
qed simp

text \<open>A full run that ends without an exception gives the check one that ends too.\<close>

lemma raw_sums_end:
  assumes "apply_all new_id start lk raws s = Inr s'" and "\<forall>v \<in> set raws. cost_version v"
  shows "\<exists>sums'. raw_sums_from start (lk_side lk) raws sums = Inr sums'"
  using assms
proof (induction raws arbitrary: s sums)
  case (Cons v raws)
  obtain rows n where s: "s = (rows, n)" by (rule prod.exhaust)
  obtain r where one: "apply_raw (new_id v) start lk v rows = Inr r"
    and rest: "apply_all new_id start lk raws (fst r, count_outcome (snd r) n) = Inr s'"
    using Cons.prems(1) s by (auto split: sum.splits)
  have ih: "\<exists>sums'. raw_sums_from start (lk_side lk) raws sums1 = Inr sums'" for sums1
    by (rule Cons.IH [OF rest]) (use Cons.prems(2) in simp)
  show ?case
  proof (cases "raw_doc start (lk_side lk) v")
    case None
    then show ?thesis using ih by simp
  next
    case (Some t)
    then have t: "t = normalize_cost (rr_entity v) (rr_payload v) (lk_side lk)" "\<not> rr_deleted v"
      "\<not> (case start of None \<Rightarrow> False | Some s \<Rightarrow> before_history_start (rr_payload v) s)"
      by (auto simp: raw_doc_def split: if_splits)
    have "t \<noteq> Inl (Crash e)" for e
      using one t Cons.prems(2) by (auto simp: apply_raw_def Let_def cost_version_def)
    then show ?thesis using Some ih by (cases t) (auto split: norm_error.splits)
  qed
qed simp

lemma map_filter_keep:
  assumes "\<And>r. P (h r) = P r" and "\<And>r. g (h r) = g r"
  shows "map g (filter P (map h xs)) = map g (filter P xs)"
  using assms by (induction xs) simp_all

lemma refill_sums: "ledger_sums (fst (refill_job_ids aliases rows)) = ledger_sums rows"
  unfolding ledger_sums_def refill_job_ids_def Let_def fst_conv map_map
  by (intro arg_cong [where f = "dict_add_all []"] map_filter_keep) simp_all

end
