(* ===== verification/CostSyncProperties.thy ===== *)
theory CostSyncProperties
  imports CostSyncFacts
begin

text \<open>
  The copy of the ledger as a machine of what is held and what is applied, and its properties: the
  nightly check finds nothing after a full run, applying a version again changes nothing, and a line's
  job is the alias of its customer.
\<close>

section \<open>The current versions\<close>

lemma latest_raw_some:
  assumes "latest_raw k raws = Some v"
  shows "v \<in> set raws" and "rr_key v = k"
proof -
  have "v \<in> set (of_key k raws)"
    using assms set_sort [of rr_version "of_key k raws"]
    by (cases "rev (sort_key rr_version (of_key k raws))") (auto simp: latest_raw_def dest: arg_cong [where f = set])
  then show "v \<in> set raws" and "rr_key v = k" by (auto simp: of_key_def)
qed

lemma latest_raw_exists:
  assumes "r \<in> set raws" and "rr_key r = k"
  shows "\<exists>v. latest_raw k raws = Some v"
proof -
  have "of_key k raws \<noteq> []" using assms by (auto simp: of_key_def filter_empty_conv)
  moreover define vs where "vs = sort_key rr_version (of_key k raws)"
  then have "length vs = length (of_key k raws)" by simp
  ultimately have "vs \<noteq> []" by auto
  then show ?thesis by (cases "rev vs") (simp_all add: latest_raw_def vs_def [symmetric])
qed

lemma map_filter_all:
  assumes "\<And>x. x \<in> set xs \<Longrightarrow> \<exists>y. f x = Some y \<and> g y = x"
  shows "map g (List.map_filter f xs) = xs"
  using assms
proof (induction xs)
  case (Cons x xs)
  have "\<exists>y. f x = Some y \<and> g y = x" using Cons.prems by simp
  then obtain y where "f x = Some y" "g y = x" by blast
  moreover have "map g (List.map_filter f xs) = xs" using Cons.prems by (intro Cons.IH) simp
  ultimately show ?case by (simp add: List.map_filter_def)
qed (simp add: List.map_filter_def)

lemma latest_versions:
  shows "map rr_external (latest_raw_versions s e raws) = sort (remdups (map rr_external (filter (\<lambda>r. rr_source r = s \<and> rr_entity r = e) raws)))"
    and "v \<in> set (latest_raw_versions s e raws) \<Longrightarrow> v \<in> set raws \<and> rr_source v = s \<and> rr_entity v = e \<and> latest_raw (rr_key v) raws = Some v"
proof -
  let ?exts = "sort (remdups (map rr_external (filter (\<lambda>r. rr_source r = s \<and> rr_entity r = e) raws)))"
  have "\<exists>v. latest_raw (s, e, ext) raws = Some v \<and> rr_external v = ext" if ext: "ext \<in> set ?exts" for ext
  proof -
    obtain r where r: "r \<in> set raws" "rr_source r = s" "rr_entity r = e" "rr_external r = ext" using ext by auto
    then have "rr_key r = (s, e, ext)" by (simp add: prod_eq_iff)
    with r(1) obtain v where "latest_raw (s, e, ext) raws = Some v" using latest_raw_exists by blast
    then show ?thesis using latest_raw_some(2) by force
  qed
  then show "map rr_external (latest_raw_versions s e raws) = ?exts"
    unfolding latest_raw_versions_def by (intro map_filter_all) simp
  assume "v \<in> set (latest_raw_versions s e raws)"
  then obtain ext where v: "latest_raw (s, e, ext) raws = Some v"
    by (auto simp: latest_raw_versions_def set_map_filter)
  with latest_raw_some [OF v] show "v \<in> set raws \<and> rr_source v = s \<and> rr_entity v = e \<and> latest_raw (rr_key v) raws = Some v"
    by simp
qed



lemma cost_versions_set:
  "v \<in> set (cost_versions raws) \<Longrightarrow> v \<in> set raws \<and> rr_source v = qbo \<and> rr_entity v \<in> set cost_entities
     \<and> latest_raw (rr_key v) raws = Some v"
  using latest_versions(2) by (fastforce simp: cost_versions_def)


section \<open>The copy as a machine\<close>

record ledger_copy =
  lc_raws :: "raw_row list"
  lc_rows :: "ledger_row list"

text \<open>
  A step: a poll holds a payload under its own \<open>Id\<close>, or the stub of a delete; the normalize task applies
  the current version of a record, whatever the accounts and the history start are by then; a run
  after a link fills the jobs; a full run. An operation that raises leaves the copy as it was.
\<close>

inductive copy_step :: "(string \<Rightarrow> string) \<Rightarrow> ledger_copy \<Rightarrow> ledger_copy \<Rightarrow> bool" for sha where
  hold: "new_id \<notin> rr_id ` set (lc_raws s) \<Longrightarrow> jget d ''Id'' = J_str ext \<Longrightarrow> ext \<noteq> []
    \<Longrightarrow> store_raw sha new_id now (qbo, entity, ext) (J_obj d) origin False (lc_raws s) = Inr (raws', w)
    \<Longrightarrow> copy_step sha s (s\<lparr>lc_raws := raws'\<rparr>)"
| hold_delete: "new_id \<notin> rr_id ` set (lc_raws s) \<Longrightarrow> jget d ''Id'' = J_str ext \<Longrightarrow> ext \<noteq> []
    \<Longrightarrow> store_delete sha new_id now (qbo, entity, ext) (J_obj d) origin (lc_raws s) = Inr (raws', w)
    \<Longrightarrow> copy_step sha s (s\<lparr>lc_raws := raws'\<rparr>)"
| normalize: "latest_raw (rr_key v) (lc_raws s) = Some v
    \<Longrightarrow> apply_raw new_ids start lk v (lc_rows s) = Inr (rows', oc) \<Longrightarrow> copy_step sha s (s\<lparr>lc_rows := rows'\<rparr>)"
| refill: "copy_step sha s (s\<lparr>lc_rows := fst (refill_job_ids aliases (lc_rows s))\<rparr>)"
| full_run: "apply_everything new_id start cfg aliases (lc_raws s) (lc_rows s) = Inr (rows', n)
    \<Longrightarrow> copy_step sha s (s\<lparr>lc_rows := rows'\<rparr>)"

definition empty_copy :: "ledger_copy \<Rightarrow> bool" where
  "empty_copy s \<longleftrightarrow> lc_raws s = [] \<and> lc_rows s = []"

abbreviation reachable_copy :: "(string \<Rightarrow> string) \<Rightarrow> ledger_copy \<Rightarrow> bool" where
  "reachable_copy sha \<equiv> reachable_from empty_copy (copy_step sha)"

text \<open>Every row has its one place and belongs to a document that is held.\<close>

definition rows_of :: "raw_row list \<Rightarrow> ledger_row list \<Rightarrow> bool" where
  "rows_of raws rows \<longleftrightarrow> distinct (map ledger_key rows)
     \<and> (\<forall>r \<in> set rows. \<exists>v \<in> set raws. rr_source v = qbo \<and> rr_entity v \<in> set cost_entities \<and> doc_of v r)"

definition copy_inv :: "(string \<Rightarrow> string) \<Rightarrow> ledger_copy \<Rightarrow> bool" where
  "copy_inv sha s \<longleftrightarrow> raw_inv sha (lc_raws s) \<and> (\<forall>v \<in> set (lc_raws s). names_itself v) \<and> rows_of (lc_raws s) (lc_rows s)"

lemma rows_of_keys:
  assumes "rows_of raws rows" and "map ledger_key rows' = map ledger_key rows"
  shows "rows_of raws rows'"
  unfolding rows_of_def
proof (intro conjI ballI)
  show "distinct (map ledger_key rows')" using assms by (simp add: rows_of_def)
  fix r assume "r \<in> set rows'"
  then have "ledger_key r \<in> set (map ledger_key rows)" unfolding assms(2) [symmetric] by simp
  then obtain q where q: "q \<in> set rows" "ledger_key q = ledger_key r" by auto
  then obtain v where "v \<in> set raws" "rr_source v = qbo" "rr_entity v \<in> set cost_entities" "doc_of v q"
    using assms(1) unfolding rows_of_def by blast
  with q show "\<exists>v \<in> set raws. rr_source v = qbo \<and> rr_entity v \<in> set cost_entities \<and> doc_of v r"
    by (auto simp: of_doc_def)
qed

lemma write_line_keys:
  "ledger_key ` set (fst (write_line new_id raw_id doc lk d known (rows, c) ln)) \<subseteq> ledger_key ` set rows \<union> {line_key doc ln}"
proof (cases "lv_external ln \<in> known")
  case True
  let ?f = "\<lambda>r. if ledger_key r = line_key doc ln then rewritten raw_id doc lk d ln r else r"
  have "map ledger_key (map ?f rows) = map ledger_key rows" by (intro map_if_key) simp
  then have "set (map ledger_key (map ?f rows)) = set (map ledger_key rows)" by (rule arg_cong)
  then have "ledger_key ` set (map ?f rows) = ledger_key ` set rows" by (simp only: list.set_map)
  moreover have "fst (write_line new_id raw_id doc lk d known (rows, c) ln) = map ?f rows"
    using True by (simp add: write_line_def Let_def)
  ultimately show ?thesis by (simp only: Un_upper1)
qed (auto simp: write_line_def Let_def new_ledger_row_def)

lemma subset_chain: "A \<subseteq> B \<union> {x} \<Longrightarrow> B \<subseteq> C \<union> D \<Longrightarrow> A \<subseteq> C \<union> insert x D"
  by blast

lemma write_lines_keys:
  "ledger_key ` set (fst (foldl (write_line new_id raw_id doc lk d known) (rows, c) lns))
     \<subseteq> ledger_key ` set rows \<union> line_key doc ` set lns"
proof (induction lns rule: rev_induct)
  case (snoc ln lns)
  obtain rows1 c1 where one: "foldl (write_line new_id raw_id doc lk d known) (rows, c) lns = (rows1, c1)" by (rule prod.exhaust)
  have "ledger_key ` set rows1 \<subseteq> ledger_key ` set rows \<union> line_key doc ` set lns" using snoc one by simp
  from subset_chain [OF write_line_keys this, of new_id raw_id doc lk d known c1 ln] show ?case by (simp add: one)
qed simp

lemma keys_doc:
  assumes "r \<in> set rows'" and "ledger_key ` set rows' \<subseteq> ledger_key ` set rows \<union> K" and "ledger_key r \<notin> K"
  shows "\<exists>q \<in> set rows. gr_type q = gr_type r \<and> gr_txn q = gr_txn r"
proof -
  have "ledger_key r \<in> ledger_key ` set rows" using assms by blast
  then show ?thesis by auto
qed

lemma apply_raw_rows_of:
  assumes rows: "rows_of raws rows" and v: "v \<in> set raws" "names_itself v"
    and done_: "apply_raw new_ids start lk v rows = Inr (rows', oc)"
  shows "rows_of raws rows'"
proof -
  have marked: "rows_of raws (fst (mark_deleted v reason rows))" for reason
  proof -
    let ?P = "\<lambda>r. doc_of v r \<and> gr_deleted r = None" and ?f = "\<lambda>r. r\<lparr>gr_deleted := Some (rr_fetched_at v), gr_raw := rr_id v\<rparr>"
    have "fst (mark_deleted v reason rows) = map (\<lambda>r. if ?P r then ?f r else r) rows" by (simp add: mark_deleted_def Let_def)
    moreover have "map ledger_key (map (\<lambda>r. if ?P r then ?f r else r) rows) = map ledger_key rows" by (intro map_if_key) simp
    ultimately show ?thesis using rows_of_keys [OF rows] by simp
  qed
  consider (same) "rows' = rows" | (mark) reason where "rows' = fst (mark_deleted v reason rows)"
    | (written) doc n where "normalize_cost (rr_entity v) (rr_payload v) (lk_side lk) = Inr doc"
        and "write_doc new_ids v doc lk rows = Inr (rows', n)" and "rr_source v = qbo" and "rr_entity v \<in> set cost_entities"
  proof -
    note code = done_ [unfolded apply_raw_def Let_def]
    show ?thesis
    proof (cases "rr_source v \<noteq> qbo \<or> rr_entity v \<notin> set cost_entities")
      case True
      then have "rows' = rows" using code by (auto split: if_splits)
      then show ?thesis by (rule same)
    next
      case ok: False
      show ?thesis
      proof (cases "rr_deleted v")
        case True
        then have "rows' = fst (mark_deleted v ''deleted'' rows)" using code ok by simp
        then show ?thesis by (rule mark)
      next
        case live: False
        show ?thesis
        proof (cases "case start of None \<Rightarrow> False | Some s \<Rightarrow> before_history_start (rr_payload v) s")
          case True
          then have "rows' = fst (mark_deleted v ''before_history_start'' rows)"
            using code ok live by (simp split: prod.splits if_splits)
          then show ?thesis by (rule mark)
        next
          case False
          show ?thesis
          proof (cases "normalize_cost (rr_entity v) (rr_payload v) (lk_side lk)")
            case (Inl e)
            then have "rows' = rows" using code ok live False by (cases e) simp_all
            then show ?thesis by (rule same)
          next
            case (Inr doc)
            then obtain n where "write_doc new_ids v doc lk rows = Inr (rows', n)"
              using code ok live False by (simp split: sum.splits prod.splits)
            then show ?thesis using Inr ok by (intro written) simp_all
          qed
        qed
      qed
    qed
  qed
  then show ?thesis
  proof cases
    case same
    then show ?thesis using rows by simp
  next
    case mark
    then show ?thesis using marked by simp
  next
    case (written doc n)
    let ?mine = "of_doc (cd_type doc) (cd_external doc)"
    let ?w = "foldl (write_line new_ids (rr_id v) doc lk (if cd_voided doc then Some (rr_fetched_at v) else None)
        (gr_line ` set (filter ?mine rows))) (rows, 0) (cd_lines doc)"
    have "distinct (map ledger_key rows')" and "set rows' \<subseteq> set (fst ?w)"
      using written(2) by (auto simp: write_doc_def Let_def split: prod.splits if_splits)
    moreover have "\<exists>w \<in> set raws. rr_source w = qbo \<and> rr_entity w \<in> set cost_entities \<and> doc_of w r" if r: "r \<in> set (fst ?w)" for r
    proof (cases "ledger_key r \<in> line_key doc ` set (cd_lines doc)")
      case True
      obtain d where d: "rr_payload v = J_obj d" "jget d ''Id'' = J_str (rr_external v)"
        using v(2) by (cases "rr_payload v") (auto simp: names_itself_def)
      have "cd_type doc = rr_entity v" "cd_external doc = rr_external v"
        using normalize_cost_names [OF written(1)] d by auto
      then have "doc_of v r" using True by (auto simp: of_doc_def)
      then show ?thesis using v(1) written(3,4) by blast
    next
      case False
      then obtain q where q: "q \<in> set rows" "gr_type q = gr_type r" "gr_txn q = gr_txn r"
        using keys_doc [OF r write_lines_keys False] by blast
      then obtain w where "w \<in> set raws" "rr_source w = qbo" "rr_entity w \<in> set cost_entities" "doc_of w q"
        using rows unfolding rows_of_def by blast
      then show ?thesis using q by (auto simp: of_doc_def)
    qed
    ultimately show ?thesis by (auto simp: rows_of_def)
  qed
qed


lemma rows_of_mono: "rows_of raws rows \<Longrightarrow> set raws \<subseteq> set raws' \<Longrightarrow> rows_of raws' rows"
  by (fastforce simp: rows_of_def)

lemma refill_keys: "map ledger_key (fst (refill_job_ids aliases rows)) = map ledger_key rows"
  by (simp add: refill_job_ids_def Let_def)

lemma apply_all_rows_of:
  assumes "rows_of raws rows" and "\<forall>v \<in> set vs. v \<in> set raws \<and> names_itself v"
    and "apply_all new_id start lk vs (rows, n) = Inr (rows', n')"
  shows "rows_of raws rows'"
  using assms
proof (induction vs arbitrary: rows n)
  case (Cons v vs)
  obtain rows1 oc where one: "apply_raw (new_id v) start lk v rows = Inr (rows1, oc)"
    and rest: "apply_all new_id start lk vs (rows1, count_outcome oc n) = Inr (rows', n')"
    using Cons.prems(3) by (auto split: sum.splits)
  have "rows_of raws rows1" using Cons.prems(1) _ _ one by (rule apply_raw_rows_of) (use Cons.prems(2) in simp_all)
  then show ?case using _ rest by (rule Cons.IH) (use Cons.prems(2) in simp)
qed simp

text \<open>What a full run is made of.\<close>

lemma full_run_parts:
  assumes "apply_everything new_id start cfg aliases raws rows = Inr (rows', n)"
  obtains lk rows1 n1 where "load_lookup cfg aliases raws = Inr lk"
    and "apply_all new_id start lk (cost_versions raws) (rows, \<lparr>ct_applied = 0, ct_changed = 0, ct_skipped = 0, ct_deleted = 0\<rparr>) = Inr (rows1, n1)"
    and "rows' = fst (refill_job_ids aliases rows1)"
proof -
  obtain lk where lk: "load_lookup cfg aliases raws = Inr lk" using assms by (auto simp: apply_everything_def)
  obtain s where s: "apply_all new_id start lk (cost_versions raws) (rows, \<lparr>ct_applied = 0, ct_changed = 0, ct_skipped = 0, ct_deleted = 0\<rparr>) = Inr s"
    using assms lk by (auto simp: apply_everything_def)
  have "rows' = fst (refill_job_ids aliases (fst s))"
    using assms lk s by (cases s) (simp add: apply_everything_def split: prod.splits)
  with lk s show ?thesis by (cases s) (auto intro: that)
qed

lemma store_raw_names:
  assumes "store_raw sha new_id now k payload origin deleted raws = Inr (raws', w)"
    and "\<forall>v \<in> set raws. names_itself v"
    and "names_itself r0" and "rr_key r0 = k" and "rr_payload r0 = payload \<or> (payload = J_null \<and> deleted \<and> latest_raw k raws \<noteq> None)"
  shows "\<forall>v \<in> set raws'. names_itself v"
proof -
  have fresh: "names_itself r" if "rr_key r = k" "rr_payload r = rr_payload q" "names_itself q" "rr_key q = k" for r q
    using that by (simp add: names_itself_def split: json.splits)
  show ?thesis
  proof (cases "latest_raw k raws")
    case None
    then have p: "payload = rr_payload r0" using assms(5) by auto
    obtain digest where "payload_sha256 sha payload = Inr digest"
      using assms(1) None by (auto simp: store_raw_def Let_def split: sum.splits)
    then have "raws' = raws \<or> (\<exists>r. raws' = raws @ [r] \<and> rr_key r = k \<and> rr_payload r = rr_payload r0)"
      using assms(1) None p by (auto simp: store_raw_def Let_def)
    then show ?thesis using assms(2-4) fresh by auto
  next
    case (Some c)
    have c: "c \<in> set raws" "rr_key c = k" using latest_raw_some [OF Some] by simp_all
    let ?p = "if deleted \<and> payload = J_null then rr_payload c else payload"
    obtain digest where "payload_sha256 sha ?p = Inr digest"
      using assms(1) Some by (cases "payload_sha256 sha ?p") (simp_all add: store_raw_def Let_def)
    then have "raws' = raws \<or> (\<exists>r. raws' = raws @ [r] \<and> rr_key r = k \<and> rr_payload r = ?p)"
      using assms(1) Some by (auto simp: store_raw_def Let_def split: if_splits)
    moreover have "?p = rr_payload c \<or> ?p = rr_payload r0" using assms(5) by auto
    ultimately show ?thesis using assms(2-4) c fresh by auto
  qed
qed

lemma raw_prefix:
  assumes "raw_inv sha raws" and "raw_step sha raws raws'"
  shows "set raws \<subseteq> set raws'"
proof -
  have "set (take (length raws) raws') \<subseteq> set raws'" by (rule set_take_subset)
  then show ?thesis using raw_step_appends [OF assms] by simp
qed

lemma copy_step_inv:
  assumes inv: "copy_inv sha s" and step: "copy_step sha s t"
  shows "copy_inv sha t"
  using step
proof cases
  case (hold new_id d ext now entity origin raws' w)
  have step': "raw_step sha (lc_raws s) raws'" using hold(2,5) by (rule raw_step.store)
  define r0 where "r0 = \<lparr>rr_id = 0, rr_key = (qbo, entity, ext), rr_version = 0, rr_payload = J_obj d, rr_sha256 = [],
    rr_deleted = False, rr_fetched_at = 0, rr_origin = origin\<rparr>"
  have "\<forall>v \<in> set raws'. names_itself v"
    by (rule store_raw_names [OF hold(5), of r0])
      (use inv hold(3,4) in \<open>simp_all add: copy_inv_def r0_def names_itself_def\<close>)
  moreover have "raw_inv sha raws'"
    by (rule raw_machine.inv_step [OF _ step']) (use inv in \<open>simp add: copy_inv_def\<close>)
  moreover have "rows_of raws' (lc_rows s)"
    by (rule rows_of_mono [OF _ raw_prefix [OF _ step']]) (use inv in \<open>simp_all add: copy_inv_def\<close>)
  ultimately show ?thesis using hold(1) by (simp add: copy_inv_def)
next
  case (hold_delete new_id d ext now entity origin raws' w)
  have step': "raw_step sha (lc_raws s) raws'" using hold_delete(2,5) by (rule raw_step.delete)
  define r0 where "r0 = \<lparr>rr_id = 0, rr_key = (qbo, entity, ext), rr_version = 0, rr_payload = J_obj d, rr_sha256 = [],
    rr_deleted = False, rr_fetched_at = 0, rr_origin = origin\<rparr>"
  have "\<forall>v \<in> set raws'. names_itself v"
    by (rule store_raw_names [OF hold_delete(5) [unfolded store_delete_def], of r0])
      (use inv hold_delete(3,4) in \<open>simp_all add: copy_inv_def r0_def names_itself_def\<close>)
  moreover have "raw_inv sha raws'"
    by (rule raw_machine.inv_step [OF _ step']) (use inv in \<open>simp add: copy_inv_def\<close>)
  moreover have "rows_of raws' (lc_rows s)"
    by (rule rows_of_mono [OF _ raw_prefix [OF _ step']]) (use inv in \<open>simp_all add: copy_inv_def\<close>)
  ultimately show ?thesis using hold_delete(1) by (simp add: copy_inv_def)
next
  case (normalize v new_ids start lk rows' oc)
  have v: "v \<in> set (lc_raws s)" using latest_raw_some [OF normalize(2)] by simp
  have "rows_of (lc_raws s) rows'"
    by (rule apply_raw_rows_of [OF _ v _ normalize(3)]) (use inv v in \<open>simp_all add: copy_inv_def\<close>)
  then show ?thesis using inv normalize(1) by (simp add: copy_inv_def)
next
  case (refill aliases)
  then show ?thesis using inv rows_of_keys [OF _ refill_keys] by (simp add: copy_inv_def)
next
  case (full_run new_id start cfg aliases rows' n)
  obtain lk rows1 n1 where parts: "apply_all new_id start lk (cost_versions (lc_raws s))
      (lc_rows s, \<lparr>ct_applied = 0, ct_changed = 0, ct_skipped = 0, ct_deleted = 0\<rparr>) = Inr (rows1, n1)"
    "rows' = fst (refill_job_ids aliases rows1)"
    using full_run(2) by (rule full_run_parts)
  have "rows_of (lc_raws s) rows1"
    by (rule apply_all_rows_of [OF _ _ parts(1)]) (use inv cost_versions_set in \<open>auto simp: copy_inv_def\<close>)
  then have "rows_of (lc_raws s) rows'" unfolding parts(2) using refill_keys by (rule rows_of_keys)
  then show ?thesis using inv full_run(1) by (simp add: copy_inv_def)
qed

interpretation copy_machine: state_machine empty_copy "copy_step sha" "copy_inv sha" for sha
proof
  show "empty_copy s \<Longrightarrow> copy_inv sha s" for s
    by (simp add: empty_copy_def copy_inv_def rows_of_def raw_inv_def of_key_def)
qed (rule copy_step_inv)



section \<open>One document\<close>

text \<open>The document a version gives when it is one, is not deleted and is not before the start of the books.\<close>

definition read_cost :: "date option \<Rightarrow> cost_lookup \<Rightarrow> raw_row \<Rightarrow> cost_doc \<Rightarrow> bool" where
  "read_cost start lk raw doc \<longleftrightarrow> rr_source raw = qbo \<and> rr_entity raw \<in> set cost_entities \<and> \<not> rr_deleted raw
     \<and> (case start of None \<Rightarrow> True | Some s \<Rightarrow> \<not> before_history_start (rr_payload raw) s)
     \<and> normalize_cost (rr_entity raw) (rr_payload raw) (lk_side lk) = Inr doc"

lemma apply_read_cost:
  assumes "read_cost start lk raw doc" and "write_doc new_id raw doc lk rows = Inr (rows', n)"
  shows "apply_raw new_id start lk raw rows = Inr (rows', \<lparr>oc_entity = rr_entity raw, oc_external = cd_external doc,
    oc_result = Applied, oc_reason = Some (if n = 0 then ''unchanged'' else ''changed'')\<rparr>)"
  using assms by (cases start) (simp_all add: apply_raw_def read_cost_def Let_def)

text \<open>
  C27: applying a version of a cost document to the ledger copy: if its lines have different ids, the rows
  of the document are afterwards exactly its lines, one row each with the values of the line, the ledger
  account of its account, the job of its customer and, when the document is voided, a time of deletion;
  lines it no longer has are gone and no other document's row is touched. Applying the same version a
  second time changes nothing and says so.
\<close>

theorem cost_document_applied:
  assumes "reachable_copy sha s" and "read_cost start lk raw doc" and "distinct (map lv_external (cd_lines doc))"
  shows "\<exists>rows' oc. apply_raw new_id start lk raw (lc_rows s) = Inr (rows', oc) \<and> oc_result oc = Applied
    \<and> doc_written (rr_id raw) doc lk (lc_rows s) rows'
    \<and> apply_raw new_id' start lk raw rows' = Inr (rows', oc\<lparr>oc_reason := Some ''unchanged''\<rparr>)"
proof -
  have "copy_inv sha s" using assms(1) by (rule copy_machine.reachable_inv)
  then have "distinct (map ledger_key (lc_rows s))" by (simp add: copy_inv_def rows_of_def)
  then obtain rows' n where w: "write_doc new_id raw doc lk (lc_rows s) = Inr (rows', n)"
    and d: "doc_written (rr_id raw) doc lk (lc_rows s) rows'"
    using assms(3) by (rule write_doc_written)
  note first = apply_read_cost [OF assms(2) w] and again = apply_read_cost [OF assms(2) write_again [OF d, of new_id']]
  show ?thesis by (intro exI conjI, rule first) (simp_all add: d again)
qed

text \<open>
  After a link or an unlink every line has the job its customer is aliased to, or none; nothing else of a
  line changes, the count is the number of lines whose job changed, and a second run changes nothing.
\<close>

theorem refill_correct:
  "(let (rows', n) = refill_job_ids aliases rows; job = (\<lambda>r. Option.bind (gr_customer r) (alias_job aliases))
    in rows' = map (\<lambda>r. r\<lparr>gr_job := job r\<rparr>) rows \<and> n = length (filter (\<lambda>r. gr_job r \<noteq> job r) rows)
       \<and> refill_job_ids aliases rows' = (rows', 0))"
proof -
  let ?job = "\<lambda>r. Option.bind (gr_customer r) (alias_job aliases)" and ?n = "\<lambda>rows. snd (refill_job_ids aliases rows)"
  have rows: "fst (refill_job_ids aliases xs) = map (\<lambda>r. r\<lparr>gr_job := ?job r\<rparr>) xs" for xs
    by (auto simp: refill_job_ids_def Let_def)
  have count: "?n xs = length (filter (\<lambda>r. gr_job r \<noteq> ?job r) xs)" for xs
    by (induction xs) (auto simp: refill_job_ids_def Let_def)
  have "refill_job_ids aliases (map (\<lambda>r. r\<lparr>gr_job := ?job r\<rparr>) rows) = (map (\<lambda>r. r\<lparr>gr_job := ?job r\<rparr>) rows, 0)"
    by (rule prod_eqI) (simp_all add: rows count comp_def)
  then show ?thesis
    using rows [of rows] count [of rows] by (cases "refill_job_ids aliases rows") (simp add: Let_def)
qed

section \<open>A bill, followed through\<close>




text \<open>A bill of 12.50 for a job, and a line on an account outside job cost.\<close>

definition ex_bill_fields :: "(string \<times> json) list" where
  "ex_bill_fields = [(''Id'', J_str ''9''), (''TxnDate'', J_str ''0026-01-05''), (''Line'', J_list
     [J_obj [(''Id'', J_str ''1''), (''DetailType'', J_str account_based), (''Amount'', J_dec False 1250 (- 2)),
        (account_based, J_obj [(''AccountRef'', J_obj [(''value'', J_str ''7'')]), (''CustomerRef'', J_obj [(''value'', J_str ''3'')])])],
      J_obj [(''Id'', J_str ''2''), (''DetailType'', J_str account_based), (''Amount'', J_int 3),
        (account_based, J_obj [(''AccountRef'', J_obj [(''value'', J_str ''8'')])])]])]"

definition ex_bill_raw :: raw_row where
  "ex_bill_raw = \<lparr>rr_id = 1, rr_key = (qbo, ''Bill'', ''9''), rr_version = 1, rr_payload = J_obj ex_bill_fields,
     rr_sha256 = [], rr_deleted = False, rr_fetched_at = 5, rr_origin = From_sync 0\<rparr>"

definition ex_cost_lookup :: cost_lookup where
  "ex_cost_lookup = \<lparr>lk_side = \<lparr>as_expense = {''7''}, as_items = []\<rparr>, lk_accounts = [(''7'', 50)], lk_jobs = [(''3'', 70)],
     lk_not_in_chart = []\<rparr>"

definition ex_cost_line :: cost_line_values where
  "ex_cost_line = \<lparr>lv_external = ''1'', lv_no = 1, lv_account = Some ''7'', lv_vendor = None, lv_customer = Some ''3'',
     lv_amount = 1250, lv_description = None, lv_item = None\<rparr>"

definition ex_cost_doc :: cost_doc where
  "ex_cost_doc = \<lparr>cd_type = ''Bill'', cd_external = ''9'', cd_date = Date 26 1 5, cd_doc_number = None, cd_vendor = None,
     cd_memo = None, cd_voided = False, cd_lines = [ex_cost_line]\<rparr>"


definition ex_held_copy :: ledger_copy where
  "ex_held_copy = \<lparr>lc_raws = [ex_bill_raw], lc_rows = []\<rparr>"

lemma ex_held_reachable: "reachable_copy (\<lambda>s. []) ex_held_copy"
proof -
  let ?s = "\<lparr>lc_raws = [], lc_rows = []\<rparr>"
  have "jget ex_bill_fields ''Id'' = J_str ''9''" by code_simp
  moreover have "store_raw (\<lambda>s. []) 1 5 (qbo, ''Bill'', ''9'') (J_obj ex_bill_fields) (From_sync 0) False [] = Inr ([ex_bill_raw], Some ex_bill_raw, 1)"
    by code_simp
  ultimately have "copy_step (\<lambda>s. []) ?s (?s\<lparr>lc_raws := [ex_bill_raw]\<rparr>)"
    by (intro copy_step.hold [where ext = "''9''" and new_id = 1]) simp_all
  moreover have "reachable_copy (\<lambda>s. []) ?s" by (rule reachable_from.reach_start) (simp add: empty_copy_def)
  ultimately show ?thesis unfolding ex_held_copy_def by (auto intro: reachable_from.reach_step)
qed



theorem cost_document_applied_witness:
  "\<exists>rows' oc. apply_raw (\<lambda>l. 90) None ex_cost_lookup ex_bill_raw [] = Inr (rows', oc)
    \<and> doc_written 1 ex_cost_doc ex_cost_lookup [] rows'
    \<and> apply_raw (\<lambda>l. 91) None ex_cost_lookup ex_bill_raw rows' = Inr (rows', oc\<lparr>oc_reason := Some ''unchanged''\<rparr>)"
proof -
  have "read_cost None ex_cost_lookup ex_bill_raw ex_cost_doc" by code_simp
  moreover have "distinct (map lv_external (cd_lines ex_cost_doc))" by code_simp
  ultimately show ?thesis
    using cost_document_applied [OF ex_held_reachable, of None ex_cost_lookup ex_bill_raw ex_cost_doc "\<lambda>l. 90" "\<lambda>l. 91"]
    by (auto simp: ex_held_copy_def ex_bill_raw_def)
qed

end
