(* ===== verification/BillingSync.thy ===== *)
theory BillingSync
  imports CostSync
begin

text \<open>
  The copy of the billing side: \<open>app/domain/billing/sync.py\<close> over the rows of \<open>models.py\<close> (customers,
  documents with their lines, payments with their applications) and the QuickBooks ids on the chart
  of accounts. The rows are those of one tenant and of QuickBooks; an operation is one transaction, an
  exception undoes it. \<open>sy_assigned\<close> are the lines that rows of \<open>billing_line_work_area\<close> name: the table
  is append-only and its foreign key is \<open>ON DELETE RESTRICT\<close>.
\<close>

section \<open>Rows\<close>

record customer_row =
  sc_id :: uuid
  sc_external :: string
  sc_name :: string
  sc_parent_external :: "string option"
  sc_parent :: "uuid option"
  sc_project :: bool
  sc_active :: bool
  sc_tracked :: "(int \<times> uuid option) option"
  sc_raw :: uuid

record billing_row =
  sb_id :: uuid
  sb_kind :: string
  sb_external :: string
  sb_doc_number :: "string option"
  sb_date :: date
  sb_due :: "date option"
  sb_customer_external :: string
  sb_customer :: "uuid option"
  sb_subtotal :: cents
  sb_discount :: cents
  sb_tax :: cents
  sb_total :: cents
  sb_balance :: cents
  sb_voided :: bool
  sb_deleted :: "int option"
  sb_raw :: uuid

record billing_line_row =
  sl_id :: uuid
  sl_billing :: uuid
  sl_values :: billing_line_values

record payment_row =
  sp_id :: uuid
  sp_kind :: string
  sp_external :: string
  sp_date :: date
  sp_customer_external :: string
  sp_customer :: "uuid option"
  sp_total :: cents
  sp_unapplied :: cents
  sp_deposit_account :: "string option"
  sp_deleted :: "int option"
  sp_raw :: uuid

record application_row =
  sa_id :: uuid
  sa_payment :: uuid
  sa_values :: application_values
  sa_billing :: "uuid option"

record billing_copy =
  sy_customers :: "customer_row list"
  sy_billings :: "billing_row list"
  sy_lines :: "billing_line_row list"
  sy_payments :: "payment_row list"
  sy_applications :: "application_row list"
  sy_assigned :: "uuid list"

text \<open>The ids the new rows of one operation get.\<close>

record new_ids =
  ni_customer :: uuid
  ni_billing :: uuid
  ni_payment :: uuid
  ni_line :: "nat \<Rightarrow> uuid"
  ni_application :: "nat \<Rightarrow> uuid"

section \<open>Lookups\<close>

definition find_customer :: "string \<Rightarrow> billing_copy \<Rightarrow> customer_row option" where
  "find_customer ext db = List.find (\<lambda>c. sc_external c = ext) (sy_customers db)"

definition find_billing :: "string \<Rightarrow> string \<Rightarrow> billing_copy \<Rightarrow> billing_row option" where
  "find_billing kind ext db = List.find (\<lambda>b. sb_kind b = kind \<and> sb_external b = ext) (sy_billings db)"

definition find_payment :: "string \<Rightarrow> string \<Rightarrow> billing_copy \<Rightarrow> payment_row option" where
  "find_payment kind ext db = List.find (\<lambda>p. sp_kind p = kind \<and> sp_external p = ext) (sy_payments db)"

definition customer_id :: "string \<Rightarrow> billing_copy \<Rightarrow> uuid option" where
  "customer_id ext db = map_option sc_id (find_customer ext db)"

definition billing_id :: "string \<Rightarrow> string \<Rightarrow> billing_copy \<Rightarrow> uuid option" where
  "billing_id linked_type ext db = (case kind_by_entity linked_type of
     None \<Rightarrow> None | Some kind \<Rightarrow> map_option sb_id (find_billing kind ext db))"

text \<open>An earlier version of the record whose total was not zero.\<close>

definition nonzero_number :: "json \<Rightarrow> bool" where
  "nonzero_number v \<longleftrightarrow> (case v of J_int i \<Rightarrow> i \<noteq> 0 | J_dec s c e \<Rightarrow> c \<noteq> 0 | J_dec_nonfinite n \<Rightarrow> True | _ \<Rightarrow> False)"

definition had_nonzero_total_before :: "raw_row list \<Rightarrow> raw_row \<Rightarrow> bool" where
  "had_nonzero_total_before history current \<longleftrightarrow> list_ex (\<lambda>v. rr_version v < rr_version current
     \<and> (case rr_payload v of J_obj d \<Rightarrow> nonzero_number (jget d ''TotalAmt'') | _ \<Rightarrow> False)) history"

section \<open>Customers\<close>

definition new_customer :: "uuid \<Rightarrow> string \<Rightarrow> customer_row" where
  "new_customer i ext = \<lparr>sc_id = i, sc_external = ext, sc_name = [], sc_parent_external = None, sc_parent = None,
     sc_project = False, sc_active = True, sc_tracked = None, sc_raw = 0\<rparr>"

definition customer_with :: "customer_values \<Rightarrow> uuid option \<Rightarrow> uuid \<Rightarrow> customer_row \<Rightarrow> customer_row" where
  "customer_with v parent raw_id c = c\<lparr>sc_name := nc_name v, sc_parent_external := nc_parent v, sc_parent := parent,
     sc_project := nc_project v, sc_active := nc_active v, sc_raw := raw_id\<rparr>"

text \<open>The row is written, then whoever named the customer before it existed is filled in.\<close>

definition fill_customer :: "string \<Rightarrow> uuid \<Rightarrow> billing_copy \<Rightarrow> billing_copy" where
  "fill_customer ext i db = db\<lparr>
     sy_customers := map (\<lambda>c. if sc_parent_external c = Some ext \<and> sc_parent c = None then c\<lparr>sc_parent := Some i\<rparr> else c) (sy_customers db),
     sy_billings := map (\<lambda>b. if sb_customer_external b = ext \<and> sb_customer b = None then b\<lparr>sb_customer := Some i\<rparr> else b) (sy_billings db),
     sy_payments := map (\<lambda>p. if sp_customer_external p = ext \<and> sp_customer p = None then p\<lparr>sp_customer := Some i\<rparr> else p) (sy_payments db)\<rparr>"

definition write_customer :: "uuid \<Rightarrow> uuid \<Rightarrow> customer_values \<Rightarrow> billing_copy \<Rightarrow> billing_copy" where
  "write_customer new_id raw_id v db =
     (let ext = nc_external v; parent = Option.bind (nc_parent v) (\<lambda>p. customer_id p db);
          i = (case customer_id ext db of None \<Rightarrow> new_id | Some i \<Rightarrow> i)
      in fill_customer ext i (db\<lparr>sy_customers := (if customer_id ext db = None
           then sy_customers db @ [customer_with v parent raw_id (new_customer new_id ext)]
           else map (\<lambda>c. if sc_external c = ext then customer_with v parent raw_id c else c) (sy_customers db))\<rparr>))"

section \<open>Documents and payments\<close>

definition billing_with :: "billing_values \<Rightarrow> uuid option \<Rightarrow> uuid \<Rightarrow> uuid \<Rightarrow> billing_row" where
  "billing_with v customer raw_id i = \<lparr>sb_id = i, sb_kind = nb_kind v, sb_external = nb_external v,
     sb_doc_number = nb_doc_number v, sb_date = nb_date v, sb_due = nb_due v, sb_customer_external = nb_customer v,
     sb_customer = customer, sb_subtotal = nb_subtotal v, sb_discount = nb_discount v, sb_tax = nb_tax v,
     sb_total = nb_total v, sb_balance = nb_balance v, sb_voided = nb_voided v, sb_deleted = None, sb_raw = raw_id\<rparr>"

definition payment_with :: "payment_values \<Rightarrow> uuid option \<Rightarrow> uuid \<Rightarrow> uuid \<Rightarrow> payment_row" where
  "payment_with v customer raw_id i = \<lparr>sp_id = i, sp_kind = np_kind v, sp_external = np_external v,
     sp_date = np_date v, sp_customer_external = np_customer v, sp_customer = customer, sp_total = np_total v,
     sp_unapplied = np_unapplied v, sp_deposit_account = np_deposit_account v, sp_deleted = None, sp_raw = raw_id\<rparr>"

definition entity_of_kind :: "string \<Rightarrow> string" where
  "entity_of_kind kind = (if kind = ''invoice'' then ''Invoice'' else if kind = ''credit_memo'' then ''CreditMemo'' else ''SalesReceipt'')"

text \<open>
  \<open>_write_billing\<close>: the header in place, the lines deleted and inserted again, the applications that
  named the document filled in. A line that an assignment names cannot be deleted.
\<close>

definition write_billing :: "new_ids \<Rightarrow> uuid \<Rightarrow> billing_values \<Rightarrow> billing_copy \<Rightarrow> (uncaught, billing_copy) result" where
  "write_billing ids raw_id v db =
     (let found = find_billing (nb_kind v) (nb_external v) db;
          i = (case found of None \<Rightarrow> ni_billing ids | Some b \<Rightarrow> sb_id b);
          row = billing_with v (customer_id (nb_customer v) db) raw_id;
          fills = (\<lambda>a. pv_linked_type (sa_values a) = entity_of_kind (nb_kind v) \<and> pv_linked (sa_values a) = nb_external v
            \<and> sa_billing a = None)
      in if list_ex (\<lambda>l. sl_billing l = i \<and> sl_id l \<in> set (sy_assigned db)) (sy_lines db) then Inl (Uncaught ''IntegrityError'')
         else Inr (db\<lparr>
           sy_billings := (if found = None then sy_billings db @ [row i]
             else map (\<lambda>b. if sb_kind b = nb_kind v \<and> sb_external b = nb_external v then row (sb_id b) else b) (sy_billings db)),
           sy_lines := filter (\<lambda>l. sl_billing l \<noteq> i) (sy_lines db)
             @ map (\<lambda>l. \<lparr>sl_id = ni_line ids (bv_no l), sl_billing = i, sl_values = l\<rparr>) (nb_lines v),
           sy_applications := map (\<lambda>a. if fills a then a\<lparr>sa_billing := Some i\<rparr> else a) (sy_applications db)\<rparr>))"

definition write_payment :: "new_ids \<Rightarrow> uuid \<Rightarrow> payment_values \<Rightarrow> billing_copy \<Rightarrow> billing_copy" where
  "write_payment ids raw_id v db =
     (let found = find_payment (np_kind v) (np_external v) db;
          i = (case found of None \<Rightarrow> ni_payment ids | Some p \<Rightarrow> sp_id p);
          row = payment_with v (customer_id (np_customer v) db) raw_id
      in db\<lparr>
           sy_payments := (if found = None then sy_payments db @ [row i]
             else map (\<lambda>p. if sp_kind p = np_kind v \<and> sp_external p = np_external v then row (sp_id p) else p) (sy_payments db)),
           sy_applications := filter (\<lambda>a. sa_payment a \<noteq> i) (sy_applications db)
             @ map (\<lambda>a. \<lparr>sa_id = ni_application ids (pv_no a), sa_payment = i, sa_values = a,
                 sa_billing = billing_id (pv_linked_type a) (pv_linked a) db\<rparr>) (np_applications v)\<rparr>)"

section \<open>One version\<close>

definition apply_customer :: "new_ids \<Rightarrow> raw_row \<Rightarrow> billing_copy \<Rightarrow> (norm_error, billing_copy \<times> string) result" where
  "apply_customer ids raw db = bind_r (normalize_customer (rr_payload raw)) (\<lambda>v.
     Inr (write_customer (ni_customer ids) (rr_id raw) v db, nc_external v))"

definition to_norm_error :: "uncaught \<Rightarrow> norm_error" where
  "to_norm_error e = (case e of Uncaught x \<Rightarrow> Crash x)"

definition apply_billing ::
  "new_ids \<Rightarrow> raw_row list \<Rightarrow> raw_row \<Rightarrow> billing_copy \<Rightarrow> (norm_error, billing_copy \<times> string) result" where
  "apply_billing ids raws raw db =
     bind_r (normalize_billing (rr_entity raw) (rr_payload raw) (had_nonzero_total_before (raw_history (rr_key raw) raws) raw)) (\<lambda>v.
     bind_r (map_sum to_norm_error id (write_billing ids (rr_id raw) v db)) (\<lambda>db'.
     if nb_kind v = ''sales_receipt''
     then bind_r (payment_from_sales_receipt v) (\<lambda>p. Inr (write_payment ids (rr_id raw) p db', nb_external v))
     else Inr (db', nb_external v)))"

definition apply_payment :: "new_ids \<Rightarrow> raw_row \<Rightarrow> billing_copy \<Rightarrow> (norm_error, billing_copy \<times> string) result" where
  "apply_payment ids raw db = bind_r (normalize_payment (rr_payload raw)) (\<lambda>v.
     Inr (write_payment ids (rr_id raw) v db, np_external v))"

text \<open>\<open>_apply_delete\<close>: \<open>deleted_at\<close> on the document and on the payment of its name.\<close>

definition payment_kind :: "string \<Rightarrow> string option" where
  "payment_kind = map_of [(''Payment'', ''payment''), (''SalesReceipt'', ''sales_receipt'')]"

definition outcome_of :: "raw_row \<Rightarrow> applied \<Rightarrow> string option \<Rightarrow> outcome" where
  "outcome_of raw result reason = \<lparr>oc_entity = rr_entity raw, oc_external = rr_external raw, oc_result = result, oc_reason = reason\<rparr>"

definition apply_delete :: "raw_row \<Rightarrow> string \<Rightarrow> billing_copy \<Rightarrow> billing_copy \<times> outcome" where
  "apply_delete raw reason db =
     (let hit_b = (\<lambda>b. kind_by_entity (rr_entity raw) = Some (sb_kind b) \<and> sb_external b = rr_external raw);
          hit_p = (\<lambda>p. payment_kind (rr_entity raw) = Some (sp_kind p) \<and> sp_external p = rr_external raw)
      in (db\<lparr>sy_billings := map (\<lambda>b. if hit_b b then b\<lparr>sb_deleted := Some (rr_fetched_at raw), sb_raw := rr_id raw\<rparr> else b) (sy_billings db),
             sy_payments := map (\<lambda>p. if hit_p p then p\<lparr>sp_deleted := Some (rr_fetched_at raw), sp_raw := rr_id raw\<rparr> else p) (sy_payments db)\<rparr>,
          if list_ex hit_b (sy_billings db) \<or> list_ex hit_p (sy_payments db) then outcome_of raw Deleted (Some reason)
          else outcome_of raw Ignored None))"

definition transactional :: "raw_row \<Rightarrow> bool" where
  "transactional raw \<longleftrightarrow> kind_by_entity (rr_entity raw) \<noteq> None \<or> rr_entity raw = ''Payment''"

definition ends :: "raw_row \<Rightarrow> billing_copy \<Rightarrow> (norm_error, billing_copy \<times> string) result \<Rightarrow> (uncaught, billing_copy \<times> outcome) result" where
  "ends raw db r = (case r of
     Inl (Unreadable reason) \<Rightarrow> Inr (db, outcome_of raw Skipped (Some reason))
   | Inl (Crash e) \<Rightarrow> Inl (Uncaught e)
   | Inr (db', ext) \<Rightarrow> Inr (db', (outcome_of raw Applied None)\<lparr>oc_external := ext\<rparr>))"

definition apply_billing_raw ::
  "new_ids \<Rightarrow> date \<Rightarrow> raw_row list \<Rightarrow> raw_row \<Rightarrow> billing_copy \<Rightarrow> (uncaught, billing_copy \<times> outcome) result" where
  "apply_billing_raw ids start raws raw db =
     (if rr_source raw \<noteq> qbo then Inr (db, outcome_of raw Ignored (Some ''not_qbo''))
      else if rr_deleted raw then Inr (apply_delete raw ''deleted'' db)
      else if transactional raw \<and> before_history_start (rr_payload raw) start
      then (let (db', oc) = apply_delete raw ''before_history_start'' db in
            Inr (if oc_result oc = Deleted then (db', oc) else (db', outcome_of raw Skipped (Some ''before_history_start''))))
      else if rr_entity raw = ''Customer'' then ends raw db (apply_customer ids raw db)
      else if kind_by_entity (rr_entity raw) \<noteq> None then ends raw db (apply_billing ids raws raw db)
      else if rr_entity raw = ''Payment'' then ends raw db (apply_payment ids raw db)
      else Inr (db, outcome_of raw Ignored (Some ''not_normalized'')))"

section \<open>Accounts\<close>

record account_numbers =
  an_total :: nat
  an_without :: nat
  an_duplicates :: nat
  an_by_number :: "(string, string list) dict"

text \<open>The active QuickBooks accounts by their number.\<close>

definition account_number_summary :: "raw_row list \<Rightarrow> account_numbers" where
  "account_number_summary raws =
     (let active = List.map_filter (\<lambda>r. case rr_payload r of
            J_obj d \<Rightarrow> if rr_deleted r \<or> jget d ''Active'' = J_bool False then None else Some d
          | _ \<Rightarrow> None) (latest_raw_versions qbo ''Account'' raws);
          number = (\<lambda>d. case as_text (jget d ''AcctNum'') of None \<Rightarrow> [] | Some s \<Rightarrow> strip s);
          numbered = filter (\<lambda>d. number d \<noteq> []) active;
          groups = dict_group (map (\<lambda>d. (number d, json_str (jget d ''Id''))) numbered)
      in \<lparr>an_total = length active, an_without = length active - length numbered,
          an_duplicates = length (filter (\<lambda>(n, ids). 1 < length ids) groups), an_by_number = groups\<rparr>)"

record chart_match =
  cm_attached :: "string list"
  cm_unmatched :: "string list"
  cm_chart_only :: "string list"
  cm_chart_total :: nat

definition accounts_by_no :: "config_db \<Rightarrow> (string, account_row) dict" where
  "accounts_by_no cfg = foldl (\<lambda>out a. AList.update (ga_no a) a out) [] (cf_accounts cfg)"

definition match_chart :: "config_db \<Rightarrow> raw_row list \<Rightarrow> account_numbers \<times> chart_match" where
  "match_chart cfg raws =
     (let n = account_number_summary raws; accounts = accounts_by_no cfg;
          single = filter (\<lambda>(no, ids). length ids = 1) (an_by_number n)
      in (n, \<lparr>cm_attached = sort (map fst (filter (\<lambda>(no, ids). Option.bind (map_of accounts no) ga_external_id = Some (hd ids)) single)),
          cm_unmatched = sort (map fst (filter (\<lambda>(no, ids). map_of accounts no = None) single)),
          cm_chart_only = sort (map fst (filter (\<lambda>(no, a). ga_active a \<and> map_of (an_by_number n) no = None) accounts)),
          cm_chart_total = length (filter (\<lambda>(no, a). ga_active a) accounts)\<rparr>))"

record account_attach =
  aa_attached :: nat
  aa_changed :: nat
  aa_without :: nat
  aa_duplicates :: nat
  aa_unmatched :: nat

text \<open>The QuickBooks id of the one account of a number goes on the chart row of that number.\<close>

definition attach_number :: "string \<times> string list \<Rightarrow> config_db \<times> account_attach \<Rightarrow> config_db \<times> account_attach" where
  "attach_number entry s =
     (let (no, ids) = entry; (cfg, n) = s in
      if 1 < length ids then s
      else case map_of (accounts_by_no cfg) no of
        None \<Rightarrow> (cfg, n\<lparr>aa_unmatched := aa_unmatched n + 1\<rparr>)
      | Some a \<Rightarrow> if ga_external_id a = Some (hd ids) then (cfg, n\<lparr>aa_attached := aa_attached n + 1\<rparr>)
          else (config_note Gl_account_linked (Some (ga_id a)) None None (Some (Linked_plain (ga_external_id a \<noteq> None))) None
                  (cfg\<lparr>cf_accounts := map (\<lambda>b. if ga_id b = ga_id a then b\<lparr>ga_external_id := Some (hd ids)\<rparr> else b) (cf_accounts cfg)\<rparr>),
                n\<lparr>aa_attached := aa_attached n + 1, aa_changed := aa_changed n + 1\<rparr>))"

definition attach_account_ids :: "raw_row list \<Rightarrow> config_db \<Rightarrow> config_db \<times> account_attach" where
  "attach_account_ids raws cfg =
     (let n = account_number_summary raws in
      foldl (\<lambda>s entry. attach_number entry s) (cfg, \<lparr>aa_attached = 0, aa_changed = 0, aa_without = an_without n,
        aa_duplicates = an_duplicates n, aa_unmatched = 0\<rparr>) (an_by_number n))"

section \<open>Deposits\<close>

text \<open>
  Deposit lines with no document: their count and total. The amounts are added as they are, not in
  cents: a number is a coefficient and an exponent of ten, brought to one exponent to be added. A
  truthy value that cannot be iterated in the place of the lines is a \<open>TypeError\<close>.
\<close>

fun number_of :: "json \<Rightarrow> (int \<times> int) option" where
  "number_of (J_int i) = Some (i, 0)"
| "number_of (J_dec s c e) = Some (if s then - int c else int c, e)"
| "number_of _ = None"

definition add_numbers :: "int \<times> int \<Rightarrow> int \<times> int \<Rightarrow> int \<times> int" where
  "add_numbers x y = (let e = min (snd x) (snd y) in
     (fst x * 10 ^ nat (snd x - e) + fst y * 10 ^ nat (snd y - e), e))"

definition iterable :: "json \<Rightarrow> bool" where
  "iterable v \<longleftrightarrow> \<not> truthy v \<or> (case v of J_list vs \<Rightarrow> True | J_obj d \<Rightarrow> True | J_str s \<Rightarrow> True | _ \<Rightarrow> False)"

definition unlinked_deposit_lines :: "date option \<Rightarrow> raw_row list \<Rightarrow> (uncaught, nat \<times> int \<times> int) result" where
  "unlinked_deposit_lines start raws =
     (let docs = List.map_filter (\<lambda>r. case rr_payload r of
            J_obj d \<Rightarrow> if rr_deleted r \<or> (case start of None \<Rightarrow> False | Some s \<Rightarrow> before_history_start (rr_payload r) s)
              then None else Some d
          | _ \<Rightarrow> None) (latest_raw_versions qbo ''Deposit'' raws);
          raw_lines = concat (map (\<lambda>d. case jget d ''Line'' of J_list vs \<Rightarrow> vs | _ \<Rightarrow> []) docs);
          amounts = List.map_filter (\<lambda>l. case l of
            J_obj entry \<Rightarrow> if truthy (jget entry ''LinkedTxn'') then None else number_of (jget entry ''Amount'') | _ \<Rightarrow> None) raw_lines
      in if list_all (\<lambda>d. iterable (jget d ''Line'')) docs then Inr (length amounts, foldl add_numbers (0, - 2) amounts)
         else Inl (Uncaught ''TypeError''))"

end
