(* ===== verification/BillingSyncFacts.thy ===== *)
theory BillingSyncFacts
  imports BillingSync
begin

text \<open>
  The invariant of the copy of the billing side, and that customers, documents, payments and deletes
  keep it: every key and id is there once, every document and payment points at the customer and every
  application at the document it names as soon as that row is there, the amounts of a document
  add up, and a line that was assigned to a work area is still there.
\<close>

section \<open>Lookups\<close>

text \<open>What the lookups see of the rows: their keys and ids.\<close>

definition customer_ids :: "billing_copy \<Rightarrow> (string \<times> uuid) list" where
  "customer_ids db = map (\<lambda>c. (sc_external c, sc_id c)) (sy_customers db)"

definition billing_ids :: "billing_copy \<Rightarrow> ((string \<times> string) \<times> uuid) list" where
  "billing_ids db = map (\<lambda>b. ((sb_kind b, sb_external b), sb_id b)) (sy_billings db)"

definition payment_ids :: "billing_copy \<Rightarrow> ((string \<times> string) \<times> uuid) list" where
  "payment_ids db = map (\<lambda>p. ((sp_kind p, sp_external p), sp_id p)) (sy_payments db)"

lemma find_map_of: "map_option g (List.find (\<lambda>x. f x = k) xs) = map_of (map (\<lambda>x. (f x, g x)) xs) k"
  by (induction xs) auto

lemma customer_id_ids: "customer_id ext db = map_of (customer_ids db) ext"
  by (simp add: customer_id_def find_customer_def customer_ids_def find_map_of)

lemma find_billing_ids: "map_option sb_id (find_billing kind ext db) = map_of (billing_ids db) (kind, ext)"
  using find_map_of [of sb_id "\<lambda>b. (sb_kind b, sb_external b)" "(kind, ext)" "sy_billings db"]
  by (simp add: find_billing_def billing_ids_def)

lemma find_payment_ids: "map_option sp_id (find_payment kind ext db) = map_of (payment_ids db) (kind, ext)"
  using find_map_of [of sp_id "\<lambda>p. (sp_kind p, sp_external p)" "(kind, ext)" "sy_payments db"]
  by (simp add: find_payment_def payment_ids_def)

lemma billing_id_ids: "billing_id t ext db = Option.bind (kind_by_entity t) (\<lambda>kind. map_of (billing_ids db) (kind, ext))"
  by (cases "kind_by_entity t") (simp_all add: billing_id_def find_billing_ids)

text \<open>Each key and each id is there once.\<close>

definition keyed :: "('k \<times> uuid) list \<Rightarrow> bool" where
  "keyed ids \<longleftrightarrow> distinct (map fst ids) \<and> distinct (map snd ids)"

definition keep_or_add :: "'k \<Rightarrow> uuid \<Rightarrow> ('k \<times> uuid) list \<Rightarrow> ('k \<times> uuid) list" where
  "keep_or_add k i ids = (if map_of ids k = None then ids @ [(k, i)] else ids)"

lemma keyed_keep_or_add: "keyed ids \<Longrightarrow> i \<notin> snd ` set ids \<Longrightarrow> keyed (keep_or_add k i ids)"
  by (auto simp: keyed_def keep_or_add_def map_of_eq_None_iff)

lemma keep_or_add_at:
  "map_of (keep_or_add k i ids) k' =
     (if k' = k then Some (case map_of ids k of None \<Rightarrow> i | Some j \<Rightarrow> j) else map_of ids k')"
  by (auto simp: keep_or_add_def map_add_def split: option.split)

section \<open>The invariant\<close>

definition links_complete :: "billing_copy \<Rightarrow> bool" where
  "links_complete db \<longleftrightarrow>
     (\<forall>c \<in> set (sy_customers db). sc_parent c = Option.bind (sc_parent_external c) (\<lambda>p. customer_id p db))
     \<and> (\<forall>b \<in> set (sy_billings db). sb_customer b = customer_id (sb_customer_external b) db)
     \<and> (\<forall>p \<in> set (sy_payments db). sp_customer p = customer_id (sp_customer_external p) db)
     \<and> (\<forall>a \<in> set (sy_applications db). sa_billing a = billing_id (pv_linked_type (sa_values a)) (pv_linked (sa_values a)) db)"

definition rows_complete :: "billing_copy \<Rightarrow> bool" where
  "rows_complete db \<longleftrightarrow>
     (\<forall>b \<in> set (sy_billings db). sb_subtotal b - sb_discount b + sb_tax b = sb_total b)
     \<and> (\<forall>l \<in> set (sy_lines db). sl_billing l \<in> snd ` set (billing_ids db))
     \<and> (\<forall>a \<in> set (sy_applications db). sa_payment a \<in> snd ` set (payment_ids db))
     \<and> set (sy_assigned db) \<subseteq> sl_id ` set (sy_lines db)"

definition sync_inv :: "billing_copy \<Rightarrow> bool" where
  "sync_inv db \<longleftrightarrow> keyed (customer_ids db) \<and> keyed (billing_ids db) \<and> keyed (payment_ids db)
     \<and> links_complete db \<and> rows_complete db"

definition fresh_ids :: "new_ids \<Rightarrow> billing_copy \<Rightarrow> bool" where
  "fresh_ids ids db \<longleftrightarrow> ni_customer ids \<notin> snd ` set (customer_ids db) \<and> ni_billing ids \<notin> snd ` set (billing_ids db)
     \<and> ni_payment ids \<notin> snd ` set (payment_ids db)"

section \<open>Customers keep it\<close>

lemma write_customer_ids:
  "customer_ids (write_customer new_id raw_id v db) = keep_or_add (nc_external v) new_id (customer_ids db)"
  "billing_ids (write_customer new_id raw_id v db) = billing_ids db"
  "payment_ids (write_customer new_id raw_id v db) = payment_ids db"
  by (auto simp: write_customer_def Let_def fill_customer_def customer_ids_def billing_ids_def payment_ids_def
      keep_or_add_def customer_with_def new_customer_def customer_id_ids)

lemma filled:
  assumes "old = map_of ids k" and "map_of ids' k = (if k = ext then Some i else map_of ids k)"
    and "i = (case map_of ids ext of None \<Rightarrow> n | Some j \<Rightarrow> j)"
  shows "(if k = ext \<and> old = None then Some i else old) = map_of ids' k"
  using assms by (auto split: option.splits)

lemma write_customer_inv:
  assumes inv: "sync_inv db" and new: "new_id \<notin> snd ` set (customer_ids db)"
  shows "sync_inv (write_customer new_id raw_id v db)"
proof -
  let ?db = "write_customer new_id raw_id v db" and ?ext = "nc_external v"
  let ?i = "case map_of (customer_ids db) ?ext of None \<Rightarrow> new_id | Some j \<Rightarrow> j"
  let ?row = "customer_with v (Option.bind (nc_parent v) (\<lambda>p. customer_id p db)) raw_id"
  have at: "map_of (customer_ids ?db) k = (if k = ?ext then Some ?i else map_of (customer_ids db) k)" for k
    by (simp add: write_customer_ids keep_or_add_at)
  have link: "(if k = ?ext \<and> old = None then Some ?i else old) = customer_id k ?db" if "old = customer_id k db" for k old
    using filled [OF that [unfolded customer_id_ids] at refl] by (simp add: customer_id_ids)
  have customers: "sc_parent c = Option.bind (sc_parent_external c) (\<lambda>p. customer_id p ?db)" if c: "c \<in> set (sy_customers ?db)" for c
  proof -
    obtain q where q: "sc_parent q = Option.bind (sc_parent_external q) (\<lambda>p. customer_id p db)"
      "c = (if sc_parent_external q = Some ?ext \<and> sc_parent q = None then q\<lparr>sc_parent := Some ?i\<rparr> else q)"
    proof -
      have row: "sc_parent (?row r) = Option.bind (sc_parent_external (?row r)) (\<lambda>p. customer_id p db)" for r
        by (simp add: customer_with_def)
      have old: "sc_parent r = Option.bind (sc_parent_external r) (\<lambda>p. customer_id p db)" if "r \<in> set (sy_customers db)" for r
        using inv that by (simp add: sync_inv_def links_complete_def)
      let ?fill = "\<lambda>q. if sc_parent_external q = Some ?ext \<and> sc_parent q = None then q\<lparr>sc_parent := Some ?i\<rparr> else q"
      let ?base = "if customer_id ?ext db = None then sy_customers db @ [?row (new_customer new_id ?ext)]
        else map (\<lambda>c. if sc_external c = ?ext then ?row c else c) (sy_customers db)"
      have "sy_customers ?db = map ?fill ?base"
        by (simp add: write_customer_def Let_def fill_customer_def customer_id_ids)
      then have "c \<in> ?fill ` set ?base" using c by (simp only: set_map)
      then obtain q where q: "q \<in> set ?base" "c = ?fill q" by (elim imageE)
      have "q \<in> set (sy_customers db) \<or> (\<exists>r. q = ?row r)" using q(1) by (cases "customer_id ?ext db = None") auto
      then have "sc_parent q = Option.bind (sc_parent_external q) (\<lambda>p. customer_id p db)" using row old by auto
      then show ?thesis using q(2) by (rule that)
    qed
    show ?thesis
    proof (cases "sc_parent_external q")
      case None
      then show ?thesis using q by simp
    next
      case (Some k)
      have "sc_parent c = (if k = ?ext \<and> sc_parent q = None then Some ?i else sc_parent q)" and "sc_parent_external c = Some k"
        unfolding q(2) using Some by simp_all
      moreover have "sc_parent q = customer_id k db" using q(1) Some by simp
      ultimately show ?thesis using link [of "sc_parent q" k] by (simp only: Option.bind.bind_lunit)
    qed
  qed
  have billings: "sb_customer b = customer_id (sb_customer_external b) ?db" if b: "b \<in> set (sy_billings ?db)" for b
  proof -
    obtain q where "q \<in> set (sy_billings db)"
      "b = (if sb_customer_external q = ?ext \<and> sb_customer q = None then q\<lparr>sb_customer := Some ?i\<rparr> else q)"
      using b by (auto simp: write_customer_def Let_def fill_customer_def customer_id_ids)
    moreover from calculation(2) have "sb_customer b = (if sb_customer_external q = ?ext \<and> sb_customer q = None then Some ?i else sb_customer q)"
      and "sb_customer_external b = sb_customer_external q" by simp_all
    moreover have "sb_customer q = customer_id (sb_customer_external q) db"
      using calculation(1) inv by (simp add: sync_inv_def links_complete_def)
    ultimately show ?thesis using link [of "sb_customer q" "sb_customer_external q"] by (simp only:)
  qed
  have payments: "sp_customer p = customer_id (sp_customer_external p) ?db" if p: "p \<in> set (sy_payments ?db)" for p
  proof -
    obtain q where "q \<in> set (sy_payments db)"
      "p = (if sp_customer_external q = ?ext \<and> sp_customer q = None then q\<lparr>sp_customer := Some ?i\<rparr> else q)"
      using p by (auto simp: write_customer_def Let_def fill_customer_def customer_id_ids)
    moreover from calculation(2) have "sp_customer p = (if sp_customer_external q = ?ext \<and> sp_customer q = None then Some ?i else sp_customer q)"
      and "sp_customer_external p = sp_customer_external q" by simp_all
    moreover have "sp_customer q = customer_id (sp_customer_external q) db"
      using calculation(1) inv by (simp add: sync_inv_def links_complete_def)
    ultimately show ?thesis using link [of "sp_customer q" "sp_customer_external q"] by (simp only:)
  qed
  have same: "sy_applications ?db = sy_applications db" "sy_lines ?db = sy_lines db" "sy_assigned ?db = sy_assigned db"
    by (simp_all add: write_customer_def Let_def fill_customer_def)
  have "links_complete ?db"
    unfolding links_complete_def using customers billings payments inv same
    by (simp add: billing_id_ids write_customer_ids sync_inv_def links_complete_def)
  moreover have "sb_subtotal b - sb_discount b + sb_tax b = sb_total b" if "b \<in> set (sy_billings ?db)" for b
    using inv that by (auto simp: write_customer_def Let_def fill_customer_def sync_inv_def rows_complete_def)
  then have "rows_complete ?db"
    using inv same by (simp add: sync_inv_def rows_complete_def write_customer_ids)
  moreover have "keyed (keep_or_add ?ext new_id (customer_ids db))"
    by (rule keyed_keep_or_add [OF _ new]) (use inv in \<open>simp add: sync_inv_def\<close>)
  ultimately show ?thesis using inv by (simp add: sync_inv_def write_customer_ids)
qed


section \<open>Documents keep it\<close>

lemma add_lines_values:
  assumes "add_billing_line s raw = Inr s'" and "map bv_no (ls_lines s) = [1 ..< 1 + length (ls_lines s)]"
  shows "map bv_no (ls_lines s') = [1 ..< 1 + length (ls_lines s')]"
proof -
  have "ls_lines s' = ls_lines s \<or> (\<exists>l. ls_lines s' = ls_lines s @ [l] \<and> bv_no l = length (ls_lines s) + 1)"
    using assms(1) by (auto simp: add_billing_line_def Let_def split: option.splits if_splits)
  then show ?thesis using assms(2) by auto
qed

lemma normalize_billing_values:
  assumes "normalize_billing entity payload h = Inr v"
  shows "nb_subtotal v - nb_discount v + nb_tax v = nb_total v" and "kind_by_entity entity = Some (nb_kind v)"
    and "map bv_no (nb_lines v) = [1 ..< 1 + length (nb_lines v)]"
proof -
  obtain kind where kind: "kind_by_entity entity = Some kind"
    using assms by (cases "kind_by_entity entity") (simp_all add: normalize_billing_def)
  obtain d where d: "payload = J_obj d" using assms kind by (cases payload) (simp_all add: normalize_billing_def)
  obtain tot tax raws s where s: "add_billing_lines no_lines raws = Inr s"
    "subtotal_of s tot tax - ls_discount s + tax = tot"
    "nb_subtotal v = subtotal_of s tot tax" "nb_discount v = ls_discount s" "nb_tax v = tax" "nb_total v = tot"
    "nb_kind v = kind" "nb_lines v = ls_lines s"
    using assms by (auto simp: normalize_billing_def kind d Let_def)
  show "nb_subtotal v - nb_discount v + nb_tax v = nb_total v" and "kind_by_entity entity = Some (nb_kind v)"
    using s kind by simp_all
  have "map bv_no (ls_lines s2) = [1 ..< 1 + length (ls_lines s2)]"
    if "add_billing_lines s1 rs = Inr s2" "map bv_no (ls_lines s1) = [1 ..< 1 + length (ls_lines s1)]" for s1 s2 rs
    using that
  proof (induction rs arbitrary: s1)
    case (Cons r rs)
    then obtain s' where "add_billing_line s1 r = Inr s'" "add_billing_lines s' rs = Inr s2" by auto
    then show ?case using Cons.IH add_lines_values Cons.prems(2) by blast
  qed simp
  then show "map bv_no (nb_lines v) = [1 ..< 1 + length (nb_lines v)]" using s(1,8) by (simp add: no_lines_def)
qed

lemma entity_of_kind:
  assumes "kind_by_entity entity = Some kind"
  shows "entity_of_kind kind = entity" and "kind_by_entity t = Some kind \<longleftrightarrow> t = entity"
  using assms by (auto simp: kind_by_entity_def entity_of_kind_def split: if_splits)

lemma found_billing:
  "(case find_billing k ext db of None \<Rightarrow> n | Some b \<Rightarrow> sb_id b) = (case map_of (billing_ids db) (k, ext) of None \<Rightarrow> n | Some j \<Rightarrow> j)"
  "find_billing k ext db = None \<longleftrightarrow> map_of (billing_ids db) (k, ext) = None"
  by (cases "find_billing k ext db"; simp add: find_billing_ids [symmetric])+

lemma found_payment:
  "(case find_payment k ext db of None \<Rightarrow> n | Some p \<Rightarrow> sp_id p) = (case map_of (payment_ids db) (k, ext) of None \<Rightarrow> n | Some j \<Rightarrow> j)"
  "find_payment k ext db = None \<longleftrightarrow> map_of (payment_ids db) (k, ext) = None"
  by (cases "find_payment k ext db"; simp add: find_payment_ids [symmetric])+

text \<open>What a written document is: its header, its lines, and the applications that name it.\<close>

lemma write_billing_parts:
  assumes "write_billing ids raw_id v db = Inr db'"
  defines "i \<equiv> (case map_of (billing_ids db) (nb_kind v, nb_external v) of None \<Rightarrow> ni_billing ids | Some j \<Rightarrow> j)"
    and "row \<equiv> billing_with v (customer_id (nb_customer v) db) raw_id"
  shows "sy_billings db' = (if map_of (billing_ids db) (nb_kind v, nb_external v) = None then sy_billings db @ [row i]
      else map (\<lambda>b. if sb_kind b = nb_kind v \<and> sb_external b = nb_external v then row (sb_id b) else b) (sy_billings db))"
    and "sy_lines db' = filter (\<lambda>l. sl_billing l \<noteq> i) (sy_lines db)
      @ map (\<lambda>l. \<lparr>sl_id = ni_line ids (bv_no l), sl_billing = i, sl_values = l\<rparr>) (nb_lines v)"
    and "sy_applications db' = map (\<lambda>a. if pv_linked_type (sa_values a) = entity_of_kind (nb_kind v)
      \<and> pv_linked (sa_values a) = nb_external v \<and> sa_billing a = None then a\<lparr>sa_billing := Some i\<rparr> else a) (sy_applications db)"
    and "sy_customers db' = sy_customers db" and "sy_payments db' = sy_payments db" and "sy_assigned db' = sy_assigned db"
    and "\<forall>l \<in> set (sy_lines db). sl_billing l = i \<longrightarrow> sl_id l \<notin> set (sy_assigned db)"
proof -
  have free: "\<forall>l \<in> set (sy_lines db). sl_billing l = i \<longrightarrow> sl_id l \<notin> set (sy_assigned db)"
    using assms(1) unfolding i_def write_billing_def Let_def found_billing by (simp add: list_ex_iff split: if_splits)
  then have none: "\<not> list_ex (\<lambda>l. sl_billing l = i \<and> sl_id l \<in> set (sy_assigned db)) (sy_lines db)" by (auto simp: list_ex_iff)
  have db': "db' = db\<lparr>sy_billings := (if map_of (billing_ids db) (nb_kind v, nb_external v) = None then sy_billings db @ [row i]
      else map (\<lambda>b. if sb_kind b = nb_kind v \<and> sb_external b = nb_external v then row (sb_id b) else b) (sy_billings db)),
      sy_lines := filter (\<lambda>l. sl_billing l \<noteq> i) (sy_lines db)
        @ map (\<lambda>l. \<lparr>sl_id = ni_line ids (bv_no l), sl_billing = i, sl_values = l\<rparr>) (nb_lines v),
      sy_applications := map (\<lambda>a. if pv_linked_type (sa_values a) = entity_of_kind (nb_kind v)
        \<and> pv_linked (sa_values a) = nb_external v \<and> sa_billing a = None then a\<lparr>sa_billing := Some i\<rparr> else a) (sy_applications db)\<rparr>"
    using assms(1) none unfolding write_billing_def Let_def found_billing i_def [symmetric] row_def [symmetric]
    by simp
  show "sy_billings db' = (if map_of (billing_ids db) (nb_kind v, nb_external v) = None then sy_billings db @ [row i]
      else map (\<lambda>b. if sb_kind b = nb_kind v \<and> sb_external b = nb_external v then row (sb_id b) else b) (sy_billings db))"
    and "sy_lines db' = filter (\<lambda>l. sl_billing l \<noteq> i) (sy_lines db)
      @ map (\<lambda>l. \<lparr>sl_id = ni_line ids (bv_no l), sl_billing = i, sl_values = l\<rparr>) (nb_lines v)"
    and "sy_applications db' = map (\<lambda>a. if pv_linked_type (sa_values a) = entity_of_kind (nb_kind v)
      \<and> pv_linked (sa_values a) = nb_external v \<and> sa_billing a = None then a\<lparr>sa_billing := Some i\<rparr> else a) (sy_applications db)"
    and "sy_customers db' = sy_customers db" and "sy_payments db' = sy_payments db" and "sy_assigned db' = sy_assigned db"
    unfolding db' by simp_all
  show "\<forall>l \<in> set (sy_lines db). sl_billing l = i \<longrightarrow> sl_id l \<notin> set (sy_assigned db)" by (rule free)
qed

lemma write_billing_ids:
  assumes "write_billing ids raw_id v db = Inr db'"
  shows "billing_ids db' = keep_or_add (nb_kind v, nb_external v) (ni_billing ids) (billing_ids db)"
    and "customer_ids db' = customer_ids db" and "payment_ids db' = payment_ids db"
proof -
  note parts = write_billing_parts [OF assms]
  show "customer_ids db' = customer_ids db" and "payment_ids db' = payment_ids db"
    by (simp_all add: customer_ids_def payment_ids_def parts)
  show "billing_ids db' = keep_or_add (nb_kind v, nb_external v) (ni_billing ids) (billing_ids db)"
  proof (cases "map_of (billing_ids db) (nb_kind v, nb_external v)")
    case None
    then have "sy_billings db' = sy_billings db @ [billing_with v (customer_id (nb_customer v) db) raw_id (ni_billing ids)]"
      using parts(1) by simp
    then have "billing_ids db' = billing_ids db @ [((nb_kind v, nb_external v), ni_billing ids)]"
      by (simp add: billing_ids_def billing_with_def)
    then show ?thesis using None by (simp add: keep_or_add_def)
  next
    case (Some j)
    then have "billing_ids db' = billing_ids db" using parts(1) by (auto simp: billing_ids_def billing_with_def)
    then show ?thesis using Some by (simp add: keep_or_add_def)
  qed
qed


lemma keep_or_add_snd: "snd ` set ids \<subseteq> snd ` set (keep_or_add k i ids)"
  by (auto simp: keep_or_add_def)

lemma write_billing_inv:
  assumes inv: "sync_inv db" and new: "ni_billing ids \<notin> snd ` set (billing_ids db)"
    and total: "nb_subtotal v - nb_discount v + nb_tax v = nb_total v" and kind: "kind_by_entity entity = Some (nb_kind v)"
    and done_: "write_billing ids raw_id v db = Inr db'"
  shows "sync_inv db'"
proof -
  note parts = write_billing_parts [OF done_] and ids = write_billing_ids [OF done_]
  let ?k = "(nb_kind v, nb_external v)"
  let ?i = "case map_of (billing_ids db) ?k of None \<Rightarrow> ni_billing ids | Some j \<Rightarrow> j"
  let ?row = "billing_with v (customer_id (nb_customer v) db) raw_id"
  have at: "map_of (billing_ids db') k = (if k = ?k then Some ?i else map_of (billing_ids db) k)" for k
    by (simp add: ids keep_or_add_at)
  have cust: "customer_id ext db' = customer_id ext db" for ext by (simp add: customer_id_ids ids)
  have bills: "b \<in> set (sy_billings db) \<or> (\<exists>j. b = ?row j)" if "b \<in> set (sy_billings db')" for b
    using that parts(1) by (cases "map_of (billing_ids db) ?k") (auto split: if_splits)
  have "sb_customer b = customer_id (sb_customer_external b) db'" if "b \<in> set (sy_billings db')" for b
    using bills [OF that] inv by (auto simp: cust billing_with_def sync_inv_def links_complete_def)
  moreover have "sa_billing a = billing_id (pv_linked_type (sa_values a)) (pv_linked (sa_values a)) db'"
    if a: "a \<in> set (sy_applications db')" for a
  proof -
    obtain q where q: "q \<in> set (sy_applications db)" "a = (if pv_linked_type (sa_values q) = entity_of_kind (nb_kind v)
        \<and> pv_linked (sa_values q) = nb_external v \<and> sa_billing q = None then q\<lparr>sa_billing := Some ?i\<rparr> else q)"
      using a parts(3) by auto
    let ?t = "pv_linked_type (sa_values q)" and ?x = "pv_linked (sa_values q)"
    have old: "sa_billing q = billing_id ?t ?x db" using q(1) inv by (simp add: sync_inv_def links_complete_def)
    have same: "sa_values a = sa_values q" using q(2) by simp
    have "sa_billing a = (if ?t = entity_of_kind (nb_kind v) \<and> ?x = nb_external v \<and> sa_billing q = None then Some ?i else sa_billing q)"
      unfolding q(2) by simp
    also have "\<dots> = billing_id ?t ?x db'"
    proof (cases "kind_by_entity ?t")
      case None
      then have "?t \<noteq> entity_of_kind (nb_kind v)" using kind entity_of_kind(1) [OF kind] by auto
      then show ?thesis using None old by (simp add: billing_id_ids)
    next
      case (Some t)
      have this: "?t = entity_of_kind (nb_kind v) \<longleftrightarrow> t = nb_kind v"
        using entity_of_kind(1) [OF kind] entity_of_kind(2) [OF kind, of ?t] Some by auto
      then show ?thesis using old Some at [of "(t, ?x)"] by (auto simp: billing_id_ids split: option.splits)
    qed
    finally show ?thesis by (simp only: same)
  qed
  moreover have "sb_subtotal b - sb_discount b + sb_tax b = sb_total b" if "b \<in> set (sy_billings db')" for b
    using bills [OF that] inv total by (auto simp: billing_with_def sync_inv_def rows_complete_def)
  moreover have "sl_billing l \<in> snd ` set (billing_ids db')" if l: "l \<in> set (sy_lines db')" for l
  proof (cases "sl_billing l = ?i")
    case True
    have "(?k, ?i) \<in> set (billing_ids db')" using at [of ?k] by (intro map_of_SomeD) simp
    then show ?thesis using True by force
  next
    case False
    then have "l \<in> set (sy_lines db)" using l parts(2) by auto
    then have "sl_billing l \<in> snd ` set (billing_ids db)" using inv by (simp add: sync_inv_def rows_complete_def)
    then show ?thesis unfolding ids(1) by (rule subsetD [OF keep_or_add_snd])
  qed
  moreover have "sl_id ` set (sy_lines db) \<inter> set (sy_assigned db) \<subseteq> sl_id ` set (sy_lines db')"
    using parts(2,7) by (auto simp: image_iff)
  then have "set (sy_assigned db') \<subseteq> sl_id ` set (sy_lines db')"
    using inv parts(6) by (auto simp: sync_inv_def rows_complete_def)
  moreover have "sa_payment a \<in> snd ` set (payment_ids db')" if "a \<in> set (sy_applications db')" for a
    using that parts(3) inv by (auto simp: ids sync_inv_def rows_complete_def)
  moreover have "keyed (billing_ids db')"
    unfolding ids(1) by (rule keyed_keep_or_add [OF _ new]) (use inv in \<open>simp add: sync_inv_def\<close>)
  ultimately show ?thesis
    using inv parts(4,5) unfolding sync_inv_def links_complete_def rows_complete_def ids(2,3) by (simp add: cust)
qed

section \<open>Payments keep it\<close>

lemma write_payment_parts:
  fixes ids v db raw_id
  defines "i \<equiv> (case map_of (payment_ids db) (np_kind v, np_external v) of None \<Rightarrow> ni_payment ids | Some j \<Rightarrow> j)"
    and "row \<equiv> payment_with v (customer_id (np_customer v) db) raw_id"
  shows "sy_payments (write_payment ids raw_id v db) =
      (if map_of (payment_ids db) (np_kind v, np_external v) = None then sy_payments db @ [row i]
       else map (\<lambda>p. if sp_kind p = np_kind v \<and> sp_external p = np_external v then row (sp_id p) else p) (sy_payments db))"
    and "sy_applications (write_payment ids raw_id v db) = filter (\<lambda>a. sa_payment a \<noteq> i) (sy_applications db)
      @ map (\<lambda>a. \<lparr>sa_id = ni_application ids (pv_no a), sa_payment = i, sa_values = a,
          sa_billing = billing_id (pv_linked_type a) (pv_linked a) db\<rparr>) (np_applications v)"
    and "sy_customers (write_payment ids raw_id v db) = sy_customers db"
    and "sy_billings (write_payment ids raw_id v db) = sy_billings db"
    and "sy_lines (write_payment ids raw_id v db) = sy_lines db"
    and "sy_assigned (write_payment ids raw_id v db) = sy_assigned db"
  unfolding i_def row_def write_payment_def Let_def found_payment by simp_all

lemma write_payment_ids:
  "payment_ids (write_payment ids raw_id v db) = keep_or_add (np_kind v, np_external v) (ni_payment ids) (payment_ids db)"
  "customer_ids (write_payment ids raw_id v db) = customer_ids db"
  "billing_ids (write_payment ids raw_id v db) = billing_ids db"
proof -
  let ?k = "(np_kind v, np_external v)" and ?db = "write_payment ids raw_id v db"
  show "customer_ids ?db = customer_ids db" and "billing_ids ?db = billing_ids db"
    by (simp_all add: customer_ids_def billing_ids_def write_payment_parts)
  show "payment_ids ?db = keep_or_add ?k (ni_payment ids) (payment_ids db)"
  proof (cases "map_of (payment_ids db) ?k")
    case None
    then have "sy_payments ?db = sy_payments db @ [payment_with v (customer_id (np_customer v) db) raw_id (ni_payment ids)]"
      using write_payment_parts(1) [of ids raw_id v db] by simp
    then have "payment_ids ?db = payment_ids db @ [(?k, ni_payment ids)]" by (simp add: payment_ids_def payment_with_def)
    then show ?thesis using None by (simp add: keep_or_add_def)
  next
    case (Some j)
    then have "payment_ids ?db = payment_ids db"
      using write_payment_parts(1) [of ids raw_id v db] by (auto simp: payment_ids_def payment_with_def)
    then show ?thesis using Some by (simp add: keep_or_add_def)
  qed
qed

lemma write_payment_inv:
  assumes inv: "sync_inv db" and new: "ni_payment ids \<notin> snd ` set (payment_ids db)"
  shows "sync_inv (write_payment ids raw_id v db)"
proof -
  let ?db = "write_payment ids raw_id v db" and ?k = "(np_kind v, np_external v)"
  let ?i = "case map_of (payment_ids db) ?k of None \<Rightarrow> ni_payment ids | Some j \<Rightarrow> j"
  let ?row = "payment_with v (customer_id (np_customer v) db) raw_id"
  note parts = write_payment_parts [of ids raw_id v db] and ids = write_payment_ids [of ids raw_id v db]
  have cust: "customer_id ext ?db = customer_id ext db" for ext by (simp add: customer_id_ids ids)
  have bill: "billing_id t ext ?db = billing_id t ext db" for t ext by (simp add: billing_id_ids ids)
  have at: "map_of (payment_ids ?db) ?k = Some ?i" by (simp add: ids keep_or_add_at)
  have pays: "p \<in> set (sy_payments db) \<or> (\<exists>j. p = ?row j)" if "p \<in> set (sy_payments ?db)" for p
    using that parts(1) by (cases "map_of (payment_ids db) ?k") (auto split: if_splits)
  have "sp_customer p = customer_id (sp_customer_external p) db" if "p \<in> set (sy_payments ?db)" for p
    using pays [OF that] inv by (auto simp: payment_with_def sync_inv_def links_complete_def)
  moreover have "sa_billing a = billing_id (pv_linked_type (sa_values a)) (pv_linked (sa_values a)) db"
    if "a \<in> set (sy_applications ?db)" for a
    using that inv unfolding parts(2) by (auto simp: sync_inv_def links_complete_def)
  moreover have "sa_payment a \<in> snd ` set (payment_ids ?db)" if a: "a \<in> set (sy_applications ?db)" for a
  proof (cases "sa_payment a = ?i")
    case True
    have "(?k, ?i) \<in> set (payment_ids ?db)" using at by (rule map_of_SomeD)
    then show ?thesis using True by force
  next
    case False
    then have "a \<in> set (sy_applications db)" using a unfolding parts(2) by auto
    then have "sa_payment a \<in> snd ` set (payment_ids db)" using inv by (simp add: sync_inv_def rows_complete_def)
    then show ?thesis unfolding ids(1) by (rule subsetD [OF keep_or_add_snd])
  qed
  moreover have "keyed (payment_ids ?db)"
    unfolding ids(1) by (rule keyed_keep_or_add [OF _ new]) (use inv in \<open>simp add: sync_inv_def\<close>)
  ultimately show ?thesis
    using inv parts(3-6) unfolding sync_inv_def links_complete_def rows_complete_def ids(2,3) by (simp add: cust bill)
qed

lemma apply_delete_inv:
  assumes inv: "sync_inv db"
  shows "sync_inv (fst (apply_delete raw reason db))"
proof -
  let ?db = "fst (apply_delete raw reason db)"
  have ids: "customer_ids ?db = customer_ids db" "billing_ids ?db = billing_ids db" "payment_ids ?db = payment_ids db"
    by (auto simp: apply_delete_def Let_def customer_ids_def billing_ids_def payment_ids_def)
  have cust: "customer_id ext ?db = customer_id ext db" for ext by (simp add: customer_id_ids ids)
  have bill: "billing_id t ext ?db = billing_id t ext db" for t ext by (simp add: billing_id_ids ids)
  have same: "sy_customers ?db = sy_customers db" "sy_applications ?db = sy_applications db" "sy_lines ?db = sy_lines db"
    "sy_assigned ?db = sy_assigned db"
    by (simp_all add: apply_delete_def Let_def)
  have bills: "\<exists>q \<in> set (sy_billings db). b = q \<or> b = q\<lparr>sb_deleted := Some (rr_fetched_at raw), sb_raw := rr_id raw\<rparr>"
    if "b \<in> set (sy_billings ?db)" for b
    using that by (auto simp: apply_delete_def Let_def split: if_splits)
  have pays: "\<exists>q \<in> set (sy_payments db). p = q \<or> p = q\<lparr>sp_deleted := Some (rr_fetched_at raw), sp_raw := rr_id raw\<rparr>"
    if "p \<in> set (sy_payments ?db)" for p
    using that by (auto simp: apply_delete_def Let_def split: if_splits)
  have "sb_customer b = customer_id (sb_customer_external b) db \<and> sb_subtotal b - sb_discount b + sb_tax b = sb_total b"
    if "b \<in> set (sy_billings ?db)" for b
    using bills [OF that] inv by (auto simp: sync_inv_def links_complete_def rows_complete_def)
  moreover have "sp_customer p = customer_id (sp_customer_external p) db" if "p \<in> set (sy_payments ?db)" for p
    using pays [OF that] inv by (auto simp: sync_inv_def links_complete_def)
  ultimately show ?thesis
    using inv unfolding sync_inv_def links_complete_def rows_complete_def ids same by (simp add: cust bill)
qed

end
