(* ===== verification/Jobs.thy ===== *)
theory Jobs
  imports BillingSync JobContract
begin

text \<open>
  Jobs and the crosswalk: the write actions of \<open>app/domain/jobs/service.py\<close> over the rows of
  \<open>app/domain/jobs/models.py\<close>. Each action is one transaction: it writes the rows it names and its audit
  row, or refuses with one error and writes nothing. The estimates with their versions and work areas, the
  divisions and the QuickBooks customers are read here and written by the imports. \<open>jd_cost_runs\<close> counts
  the cost runs asked for. Of an actor only the user is carried, of a time of recording only the order.
\<close>

section \<open>Rows\<close>

datatype job_status = Job_sold | Job_in_progress | Job_substantially_complete | Job_closed | Job_cancelled

definition job_statuses :: "(string \<times> job_status) list" where
  "job_statuses = [(''sold'', Job_sold), (''in_progress'', Job_in_progress),
     (''substantially_complete'', Job_substantially_complete), (''closed'', Job_closed), (''cancelled'', Job_cancelled)]"

definition revenue_methods :: "(string \<times> revenue_method) list" where
  "revenue_methods = [(''fixed_price'', Fixed_price), (''time_and_materials'', Time_and_materials),
     (''recurring_service'', Recurring_service), (''none'', No_method), (''pool'', Pool)]"

definition estimate_roles :: "(string \<times> estimate_role) list" where
  "estimate_roles = [(''original'', Est_original), (''change_order'', Est_change_order), (''ignored'', Est_ignored)]"

text \<open>The word of a constructor in such a list.\<close>

definition word_of :: "(string \<times> 'a) list \<Rightarrow> 'a \<Rightarrow> string" where
  "word_of ws x = (case List.find (\<lambda>(w, y). y = x) ws of Some (w, y) \<Rightarrow> w | None \<Rightarrow> [])"

definition no_estimate_methods :: "revenue_method set" where
  "no_estimate_methods = {Pool, Recurring_service}"

record job_row =
  jb_id :: uuid
  jb_customer :: "uuid option"
  jb_name :: string
  jb_division :: "uuid option"
  jb_method :: revenue_method
  jb_status :: job_status
  jb_sold_on :: date
  jb_notes :: "string option"
  jb_created_by :: uuid

record job_link =
  jl_id :: uuid
  jl_job :: uuid
  jl_estimate :: uuid
  jl_role :: estimate_role
  jl_by :: uuid
  jl_note :: "string option"

record job_alias =
  ja_id :: uuid
  ja_job :: uuid
  ja_system :: string
  ja_external :: string
  ja_by :: uuid

datatype approval_action = Act_approved | Act_withdrawn

record approval_row =
  ar_id :: uuid
  ar_job :: uuid
  ar_estimate :: uuid
  ar_order_no :: int
  ar_name :: string
  ar_area :: uuid
  ar_action :: approval_action
  ar_price :: cents
  ar_agreed_on :: "date option"
  ar_agreed_by :: "string option"
  ar_evidence :: "string option"
  ar_note :: "string option"
  ar_reason :: "string option"
  ar_withdraws :: "uuid option"
  ar_by :: uuid

record estimate_row =
  es_id :: uuid
  es_external :: string
  es_name :: string
  es_status :: string
  es_status_norm :: "string option"
  es_date :: "date option"
  es_price :: cents

record version_row =
  ev_id :: uuid
  ev_estimate :: uuid
  ev_no :: int
  ev_has_areas :: bool

record area_row =
  ea_id :: uuid
  ea_version :: uuid
  ea_order_no :: int
  ea_name :: string
  ea_kept :: bool
  ea_suggested :: bool
  ea_price :: cents
  ea_kind :: "string option"
  ea_confirmed :: "(uuid \<times> int) option"

text \<open>The values of an audit detail; what a request names is kept apart from what JSON makes of it.\<close>

datatype field_value = V_none | V_text string | V_id uuid | V_date date | V_time int | V_num int | V_money cents
  | V_bool bool | V_list "field_value list" | V_dict "(string \<times> field_value) list"

type_synonym fields = "(string \<times> field_value) list"

definition or_none :: "('a \<Rightarrow> field_value) \<Rightarrow> 'a option \<Rightarrow> field_value" where
  "or_none f v = (case v of None \<Rightarrow> V_none | Some x \<Rightarrow> f x)"

datatype job_event = Job_created | Job_updated | Estimate_attached | Estimate_detached | Customer_tracked
  | Customer_untracked | Alias_linked | Alias_unlinked | Kind_confirmed | Change_order_approved | Approval_withdrawn

record job_audit =
  jo_event :: job_event
  jo_entity :: uuid
  jo_actor :: uuid
  jo_detail :: fields

record job_db =
  jd_jobs :: "job_row list"
  jd_links :: "job_link list"
  jd_aliases :: "job_alias list"
  jd_approvals :: "approval_row list"
  jd_customers :: "customer_row list"
  jd_estimates :: "estimate_row list"
  jd_versions :: "version_row list"
  jd_areas :: "area_row list"
  jd_divisions :: "division_row list"
  jd_log :: "job_audit list"
  jd_cost_runs :: nat

datatype job_error = No_job | Choose_division | Division_not_listed | No_estimate | Not_sold string string
  | On_job string string | Name_missing | Put_on_job string | Needs_estimate | Method_not_listed | Has_estimates
  | Status_not_listed | Sold_on_missing | Sold_on_future date | Pool_without_estimate | Program_only_ignored
  | Role_not_listed | Ignored_without_reason | Original_taken string | Estimate_not_on_job | Others_attached
  | No_customer | Tracked_already string | Inactive_row string | Not_tracked string | Linked_to_job string string
  | Only_quickbooks | Inactive_customer | Linked_already string "string option" | Linked_just_now string | Link_not_on_job
  | Estimate_link | Kind_not_listed | No_original | No_area | Area_omitted int | Area_approved int | Undecided_evidence
  | Area_not_confirmed int | Area_is_original int | Agreed_future date | Evidence_missing | Approved_already int
  | Reason_missing | Nothing_approved int

text \<open>The status the API answers with.\<close>

definition error_status :: "job_error \<Rightarrow> nat" where
  "error_status e = (case e of
     No_job \<Rightarrow> 404 | No_estimate \<Rightarrow> 404 | Estimate_not_on_job \<Rightarrow> 404 | No_customer \<Rightarrow> 404 | Link_not_on_job \<Rightarrow> 404
   | No_original \<Rightarrow> 404 | No_area \<Rightarrow> 404
   | On_job x y \<Rightarrow> 409 | Put_on_job x \<Rightarrow> 409 | Original_taken x \<Rightarrow> 409 | Others_attached \<Rightarrow> 409 | Tracked_already x \<Rightarrow> 409
   | Not_tracked x \<Rightarrow> 409 | Linked_to_job x y \<Rightarrow> 409 | Linked_already x y \<Rightarrow> 409 | Linked_just_now x \<Rightarrow> 409 | Area_approved x \<Rightarrow> 409
   | Undecided_evidence \<Rightarrow> 409 | Approved_already x \<Rightarrow> 409 | Nothing_approved x \<Rightarrow> 409
   | _ \<Rightarrow> 422)"

section \<open>Small reads\<close>

definition lmn :: string where "lmn = ''lmn_estimate''"

definition find_job :: "uuid \<Rightarrow> job_db \<Rightarrow> job_row option" where
  "find_job i db = List.find (\<lambda>j. jb_id j = i) (jd_jobs db)"

definition put_job :: "job_row \<Rightarrow> job_db \<Rightarrow> job_db" where
  "put_job j db = db\<lparr>jd_jobs := map (\<lambda>x. if jb_id x = jb_id j then j else x) (jd_jobs db)\<rparr>"

definition the_job :: "uuid \<Rightarrow> job_db \<Rightarrow> (job_error, job_row) result" where
  "the_job i db = (case find_job i db of None \<Rightarrow> Inl No_job | Some j \<Rightarrow> Inr j)"

definition find_estimate :: "uuid \<Rightarrow> job_db \<Rightarrow> estimate_row option" where
  "find_estimate i db = List.find (\<lambda>e. es_id e = i) (jd_estimates db)"

definition the_division :: "uuid option \<Rightarrow> job_db \<Rightarrow> (job_error, uuid) result" where
  "the_division d db = (case d of None \<Rightarrow> Inl Choose_division
     | Some i \<Rightarrow> (case List.find (\<lambda>x. dv_id x = i) (jd_divisions db) of
         Some x \<Rightarrow> if dv_active x then Inr i else Inl Division_not_listed | None \<Rightarrow> Inl Division_not_listed))"

definition estimate_job :: "uuid \<Rightarrow> job_db \<Rightarrow> (job_row \<times> job_link) option" where
  "estimate_job e db = (case List.find (\<lambda>l. jl_estimate l = e \<and> find_job (jl_job l) db \<noteq> None) (jd_links db) of
     None \<Rightarrow> None | Some l \<Rightarrow> map_option (\<lambda>j. (j, l)) (find_job (jl_job l) db))"

definition status_words :: "estimate_row \<Rightarrow> string" where
  "status_words e = (if es_status_norm e = Some ''pending'' then ''Pending'' else if es_status_norm e = Some ''sold'' then ''Sold''
     else if es_status_norm e = Some ''lost'' then ''Lost'' else es_status e)"

definition sold_estimate :: "uuid \<Rightarrow> job_db \<Rightarrow> (job_error, estimate_row) result" where
  "sold_estimate i db = (case find_estimate i db of
     None \<Rightarrow> Inl No_estimate
   | Some e \<Rightarrow> if es_status_norm e \<noteq> Some ''sold'' then Inl (Not_sold (es_external e) (status_words e))
       else (case estimate_job i db of Some (j, l) \<Rightarrow> Inl (On_job (es_external e) (jb_name j)) | None \<Rightarrow> Inr e))"

definition clean_job_name :: "string option \<Rightarrow> (job_error, string) result" where
  "clean_job_name name = (let text = join_space (split_ws (case name of None \<Rightarrow> [] | Some s \<Rightarrow> s)) in
     if text = [] then Inl Name_missing else Inr (take 500 text))"

text \<open>\<open>_clean\<close>, and the trim of a note.\<close>

definition clean_to :: "nat \<Rightarrow> string option \<Rightarrow> string option" where
  "clean_to n s = (let text = take n (join_space (split_ws (case s of None \<Rightarrow> [] | Some t \<Rightarrow> t))) in if text = [] then None else Some text)"

definition strip_to :: "nat \<Rightarrow> string option \<Rightarrow> string option" where
  "strip_to n s = (let text = take n (strip (case s of None \<Rightarrow> [] | Some t \<Rightarrow> t)) in if text = [] then None else Some text)"

section \<open>Audit rows\<close>

definition job_fields :: "job_row \<Rightarrow> fields" where
  "job_fields j = [(''name'', V_text (jb_name j)), (''division_id'', or_none V_id (jb_division j)),
     (''revenue_method'', V_text (word_of revenue_methods (jb_method j))), (''status'', V_text (word_of job_statuses (jb_status j))),
     (''sold_on'', V_date (jb_sold_on j)), (''notes'', or_none V_text (jb_notes j)), (''customer_id'', or_none V_id (jb_customer j))]"

definition alias_fields :: "job_alias \<Rightarrow> field_value" where
  "alias_fields a = V_dict [(''id'', V_id (ja_id a)), (''system'', V_text (ja_system a)), (''external_id'', V_text (ja_external a))]"

definition link_fields :: "job_link \<Rightarrow> estimate_row \<Rightarrow> fields" where
  "link_fields l e = [(''id'', V_id (jl_id l)), (''estimate_id'', V_id (es_id e)), (''estimate'', V_text (es_external e)),
     (''role'', V_text (word_of estimate_roles (jl_role l))), (''note'', or_none V_text (jl_note l))]"

definition job_note :: "job_event \<Rightarrow> uuid \<Rightarrow> uuid \<Rightarrow> fields option \<Rightarrow> fields option \<Rightarrow> fields \<Rightarrow> job_db \<Rightarrow> job_db" where
  "job_note event entity actor before after extra db =
     db\<lparr>jd_log := jd_log db @ [\<lparr>jo_event = event, jo_entity = entity, jo_actor = actor,
       jo_detail = (case before of None \<Rightarrow> [] | Some d \<Rightarrow> [(''before'', V_dict d)])
         @ (case after of None \<Rightarrow> [] | Some d \<Rightarrow> [(''after'', V_dict d)]) @ extra\<rparr>]\<rparr>"

section \<open>Jobs and their estimates\<close>

text \<open>The rows that put an estimate on a job: the unique keys refuse what another request did first.\<close>

definition put_on_job :: "job_link \<Rightarrow> job_alias \<Rightarrow> job_db \<Rightarrow> (job_error, job_db) result" where
  "put_on_job l a db =
     (if list_ex (\<lambda>x. jl_estimate x = jl_estimate l) (jd_links db)
        \<or> list_ex (\<lambda>x. ja_system x = ja_system a \<and> ja_external x = ja_external a) (jd_aliases db)
        \<or> (jl_role l = Est_original \<and> list_ex (\<lambda>x. jl_job x = jl_job l \<and> jl_role x = Est_original) (jd_links db))
      then Inl (Put_on_job (ja_external a))
      else Inr (db\<lparr>jd_links := jd_links db @ [l], jd_aliases := jd_aliases db @ [a]\<rparr>))"

definition given_or :: "string option \<Rightarrow> string \<Rightarrow> string option" where
  "given_or name other = (case name of Some n \<Rightarrow> if strip n \<noteq> [] then Some n else Some other | None \<Rightarrow> Some other)"

definition create_job_from_estimate ::
  "uuid \<Rightarrow> uuid \<Rightarrow> uuid \<Rightarrow> date \<Rightarrow> uuid \<Rightarrow> uuid option \<Rightarrow> string option \<Rightarrow> uuid \<Rightarrow> job_db \<Rightarrow> (job_error, job_db) result" where
  "create_job_from_estimate job_id link_id alias_id today estimate division name actor db =
     bind_r (sold_estimate estimate db) (\<lambda>e.
     bind_r (the_division division db) (\<lambda>d.
     bind_r (clean_job_name (given_or name (es_name e))) (\<lambda>n.
     (let j = \<lparr>jb_id = job_id, jb_customer = None, jb_name = n, jb_division = Some d, jb_method = Fixed_price, jb_status = Job_sold,
            jb_sold_on = (case es_date e of Some day \<Rightarrow> day | None \<Rightarrow> today), jb_notes = None, jb_created_by = actor\<rparr>;
          l = \<lparr>jl_id = link_id, jl_job = job_id, jl_estimate = estimate, jl_role = Est_original, jl_by = actor, jl_note = None\<rparr>;
          a = \<lparr>ja_id = alias_id, ja_job = job_id, ja_system = lmn, ja_external = es_external e, ja_by = actor\<rparr>
      in bind_r (put_on_job l a (db\<lparr>jd_jobs := jd_jobs db @ [j]\<rparr>)) (\<lambda>db'.
         Inr (job_note Job_created job_id actor None (Some (job_fields j)) [(''rows'', V_dict [(''job'', V_id job_id),
           (''job_estimate'', V_dict (link_fields l e)), (''job_alias'', V_list [alias_fields a])])] db'))))))"

definition create_pool_job ::
  "uuid \<Rightarrow> date \<Rightarrow> string option \<Rightarrow> uuid option \<Rightarrow> uuid \<Rightarrow> string \<Rightarrow> job_db \<Rightarrow> (job_error, job_db) result" where
  "create_pool_job job_id today name division actor meth db =
     (case map_of revenue_methods meth of
        Some m \<Rightarrow> unless (m \<notin> no_estimate_methods) Needs_estimate (
          bind_r (the_division division db) (\<lambda>d.
          bind_r (clean_job_name name) (\<lambda>n.
          (let j = \<lparr>jb_id = job_id, jb_customer = None, jb_name = n, jb_division = Some d, jb_method = m, jb_status = Job_sold,
                 jb_sold_on = today, jb_notes = None, jb_created_by = actor\<rparr>
           in Inr (job_note Job_created job_id actor None (Some (job_fields j))
                [(''rows'', V_dict [(''job'', V_id job_id), (''job_estimate'', V_none), (''job_alias'', V_list [])])]
                (db\<lparr>jd_jobs := jd_jobs db @ [j]\<rparr>))))))
      | None \<Rightarrow> Inl Needs_estimate)"

text \<open>The fields a person sent; \<open>Some None\<close> is a field sent empty.\<close>

record job_changes =
  jc_name :: "string option option"
  jc_division :: "uuid option option"
  jc_method :: "string option"
  jc_status :: "string option"
  jc_notes :: "string option option"
  jc_sold_on :: "date option option"

definition patch_with :: "'a option \<Rightarrow> ('a \<Rightarrow> job_row \<Rightarrow> (job_error, job_row) result) \<Rightarrow> job_row \<Rightarrow> (job_error, job_row) result" where
  "patch_with sent f j = (case sent of None \<Rightarrow> Inr j | Some v \<Rightarrow> f v j)"

definition patch_method :: "job_db \<Rightarrow> string \<Rightarrow> job_row \<Rightarrow> (job_error, job_row) result" where
  "patch_method db meth j = (case map_of revenue_methods meth of
     None \<Rightarrow> Inl Method_not_listed
   | Some m \<Rightarrow> unless (m \<in> no_estimate_methods \<and> jb_method j \<notin> no_estimate_methods
         \<and> list_ex (\<lambda>l. jl_job l = jb_id j) (jd_links db)) Has_estimates (Inr (j\<lparr>jb_method := m\<rparr>)))"

definition patch_status :: "string \<Rightarrow> job_row \<Rightarrow> (job_error, job_row) result" where
  "patch_status word j = (case map_of job_statuses word of None \<Rightarrow> Inl Status_not_listed | Some s \<Rightarrow> Inr (j\<lparr>jb_status := s\<rparr>))"

definition patch_sold_on :: "date \<Rightarrow> date option \<Rightarrow> job_row \<Rightarrow> (job_error, job_row) result" where
  "patch_sold_on today day j = (case day of None \<Rightarrow> Inl Sold_on_missing
     | Some d \<Rightarrow> unless (today < d) (Sold_on_future today) (Inr (j\<lparr>jb_sold_on := d\<rparr>)))"

definition patched :: "date \<Rightarrow> job_changes \<Rightarrow> job_db \<Rightarrow> job_row \<Rightarrow> (job_error, job_row) result" where
  "patched today c db j =
     bind_r (patch_with (jc_name c) (\<lambda>n j. bind_r (clean_job_name n) (\<lambda>t. Inr (j\<lparr>jb_name := t\<rparr>))) j)
     (\<lambda>j. bind_r (patch_with (jc_division c) (\<lambda>d j. bind_r (the_division d db) (\<lambda>i. Inr (j\<lparr>jb_division := Some i\<rparr>))) j)
     (\<lambda>j. bind_r (patch_with (jc_method c) (patch_method db) j)
     (\<lambda>j. bind_r (patch_with (jc_status c) patch_status j)
     (\<lambda>j. bind_r (patch_with (jc_notes c) (\<lambda>n j. Inr (j\<lparr>jb_notes := strip_to 4000 n\<rparr>)) j)
     (\<lambda>j. patch_with (jc_sold_on c) (patch_sold_on today) j)))))"

definition changed_keys :: "fields \<Rightarrow> fields \<Rightarrow> string list" where
  "changed_keys before after = sort (filter (\<lambda>k. map_of after k \<noteq> map_of before k) (map fst after))"

definition only_keys :: "string list \<Rightarrow> fields \<Rightarrow> fields" where
  "only_keys ks d = List.map_filter (\<lambda>k. map_option (Pair k) (map_of d k)) ks"

definition update_job :: "date \<Rightarrow> uuid \<Rightarrow> job_changes \<Rightarrow> uuid \<Rightarrow> job_db \<Rightarrow> (job_error, job_db) result" where
  "update_job today job_id changes actor db =
     bind_r (the_job job_id db) (\<lambda>j.
     bind_r (patched today changes db j) (\<lambda>j'.
     (let before = job_fields j; after = job_fields j'; ks = changed_keys before after; db' = put_job j' db
      in Inr (if ks = [] then db'
         else job_note Job_updated job_id actor (Some (only_keys ks before)) (Some (only_keys ks after))
           [(''changed_fields'', V_list (map V_text ks)), (''rows'', V_dict [(''job'', V_id job_id)])] db'))))"

definition attach_as ::
  "uuid \<Rightarrow> uuid \<Rightarrow> job_row \<Rightarrow> uuid \<Rightarrow> estimate_role \<Rightarrow> string option \<Rightarrow> uuid \<Rightarrow> job_db \<Rightarrow> (job_error, job_db) result" where
  "attach_as link_id alias_id j estimate role n actor db =
     bind_r (sold_estimate estimate db) (\<lambda>e.
     unless (role = Est_original \<and> list_ex (\<lambda>l. jl_job l = jb_id j \<and> jl_role l = Est_original) (jd_links db)) (Original_taken (jb_name j)) (
     (let l = \<lparr>jl_id = link_id, jl_job = jb_id j, jl_estimate = estimate, jl_role = role, jl_by = actor, jl_note = n\<rparr>;
          a = \<lparr>ja_id = alias_id, ja_job = jb_id j, ja_system = lmn, ja_external = es_external e, ja_by = actor\<rparr>
      in bind_r (put_on_job l a db) (\<lambda>db'.
         Inr (job_note Estimate_attached (jb_id j) actor None (Some (link_fields l e))
           [(''rows'', V_dict [(''job_estimate'', V_id link_id), (''job_alias'', V_list [alias_fields a])])] db')))))"

definition attach_estimate ::
  "uuid \<Rightarrow> uuid \<Rightarrow> uuid \<Rightarrow> uuid \<Rightarrow> string \<Rightarrow> string option \<Rightarrow> uuid \<Rightarrow> job_db \<Rightarrow> (job_error, job_db) result" where
  "attach_estimate link_id alias_id job_id estimate role_word note_text actor db =
     bind_r (the_job job_id db) (\<lambda>j.
     unless (jb_method j = Pool) Pool_without_estimate (
     unless (jb_method j = Recurring_service \<and> role_word \<noteq> ''ignored'') Program_only_ignored (
     (case map_of estimate_roles role_word of
        None \<Rightarrow> Inl Role_not_listed
      | Some role \<Rightarrow> unless (role = Est_ignored \<and> strip_to 2000 note_text = None) Ignored_without_reason
          (attach_as link_id alias_id j estimate role (strip_to 2000 note_text) actor db)))))"

definition detach_estimate :: "uuid \<Rightarrow> uuid \<Rightarrow> uuid \<Rightarrow> job_db \<Rightarrow> (job_error, job_db) result" where
  "detach_estimate job_id estimate actor db =
     bind_r (the_job job_id db) (\<lambda>j.
     (case List.find (\<lambda>l. jl_job l = job_id \<and> jl_estimate l = estimate) (jd_links db) of
        None \<Rightarrow> Inl Estimate_not_on_job
      | Some l \<Rightarrow> unless (jl_role l = Est_original \<and> list_ex (\<lambda>x. jl_job x = job_id \<and> jl_id x \<noteq> jl_id l) (jd_links db)) Others_attached (
         (case find_estimate estimate db of
            None \<Rightarrow> Inl No_estimate
          | Some e \<Rightarrow>
             (let mine = (\<lambda>a. ja_job a = job_id \<and> ja_system a = lmn \<and> ja_external a = es_external e) in
              Inr (job_note Estimate_detached job_id actor (Some (link_fields l e)) None
                [(''rows'', V_dict [(''job_estimate'', V_id (jl_id l)), (''job_alias'', V_list (map alias_fields (filter mine (jd_aliases db))))])]
                (db\<lparr>jd_links := filter (\<lambda>x. jl_id x \<noteq> jl_id l) (jd_links db),
                  jd_aliases := filter (\<lambda>a. \<not> mine a) (jd_aliases db)\<rparr>)))))))"

end
