(* ===== verification/JobLinks.thy ===== *)
theory JobLinks
  imports Jobs
begin

text \<open>
  The QuickBooks side of the crosswalk in \<open>app/domain/jobs/service.py\<close>: tracking a customer row, linking
  it to a job and unlinking it; and the work area kinds and approvals of change orders, read against the
  later versions of the estimates.
\<close>

section \<open>Tracked rows\<close>

definition the_customer :: "uuid \<Rightarrow> job_db \<Rightarrow> (job_error, customer_row) result" where
  "the_customer i db = (case List.find (\<lambda>c. sc_id c = i) (jd_customers db) of None \<Rightarrow> Inl No_customer | Some c \<Rightarrow> Inr c)"

definition put_customer :: "customer_row \<Rightarrow> job_db \<Rightarrow> job_db" where
  "put_customer c db = db\<lparr>jd_customers := map (\<lambda>x. if sc_id x = sc_id c then c else x) (jd_customers db)\<rparr>"

definition tracked_fields :: "customer_row \<Rightarrow> fields" where
  "tracked_fields c = [(''customer_id'', V_id (sc_id c)), (''external_id'', V_text (sc_external c)), (''display_name'', V_text (sc_name c)),
     (''tracked_at'', or_none (\<lambda>t. V_time (fst t)) (sc_tracked c)),
     (''tracked_by'', case sc_tracked c of None \<Rightarrow> V_none | Some t \<Rightarrow> or_none V_id (snd t))]"

definition track :: "int \<Rightarrow> uuid \<Rightarrow> customer_row \<Rightarrow> customer_row" where
  "track now actor c = c\<lparr>sc_tracked := Some (now, Some actor)\<rparr>"

definition track_customer :: "int \<Rightarrow> uuid \<Rightarrow> uuid \<Rightarrow> job_db \<Rightarrow> (job_error, job_db) result" where
  "track_customer now customer actor db =
     bind_r (the_customer customer db) (\<lambda>c.
     unless (sc_tracked c \<noteq> None) (Tracked_already (sc_name c)) (
     unless (\<not> sc_active c) (Inactive_row (sc_name c)) (
     (let c' = track now actor c
      in Inr (job_note Customer_tracked customer actor None (Some (tracked_fields c')) [] (put_customer c' db))))))"

definition untrack_customer :: "uuid \<Rightarrow> uuid \<Rightarrow> job_db \<Rightarrow> (job_error, job_db) result" where
  "untrack_customer customer actor db =
     bind_r (the_customer customer db) (\<lambda>c.
     unless (sc_tracked c = None) (Not_tracked (sc_name c)) (
     (case List.find (\<lambda>a. ja_system a = qbo_customer \<and> ja_external a = sc_external c \<and> find_job (ja_job a) db \<noteq> None) (jd_aliases db) of
        Some a \<Rightarrow> Inl (Linked_to_job (sc_name c) (case find_job (ja_job a) db of Some j \<Rightarrow> jb_name j | None \<Rightarrow> []))
      | None \<Rightarrow> Inr (job_note Customer_untracked customer actor (Some (tracked_fields c)) None []
          (put_customer (c\<lparr>sc_tracked := None\<rparr>) db)))))"

section \<open>Links to QuickBooks\<close>

definition has_qbo_alias :: "uuid \<Rightarrow> job_db \<Rightarrow> bool" where
  "has_qbo_alias job_id db \<longleftrightarrow> list_ex (\<lambda>a. ja_job a = job_id \<and> ja_system a = qbo_customer) (jd_aliases db)"

definition request_cost_run :: "job_db \<Rightarrow> job_db" where
  "request_cost_run db = db\<lparr>jd_cost_runs := jd_cost_runs db + 1\<rparr>"

definition linked_job :: "customer_row \<Rightarrow> bool \<Rightarrow> job_row \<Rightarrow> job_row" where
  "linked_job c in_progress j =
     j\<lparr>jb_customer := (case jb_customer j of Some i \<Rightarrow> Some i
         | None \<Rightarrow> (case sc_parent c of Some p \<Rightarrow> Some p | None \<Rightarrow> Some (sc_id c))),
       jb_status := (if in_progress \<and> jb_status j = Job_sold then Job_in_progress else jb_status j)\<rparr>"

definition link_alias ::
  "uuid \<Rightarrow> int \<Rightarrow> uuid \<Rightarrow> string \<Rightarrow> string \<Rightarrow> bool \<Rightarrow> uuid \<Rightarrow> job_db \<Rightarrow> (job_error, job_db) result" where
  "link_alias alias_id now job_id system external in_progress actor db =
     bind_r (the_job job_id db) (\<lambda>j.
     unless (system \<noteq> qbo_customer) Only_quickbooks (
     (case List.find (\<lambda>c. sc_external c = external) (jd_customers db) of
        None \<Rightarrow> Inl No_customer
      | Some c \<Rightarrow> unless (\<not> sc_active c) Inactive_customer (
         (case List.find (\<lambda>a. ja_system a = qbo_customer \<and> ja_external a = external \<and> find_job (ja_job a) db \<noteq> None) (jd_aliases db) of
            Some a \<Rightarrow> Inl (Linked_already (sc_name c)
              (if ja_job a = job_id then None else map_option jb_name (find_job (ja_job a) db)))
          | None \<Rightarrow> unless (list_ex (\<lambda>a. ja_system a = qbo_customer \<and> ja_external a = external) (jd_aliases db)) (Linked_just_now (sc_name c)) (
             (let a = \<lparr>ja_id = alias_id, ja_job = job_id, ja_system = qbo_customer, ja_external = external, ja_by = actor\<rparr>;
                  c' = (if sc_tracked c = None then track now actor c else c);
                  j' = linked_job c in_progress j;
                  stamp = (\<lambda>x. or_none (\<lambda>t. V_time (fst t)) (sc_tracked x))
              in Inr (request_cost_run (job_note Alias_linked job_id actor None
                   (Some [(''id'', V_id alias_id), (''system'', V_text qbo_customer), (''external_id'', V_text external), (''display_name'', V_text (sc_name c))])
                   [(''rows'', V_dict [(''job_alias'', V_list [alias_fields a]),
                      (''job.customer_id'', V_list [or_none V_id (jb_customer j), or_none V_id (jb_customer j')]),
                      (''job.status'', V_list [V_text (word_of job_statuses (jb_status j)), V_text (word_of job_statuses (jb_status j'))]),
                      (''customer.tracked_at'', V_list [stamp c, stamp c'])])]
                   (put_customer c' (put_job j' (db\<lparr>jd_aliases := jd_aliases db @ [a]\<rparr>)))))))))))) "

definition unlink_alias :: "uuid \<Rightarrow> uuid \<Rightarrow> uuid \<Rightarrow> job_db \<Rightarrow> (job_error, job_db) result" where
  "unlink_alias job_id alias_id actor db =
     bind_r (the_job job_id db) (\<lambda>j.
     (case List.find (\<lambda>a. ja_id a = alias_id) (jd_aliases db) of
        None \<Rightarrow> Inl Link_not_on_job
      | Some a \<Rightarrow> unless (ja_job a \<noteq> job_id) Link_not_on_job (
         unless (ja_system a \<noteq> qbo_customer) Estimate_link (
         (let db' = db\<lparr>jd_aliases := filter (\<lambda>x. ja_id x \<noteq> alias_id) (jd_aliases db)\<rparr>;
              j' = (if has_qbo_alias job_id db' then j else j\<lparr>jb_customer := None\<rparr>)
          in Inr (request_cost_run (job_note Alias_unlinked job_id actor
               (Some [(''id'', V_id alias_id), (''system'', V_text (ja_system a)), (''external_id'', V_text (ja_external a))]) None
               [(''rows'', V_dict [(''job_alias'', V_list [alias_fields a]),
                  (''job.customer_id'', V_list [or_none V_id (jb_customer j), or_none V_id (jb_customer j')])])]
               (put_job j' db'))))))))"

text \<open>What the cost side reads of the aliases.\<close>

definition cost_aliases :: "job_db \<Rightarrow> alias_row list" where
  "cost_aliases db = map (\<lambda>a. \<lparr>al_system = ja_system a, al_external = ja_external a, al_job = ja_job a\<rparr>) (jd_aliases db)"

section \<open>The work areas of a job\<close>

definition versions_of :: "uuid \<Rightarrow> job_db \<Rightarrow> version_row list" where
  "versions_of e db = sort_key ev_no (filter (\<lambda>v. ev_estimate v = e \<and> ev_has_areas v) (jd_versions db))"

definition areas_of :: "uuid \<Rightarrow> job_db \<Rightarrow> area_row list" where
  "areas_of v db = sort_key ea_order_no (filter (\<lambda>a. ea_version a = v) (jd_areas db))"

text \<open>The work areas of the latest version that has any; \<open>None\<close> when no version has.\<close>

definition latest_areas :: "uuid \<Rightarrow> job_db \<Rightarrow> area_row list option" where
  "latest_areas e db = (case rev (versions_of e db) of [] \<Rightarrow> None | v # vs \<Rightarrow> Some (areas_of (ev_id v) db))"

definition some_areas :: "uuid \<Rightarrow> job_db \<Rightarrow> area_row list" where
  "some_areas e db = (case latest_areas e db of None \<Rightarrow> [] | Some xs \<Rightarrow> xs)"

definition attached_work_areas :: "uuid \<Rightarrow> job_db \<Rightarrow> (job_link \<times> area_row) list" where
  "attached_work_areas job_id db = concat (map (\<lambda>l. map (Pair l) (some_areas (jl_estimate l) db))
     (filter (\<lambda>l. jl_job l = job_id \<and> jl_role l \<noteq> Est_ignored) (jd_links db)))"

definition find_area :: "uuid \<Rightarrow> uuid \<Rightarrow> job_db \<Rightarrow> (job_error, job_link \<times> area_row) result" where
  "find_area job_id area db = (case List.find (\<lambda>(l, a). ea_id a = area) (attached_work_areas job_id db) of
     None \<Rightarrow> Inl No_area | Some x \<Rightarrow> Inr x)"

section \<open>Approvals, read against the versions after them\<close>

record approval_view =
  aw_latest :: approval_row
  aw_state :: "approval_end option option"

definition aw_applies :: "approval_view \<Rightarrow> bool" where
  "aw_applies v \<longleftrightarrow> ar_action (aw_latest v) = Act_approved \<and> aw_state v = Some None"

definition aw_ended :: "approval_view \<Rightarrow> approval_end option" where
  "aw_ended v = (if ar_action (aw_latest v) \<noteq> Act_approved then None
     else case aw_state v of None \<Rightarrow> None | Some ended \<Rightarrow> ended)"

definition approval_events :: "uuid list \<Rightarrow> job_db \<Rightarrow> approval_row list" where
  "approval_events jobs db = filter (\<lambda>e. ar_job e \<in> set jobs) (jd_approvals db)"

definition approval_key :: "approval_row \<Rightarrow> uuid \<times> uuid \<times> int" where
  "approval_key e = (ar_job e, ar_estimate e, ar_order_no e)"

definition latest_events :: "approval_row list \<Rightarrow> (uuid \<times> uuid \<times> int, approval_row) dict" where
  "latest_events events = foldl (\<lambda>d e. AList.update (approval_key e) e d) [] events"

text \<open>The number of the version an approval was made on.\<close>

definition version_made_on :: "job_db \<Rightarrow> approval_row \<Rightarrow> int option" where
  "version_made_on db e = Option.bind (List.find (\<lambda>a. ea_id a = ar_area e) (jd_areas db))
     (\<lambda>a. map_option ev_no (List.find (\<lambda>v. ev_id v = ea_version a) (jd_versions db)))"

definition read_after :: "job_db \<Rightarrow> approval_row list \<Rightarrow> uuid \<Rightarrow> int option" where
  "read_after db approved e = (case List.map_filter (version_made_on db) (filter (\<lambda>x. ar_estimate x = e) approved) of
     [] \<Rightarrow> None | n # ns \<Rightarrow> Some (foldl min n ns))"

definition later_versions :: "uuid \<Rightarrow> int \<Rightarrow> job_db \<Rightarrow> version_in list" where
  "later_versions e after db = map (\<lambda>v. \<lparr>vi_version_no = ev_no v, vi_rows = map (\<lambda>a. \<lparr>ri_order_no = ea_order_no a,
       ri_name = ea_name a, ri_kept = ea_kept a, ri_price = ea_price a, ri_kind = ea_kind a\<rparr>) (areas_of (ev_id v) db)\<rparr>)
     (filter (\<lambda>v. after < ev_no v) (versions_of e db))"

definition view_of :: "job_db \<Rightarrow> approval_row list \<Rightarrow> (uuid \<Rightarrow> estimate_role) \<Rightarrow> approval_row \<Rightarrow> approval_view" where
  "view_of db approved roles e =
     (if ar_action e = Act_approved then
        (let made_on = (case version_made_on db e of None \<Rightarrow> 0 | Some n \<Rightarrow> n);
             chain = filter (\<lambda>v. made_on < vi_version_no v)
               (case read_after db approved (ar_estimate e) of None \<Rightarrow> [] | Some n \<Rightarrow> later_versions (ar_estimate e) n db)
         in \<lparr>aw_latest = e, aw_state = Some (approval_state \<lparr>ap_order_no = ar_order_no e, ap_name = ar_name e,
              ap_price = ar_price e, ap_version_no = made_on\<rparr> chain (roles (ar_estimate e)))\<rparr>)
      else \<lparr>aw_latest = e, aw_state = None\<rparr>)"

definition approval_views :: "uuid list \<Rightarrow> (uuid \<Rightarrow> estimate_role) \<Rightarrow> job_db \<Rightarrow> (uuid \<times> uuid \<times> int, approval_view) dict" where
  "approval_views jobs roles db =
     (let latest = latest_events (approval_events jobs db);
          approved = filter (\<lambda>e. ar_action e = Act_approved) (map snd latest)
      in map (\<lambda>(k, e). (k, view_of db approved roles e)) latest)"

text \<open>The role of an estimate on the listed jobs, \<open>original\<close> when it is on none.\<close>

definition role_on :: "uuid list \<Rightarrow> job_db \<Rightarrow> uuid \<Rightarrow> estimate_role" where
  "role_on jobs db e = (case List.find (\<lambda>l. jl_job l \<in> set jobs \<and> jl_estimate l = e) (jd_links db) of
     Some l \<Rightarrow> jl_role l | None \<Rightarrow> Est_original)"

definition job_approvals :: "uuid \<Rightarrow> job_db \<Rightarrow> (uuid \<times> uuid \<times> int, approval_view) dict" where
  "job_approvals job_id db = approval_views [job_id] (role_on [job_id] db) db"

definition approval_for :: "uuid \<Rightarrow> uuid \<Rightarrow> int \<Rightarrow> job_db \<Rightarrow> approval_view option" where
  "approval_for job_id e n db = map_of (job_approvals job_id db) (job_id, e, n)"

definition approval_applies :: "uuid \<Rightarrow> uuid \<Rightarrow> int \<Rightarrow> job_db \<Rightarrow> bool" where
  "approval_applies job_id e n db \<longleftrightarrow> (case approval_for job_id e n db of None \<Rightarrow> False | Some v \<Rightarrow> aw_applies v)"

section \<open>The kind of a work area\<close>

definition work_area_kinds :: "string list" where
  "work_area_kinds = [''original'', ''change_order'']"

definition suggested_kind :: "bool \<Rightarrow> string" where
  "suggested_kind s = (if s then ''change_order'' else ''original'')"

definition original_work_areas :: "uuid \<Rightarrow> job_db \<Rightarrow> (job_error, estimate_row \<times> area_row list) result" where
  "original_work_areas job_id db =
     (case List.find (\<lambda>l. jl_job l = job_id \<and> jl_role l = Est_original) (jd_links db) of
        None \<Rightarrow> Inl No_original
      | Some l \<Rightarrow> (case find_estimate (jl_estimate l) db of
          None \<Rightarrow> Inl No_estimate | Some e \<Rightarrow> Inr (e, some_areas (es_id e) db)))"

definition confirm_area :: "uuid \<Rightarrow> estimate_row \<Rightarrow> int \<Rightarrow> uuid \<Rightarrow> area_row \<times> string \<Rightarrow> job_db \<Rightarrow> job_db" where
  "confirm_area job_id e now actor choice db = (case choice of (a, kind) \<Rightarrow>
     job_note Kind_confirmed job_id actor (Some [(''kind'', or_none V_text (ea_kind a))]) (Some [(''kind'', V_text kind)])
       [(''rows'', V_dict [(''estimate_work_area'', V_id (ea_id a)), (''estimate'', V_text (es_external e)), (''order_no'', V_num (ea_order_no a))])]
       (db\<lparr>jd_areas := map (\<lambda>x. if ea_id x = ea_id a then x\<lparr>ea_kind := Some kind, ea_confirmed := Some (actor, now)\<rparr> else x) (jd_areas db)\<rparr>))"

definition confirm_kind :: "int \<Rightarrow> uuid \<Rightarrow> uuid \<Rightarrow> string \<Rightarrow> uuid \<Rightarrow> job_db \<Rightarrow> (job_error, job_db) result" where
  "confirm_kind now job_id area kind actor db =
     bind_r (the_job job_id db) (\<lambda>j.
     unless (kind \<notin> set work_area_kinds) Kind_not_listed (
     bind_r (original_work_areas job_id db) (\<lambda>(e, rows).
     (case List.find (\<lambda>a. ea_id a = area) rows of
        None \<Rightarrow> Inl No_area
      | Some a \<Rightarrow> unless (\<not> ea_kept a) (Area_omitted (ea_order_no a)) (
          unless (kind = ''original'' \<and> ea_kind a = Some ''change_order''
            \<and> (case map_of (approval_views [job_id] (\<lambda>x. Est_original) db) (job_id, es_id e, ea_order_no a) of
                 None \<Rightarrow> False | Some v \<Rightarrow> aw_applies v)) (Area_approved (ea_order_no a))
          (Inr (confirm_area job_id e now actor (a, kind) db)))))))"

text \<open>The kept work areas without a kind are confirmed as suggested; every row has a suggestion.\<close>

definition as_suggested :: "area_row list \<Rightarrow> area_row list \<times> nat" where
  "as_suggested rows =
     (let suggestion = (\<lambda>a. if ea_kept a then Some (suggested_kind (ea_suggested a)) else None)
      in (filter (\<lambda>a. ea_kept a \<and> ea_kind a = None \<and> suggestion a \<noteq> None) rows,
          length (filter (\<lambda>a. ea_kept a \<and> ea_kind a = None \<and> suggestion a = None) rows)))"

definition confirm_suggested_kinds :: "int \<Rightarrow> uuid \<Rightarrow> uuid \<Rightarrow> job_db \<Rightarrow> (job_error, job_db \<times> nat \<times> nat) result" where
  "confirm_suggested_kinds now job_id actor db =
     bind_r (the_job job_id db) (\<lambda>j.
     bind_r (original_work_areas job_id db) (\<lambda>(e, rows).
     (let (chosen, skipped) = as_suggested rows
      in Inr (foldl (\<lambda>db a. confirm_area job_id e now actor (a, suggested_kind (ea_suggested a)) db) db chosen, length chosen, skipped))))"

section \<open>Approving and withdrawing\<close>

definition approval_fields :: "approval_row \<Rightarrow> fields" where
  "approval_fields r = [(''approved'', V_bool (ar_action r = Act_approved)),
     (''price'', if ar_action r = Act_approved then V_money (ar_price r) else V_none),
     (''agreed_on'', or_none V_date (ar_agreed_on r)), (''agreed_by'', or_none V_text (ar_agreed_by r)),
     (''evidence_ref'', or_none V_text (ar_evidence r)), (''note'', or_none V_text (ar_note r)), (''reason'', or_none V_text (ar_reason r))]"

text \<open>What a person enters with an approval.\<close>

record approval_request =
  aq_agreed_on :: date
  aq_agreed_by :: "string option"
  aq_evidence :: "string option"
  aq_note :: "string option"

definition approve_change_order ::
  "uuid \<Rightarrow> date \<Rightarrow> bool option \<Rightarrow> uuid \<Rightarrow> uuid \<Rightarrow> approval_request \<Rightarrow> uuid \<Rightarrow> job_db \<Rightarrow> (job_error, job_db) result" where
  "approve_change_order new_id today evidence job_id area q actor db =
     bind_r (the_job job_id db) (\<lambda>j.
     (case evidence of None \<Rightarrow> Inl Undecided_evidence
      | Some required \<Rightarrow> bind_r (find_area job_id area db) (\<lambda>(l, a).
         (let n = ea_order_no a; ref = clean_to 500 (aq_evidence q) in
          unless (\<not> ea_kept a) (Area_omitted n) (
          unless (jl_role l = Est_original \<and> ea_kind a = None) (Area_not_confirmed n) (
          unless (jl_role l = Est_original \<and> ea_kind a \<noteq> Some ''change_order'') (Area_is_original n) (
          unless (today < aq_agreed_on q) (Agreed_future today) (
          unless (required \<and> ref = None) Evidence_missing (
          unless (approval_applies job_id (jl_estimate l) n db) (Approved_already n) (
          (let r = \<lparr>ar_id = new_id, ar_job = job_id, ar_estimate = jl_estimate l, ar_order_no = n, ar_name = ea_name a, ar_area = ea_id a,
                 ar_action = Act_approved, ar_price = ea_price a, ar_agreed_on = Some (aq_agreed_on q), ar_agreed_by = clean_to 200 (aq_agreed_by q),
                 ar_evidence = ref, ar_note = clean_to 2000 (aq_note q), ar_reason = None, ar_withdraws = None, ar_by = actor\<rparr>
           in Inr (job_note Change_order_approved job_id actor (Some [(''approved'', V_bool False), (''price'', V_none)])
                (Some (approval_fields r)) [(''rows'', V_dict [(''change_order_approval'', V_id new_id),
                  (''estimate'', or_none (\<lambda>e. V_text (es_external e)) (find_estimate (jl_estimate l) db)),
                  (''order_no'', V_num n), (''estimate_work_area'', V_id (ea_id a))])]
                (db\<lparr>jd_approvals := jd_approvals db @ [r]\<rparr>)))))))))))))"

text \<open>The work area may be one an approval names, when the latest version has it no more.\<close>

definition approval_place :: "uuid \<Rightarrow> uuid \<Rightarrow> job_db \<Rightarrow> (job_error, uuid \<times> int) result" where
  "approval_place job_id area db = (case find_area job_id area db of
     Inr (l, a) \<Rightarrow> Inr (jl_estimate l, ea_order_no a)
   | Inl e \<Rightarrow> (case List.find (\<lambda>r. ar_job r = job_id \<and> ar_area r = area) (jd_approvals db) of
       None \<Rightarrow> Inl e | Some r \<Rightarrow> Inr (ar_estimate r, ar_order_no r)))"

definition withdrawal_of :: "uuid \<Rightarrow> uuid \<Rightarrow> string \<Rightarrow> uuid \<Rightarrow> approval_row \<Rightarrow> approval_row" where
  "withdrawal_of new_id job_id reason actor r = \<lparr>ar_id = new_id, ar_job = job_id, ar_estimate = ar_estimate r, ar_order_no = ar_order_no r,
     ar_name = ar_name r, ar_area = ar_area r, ar_action = Act_withdrawn, ar_price = ar_price r, ar_agreed_on = None, ar_agreed_by = None,
     ar_evidence = None, ar_note = None, ar_reason = Some reason, ar_withdraws = Some (ar_id r), ar_by = actor\<rparr>"

definition withdraw_approval :: "uuid \<Rightarrow> uuid \<Rightarrow> uuid \<Rightarrow> string option \<Rightarrow> uuid \<Rightarrow> job_db \<Rightarrow> (job_error, job_db) result" where
  "withdraw_approval new_id job_id area reason actor db =
     bind_r (the_job job_id db) (\<lambda>j.
     (case clean_to 2000 reason of None \<Rightarrow> Inl Reason_missing
      | Some why \<Rightarrow> bind_r (approval_place job_id area db) (\<lambda>(e, n).
         (case approval_for job_id e n db of
            None \<Rightarrow> Inl (Nothing_approved n)
          | Some v \<Rightarrow> (let r = aw_latest v; w = withdrawal_of new_id job_id why actor r in
              unless (ar_action r \<noteq> Act_approved) (Nothing_approved n)
              (Inr (job_note Approval_withdrawn job_id actor (Some (approval_fields r @ [(''approval'', V_id (ar_id r))]))
                 (Some [(''approved'', V_bool False), (''price'', V_none), (''reason'', V_text why)])
                 [(''rows'', V_dict [(''change_order_approval'', V_id new_id), (''withdraws'', V_id (ar_id r)),
                    (''estimate'', or_none (\<lambda>e. V_text (es_external e)) (find_estimate (ar_estimate r) db)),
                    (''order_no'', V_num (ar_order_no r)), (''estimate_work_area'', V_id (ar_area r))])]
                 (db\<lparr>jd_approvals := jd_approvals db @ [w]\<rparr>))))))))"

section \<open>The list of what is not approved\<close>

definition listed_statuses :: "job_status set" where
  "listed_statuses = {Job_sold, Job_in_progress, Job_substantially_complete}"

text \<open>
  Every kept change order without an approval that applies, job by job as the list of jobs gives them,
  and whether an approval of it ended.
\<close>

definition unapproved_change_orders :: "job_row list \<Rightarrow> job_db \<Rightarrow> (uuid \<times> uuid \<times> area_row \<times> bool) list" where
  "unapproved_change_orders jobs db =
     (let ids = map jb_id jobs; views = approval_views ids (role_on ids db) db in
      concat (map (\<lambda>j. List.map_filter (\<lambda>(l, a).
          (let view = map_of views (jb_id j, jl_estimate l, ea_order_no a) in
           if ea_kept a \<and> (jl_role l = Est_original \<longrightarrow> ea_kind a = Some ''change_order'')
             \<and> (case view of None \<Rightarrow> True | Some v \<Rightarrow> \<not> aw_applies v)
           then Some (jb_id j, jl_estimate l, a, case view of None \<Rightarrow> False | Some v \<Rightarrow> aw_ended v \<noteq> None) else None))
        (attached_work_areas (jb_id j) db))
       (filter (\<lambda>j. jb_status j \<in> listed_statuses) jobs)))"

end
