(* ===== verification/JobFacts.thy ===== *)
theory JobFacts
  imports JobLinks BillingSyncFacts
begin

text \<open>
  What holds of jobs and the crosswalk whatever people and imports do, and that every action keeps it:
  an estimate is on one job, a job has one original estimate, the estimate aliases are the attached
  estimates, a linked customer row is tracked, a job has a customer exactly while it is linked, and the
  approvals of a work area are a history in which a withdrawal takes back the approval before it.
\<close>

section \<open>The invariant\<close>

definition job_ids_ok :: "job_db \<Rightarrow> bool" where
  "job_ids_ok db \<longleftrightarrow> distinct (map jb_id (jd_jobs db)) \<and> distinct (map jl_id (jd_links db)) \<and> distinct (map ja_id (jd_aliases db))
     \<and> distinct (map ar_id (jd_approvals db)) \<and> distinct (map es_id (jd_estimates db))
     \<and> keyed (map (\<lambda>c. (sc_external c, sc_id c)) (jd_customers db))"

definition links_ok :: "job_db \<Rightarrow> bool" where
  "links_ok db \<longleftrightarrow> distinct (map jl_estimate (jd_links db))
     \<and> distinct (map jl_job (filter (\<lambda>l. jl_role l = Est_original) (jd_links db)))
     \<and> (\<forall>l \<in> set (jd_links db). jl_job l \<in> jb_id ` set (jd_jobs db) \<and> jl_estimate l \<in> es_id ` set (jd_estimates db)
          \<and> (jl_role l = Est_ignored \<longrightarrow> jl_note l \<noteq> None)
          \<and> (\<forall>j \<in> set (jd_jobs db). jb_id j = jl_job l \<and> jb_method j \<in> no_estimate_methods \<longrightarrow> jl_role l = Est_ignored))"

definition link_key :: "job_db \<Rightarrow> job_link \<Rightarrow> uuid \<times> string option" where
  "link_key db l = (jl_job l, map_option es_external (find_estimate (jl_estimate l) db))"

definition alias_key :: "job_alias \<Rightarrow> uuid \<times> string option" where
  "alias_key a = (ja_job a, Some (ja_external a))"

definition aliases_ok :: "job_db \<Rightarrow> bool" where
  "aliases_ok db \<longleftrightarrow> distinct (map (\<lambda>a. (ja_system a, ja_external a)) (jd_aliases db))
     \<and> (\<forall>a \<in> set (jd_aliases db). ja_job a \<in> jb_id ` set (jd_jobs db) \<and> ja_system a \<in> {lmn, qbo_customer}
          \<and> (ja_system a = qbo_customer \<longrightarrow> (\<exists>c \<in> set (jd_customers db). sc_external c = ja_external a \<and> sc_tracked c \<noteq> None)))
     \<and> map (link_key db) (jd_links db) = map alias_key (filter (\<lambda>a. ja_system a = lmn) (jd_aliases db))"

definition job_customers_ok :: "job_db \<Rightarrow> bool" where
  "job_customers_ok db \<longleftrightarrow> (\<forall>j \<in> set (jd_jobs db). jb_customer j \<noteq> None \<longleftrightarrow> has_qbo_alias (jb_id j) db)"

text \<open>The events of one work area in order; a withdrawal takes back the approval just before it.\<close>

fun approvals_from :: "approval_row option \<Rightarrow> approval_row list \<Rightarrow> bool" where
  "approvals_from before [] = True"
| "approvals_from before (r # rs) \<longleftrightarrow>
     (case ar_action r of
        Act_approved \<Rightarrow> ar_agreed_on r \<noteq> None \<and> ar_reason r = None \<and> ar_withdraws r = None
      | Act_withdrawn \<Rightarrow> ar_reason r \<noteq> None \<and> (case before of None \<Rightarrow> False
          | Some b \<Rightarrow> ar_action b = Act_approved \<and> ar_withdraws r = Some (ar_id b) \<and> ar_price r = ar_price b))
     \<and> approvals_from (Some r) rs"

definition events_at :: "uuid \<times> uuid \<times> int \<Rightarrow> job_db \<Rightarrow> approval_row list" where
  "events_at k db = filter (\<lambda>r. approval_key r = k) (jd_approvals db)"

definition approvals_ok :: "job_db \<Rightarrow> bool" where
  "approvals_ok db \<longleftrightarrow> (\<forall>k. approvals_from None (events_at k db))"

definition jobs_inv :: "job_db \<Rightarrow> bool" where
  "jobs_inv db \<longleftrightarrow> job_ids_ok db \<and> links_ok db \<and> aliases_ok db \<and> job_customers_ok db \<and> approvals_ok db"

section \<open>Rewriting\<close>

lemma job_note_simps [simp]:
  "jd_jobs (job_note e i u b a x db) = jd_jobs db" "jd_links (job_note e i u b a x db) = jd_links db"
  "jd_aliases (job_note e i u b a x db) = jd_aliases db" "jd_approvals (job_note e i u b a x db) = jd_approvals db"
  "jd_customers (job_note e i u b a x db) = jd_customers db" "jd_estimates (job_note e i u b a x db) = jd_estimates db"
  "jd_versions (job_note e i u b a x db) = jd_versions db" "jd_areas (job_note e i u b a x db) = jd_areas db"
  "jd_divisions (job_note e i u b a x db) = jd_divisions db" "jd_cost_runs (job_note e i u b a x db) = jd_cost_runs db"
  by (simp_all add: job_note_def)

lemma put_job_simps [simp]:
  "jd_links (put_job j db) = jd_links db" "jd_aliases (put_job j db) = jd_aliases db" "jd_approvals (put_job j db) = jd_approvals db"
  "jd_customers (put_job j db) = jd_customers db" "jd_estimates (put_job j db) = jd_estimates db" "jd_log (put_job j db) = jd_log db"
  "jd_versions (put_job j db) = jd_versions db" "jd_areas (put_job j db) = jd_areas db"
  "jd_jobs (put_job j db) = map (\<lambda>x. if jb_id x = jb_id j then j else x) (jd_jobs db)"
  by (simp_all add: put_job_def)

lemma put_customer_simps [simp]:
  "jd_links (put_customer c db) = jd_links db" "jd_aliases (put_customer c db) = jd_aliases db" "jd_approvals (put_customer c db) = jd_approvals db"
  "jd_jobs (put_customer c db) = jd_jobs db" "jd_estimates (put_customer c db) = jd_estimates db" "jd_log (put_customer c db) = jd_log db"
  "jd_versions (put_customer c db) = jd_versions db" "jd_areas (put_customer c db) = jd_areas db"
  "jd_customers (put_customer c db) = map (\<lambda>x. if sc_id x = sc_id c then c else x) (jd_customers db)"
  by (simp_all add: put_customer_def)

lemma request_cost_run_simps [simp]:
  "jd_jobs (request_cost_run db) = jd_jobs db" "jd_links (request_cost_run db) = jd_links db" "jd_aliases (request_cost_run db) = jd_aliases db"
  "jd_approvals (request_cost_run db) = jd_approvals db" "jd_customers (request_cost_run db) = jd_customers db"
  "jd_estimates (request_cost_run db) = jd_estimates db" "jd_log (request_cost_run db) = jd_log db"
  "jd_versions (request_cost_run db) = jd_versions db" "jd_areas (request_cost_run db) = jd_areas db"
  by (simp_all add: request_cost_run_def)

text \<open>The parts of the invariant look at the lists only.\<close>

lemma link_key_same: "jd_estimates db' = jd_estimates db \<Longrightarrow> link_key db' = link_key db"
  by (simp add: link_key_def find_estimate_def fun_eq_iff)

lemma jobs_inv_same:
  assumes "jobs_inv db" and "jd_jobs db' = jd_jobs db" and "jd_links db' = jd_links db" and "jd_aliases db' = jd_aliases db"
    and "jd_approvals db' = jd_approvals db" and "jd_customers db' = jd_customers db" and "jd_estimates db' = jd_estimates db"
  shows "jobs_inv db'"
proof -
  have key: "link_key db' = link_key db" using assms(7) by (rule link_key_same)
  show ?thesis
    using assms(1) unfolding jobs_inv_def job_ids_ok_def links_ok_def aliases_ok_def job_customers_ok_def has_qbo_alias_def approvals_ok_def
      events_at_def assms(2-7) key .
qed

lemma jobs_inv_note [simp]: "jobs_inv (job_note e i u b a x db) = jobs_inv db"
proof
  show "jobs_inv db" if "jobs_inv (job_note e i u b a x db)" using that by (rule jobs_inv_same) simp_all
  show "jobs_inv (job_note e i u b a x db)" if "jobs_inv db" using that by (rule jobs_inv_same) simp_all
qed

lemma jobs_inv_cost_run [simp]: "jobs_inv (request_cost_run db) = jobs_inv db"
proof
  show "jobs_inv db" if "jobs_inv (request_cost_run db)" using that by (rule jobs_inv_same) simp_all
  show "jobs_inv (request_cost_run db)" if "jobs_inv db" using that by (rule jobs_inv_same) simp_all
qed

lemma systems_differ [simp]: "lmn \<noteq> qbo_customer" "qbo_customer \<noteq> lmn"
  by (simp_all add: lmn_def qbo_customer_def)

lemma find_job_some: "find_job i db = Some j \<Longrightarrow> j \<in> set (jd_jobs db) \<and> jb_id j = i"
  by (auto simp: find_job_def dest: find_mem)

lemma find_job_none: "find_job i db = None \<longleftrightarrow> i \<notin> jb_id ` set (jd_jobs db)"
  by (force simp: find_job_def find_None_iff)

lemma find_estimate_some: "find_estimate i db = Some e \<Longrightarrow> e \<in> set (jd_estimates db) \<and> es_id e = i"
  by (auto simp: find_estimate_def dest: find_mem)

lemma the_job_iff [simp]: "the_job i db = Inr j \<longleftrightarrow> find_job i db = Some j"
  by (simp add: the_job_def split: option.splits)

lemma has_qbo_alias_iff: "has_qbo_alias i db \<longleftrightarrow> (\<exists>a \<in> set (jd_aliases db). ja_job a = i \<and> ja_system a = qbo_customer)"
  by (auto simp: has_qbo_alias_def list_ex_iff)

text \<open>Two jobs of one id are one.\<close>

lemma same_job: "job_ids_ok db \<Longrightarrow> j \<in> set (jd_jobs db) \<Longrightarrow> j' \<in> set (jd_jobs db) \<Longrightarrow> jb_id j = jb_id j' \<Longrightarrow> j = j'"
  unfolding job_ids_ok_def distinct_map by (blast dest: inj_onD)

lemma alias_job: "jobs_inv db \<Longrightarrow> a \<in> set (jd_aliases db) \<Longrightarrow> ja_job a \<in> jb_id ` set (jd_jobs db)"
  by (simp add: jobs_inv_def aliases_ok_def)

lemma link_job: "jobs_inv db \<Longrightarrow> l \<in> set (jd_links db) \<Longrightarrow> jl_job l \<in> jb_id ` set (jd_jobs db)"
  by (simp add: jobs_inv_def links_ok_def)

section \<open>New jobs\<close>

lemma add_job_inv:
  assumes "jobs_inv db" and "jb_id j \<notin> jb_id ` set (jd_jobs db)" and "jb_customer j = None"
  shows "jobs_inv (db\<lparr>jd_jobs := jd_jobs db @ [j]\<rparr>)"
proof -
  have no_alias: "\<not> has_qbo_alias (jb_id j) db"
  proof
    assume "has_qbo_alias (jb_id j) db"
    then obtain a where "a \<in> set (jd_aliases db)" "ja_job a = jb_id j" by (auto simp: has_qbo_alias_iff)
    then show False using alias_job [OF assms(1)] assms(2) by metis
  qed
  have no_link: "jl_job l \<noteq> jb_id j" if "l \<in> set (jd_links db)" for l
    using link_job [OF assms(1) that] assms(2) by metis
  show ?thesis
    unfolding jobs_inv_def
  proof (intro conjI)
    show "job_ids_ok (db\<lparr>jd_jobs := jd_jobs db @ [j]\<rparr>)" using assms by (simp add: jobs_inv_def job_ids_ok_def)
    show "links_ok (db\<lparr>jd_jobs := jd_jobs db @ [j]\<rparr>)" using assms(1) no_link by (force simp: jobs_inv_def links_ok_def)
    show "aliases_ok (db\<lparr>jd_jobs := jd_jobs db @ [j]\<rparr>)"
      using assms(1) by (simp add: jobs_inv_def aliases_ok_def link_key_same [of "db\<lparr>jd_jobs := jd_jobs db @ [j]\<rparr>" db])
    show "job_customers_ok (db\<lparr>jd_jobs := jd_jobs db @ [j]\<rparr>)"
      using assms no_alias by (simp add: jobs_inv_def job_customers_ok_def has_qbo_alias_def)
    show "approvals_ok (db\<lparr>jd_jobs := jd_jobs db @ [j]\<rparr>)" using assms(1) by (simp add: jobs_inv_def approvals_ok_def events_at_def)
  qed
qed

section \<open>Attaching\<close>

lemma put_on_job_inv:
  assumes inv: "jobs_inv db" and put: "put_on_job l a db = Inr db'"
    and new: "jl_id l \<notin> jl_id ` set (jd_links db)" "ja_id a \<notin> ja_id ` set (jd_aliases db)"
    and a: "ja_job a = jl_job l" "ja_system a = lmn" and job: "jl_job l \<in> jb_id ` set (jd_jobs db)"
    and est: "find_estimate (jl_estimate l) db = Some e" "es_external e = ja_external a"
    and why: "jl_role l = Est_ignored \<longrightarrow> jl_note l \<noteq> None"
    and meth: "\<forall>j \<in> set (jd_jobs db). jb_id j = jl_job l \<and> jb_method j \<in> no_estimate_methods \<longrightarrow> jl_role l = Est_ignored"
  shows "jobs_inv db'"
proof -
  have db': "db' = db\<lparr>jd_links := jd_links db @ [l], jd_aliases := jd_aliases db @ [a]\<rparr>"
    and free: "\<forall>x \<in> set (jd_links db). jl_estimate x \<noteq> jl_estimate l"
      "\<forall>x \<in> set (jd_aliases db). \<not> (ja_system x = ja_system a \<and> ja_external x = ja_external a)"
      "jl_role l = Est_original \<longrightarrow> (\<forall>x \<in> set (jd_links db). \<not> (jl_job x = jl_job l \<and> jl_role x = Est_original))"
    using put by (auto simp: put_on_job_def list_ex_iff split: if_splits)
  have e: "jl_estimate l \<in> es_id ` set (jd_estimates db)" using find_estimate_some [OF est(1)] by (metis imageI)
  have key: "link_key db' = link_key db" by (rule link_key_same) (simp add: db')
  show ?thesis
    unfolding jobs_inv_def
  proof (intro conjI)
    show "job_ids_ok db'" using inv new by (simp add: jobs_inv_def job_ids_ok_def db')
    show "links_ok db'" using inv free e job why meth by (auto simp: jobs_inv_def links_ok_def db')
    have "link_key db l = alias_key a" using est a(1) by (simp add: link_key_def alias_key_def)
    moreover have "(lmn, ja_external a) \<notin> (\<lambda>a. (ja_system a, ja_external a)) ` set (jd_aliases db)" using free(2) a(2) by auto
    moreover have "\<forall>x \<in> set (jd_aliases db @ [a]). ja_job x \<in> jb_id ` set (jd_jobs db) \<and> ja_system x \<in> {lmn, qbo_customer}
        \<and> (ja_system x = qbo_customer \<longrightarrow> (\<exists>c \<in> set (jd_customers db). sc_external c = ja_external x \<and> sc_tracked c \<noteq> None))"
      using inv a job by (simp add: jobs_inv_def aliases_ok_def)
    ultimately show "aliases_ok db'" using inv a unfolding jobs_inv_def aliases_ok_def key by (simp add: db')
    show "job_customers_ok db'"
      using inv a(2) by (simp add: jobs_inv_def job_customers_ok_def has_qbo_alias_def db')
    show "approvals_ok db'" using inv by (simp add: jobs_inv_def approvals_ok_def events_at_def db')
  qed
qed

lemma sold_estimate_found: "sold_estimate i db = Inr e \<Longrightarrow> find_estimate i db = Some e"
  by (auto simp: sold_estimate_def split: option.splits if_splits prod.splits)

lemma create_job_keeps:
  assumes "jobs_inv db" and "job_id \<notin> jb_id ` set (jd_jobs db)" and "link_id \<notin> jl_id ` set (jd_links db)"
    and "alias_id \<notin> ja_id ` set (jd_aliases db)"
    and "create_job_from_estimate job_id link_id alias_id today estimate division name actor db = Inr db'"
  shows "jobs_inv db'"
proof -
  let ?l = "\<lparr>jl_id = link_id, jl_job = job_id, jl_estimate = estimate, jl_role = Est_original, jl_by = actor, jl_note = None\<rparr>"
  let ?j = "\<lambda>e d n. \<lparr>jb_id = job_id, jb_customer = None, jb_name = n, jb_division = Some d, jb_method = Fixed_price, jb_status = Job_sold,
            jb_sold_on = (case es_date e of Some day \<Rightarrow> day | None \<Rightarrow> today), jb_notes = None, jb_created_by = actor\<rparr>"
  obtain e d n db1 where e: "sold_estimate estimate db = Inr e"
    and put: "put_on_job ?l \<lparr>ja_id = alias_id, ja_job = job_id, ja_system = lmn, ja_external = es_external e, ja_by = actor\<rparr>
        (db\<lparr>jd_jobs := jd_jobs db @ [?j e d n]\<rparr>) = Inr db1"
    and db': "jobs_inv db1 \<Longrightarrow> jobs_inv db'"
    using assms(5) by (auto simp: create_job_from_estimate_def Let_def)
  define j where "j = ?j e d n"
  have job: "jb_id j = job_id" "jb_customer j = None" "jb_method j \<notin> no_estimate_methods"
    by (simp_all add: j_def no_estimate_methods_def)
  have base: "jobs_inv (db\<lparr>jd_jobs := jd_jobs db @ [j]\<rparr>)" using assms(1,2) job by (intro add_job_inv) simp_all
  have found: "find_estimate (jl_estimate ?l) (db\<lparr>jd_jobs := jd_jobs db @ [j]\<rparr>) = Some e"
    using sold_estimate_found [OF e] by (simp add: find_estimate_def)
  have fixed: "x = j" if "x \<in> set (jd_jobs db @ [j])" "jb_id x = job_id" for x
    using that assms(2) by auto
  show ?thesis
    by (rule db', rule put_on_job_inv [OF base put [folded j_def] _ _ _ _ _ found]) (use assms(3,4) job fixed in \<open>auto simp: image_iff\<close>)
qed

lemma create_pool_keeps:
  assumes "jobs_inv db" and "job_id \<notin> jb_id ` set (jd_jobs db)" and "create_pool_job job_id today name division actor meth db = Inr db'"
  shows "jobs_inv db'"
  using assms add_job_inv [OF assms(1)] by (auto simp: create_pool_job_def Let_def split: option.splits)

lemma attach_keeps:
  assumes "jobs_inv db" and "link_id \<notin> jl_id ` set (jd_links db)" and "alias_id \<notin> ja_id ` set (jd_aliases db)"
    and "attach_estimate link_id alias_id job_id estimate role_word note_text actor db = Inr db'"
  shows "jobs_inv db'"
proof -
  let ?n = "strip_to 2000 note_text"
  obtain j role where j: "find_job job_id db = Some j" "jb_method j \<noteq> Pool" "\<not> (jb_method j = Recurring_service \<and> role_word \<noteq> ''ignored'')"
    and role: "map_of estimate_roles role_word = Some role" "\<not> (role = Est_ignored \<and> ?n = None)"
    and rest: "attach_as link_id alias_id j estimate role ?n actor db = Inr db'"
    using assms(4) by (cases "map_of estimate_roles role_word") (simp_all add: attach_estimate_def, blast)
  obtain e db1 where e: "sold_estimate estimate db = Inr e"
    and put: "put_on_job \<lparr>jl_id = link_id, jl_job = jb_id j, jl_estimate = estimate, jl_role = role, jl_by = actor, jl_note = ?n\<rparr>
        \<lparr>ja_id = alias_id, ja_job = jb_id j, ja_system = lmn, ja_external = es_external e, ja_by = actor\<rparr> db = Inr db1"
    and db': "jobs_inv db1 \<Longrightarrow> jobs_inv db'"
    using rest by (auto simp: attach_as_def Let_def)
  have found: "find_estimate estimate db = Some e" using e by (rule sold_estimate_found)
  have "jb_method x \<in> no_estimate_methods \<Longrightarrow> role = Est_ignored" if "x \<in> set (jd_jobs db)" "jb_id x = jb_id j" for x
  proof -
    assume m: "jb_method x \<in> no_estimate_methods"
    have "x = j" using same_job [of db x j] assms(1) that find_job_some [OF j(1)] by (simp add: jobs_inv_def)
    then have "role_word = ''ignored''" using m j(2,3) by (simp add: no_estimate_methods_def)
    then show "role = Est_ignored" using role(1) by (simp add: estimate_roles_def)
  qed
  then show ?thesis
    using find_job_some [OF j(1)] assms(2,3) role(2) found
    by (intro db' put_on_job_inv [OF assms(1) put]) auto
qed

end
