(* ===== verification/JobInvariant.thy ===== *)
theory JobInvariant
  imports JobFacts
begin

text \<open>
  The remaining actions of jobs and the crosswalk keep the invariant: updating a job, detaching, tracking,
  linking and unlinking, the kinds, approvals and withdrawals, and the imports around them.
\<close>

lemma map_put: "map f (map (\<lambda>x. if f x = f y then y else x) xs) = map f xs"
  by (induction xs) auto

lemma image_put: "f ` set (map (\<lambda>x. if f x = f y then y else x) xs) = f ` set xs"
proof -
  have "set (map f (map (\<lambda>x. if f x = f y then y else x) xs)) = set (map f xs)" by (simp only: map_put)
  then show ?thesis by (simp only: set_map)
qed

lemma link_method: "jobs_inv db \<Longrightarrow> l \<in> set (jd_links db) \<Longrightarrow> x \<in> set (jd_jobs db) \<Longrightarrow> jb_id x = jl_job l
    \<Longrightarrow> jb_method x \<in> no_estimate_methods \<Longrightarrow> jl_role l = Est_ignored"
  unfolding jobs_inv_def links_ok_def by blast

section \<open>A job in place\<close>

text \<open>
  One job is written in place and the QuickBooks aliases may change with it: a job has a customer exactly
  while it is linked, and becomes a pool or a program only with ignored estimates.
\<close>

lemma put_job_inv:
  assumes inv: "jobs_inv db" and id: "jb_id j' = jb_id j" and found: "find_job (jb_id j) db = Some j"
    and customer: "jb_customer j' \<noteq> None \<longleftrightarrow> has_qbo_alias (jb_id j) (db\<lparr>jd_aliases := as\<rparr>)"
    and meth: "jb_method j' \<in> no_estimate_methods \<Longrightarrow> \<forall>l \<in> set (jd_links db). jl_job l = jb_id j \<longrightarrow> jl_role l = Est_ignored"
    and as: "distinct (map ja_id as)" "aliases_ok (db\<lparr>jd_aliases := as\<rparr>)"
    and others: "\<And>i. i \<noteq> jb_id j \<Longrightarrow> has_qbo_alias i (db\<lparr>jd_aliases := as\<rparr>) = has_qbo_alias i db"
  shows "jobs_inv (put_job j' (db\<lparr>jd_aliases := as\<rparr>))"
    (is "jobs_inv ?db")
proof -
  have ids: "map jb_id (jd_jobs ?db) = map jb_id (jd_jobs db)" by (simp only: put_job_simps map_put) simp
  have id_set: "jb_id ` set (jd_jobs ?db) = jb_id ` set (jd_jobs db)" using arg_cong [OF ids, of set] by (simp only: set_map)
  have rows: "x \<in> set (jd_jobs db) \<and> jb_id x \<noteq> jb_id j \<or> x = j'" if "x \<in> set (jd_jobs ?db)" for x
    using that id by (auto split: if_splits)
  have key: "link_key ?db = link_key db" by (rule link_key_same) simp
  show ?thesis
    unfolding jobs_inv_def
  proof (intro conjI)
    show "job_ids_ok ?db" using inv as(1) unfolding job_ids_ok_def jobs_inv_def ids by simp
    have "\<forall>l \<in> set (jd_links db). \<forall>x \<in> set (jd_jobs ?db). jb_id x = jl_job l \<and> jb_method x \<in> no_estimate_methods \<longrightarrow> jl_role l = Est_ignored"
    proof (intro ballI impI)
      fix l x assume l: "l \<in> set (jd_links db)" and x: "x \<in> set (jd_jobs ?db)" "jb_id x = jl_job l \<and> jb_method x \<in> no_estimate_methods"
      show "jl_role l = Est_ignored"
        using rows [OF x(1)]
      proof
        assume "x \<in> set (jd_jobs db) \<and> jb_id x \<noteq> jb_id j"
        then show ?thesis using link_method [OF inv l, of x] x(2) by blast
      next
        assume "x = j'"
        then show ?thesis using meth l x(2) id by simp
      qed
    qed
    then show "links_ok ?db" using inv unfolding links_ok_def jobs_inv_def id_set by simp
    show "aliases_ok ?db" using as(2) unfolding aliases_ok_def key id_set
      by (simp add: link_key_same [of "db\<lparr>jd_aliases := as\<rparr>" db])
    show "job_customers_ok ?db"
      unfolding job_customers_ok_def
    proof
      fix x assume x: "x \<in> set (jd_jobs ?db)"
      have same: "has_qbo_alias i ?db = has_qbo_alias i (db\<lparr>jd_aliases := as\<rparr>)" for i by (simp add: has_qbo_alias_def)
      from rows [OF x] show "jb_customer x \<noteq> None \<longleftrightarrow> has_qbo_alias (jb_id x) ?db"
      proof
        assume "x \<in> set (jd_jobs db) \<and> jb_id x \<noteq> jb_id j"
        then show ?thesis using inv others [of "jb_id x"] by (simp only: same) (simp add: jobs_inv_def job_customers_ok_def)
      next
        assume "x = j'"
        then show ?thesis using customer id by (simp only: same)
      qed
    qed
    show "approvals_ok ?db" using inv by (simp add: jobs_inv_def approvals_ok_def events_at_def)
  qed
qed

lemma put_same_aliases:
  assumes inv: "jobs_inv db" and id: "jb_id j' = jb_id j" and found: "find_job (jb_id j) db = Some j" and customer: "jb_customer j' = jb_customer j"
    and meth: "jb_method j' \<in> no_estimate_methods \<Longrightarrow> \<forall>l \<in> set (jd_links db). jl_job l = jb_id j \<longrightarrow> jl_role l = Est_ignored"
  shows "jobs_inv (put_job j' db)"
proof -
  have same: "db\<lparr>jd_aliases := jd_aliases db\<rparr> = db" by simp
  have "jb_customer j \<noteq> None \<longleftrightarrow> has_qbo_alias (jb_id j) db"
    using inv find_job_some [OF found] by (simp add: jobs_inv_def job_customers_ok_def)
  then have "jobs_inv (put_job j' (db\<lparr>jd_aliases := jd_aliases db\<rparr>))"
    using inv by (intro put_job_inv [OF inv id found _ meth]) (simp_all add: customer jobs_inv_def job_ids_ok_def)
  then show ?thesis by simp
qed

section \<open>Updating\<close>

lemma patch_with_iff: "patch_with sent f j = Inr j' \<longleftrightarrow> (case sent of None \<Rightarrow> j' = j | Some v \<Rightarrow> f v j = Inr j')"
  by (auto simp: patch_with_def split: option.split)

text \<open>What an update leaves of the job.\<close>

definition same_job_but :: "bool \<Rightarrow> job_row \<Rightarrow> job_row \<Rightarrow> bool" where
  "same_job_but meth j j' \<longleftrightarrow> jb_id j' = jb_id j \<and> jb_customer j' = jb_customer j \<and> jb_created_by j' = jb_created_by j
     \<and> (\<not> meth \<longrightarrow> jb_method j' = jb_method j)"

lemma patch_steps:
  "patch_with sent (\<lambda>n j. bind_r (clean_job_name n) (\<lambda>t. Inr (j\<lparr>jb_name := t\<rparr>))) j = Inr j' \<Longrightarrow> same_job_but False j j'"
  "patch_with sent2 (\<lambda>d j. bind_r (the_division d db) (\<lambda>i. Inr (j\<lparr>jb_division := Some i\<rparr>))) j = Inr j' \<Longrightarrow> same_job_but False j j'"
  "patch_with sent3 patch_status j = Inr j' \<Longrightarrow> same_job_but False j j'"
  "patch_with sent4 (\<lambda>n j. Inr (j\<lparr>jb_notes := strip_to 4000 n\<rparr>)) j = Inr j' \<Longrightarrow> same_job_but False j j'"
  "patch_with sent5 (patch_sold_on today) j = Inr j' \<Longrightarrow> same_job_but False j j'"
  "patch_with sent3 (patch_method db) j = Inr j' \<Longrightarrow> same_job_but (jb_method j' \<noteq> jb_method j) j j'
     \<and> (jb_method j' \<in> no_estimate_methods \<and> jb_method j \<notin> no_estimate_methods \<longrightarrow> (\<forall>l \<in> set (jd_links db). jl_job l \<noteq> jb_id j))"
  by (auto simp: patch_with_iff same_job_but_def patch_status_def patch_sold_on_def patch_method_def list_ex_iff split: option.splits)

lemma patched_keeps:
  assumes "patched today c db j = Inr j'"
  shows "same_job_but (jb_method j' \<noteq> jb_method j) j j'
    \<and> (jb_method j' \<in> no_estimate_methods \<and> jb_method j \<notin> no_estimate_methods \<longrightarrow> (\<forall>l \<in> set (jd_links db). jl_job l \<noteq> jb_id j))"
proof -
  obtain j1 j2 j3 j4 j5 where *:
    "patch_with (jc_name c) (\<lambda>n j. bind_r (clean_job_name n) (\<lambda>t. Inr (j\<lparr>jb_name := t\<rparr>))) j = Inr j1"
    "patch_with (jc_division c) (\<lambda>d j. bind_r (the_division d db) (\<lambda>i. Inr (j\<lparr>jb_division := Some i\<rparr>))) j1 = Inr j2"
    "patch_with (jc_method c) (patch_method db) j2 = Inr j3" "patch_with (jc_status c) patch_status j3 = Inr j4"
    "patch_with (jc_notes c) (\<lambda>n j. Inr (j\<lparr>jb_notes := strip_to 4000 n\<rparr>)) j4 = Inr j5" "patch_with (jc_sold_on c) (patch_sold_on today) j5 = Inr j'"
    using assms unfolding patched_def bind_r_Inr by blast
  have before: "same_job_but False j j1" "same_job_but False j1 j2" using patch_steps(1) [OF *(1)] patch_steps(2) [OF *(2)] by auto
  have after: "same_job_but False j3 j4" "same_job_but False j4 j5" "same_job_but False j5 j'"
    using patch_steps(3) [OF *(4)] patch_steps(4) [OF *(5)] patch_steps(5) [OF *(6)] by auto
  show ?thesis using patch_steps(6) [OF *(3)] before after by (simp add: same_job_but_def)
qed

lemma update_job_keeps:
  assumes inv: "jobs_inv db" and "update_job today job_id changes actor db = Inr db'"
  shows "jobs_inv db'"
proof -
  obtain j j' where j: "find_job job_id db = Some j" and j': "patched today changes db j = Inr j'"
    and db': "jobs_inv (put_job j' db) \<Longrightarrow> jobs_inv db'"
    using assms(2) by (auto simp: update_job_def Let_def)
  have id: "jb_id j = job_id" "j \<in> set (jd_jobs db)" using find_job_some [OF j] by simp_all
  have "\<forall>l \<in> set (jd_links db). jl_job l = jb_id j \<longrightarrow> jl_role l = Est_ignored" if m: "jb_method j' \<in> no_estimate_methods"
  proof (cases "jb_method j \<in> no_estimate_methods")
    case True
    then show ?thesis using link_method [OF inv _ id(2)] by metis
  next
    case False
    then show ?thesis using patched_keeps [OF j'] m by simp
  qed
  then show ?thesis using j patched_keeps [OF j'] by (intro db' put_same_aliases [OF inv, of j' j]) (simp_all add: same_job_but_def id(1))
qed

section \<open>Detaching\<close>

lemma filter_key:
  assumes "distinct (map f xs)" and "distinct (map g xs)" and "y \<in> set xs"
  shows "map f (filter (\<lambda>x. g x \<noteq> g y) xs) = filter (\<lambda>k. k \<noteq> f y) (map f xs)"
proof -
  have "g x \<noteq> g y \<longleftrightarrow> f x \<noteq> f y" if "x \<in> set xs" for x
    using assms that inj_on_eq_iff [of f "set xs" x y] inj_on_eq_iff [of g "set xs" x y] by (simp add: distinct_map)
  then have "filter (\<lambda>x. g x \<noteq> g y) xs = filter (\<lambda>x. f x \<noteq> f y) xs" by (intro filter_cong) simp_all
  then show ?thesis by (simp add: filter_map comp_def)
qed

lemma distinct_alias_keys:
  assumes "distinct (map (\<lambda>a. (ja_system a, ja_external a)) as)"
  shows "distinct (map alias_key (filter (\<lambda>a. ja_system a = s) as))"
  using assms by (induction as) (auto simp: alias_key_def image_iff)

lemma detach_keeps:
  assumes inv: "jobs_inv db" and "detach_estimate job_id estimate actor db = Inr db'"
  shows "jobs_inv db'"
proof -
  obtain l e where l: "l \<in> set (jd_links db)" "jl_job l = job_id" "jl_estimate l = estimate" and e: "find_estimate estimate db = Some e"
    and db'_inv: "jobs_inv (db\<lparr>jd_links := filter (\<lambda>x. jl_id x \<noteq> jl_id l) (jd_links db),
        jd_aliases := filter (\<lambda>a. \<not> (ja_job a = job_id \<and> ja_system a = lmn \<and> ja_external a = es_external e)) (jd_aliases db)\<rparr>) \<Longrightarrow> jobs_inv db'"
    using assms(2) by (auto simp: detach_estimate_def Let_def split: option.splits dest: find_mem)
  let ?mine = "\<lambda>a. ja_job a = job_id \<and> ja_system a = lmn \<and> ja_external a = es_external e"
  let ?db = "db\<lparr>jd_links := filter (\<lambda>x. jl_id x \<noteq> jl_id l) (jd_links db), jd_aliases := filter (\<lambda>a. \<not> ?mine a) (jd_aliases db)\<rparr>"
  let ?lmn = "\<lambda>a. ja_system a = lmn"
  have key: "link_key ?db = link_key db" by (rule link_key_same) simp
  have k: "link_key db l = (job_id, Some (es_external e))" using l e by (simp add: link_key_def)
  have keys: "map (link_key db) (jd_links db) = map alias_key (filter ?lmn (jd_aliases db))"
    and aliases: "distinct (map (\<lambda>a. (ja_system a, ja_external a)) (jd_aliases db))" using inv by (simp_all add: jobs_inv_def aliases_ok_def)
  have "distinct (map (link_key db) (jd_links db))" unfolding keys using aliases by (rule distinct_alias_keys)
  then have "map (link_key db) (filter (\<lambda>x. jl_id x \<noteq> jl_id l) (jd_links db)) = filter (\<lambda>k. k \<noteq> link_key db l) (map (link_key db) (jd_links db))"
    using inv l(1) by (intro filter_key) (simp_all add: jobs_inv_def job_ids_ok_def)
  also have "\<dots> = map alias_key (filter (\<lambda>a. alias_key a \<noteq> link_key db l) (filter ?lmn (jd_aliases db)))"
    unfolding keys by (simp add: filter_map comp_def)
  also have "filter (\<lambda>a. alias_key a \<noteq> link_key db l) (filter ?lmn (jd_aliases db)) = filter ?lmn (filter (\<lambda>a. \<not> ?mine a) (jd_aliases db))"
    by (auto simp: k alias_key_def intro!: filter_cong)
  finally have same: "map (link_key db) (filter (\<lambda>x. jl_id x \<noteq> jl_id l) (jd_links db)) = map alias_key (filter ?lmn (filter (\<lambda>a. \<not> ?mine a) (jd_aliases db)))" .
  have "jobs_inv ?db"
    unfolding jobs_inv_def
  proof (intro conjI)
    show "job_ids_ok ?db" using inv by (simp add: jobs_inv_def job_ids_ok_def distinct_map_filter)
    have "distinct (map jl_job (filter (\<lambda>x. jl_role x = Est_original) (filter (\<lambda>x. jl_id x \<noteq> jl_id l) (jd_links db))))"
    proof -
      have "distinct (map jl_job (filter (\<lambda>x. jl_id x \<noteq> jl_id l) (filter (\<lambda>x. jl_role x = Est_original) (jd_links db))))"
        using inv by (intro distinct_map_filter [of _ "filter (\<lambda>x. jl_role x = Est_original) (jd_links db)"]) (simp add: jobs_inv_def links_ok_def)
      then show ?thesis by (simp add: conj_commute)
    qed
    then show "links_ok ?db" using inv by (simp add: jobs_inv_def links_ok_def distinct_map_filter)
    show "aliases_ok ?db" using inv same unfolding aliases_ok_def jobs_inv_def key by (simp add: distinct_map_filter)
    have "has_qbo_alias i ?db = has_qbo_alias i db" for i by (auto simp: has_qbo_alias_iff)
    then show "job_customers_ok ?db" using inv by (simp add: jobs_inv_def job_customers_ok_def)
    show "approvals_ok ?db" using inv by (simp add: jobs_inv_def approvals_ok_def events_at_def)
  qed
  then show ?thesis by (rule db'_inv)
qed

end
