(* ===== verification/JobsProperties.thy ===== *)
theory JobsProperties
  imports JobInvariant
begin

text \<open>
  Jobs and the crosswalk as a machine of what people and imports do, and its properties: the invariant in
  every reachable state, the approvals of a change order, the audit trail, and a pool with an estimate.
\<close>

section \<open>Customers\<close>

lemma customers_inv:
  assumes inv: "jobs_inv db" and "keyed (map (\<lambda>c. (sc_external c, sc_id c)) cs)"
    and kept: "\<And>c. c \<in> set (jd_customers db) \<Longrightarrow> sc_tracked c \<noteq> None
      \<Longrightarrow> (\<exists>a \<in> set (jd_aliases db). ja_system a = qbo_customer \<and> ja_external a = sc_external c)
      \<Longrightarrow> \<exists>c' \<in> set cs. sc_external c' = sc_external c \<and> sc_tracked c' \<noteq> None"
  shows "jobs_inv (db\<lparr>jd_customers := cs\<rparr>)"
proof -
  have key: "link_key (db\<lparr>jd_customers := cs\<rparr>) = link_key db" by (rule link_key_same) simp
  have "\<exists>c \<in> set cs. sc_external c = ja_external a \<and> sc_tracked c \<noteq> None" if a: "a \<in> set (jd_aliases db)" "ja_system a = qbo_customer" for a
  proof -
    obtain c where c: "c \<in> set (jd_customers db)" "sc_external c = ja_external a" "sc_tracked c \<noteq> None"
      using inv a unfolding jobs_inv_def aliases_ok_def by blast
    show ?thesis using kept [OF c(1,3)] a c(2) by auto
  qed
  then have "aliases_ok (db\<lparr>jd_customers := cs\<rparr>)" using inv unfolding aliases_ok_def jobs_inv_def key by simp
  then show ?thesis
    using inv assms(2) by (simp add: jobs_inv_def job_ids_ok_def links_ok_def job_customers_ok_def has_qbo_alias_def approvals_ok_def events_at_def)
qed

lemma put_customer_inv:
  assumes inv: "jobs_inv db" and c: "c \<in> set (jd_customers db)" and same: "sc_id c' = sc_id c" "sc_external c' = sc_external c"
    and tracked: "sc_tracked c' \<noteq> None \<or> (\<forall>a \<in> set (jd_aliases db). ja_system a = qbo_customer \<longrightarrow> ja_external a \<noteq> sc_external c)"
  shows "jobs_inv (put_customer c' db)"
proof -
  let ?cs = "map (\<lambda>x. if sc_id x = sc_id c' then c' else x) (jd_customers db)" and ?k = "\<lambda>c. (sc_external c, sc_id c)"
  have keyed: "keyed (map ?k (jd_customers db))" using inv by (simp add: jobs_inv_def job_ids_ok_def)
  then have "distinct (map sc_id (jd_customers db))" by (simp add: keyed_def comp_def)
  then have one: "x = c" if "x \<in> set (jd_customers db)" "sc_id x = sc_id c" for x
    using that c by (auto simp: distinct_map dest: inj_onD)
  have "map ?k ?cs = map ?k (jd_customers db)"
    unfolding map_map by (intro map_cong refl) (auto simp: same dest: one)
  then have "keyed (map ?k ?cs)" using keyed by (simp only:)
  moreover have "\<exists>x \<in> set ?cs. sc_external x = sc_external d \<and> sc_tracked x \<noteq> None"
    if d: "d \<in> set (jd_customers db)" "sc_tracked d \<noteq> None" "\<exists>a \<in> set (jd_aliases db). ja_system a = qbo_customer \<and> ja_external a = sc_external d" for d
  proof (cases "sc_id d = sc_id c")
    case True
    then have "d = c" using d(1) by (intro one)
    moreover have "c' \<in> set ?cs" using c same by (auto intro!: image_eqI [of _ _ c])
    ultimately show ?thesis using d(3) tracked same by blast
  next
    case False
    then have "d \<in> set ?cs" using d(1) same by (auto intro!: image_eqI [of _ _ d])
    then show ?thesis using d(2) by blast
  qed
  ultimately have "jobs_inv (db\<lparr>jd_customers := ?cs\<rparr>)" using inv by (intro customers_inv) blast+
  then show ?thesis by (simp add: put_customer_def)
qed

lemma the_customer_found: "the_customer i db = Inr c \<Longrightarrow> c \<in> set (jd_customers db) \<and> sc_id c = i"
  by (auto simp: the_customer_def split: option.splits dest: find_mem)

lemma track_keeps:
  assumes "jobs_inv db" and "track_customer now customer actor db = Inr db'"
  shows "jobs_inv db'"
proof -
  obtain c where "the_customer customer db = Inr c" and db': "jobs_inv db' = jobs_inv (put_customer (track now actor c) db)"
    using assms(2) by (auto simp: track_customer_def Let_def)
  then show ?thesis unfolding db' using the_customer_found by (intro put_customer_inv [OF assms(1), of c]) (auto simp: track_def)
qed

lemma untrack_keeps:
  assumes inv: "jobs_inv db" and "untrack_customer customer actor db = Inr db'"
  shows "jobs_inv db'"
proof -
  obtain c where c: "the_customer customer db = Inr c"
    and free: "List.find (\<lambda>a. ja_system a = qbo_customer \<and> ja_external a = sc_external c \<and> find_job (ja_job a) db \<noteq> None) (jd_aliases db) = None"
    and db': "jobs_inv db' = jobs_inv (put_customer (c\<lparr>sc_tracked := None\<rparr>) db)"
    using assms(2) by (auto simp: untrack_customer_def split: option.splits)
  have "ja_external a \<noteq> sc_external c" if a: "a \<in> set (jd_aliases db)" "ja_system a = qbo_customer" for a
  proof -
    have "find_job (ja_job a) db \<noteq> None" using alias_job [OF inv a(1)] by (simp add: find_job_none)
    then show ?thesis using free a unfolding find_None_iff by blast
  qed
  then show ?thesis unfolding db' using the_customer_found [OF c] by (intro put_customer_inv [OF inv, of c]) auto
qed

section \<open>Links\<close>

lemma link_keeps:
  assumes inv: "jobs_inv db" and new: "alias_id \<notin> ja_id ` set (jd_aliases db)"
    and "link_alias alias_id now job_id system external in_progress actor db = Inr db'"
  shows "jobs_inv db'"
proof -
  obtain j c where j: "find_job job_id db = Some j" and c: "List.find (\<lambda>c. sc_external c = external) (jd_customers db) = Some c"
    and free: "\<not> list_ex (\<lambda>a. ja_system a = qbo_customer \<and> ja_external a = external) (jd_aliases db)"
    and db': "jobs_inv db' = jobs_inv (put_customer (if sc_tracked c = None then track now actor c else c) (put_job (linked_job c in_progress j)
      (db\<lparr>jd_aliases := jd_aliases db @ [\<lparr>ja_id = alias_id, ja_job = job_id, ja_system = qbo_customer, ja_external = external, ja_by = actor\<rparr>]\<rparr>)))"
    using assms(3) by (auto simp: link_alias_def Let_def split: option.splits)
  let ?a = "\<lparr>ja_id = alias_id, ja_job = job_id, ja_system = qbo_customer, ja_external = external, ja_by = actor\<rparr>"
  let ?c = "if sc_tracked c = None then track now actor c else c" and ?j = "linked_job c in_progress j"
  define db1 where "db1 = put_customer ?c db"
  have found: "c \<in> set (jd_customers db)" "sc_external c = external" using find_mem [OF c] by simp_all
  have row: "sc_id ?c = sc_id c" "sc_external ?c = external" "sc_tracked ?c \<noteq> None" using found(2) by (simp_all add: track_def)
  have inv1: "jobs_inv db1" unfolding db1_def using found row by (intro put_customer_inv [OF inv, of c]) simp_all
  have tracked: "?c \<in> set (jd_customers db1)" using found(1) row(1) by (auto simp: db1_def intro!: image_eqI [of _ _ c])
  have job: "jb_id j = job_id" "j \<in> set (jd_jobs db)" using find_job_some [OF j] by simp_all
  have lists: "jd_aliases db1 = jd_aliases db" "jd_links db1 = jd_links db" "jd_jobs db1 = jd_jobs db" by (simp_all add: db1_def)
  have key: "link_key (db1\<lparr>jd_aliases := jd_aliases db @ [?a]\<rparr>) = link_key db1" by (rule link_key_same) simp
  have "aliases_ok (db1\<lparr>jd_aliases := jd_aliases db @ [?a]\<rparr>)"
    unfolding aliases_ok_def key
  proof (intro conjI ballI)
    have "(qbo_customer, external) \<notin> (\<lambda>a. (ja_system a, ja_external a)) ` set (jd_aliases db)" using free by (auto simp: list_ex_iff)
    then show "distinct (map (\<lambda>a. (ja_system a, ja_external a)) (jd_aliases (db1\<lparr>jd_aliases := jd_aliases db @ [?a]\<rparr>)))"
      using inv by (simp add: jobs_inv_def aliases_ok_def)
    show "map (link_key db1) (jd_links (db1\<lparr>jd_aliases := jd_aliases db @ [?a]\<rparr>))
        = map alias_key (filter (\<lambda>a. ja_system a = lmn) (jd_aliases (db1\<lparr>jd_aliases := jd_aliases db @ [?a]\<rparr>)))"
      using inv1 by (simp add: jobs_inv_def aliases_ok_def lists)
  next
    fix a assume "a \<in> set (jd_aliases (db1\<lparr>jd_aliases := jd_aliases db @ [?a]\<rparr>))"
    then consider "a \<in> set (jd_aliases db1)" | "a = ?a" by (auto simp: lists)
    then have *: "ja_job a \<in> jb_id ` set (jd_jobs db1) \<and> ja_system a \<in> {lmn, qbo_customer}
        \<and> (ja_system a = qbo_customer \<longrightarrow> (\<exists>c \<in> set (jd_customers db1). sc_external c = ja_external a \<and> sc_tracked c \<noteq> None))"
    proof cases
      case 1
      then show ?thesis using inv1 unfolding jobs_inv_def aliases_ok_def by blast
    next
      case 2
      have "job_id \<in> jb_id ` set (jd_jobs db1)" using job by (auto simp: lists)
      moreover have "\<exists>c \<in> set (jd_customers db1). sc_external c = external \<and> sc_tracked c \<noteq> None" using tracked row by blast
      ultimately show ?thesis using 2 by simp
    qed
    then show "ja_job a \<in> jb_id ` set (jd_jobs (db1\<lparr>jd_aliases := jd_aliases db @ [?a]\<rparr>))" "ja_system a \<in> {lmn, qbo_customer}"
      "ja_system a = qbo_customer \<longrightarrow> (\<exists>c \<in> set (jd_customers (db1\<lparr>jd_aliases := jd_aliases db @ [?a]\<rparr>)). sc_external c = ja_external a \<and> sc_tracked c \<noteq> None)"
      by simp_all
  qed
  moreover have "distinct (map ja_id (jd_aliases db @ [?a]))" using inv new by (simp add: jobs_inv_def job_ids_ok_def)
  moreover have "jb_customer ?j \<noteq> None" by (auto simp: linked_job_def split: option.splits)
  ultimately have "jobs_inv (put_job ?j (db1\<lparr>jd_aliases := jd_aliases db @ [?a]\<rparr>))"
    using link_method [OF inv1 _ _ _] job j
    by (intro put_job_inv [OF inv1, of ?j j]) (auto simp: linked_job_def find_job_def lists has_qbo_alias_iff)
  moreover have "put_customer ?c (put_job ?j (db\<lparr>jd_aliases := jd_aliases db @ [?a]\<rparr>)) = put_job ?j (db1\<lparr>jd_aliases := jd_aliases db @ [?a]\<rparr>)"
    by (simp add: db1_def put_customer_def put_job_def)
  ultimately show ?thesis unfolding db' by simp
qed

lemma unlink_keeps:
  assumes inv: "jobs_inv db" and "unlink_alias job_id alias_id actor db = Inr db'"
  shows "jobs_inv db'"
proof -
  let ?as = "filter (\<lambda>x. ja_id x \<noteq> alias_id) (jd_aliases db)"
  let ?db = "db\<lparr>jd_aliases := ?as\<rparr>"
  obtain j a where j: "find_job job_id db = Some j" and a: "List.find (\<lambda>a. ja_id a = alias_id) (jd_aliases db) = Some a"
    "ja_job a = job_id" "ja_system a = qbo_customer"
    and db': "jobs_inv db' = jobs_inv (put_job (if has_qbo_alias job_id ?db then j else j\<lparr>jb_customer := None\<rparr>) ?db)"
    using assms(2) by (auto simp: unlink_alias_def Let_def split: option.splits)
  let ?j = "if has_qbo_alias job_id ?db then j else j\<lparr>jb_customer := None\<rparr>"
  have job: "jb_id j = job_id" "j \<in> set (jd_jobs db)" using find_job_some [OF j] by simp_all
  have mem: "a \<in> set (jd_aliases db)" "ja_id a = alias_id" using find_mem [OF a(1)] by simp_all
  have ids: "distinct (map ja_id (jd_aliases db))" using inv by (simp add: jobs_inv_def job_ids_ok_def)
  have gone: "x = a" if "x \<in> set (jd_aliases db)" "ja_id x = alias_id" for x
    using ids that mem by (auto simp: distinct_map dest: inj_onD)
  have "filter (\<lambda>x. ja_system x = lmn) ?as = filter (\<lambda>x. ja_system x = lmn) (jd_aliases db)"
    using gone a(3) by (auto intro!: filter_cong)
  moreover have key: "link_key ?db = link_key db" by (rule link_key_same) simp
  ultimately have ok: "aliases_ok ?db" using inv unfolding aliases_ok_def jobs_inv_def key by (simp add: distinct_map_filter)
  have others: "has_qbo_alias i ?db = has_qbo_alias i db" if "i \<noteq> jb_id j" for i
    using gone a(2) job that by (auto simp: has_qbo_alias_iff)
  have "jb_customer ?j \<noteq> None \<longleftrightarrow> has_qbo_alias (jb_id j) ?db"
  proof (cases "has_qbo_alias job_id ?db")
    case True
    then have "has_qbo_alias job_id db" by (auto simp: has_qbo_alias_iff)
    then show ?thesis using True inv job by (auto simp: jobs_inv_def job_customers_ok_def)
  qed (simp add: job)
  then have "jobs_inv (put_job ?j ?db)"
    using link_method [OF inv _ job(2)] job j ids ok others
    by (intro put_job_inv [OF inv, of ?j j]) (auto simp: distinct_map_filter)
  then show ?thesis unfolding db' .
qed

end
