(* ===== verification/JobMachine.thy ===== *)
theory JobMachine
  imports JobsProperties CostSyncProperties
begin

text \<open>
  Approvals as a history, the machine of jobs and the crosswalk, and its properties.
\<close>

section \<open>Approvals\<close>

definition last_event :: "uuid \<times> uuid \<times> int \<Rightarrow> job_db \<Rightarrow> approval_row option" where
  "last_event k db = (if events_at k db = [] then None else Some (last (events_at k db)))"

lemma latest_events_at:
  "map_of (latest_events es) k = (let xs = filter (\<lambda>e. approval_key e = k) es in if xs = [] then None else Some (last xs))"
  by (induction es rule: rev_induct) (auto simp: latest_events_def update_conv' Let_def)

definition approved_events :: "uuid \<Rightarrow> job_db \<Rightarrow> approval_row list" where
  "approved_events job_id db = filter (\<lambda>e. ar_action e = Act_approved) (map snd (latest_events (approval_events [job_id] db)))"

lemma approval_for_at:
  "approval_for job_id e n db = map_option (view_of db (approved_events job_id db) (role_on [job_id] db)) (last_event (job_id, e, n) db)"
proof -
  have "filter (\<lambda>r. approval_key r = (job_id, e, n)) (approval_events [job_id] db) = events_at (job_id, e, n) db"
    by (auto simp: approval_events_def events_at_def approval_key_def intro!: filter_cong)
  then have "map_of (latest_events (approval_events [job_id] db)) (job_id, e, n) = last_event (job_id, e, n) db"
    by (simp add: latest_events_at last_event_def Let_def)
  then show ?thesis
    by (simp add: approval_for_def job_approvals_def approval_views_def Let_def map_of_map approved_events_def)
qed

lemma view_latest [simp]: "aw_latest (view_of db approved roles e) = e"
  by (simp add: view_of_def Let_def)

lemma last_event_mem:
  assumes "last_event k db = Some r"
  shows "r \<in> set (jd_approvals db)" and "approval_key r = k"
proof -
  have "r \<in> set (events_at k db)" using assms by (auto simp: last_event_def split: if_splits)
  then show "r \<in> set (jd_approvals db)" and "approval_key r = k" by (auto simp: events_at_def)
qed

text \<open>One more event.\<close>

definition event_follows :: "approval_row option \<Rightarrow> approval_row \<Rightarrow> bool" where
  "event_follows before r \<longleftrightarrow> (case ar_action r of
     Act_approved \<Rightarrow> ar_agreed_on r \<noteq> None \<and> ar_reason r = None \<and> ar_withdraws r = None
   | Act_withdrawn \<Rightarrow> ar_reason r \<noteq> None \<and> (case before of None \<Rightarrow> False
       | Some b \<Rightarrow> ar_action b = Act_approved \<and> ar_withdraws r = Some (ar_id b) \<and> ar_price r = ar_price b))"

lemma approvals_snoc:
  "approvals_from before (rs @ [r]) \<longleftrightarrow> approvals_from before rs \<and> event_follows (if rs = [] then before else Some (last rs)) r"
  by (induction rs arbitrary: before) (auto simp: event_follows_def)

lemma events_at_snoc: "events_at k (db\<lparr>jd_approvals := jd_approvals db @ [r]\<rparr>) = events_at k db @ (if approval_key r = k then [r] else [])"
  by (simp add: events_at_def)

lemma add_event_inv:
  assumes inv: "jobs_inv db" and new: "ar_id r \<notin> ar_id ` set (jd_approvals db)" and r: "event_follows (last_event (approval_key r) db) r"
  shows "jobs_inv (db\<lparr>jd_approvals := jd_approvals db @ [r]\<rparr>)"
proof -
  let ?db = "db\<lparr>jd_approvals := jd_approvals db @ [r]\<rparr>"
  have key: "link_key ?db = link_key db" by (rule link_key_same) simp
  have old: "approvals_from None (events_at k db)" for k using inv by (cases k) (simp add: jobs_inv_def approvals_ok_def)
  have "approvals_from None (events_at k ?db)" for k
  proof (cases "approval_key r = k")
    case True
    have "last_event k db = (if events_at k db = [] then None else Some (last (events_at k db)))" by (simp add: last_event_def)
    then show ?thesis using old r True by (simp add: events_at_snoc approvals_snoc)
  next
    case False
    then show ?thesis using old by (simp add: events_at_snoc)
  qed
  then have "approvals_ok ?db" by (simp add: approvals_ok_def)
  moreover have "aliases_ok ?db" using inv by (simp add: jobs_inv_def aliases_ok_def key)
  ultimately show ?thesis using inv new by (simp add: jobs_inv_def job_ids_ok_def links_ok_def job_customers_ok_def has_qbo_alias_def)
qed

text \<open>What approving and withdrawing write.\<close>

lemma approve_written:
  assumes "approve_change_order new_id today evidence job_id area q actor db = Inr db'"
  obtains l a r required x y z where "find_job job_id db \<noteq> None" and "evidence = Some required" and "find_area job_id area db = Inr (l, a)"
    and "ea_kept a" and "jl_role l = Est_original \<longrightarrow> ea_kind a = Some ''change_order''" and "\<not> today < aq_agreed_on q"
    and "required \<longrightarrow> clean_to 500 (aq_evidence q) \<noteq> None" and "\<not> approval_applies job_id (jl_estimate l) (ea_order_no a) db"
    and "ar_id r = new_id" and "approval_key r = (job_id, jl_estimate l, ea_order_no a)" and "ar_action r = Act_approved"
    and "ar_area r = ea_id a" and "ar_name r = ea_name a" and "ar_price r = ea_price a" and "\<forall>b. event_follows b r"
    and "db' = job_note Change_order_approved job_id actor x y z (db\<lparr>jd_approvals := jd_approvals db @ [r]\<rparr>)"
proof -
  obtain j required where j: "find_job job_id db = Some j" "evidence = Some required"
    using assms by (auto simp: approve_change_order_def split: option.splits)
  obtain l a where la: "find_area job_id area db = Inr (l, a)"
    using assms j by (auto simp: approve_change_order_def)
  let ?r = "\<lparr>ar_id = new_id, ar_job = job_id, ar_estimate = jl_estimate l, ar_order_no = ea_order_no a, ar_name = ea_name a, ar_area = ea_id a,
     ar_action = Act_approved, ar_price = ea_price a, ar_agreed_on = Some (aq_agreed_on q), ar_agreed_by = clean_to 200 (aq_agreed_by q),
     ar_evidence = clean_to 500 (aq_evidence q), ar_note = clean_to 2000 (aq_note q), ar_reason = None, ar_withdraws = None, ar_by = actor\<rparr>"
  have *: "ea_kept a" "jl_role l = Est_original \<longrightarrow> ea_kind a = Some ''change_order''" "\<not> today < aq_agreed_on q"
    "required \<longrightarrow> clean_to 500 (aq_evidence q) \<noteq> None" "\<not> approval_applies job_id (jl_estimate l) (ea_order_no a) db"
    using assms j la by (auto simp: approve_change_order_def Let_def)
  obtain x y z where "db' = job_note Change_order_approved job_id actor x y z (db\<lparr>jd_approvals := jd_approvals db @ [?r]\<rparr>)"
    using assms j la by (auto simp: approve_change_order_def Let_def)
  then show thesis using j la * by (intro that [of required l a ?r x y z]) (simp_all add: approval_key_def event_follows_def)
qed

lemma withdraw_written:
  assumes "withdraw_approval new_id job_id area reason actor db = Inr db'"
  obtains e n r why x y z where "find_job job_id db \<noteq> None" and "approval_place job_id area db = Inr (e, n)"
    and "last_event (job_id, e, n) db = Some r" and "ar_action r = Act_approved" and "clean_to 2000 reason = Some why"
    and "db' = job_note Approval_withdrawn job_id actor x y z (db\<lparr>jd_approvals := jd_approvals db @ [withdrawal_of new_id job_id why actor r]\<rparr>)"
proof -
  obtain j why e n where j: "find_job job_id db = Some j" "clean_to 2000 reason = Some why" "approval_place job_id area db = Inr (e, n)"
    using assms by (auto simp: withdraw_approval_def split: option.splits)
  obtain v where v: "approval_for job_id e n db = Some v" "ar_action (aw_latest v) = Act_approved"
    using assms j by (cases "approval_for job_id e n db") (auto simp: withdraw_approval_def Let_def)
  obtain x y z where "db' = job_note Approval_withdrawn job_id actor x y z
      (db\<lparr>jd_approvals := jd_approvals db @ [withdrawal_of new_id job_id why actor (aw_latest v)]\<rparr>)"
    using assms j v by (auto simp: withdraw_approval_def Let_def)
  moreover have "last_event (job_id, e, n) db = Some (aw_latest v)"
    using v(1) unfolding approval_for_at by auto
  ultimately show thesis using j v by (intro that) auto
qed

lemma withdrawal_follows:
  assumes "last_event (job_id, e, n) db = Some r" and "ar_action r = Act_approved"
  shows "approval_key (withdrawal_of new_id job_id why actor r) = (job_id, e, n)"
    and "event_follows (last_event (job_id, e, n) db) (withdrawal_of new_id job_id why actor r)"
  using last_event_mem [OF assms(1)] assms by (simp_all add: withdrawal_of_def approval_key_def event_follows_def)

lemma approve_keeps:
  assumes "jobs_inv db" and "new_id \<notin> ar_id ` set (jd_approvals db)"
    and "approve_change_order new_id today evidence job_id area q actor db = Inr db'"
  shows "jobs_inv db'"
  using assms(3)
proof (rule approve_written)
  fix l a r required x y z
  assume "ar_id r = new_id" "\<forall>b. event_follows b r"
    "db' = job_note Change_order_approved job_id actor x y z (db\<lparr>jd_approvals := jd_approvals db @ [r]\<rparr>)"
  then show ?thesis using assms(1,2) add_event_inv [of db r] by simp
qed

lemma withdraw_keeps:
  assumes "jobs_inv db" and "new_id \<notin> ar_id ` set (jd_approvals db)" and "withdraw_approval new_id job_id area reason actor db = Inr db'"
  shows "jobs_inv db'"
  using assms(3)
proof (rule withdraw_written)
  fix e n r why x y z
  assume *: "last_event (job_id, e, n) db = Some r" "ar_action r = Act_approved"
    "db' = job_note Approval_withdrawn job_id actor x y z (db\<lparr>jd_approvals := jd_approvals db @ [withdrawal_of new_id job_id why actor r]\<rparr>)"
  have "ar_id (withdrawal_of new_id job_id why actor r) = new_id" by (simp add: withdrawal_of_def)
  then show ?thesis
    using assms(1,2) add_event_inv [of db "withdrawal_of new_id job_id why actor r"] withdrawal_follows [OF *(1,2)] *(3) by simp
qed

section \<open>Kinds\<close>

lemma confirm_area_simps [simp]:
  "jd_jobs (confirm_area i e now actor c db) = jd_jobs db" "jd_links (confirm_area i e now actor c db) = jd_links db"
  "jd_aliases (confirm_area i e now actor c db) = jd_aliases db" "jd_approvals (confirm_area i e now actor c db) = jd_approvals db"
  "jd_customers (confirm_area i e now actor c db) = jd_customers db" "jd_estimates (confirm_area i e now actor c db) = jd_estimates db"
  "jd_versions (confirm_area i e now actor c db) = jd_versions db" "map ea_id (jd_areas (confirm_area i e now actor c db)) = map ea_id (jd_areas db)"
  by (auto simp: confirm_area_def split: prod.split)

lemma confirm_areas_simps [simp]:
  "jd_jobs (foldl (\<lambda>db a. confirm_area i e now actor (a, k a) db) db as) = jd_jobs db"
  "jd_links (foldl (\<lambda>db a. confirm_area i e now actor (a, k a) db) db as) = jd_links db"
  "jd_aliases (foldl (\<lambda>db a. confirm_area i e now actor (a, k a) db) db as) = jd_aliases db"
  "jd_approvals (foldl (\<lambda>db a. confirm_area i e now actor (a, k a) db) db as) = jd_approvals db"
  "jd_customers (foldl (\<lambda>db a. confirm_area i e now actor (a, k a) db) db as) = jd_customers db"
  "jd_estimates (foldl (\<lambda>db a. confirm_area i e now actor (a, k a) db) db as) = jd_estimates db"
  "jd_versions (foldl (\<lambda>db a. confirm_area i e now actor (a, k a) db) db as) = jd_versions db"
  "map ea_id (jd_areas (foldl (\<lambda>db a. confirm_area i e now actor (a, k a) db) db as)) = map ea_id (jd_areas db)"
  by (induction as arbitrary: db) simp_all

lemma confirm_kind_written:
  assumes "confirm_kind now job_id area kind actor db = Inr db'"
  obtains e a where "db' = confirm_area job_id e now actor (a, kind) db"
  using assms by (auto simp: confirm_kind_def split: option.splits prod.splits)

lemma confirm_suggested_written:
  assumes "confirm_suggested_kinds now job_id actor db = Inr (db', n, m)"
  obtains e rows where "db' = foldl (\<lambda>db a. confirm_area job_id e now actor (a, suggested_kind (ea_suggested a)) db) db (fst (as_suggested rows))"
    and "n = length (fst (as_suggested rows))"
proof -
  obtain e rows where "(case as_suggested rows of (chosen, skipped) \<Rightarrow> Inr (foldl (\<lambda>db a. confirm_area job_id e now actor
      (a, suggested_kind (ea_suggested a)) db) db chosen, length chosen, skipped)) = (Inr (db', n, m) :: (job_error, job_db \<times> nat \<times> nat) result)"
    using assms unfolding confirm_suggested_kinds_def bind_r_Inr Let_def by auto
  then show thesis by (cases "as_suggested rows") (auto intro: that [of e rows])
qed

section \<open>The imports around them\<close>

text \<open>An import never removes an estimate or changes its id; a customer comes through the sync.\<close>

definition imported :: "job_db \<Rightarrow> job_db \<Rightarrow> bool" where
  "imported db db' \<longleftrightarrow> (\<exists>es vs as. db' = db\<lparr>jd_estimates := es, jd_versions := vs, jd_areas := as\<rparr> \<and> distinct (map es_id es)
     \<and> distinct (map ev_id vs) \<and> distinct (map ea_id as)
     \<and> (\<forall>e \<in> set (jd_estimates db). \<exists>e' \<in> set es. es_id e' = es_id e \<and> es_external e' = es_external e))"

lemma imported_keeps:
  assumes inv: "jobs_inv db" and "imported db db'"
  shows "jobs_inv db'"
proof -
  obtain es vs as where db': "db' = db\<lparr>jd_estimates := es, jd_versions := vs, jd_areas := as\<rparr>" and ids: "distinct (map es_id es)"
    and kept: "\<And>e. e \<in> set (jd_estimates db) \<Longrightarrow> \<exists>e' \<in> set es. es_id e' = es_id e \<and> es_external e' = es_external e"
    using assms(2) unfolding imported_def by blast
  have key: "link_key db' l = link_key db l" if l: "l \<in> set (jd_links db)" for l
  proof -
    have "jl_estimate l \<in> es_id ` set (jd_estimates db)" using inv l by (simp add: jobs_inv_def links_ok_def)
    then obtain e where e: "find_estimate (jl_estimate l) db = Some e"
      by (cases "find_estimate (jl_estimate l) db") (auto simp: find_estimate_def find_None_iff)
    obtain e' where e': "e' \<in> set es" "es_id e' = jl_estimate l" "es_external e' = es_external e"
      using kept find_estimate_some [OF e] by metis
    have "List.find (\<lambda>x. es_id x = jl_estimate l) es = Some e'"
      using find_distinct [OF ids, of e' "\<lambda>x. True"] e' by simp
    then show ?thesis using e e'(3) by (simp add: link_key_def find_estimate_def db')
  qed
  have "es_id ` set (jd_estimates db) \<subseteq> es_id ` set es" 
  proof
    fix i assume "i \<in> es_id ` set (jd_estimates db)"
    then obtain e where e: "e \<in> set (jd_estimates db)" "i = es_id e" by blast
    from kept [OF e(1)] obtain e' where "e' \<in> set es" "es_id e' = es_id e" by blast
    then show "i \<in> es_id ` set es" using e(2) by (metis imageI)
  qed
  then have links: "links_ok db'" using inv by (auto simp: jobs_inv_def links_ok_def db')
  have "map (link_key db') (jd_links db') = map (link_key db) (jd_links db)" using key by (simp add: db')
  then have "aliases_ok db'" using inv unfolding jobs_inv_def aliases_ok_def by (simp add: db')
  then show ?thesis using inv links ids
    by (simp add: jobs_inv_def job_ids_ok_def job_customers_ok_def has_qbo_alias_def approvals_ok_def events_at_def db')
qed

lemma synced_keeps:
  assumes inv: "jobs_inv db" and copy: "sy_customers copy = jd_customers db" and new: "new_id \<notin> sc_id ` set (jd_customers db)"
  shows "jobs_inv (db\<lparr>jd_customers := sy_customers (write_customer new_id raw_id v copy)\<rparr>)"
proof (rule customers_inv [OF inv])
  have ids: "customer_ids copy = map (\<lambda>c. (sc_external c, sc_id c)) (jd_customers db)" by (simp add: customer_ids_def copy)
  have "keyed (customer_ids copy)" using inv by (simp add: jobs_inv_def job_ids_ok_def ids)
  moreover have "new_id \<notin> snd ` set (customer_ids copy)" using new by (auto simp: ids)
  ultimately show "keyed (map (\<lambda>c. (sc_external c, sc_id c)) (sy_customers (write_customer new_id raw_id v copy)))"
    using keyed_keep_or_add write_customer_ids(1) [of new_id raw_id v copy] unfolding customer_ids_def by metis
  fix c assume c: "c \<in> set (jd_customers db)" "sc_tracked c \<noteq> None"
  let ?parent = "Option.bind (nc_parent v) (\<lambda>p. customer_id p copy)" and ?i = "case customer_id (nc_external v) copy of None \<Rightarrow> new_id | Some i \<Rightarrow> i"
  let ?base = "if customer_id (nc_external v) copy = None
           then sy_customers copy @ [customer_with v ?parent raw_id (new_customer new_id (nc_external v))]
           else map (\<lambda>c. if sc_external c = nc_external v then customer_with v ?parent raw_id c else c) (sy_customers copy)"
  let ?fill = "\<lambda>c. if sc_parent_external c = Some (nc_external v) \<and> sc_parent c = None then c\<lparr>sc_parent := Some ?i\<rparr> else c"
  have rows: "sy_customers (write_customer new_id raw_id v copy) = map ?fill ?base"
    by (simp add: write_customer_def Let_def fill_customer_def)
  have "\<exists>d \<in> set ?base. sc_external d = sc_external c \<and> sc_tracked d = sc_tracked c"
  proof (cases "customer_id (nc_external v) copy = None")
    case True
    then show ?thesis using c(1) copy by (auto intro: bexI [of _ c])
  next
    case False
    let ?row = "\<lambda>c. if sc_external c = nc_external v then customer_with v ?parent raw_id c else c"
    have "?row c \<in> ?row ` set (jd_customers db)" using c(1) by (rule imageI)
    moreover have "sc_external (?row c) = sc_external c \<and> sc_tracked (?row c) = sc_tracked c" by (simp add: customer_with_def)
    ultimately have "\<exists>d \<in> ?row ` set (jd_customers db). sc_external d = sc_external c \<and> sc_tracked d = sc_tracked c" by (intro bexI [of _ "?row c"])
    then show ?thesis using False by (simp only: copy if_False set_map)
  qed
  then show "\<exists>c' \<in> set (sy_customers (write_customer new_id raw_id v copy)). sc_external c' = sc_external c \<and> sc_tracked c' \<noteq> None"
  proof
    fix d assume d: "d \<in> set ?base" "sc_external d = sc_external c \<and> sc_tracked d = sc_tracked c"
    then have "?fill d \<in> set (map ?fill ?base)" unfolding set_map by (intro imageI)
    moreover have "sc_external (?fill d) = sc_external c \<and> sc_tracked (?fill d) \<noteq> None" using d(2) c(2) by simp
    ultimately show ?thesis unfolding rows by (intro bexI [of _ "?fill d"])
  qed
qed

end
