(* ===== verification/JobOutcomes.thy ===== *)
theory JobOutcomes
  imports JobMachine
begin

text \<open>
  The machine of jobs and the crosswalk and its properties: what holds in every reachable state, the audit
  trail, the life of an approval, how a link moves the cost of a job, and a pool with an estimate.
\<close>

section \<open>The machine\<close>

text \<open>A person's action with fresh ids.\<close>

inductive person_step :: "uuid \<Rightarrow> job_db \<Rightarrow> job_db \<Rightarrow> bool" for actor where
  create: "job_id \<notin> jb_id ` set (jd_jobs db) \<Longrightarrow> link_id \<notin> jl_id ` set (jd_links db) \<Longrightarrow> alias_id \<notin> ja_id ` set (jd_aliases db)
    \<Longrightarrow> create_job_from_estimate job_id link_id alias_id today estimate division name actor db = Inr db' \<Longrightarrow> person_step actor db db'"
| pool: "job_id \<notin> jb_id ` set (jd_jobs db) \<Longrightarrow> create_pool_job job_id today name division actor meth db = Inr db' \<Longrightarrow> person_step actor db db'"
| update: "update_job today job_id changes actor db = Inr db' \<Longrightarrow> person_step actor db db'"
| attach: "link_id \<notin> jl_id ` set (jd_links db) \<Longrightarrow> alias_id \<notin> ja_id ` set (jd_aliases db)
    \<Longrightarrow> attach_estimate link_id alias_id job_id estimate role_word note_text actor db = Inr db' \<Longrightarrow> person_step actor db db'"
| detach: "detach_estimate job_id estimate actor db = Inr db' \<Longrightarrow> person_step actor db db'"
| track: "track_customer now customer actor db = Inr db' \<Longrightarrow> person_step actor db db'"
| untrack: "untrack_customer customer actor db = Inr db' \<Longrightarrow> person_step actor db db'"
| link: "alias_id \<notin> ja_id ` set (jd_aliases db) \<Longrightarrow> link_alias alias_id now job_id system external in_progress actor db = Inr db'
    \<Longrightarrow> person_step actor db db'"
| unlink: "unlink_alias job_id alias_id actor db = Inr db' \<Longrightarrow> person_step actor db db'"
| confirm: "confirm_kind now job_id area kind actor db = Inr db' \<Longrightarrow> person_step actor db db'"
| suggested: "confirm_suggested_kinds now job_id actor db = Inr (db', n, m) \<Longrightarrow> person_step actor db db'"
| approve: "new_id \<notin> ar_id ` set (jd_approvals db) \<Longrightarrow> approve_change_order new_id today evidence job_id area q actor db = Inr db'
    \<Longrightarrow> person_step actor db db'"
| withdraw: "new_id \<notin> ar_id ` set (jd_approvals db) \<Longrightarrow> withdraw_approval new_id job_id area reason actor db = Inr db'
    \<Longrightarrow> person_step actor db db'"

text \<open>The imports around people: estimates, customers, divisions.\<close>

inductive job_step :: "job_db \<Rightarrow> job_db \<Rightarrow> bool" where
  person: "person_step actor db db' \<Longrightarrow> job_step db db'"
| estimates: "imported db db' \<Longrightarrow> job_step db db'"
| customer: "sy_customers copy = jd_customers db \<Longrightarrow> new_id \<notin> sc_id ` set (jd_customers db)
    \<Longrightarrow> job_step db (db\<lparr>jd_customers := sy_customers (write_customer new_id raw_id v copy)\<rparr>)"
| divisions: "job_step db (db\<lparr>jd_divisions := ds\<rparr>)"

definition empty_jobs :: "job_db \<Rightarrow> bool" where
  "empty_jobs db \<longleftrightarrow> jd_jobs db = [] \<and> jd_links db = [] \<and> jd_aliases db = [] \<and> jd_approvals db = [] \<and> jd_customers db = []
     \<and> jd_estimates db = [] \<and> jd_versions db = [] \<and> jd_areas db = []"

abbreviation reachable_jobs :: "job_db \<Rightarrow> bool" where
  "reachable_jobs \<equiv> reachable_from empty_jobs job_step"

text \<open>A person changes neither versions nor the ids of work areas.\<close>

definition area_ids :: "job_db \<Rightarrow> uuid list \<times> uuid list" where
  "area_ids db = (map ev_id (jd_versions db), map ea_id (jd_areas db))"

lemma areas_simps [simp]:
  "area_ids (job_note e i u b a x db) = area_ids db" "area_ids (put_job j db) = area_ids db" "area_ids (put_customer c db) = area_ids db"
  "area_ids (request_cost_run db) = area_ids db" "area_ids (db\<lparr>jd_jobs := js\<rparr>) = area_ids db" "area_ids (db\<lparr>jd_links := ls\<rparr>) = area_ids db"
  "area_ids (db\<lparr>jd_aliases := as\<rparr>) = area_ids db" "area_ids (db\<lparr>jd_approvals := rs\<rparr>) = area_ids db"
  "area_ids (db\<lparr>jd_links := ls, jd_aliases := as\<rparr>) = area_ids db" "area_ids (db\<lparr>jd_aliases := as, jd_links := ls\<rparr>) = area_ids db"
  "area_ids (confirm_area i2 e2 now actor c2 db) = area_ids db"
  "area_ids (foldl (\<lambda>db a. confirm_area i2 e2 now actor (a, k a) db) db xs) = area_ids db"
  by (simp_all add: area_ids_def)

lemma put_on_job_areas: "put_on_job l a db = Inr db' \<Longrightarrow> area_ids db' = area_ids db"
  by (auto simp: put_on_job_def split: if_splits)

lemma person_areas:
  assumes "person_step actor db db'"
  shows "area_ids db' = area_ids db"
  using assms
proof cases
  case create
  then show ?thesis by (auto simp: create_job_from_estimate_def Let_def dest!: put_on_job_areas)
next
  case pool
  then show ?thesis by (auto simp: create_pool_job_def Let_def split: option.splits)
next
  case update
  then show ?thesis by (auto simp: update_job_def Let_def)
next
  case (attach link_id alias_id job_id estimate role_word note_text)
  then show ?thesis
    by (cases "map_of estimate_roles role_word") (auto simp: attach_estimate_def attach_as_def Let_def dest!: put_on_job_areas)
next
  case detach
  then show ?thesis by (auto simp: detach_estimate_def Let_def split: option.splits)
next
  case track
  then show ?thesis by (auto simp: track_customer_def Let_def)
next
  case untrack
  then show ?thesis by (auto simp: untrack_customer_def split: option.splits)
next
  case link
  then show ?thesis by (auto simp: link_alias_def Let_def split: option.splits)
next
  case unlink
  then show ?thesis by (auto simp: unlink_alias_def Let_def split: option.splits)
next
  case confirm
  from confirm show ?thesis by (rule confirm_kind_written) simp
next
  case suggested
  from suggested show ?thesis by (rule confirm_suggested_written) simp
next
  case approve
  from approve(2) show ?thesis by (rule approve_written) simp
next
  case withdraw
  from withdraw(2) show ?thesis by (rule withdraw_written) simp
qed

lemma person_keeps:
  assumes inv: "jobs_inv db" and "person_step actor db db'"
  shows "jobs_inv db'"
  using assms(2)
proof cases
  case create
  then show ?thesis by (rule create_job_keeps [OF inv])
next
  case pool
  then show ?thesis by (rule create_pool_keeps [OF inv])
next
  case update
  then show ?thesis by (rule update_job_keeps [OF inv])
next
  case attach
  then show ?thesis by (rule attach_keeps [OF inv])
next
  case detach
  then show ?thesis by (rule detach_keeps [OF inv])
next
  case track
  then show ?thesis by (rule track_keeps [OF inv])
next
  case untrack
  then show ?thesis by (rule untrack_keeps [OF inv])
next
  case link
  then show ?thesis by (rule link_keeps [OF inv])
next
  case unlink
  then show ?thesis by (rule unlink_keeps [OF inv])
next
  case (confirm now job_id area kind)
  from confirm show ?thesis
  proof (rule confirm_kind_written)
    fix e a assume "db' = confirm_area job_id e now actor (a, kind) db"
    then show ?thesis by (intro jobs_inv_same [OF inv]) simp_all
  qed
next
  case (suggested now job_id n m)
  from suggested show ?thesis
  proof (rule confirm_suggested_written)
    fix e rows assume "db' = foldl (\<lambda>db a. confirm_area job_id e now actor (a, suggested_kind (ea_suggested a)) db) db (fst (as_suggested rows))"
    then show ?thesis by (intro jobs_inv_same [OF inv]) simp_all
  qed
next
  case approve
  then show ?thesis by (rule approve_keeps [OF inv])
next
  case withdraw
  then show ?thesis by (rule withdraw_keeps [OF inv])
qed

definition crosswalk_ok :: "job_db \<Rightarrow> bool" where
  "crosswalk_ok db \<longleftrightarrow> jobs_inv db \<and> distinct (fst (area_ids db)) \<and> distinct (snd (area_ids db))"

interpretation job_machine: state_machine empty_jobs job_step crosswalk_ok
proof
  show "crosswalk_ok db" if "empty_jobs db" for db
    using that by (simp add: crosswalk_ok_def empty_jobs_def jobs_inv_def job_ids_ok_def links_ok_def aliases_ok_def job_customers_ok_def
        approvals_ok_def events_at_def keyed_def area_ids_def)
  show "crosswalk_ok db'" if "crosswalk_ok db" and "job_step db db'" for db db'
    using that(2)
  proof cases
    case (person actor)
    show ?thesis using that(1) person_keeps [OF _ person] person_areas [OF person] by (simp add: crosswalk_ok_def)
  next
    case estimates
    then show ?thesis using that(1) imported_keeps [of db db'] by (auto simp: crosswalk_ok_def imported_def area_ids_def)
  next
    case (customer copy new_id raw_id v)
    then show ?thesis using that(1) synced_keeps [of db copy new_id raw_id v] by (simp add: crosswalk_ok_def area_ids_def)
  next
    case (divisions ds)
    have inv: "jobs_inv db" using that(1) by (simp add: crosswalk_ok_def)
    have "jobs_inv (db\<lparr>jd_divisions := ds\<rparr>)" by (rule jobs_inv_same [OF inv]) simp_all
    then show ?thesis using that(1) divisions by (simp add: crosswalk_ok_def area_ids_def)
  qed
qed

text \<open>
  C0: whatever people and imports do, in every reachable state an estimate is on at most one job and a job has
  at most one original estimate; the estimate ids of the crosswalk are exactly those of the attached
  estimates, on the same jobs; a QuickBooks row is linked to at most one job and is tracked while it is; a
  job has a customer exactly while it has a link; a pool or a program has only ignored estimates, each with
  its reason; and every withdrawal takes back the approval just before it on its work area.
\<close>

theorem reachable_crosswalk:
  assumes "reachable_jobs db"
  shows "distinct (map jl_estimate (jd_links db)) \<and> distinct (map jl_job (filter (\<lambda>l. jl_role l = Est_original) (jd_links db)))
    \<and> distinct (map (\<lambda>a. (ja_system a, ja_external a)) (jd_aliases db))
    \<and> map (link_key db) (jd_links db) = map alias_key (filter (\<lambda>a. ja_system a = lmn) (jd_aliases db))
    \<and> (\<forall>a \<in> set (jd_aliases db). ja_system a = qbo_customer \<longrightarrow>
        (\<exists>c \<in> set (jd_customers db). sc_external c = ja_external a \<and> sc_tracked c \<noteq> None))
    \<and> (\<forall>j \<in> set (jd_jobs db). jb_customer j \<noteq> None \<longleftrightarrow> has_qbo_alias (jb_id j) db)
    \<and> (\<forall>l \<in> set (jd_links db). (jl_role l = Est_ignored \<longrightarrow> jl_note l \<noteq> None)
        \<and> (\<forall>j \<in> set (jd_jobs db). jb_id j = jl_job l \<and> jb_method j \<in> no_estimate_methods \<longrightarrow> jl_role l = Est_ignored))
    \<and> (\<forall>k. approvals_from None (events_at k db))"
proof -
  have inv: "jobs_inv db" using job_machine.reachable_inv [OF assms] by (simp add: crosswalk_ok_def)
  then show ?thesis unfolding jobs_inv_def links_ok_def aliases_ok_def job_customers_ok_def approvals_ok_def by blast
qed

section \<open>The audit trail\<close>

definition logged :: "uuid \<Rightarrow> job_db \<Rightarrow> job_db \<Rightarrow> bool" where
  "logged actor db db' \<longleftrightarrow> (\<exists>new. jd_log db' = jd_log db @ new \<and> (\<forall>x \<in> set new. jo_actor x = actor) \<and> (new = [] \<longrightarrow> db' = db)
     \<and> (length new \<le> 1 \<or> (\<forall>x \<in> set new. jo_event x = Kind_confirmed)))
     \<and> (\<exists>rs. jd_approvals db' = jd_approvals db @ rs)"

lemma logged_one:
  assumes "jd_log db' = jd_log db @ [r]" and "jo_actor r = actor" and "jd_approvals db' = jd_approvals db @ rs"
  shows "logged actor db db'"
  unfolding logged_def
proof (intro conjI)
  show "\<exists>rs. jd_approvals db' = jd_approvals db @ rs" using assms(3) by blast
  show "\<exists>new. jd_log db' = jd_log db @ new \<and> (\<forall>x \<in> set new. jo_actor x = actor) \<and> (new = [] \<longrightarrow> db' = db)
      \<and> (length new \<le> 1 \<or> (\<forall>x \<in> set new. jo_event x = Kind_confirmed))"
    using assms(1,2) by (intro exI [of _ "[r]"]) simp
qed

lemma note_log:
  "jd_log (job_note e i actor b a x db1) = jd_log db1 @ [last (jd_log (job_note e i actor b a x db1))]"
  "jo_actor (last (jd_log (job_note e i actor b a x db1))) = actor"
  by (simp_all add: job_note_def)

lemma logged_note:
  assumes "jd_log db1 = jd_log db" and "jd_approvals db1 = jd_approvals db @ rs"
  shows "logged actor db (job_note e i actor b a x db1)"
  by (rule logged_one [of _ _ "last (jd_log (job_note e i actor b a x db1))" _ rs])
    (use note_log [of e i actor b a x db1] assms in simp_all)

lemma logged_cost_run:
  assumes "jd_log db1 = jd_log db" and "jd_approvals db1 = jd_approvals db @ rs"
  shows "logged actor db (request_cost_run (job_note e i actor b a x db1))"
  by (rule logged_one [of _ _ "last (jd_log (job_note e i actor b a x db1))" _ rs])
    (use note_log [of e i actor b a x db1] assms in simp_all)

lemma put_on_job_log: "put_on_job l a db = Inr db' \<Longrightarrow> jd_log db' = jd_log db \<and> jd_approvals db' = jd_approvals db"
  by (auto simp: put_on_job_def split: if_splits)

text \<open>An update that changes no field writes nothing.\<close>

lemma fields_same:
  assumes "changed_keys (job_fields j) (job_fields j') = []" and "same_job_but m j j'"
  shows "j' = j"
proof -
  have "\<forall>k \<in> set (map fst (job_fields j')). map_of (job_fields j') k = map_of (job_fields j) k"
  proof -
    let ?ks = "filter (\<lambda>k. map_of (job_fields j') k \<noteq> map_of (job_fields j) k) (map fst (job_fields j'))"
    have "length ?ks = length (sort ?ks)" by (simp only: length_sort)
    then have "?ks = []" using assms(1) unfolding changed_keys_def by (metis length_0_conv)
    then show ?thesis unfolding filter_empty_conv by blast
  qed
  then have *: "jb_name j' = jb_name j" "or_none V_id (jb_division j') = or_none V_id (jb_division j)"
    "word_of revenue_methods (jb_method j') = word_of revenue_methods (jb_method j)"
    "word_of job_statuses (jb_status j') = word_of job_statuses (jb_status j)" "jb_sold_on j' = jb_sold_on j"
    "or_none V_text (jb_notes j') = or_none V_text (jb_notes j)"
    by (simp_all add: job_fields_def)
  have "jb_division j' = jb_division j" using *(2) by (auto simp: or_none_def split: option.splits)
  moreover have "jb_notes j' = jb_notes j" using *(6) by (auto simp: or_none_def split: option.splits)
  moreover have "jb_method j' = jb_method j"
    using *(3) by (cases "jb_method j"; cases "jb_method j'") (simp_all add: word_of_def revenue_methods_def)
  moreover have "jb_status j' = jb_status j"
    using *(4) by (cases "jb_status j"; cases "jb_status j'") (simp_all add: word_of_def job_statuses_def)
  ultimately show ?thesis using *(1,5) assms(2) by (intro job_row.equality) (simp_all add: same_job_but_def)
qed

lemma put_same:
  assumes "job_ids_ok db" and "j \<in> set (jd_jobs db)"
  shows "put_job j db = db"
proof -
  have "map (\<lambda>x. if jb_id x = jb_id j then j else x) (jd_jobs db) = jd_jobs db"
    using same_job [OF assms(1) assms(2)] by (intro map_idI) auto
  then show ?thesis by (simp add: put_job_def)
qed

lemma confirm_log:
  "jd_log (foldl (\<lambda>db a. confirm_area i e now actor (a, k a) db) db as) = jd_log db @ map (\<lambda>a. \<lparr>jo_event = Kind_confirmed, jo_entity = i, jo_actor = actor,
     jo_detail = [(''before'', V_dict [(''kind'', or_none V_text (ea_kind a))]), (''after'', V_dict [(''kind'', V_text (k a))]),
       (''rows'', V_dict [(''estimate_work_area'', V_id (ea_id a)), (''estimate'', V_text (es_external e)), (''order_no'', V_num (ea_order_no a))])]\<rparr>) as"
  by (induction as arbitrary: db) (simp_all add: confirm_area_def job_note_def)

text \<open>
  C0: no action of a person on jobs and the crosswalk goes without its audit row: the log only grows, by rows
  that name the person; an action that writes no row changed nothing; it writes one row, but for confirming
  every suggested kind, which writes one per work area. The history of approvals only grows.
\<close>

theorem changes_audited:
  assumes "reachable_jobs db" and "person_step actor db db'"
  shows "logged actor db db'"
  using assms(2)
proof cases
  case (create job_id link_id alias_id today estimate division name)
  then show ?thesis by (auto simp: create_job_from_estimate_def Let_def dest!: put_on_job_log intro!: logged_note [of _ _ "[]"])
next
  case pool
  then show ?thesis by (auto simp: create_pool_job_def Let_def split: option.splits intro!: logged_note [of _ _ "[]"])
next
  case (update today job_id changes)
  obtain j j' where j: "find_job job_id db = Some j" and j': "patched today changes db j = Inr j'"
    and db': "db' = (let before = job_fields j; after = job_fields j'; ks = changed_keys before after; db' = put_job j' db
      in if ks = [] then db' else job_note Job_updated job_id actor (Some (only_keys ks before)) (Some (only_keys ks after))
           [(''changed_fields'', V_list (map V_text ks)), (''rows'', V_dict [(''job'', V_id job_id)])] db')"
    using update by (auto simp: update_job_def Let_def)
  show ?thesis
  proof (cases "changed_keys (job_fields j) (job_fields j') = []")
    case True
    then have "j' = j" using patched_keeps [OF j'] fields_same by blast
    moreover have "job_ids_ok db" using job_machine.reachable_inv [OF assms(1)] by (simp add: crosswalk_ok_def jobs_inv_def)
    ultimately have "db' = db" using True find_job_some [OF j] by (simp add: db' put_same)
    then show ?thesis by (auto simp: logged_def)
  next
    case False
    then show ?thesis by (simp add: db' Let_def logged_note [of _ _ "[]"])
  qed
next
  case (attach link_id alias_id job_id estimate role_word note_text)
  then show ?thesis
    by (cases "map_of estimate_roles role_word")
      (auto simp: attach_estimate_def attach_as_def Let_def dest!: put_on_job_log intro!: logged_note [of _ _ "[]"])
next
  case detach
  then show ?thesis by (auto simp: detach_estimate_def Let_def split: option.splits intro!: logged_note [of _ _ "[]"])
next
  case track
  then show ?thesis by (auto simp: track_customer_def Let_def intro!: logged_note [of _ _ "[]"])
next
  case untrack
  then show ?thesis by (auto simp: untrack_customer_def split: option.splits intro!: logged_note [of _ _ "[]"])
next
  case link
  then show ?thesis
    by (auto simp: link_alias_def Let_def split: option.splits intro!: logged_cost_run [of _ _ "[]"])
next
  case unlink
  then show ?thesis
    by (auto simp: unlink_alias_def Let_def split: option.splits intro!: logged_cost_run [of _ _ "[]"])
next
  case (confirm now job_id area kind)
  from confirm show ?thesis
    by (rule confirm_kind_written) (simp add: confirm_area_def logged_note [of _ _ "[]"])
next
  case (suggested now job_id n m)
  from suggested show ?thesis
    by (rule confirm_suggested_written) (auto simp: logged_def confirm_log)
next
  case approve
  from approve(2) show ?thesis by (rule approve_written) (simp add: logged_note)
next
  case withdraw
  from withdraw(2) show ?thesis by (rule withdraw_written) (simp add: logged_note)
qed

end
