(* ===== verification/JobLife.thy ===== *)
theory JobLife
  imports JobOutcomes
begin

text \<open>
  The life of an approval, how a link moves the cost of a job, and a pool that holds an estimate.
\<close>

section \<open>An approval of today\<close>

lemma find_area_same:
  assumes "jd_links db' = jd_links db" and "jd_versions db' = jd_versions db" and "jd_areas db' = jd_areas db"
  shows "find_area job_id area db' = find_area job_id area db"
  unfolding find_area_def attached_work_areas_def some_areas_def latest_areas_def versions_of_def areas_of_def assms ..

lemma latest_areas_version:
  assumes "latest_areas e db = Some as"
  obtains v where "v \<in> set (versions_of e db)" and "as = areas_of (ev_id v) db" and "\<forall>x \<in> set (versions_of e db). ev_no x \<le> ev_no v"
proof -
  obtain v vs where v: "rev (versions_of e db) = v # vs" "as = areas_of (ev_id v) db"
    using assms by (cases "rev (versions_of e db)") (simp_all add: latest_areas_def)
  then have all: "versions_of e db = rev vs @ [v]" by (metis rev_rev_ident rev.simps(2))
  have "sorted (map ev_no (versions_of e db))" by (simp add: versions_of_def)
  then have "\<forall>x \<in> set (versions_of e db). ev_no x \<le> ev_no v" unfolding all by (auto simp: sorted_append)
  then show thesis using v(2) all by (intro that [of v]) simp_all
qed

lemma find_by_id:
  assumes "distinct (map f xs)" and "x \<in> set xs"
  shows "List.find (\<lambda>y. f y = f x) xs = Some x"
  using find_distinct [OF assms, of "\<lambda>y. True"] by simp

lemma found_area:
  assumes "find_area job_id area db = Inr (l, a)"
  obtains v where "ea_id a = area" and "jl_job l = job_id" and "a \<in> set (jd_areas db)" and "v \<in> set (jd_versions db)" and "ea_version a = ev_id v"
    and "\<forall>x \<in> set (versions_of (jl_estimate l) db). ev_no x \<le> ev_no v"
proof -
  have "(l, a) \<in> set (attached_work_areas job_id db)" "ea_id a = area"
    using assms by (auto simp: find_area_def split: option.splits dest: find_mem)
  then have l: "jl_job l = job_id" and a: "a \<in> set (some_areas (jl_estimate l) db)" and id: "ea_id a = area"
    by (auto simp: attached_work_areas_def)
  obtain as where as: "latest_areas (jl_estimate l) db = Some as" "a \<in> set as"
    using a by (cases "latest_areas (jl_estimate l) db") (simp_all add: some_areas_def)
  from as(1) obtain v where v: "v \<in> set (versions_of (jl_estimate l) db)" "as = areas_of (ev_id v) db"
    "\<forall>x \<in> set (versions_of (jl_estimate l) db). ev_no x \<le> ev_no v"
    by (rule latest_areas_version)
  show thesis
    by (rule that [OF id l _ _ _ v(3)]) (use v as(2) in \<open>simp_all add: areas_of_def versions_of_def\<close>)
qed

text \<open>An approval made on the latest version applies.\<close>

lemma fresh_approval_applies:
  assumes ids: "distinct (fst (area_ids db))" "distinct (snd (area_ids db))" and found: "find_area job_id area db = Inr (l, a)"
    and r: "ar_area r = ea_id a" "ar_action r = Act_approved" "ar_estimate r = jl_estimate l"
  shows "aw_applies (view_of db approved roles r)"
proof -
  from found obtain v where v: "a \<in> set (jd_areas db)" "v \<in> set (jd_versions db)" "ea_version a = ev_id v"
    "\<forall>x \<in> set (versions_of (jl_estimate l) db). ev_no x \<le> ev_no v"
    by (rule found_area)
  have "List.find (\<lambda>x. ea_id x = ea_id a) (jd_areas db) = Some a" "List.find (\<lambda>x. ev_id x = ev_id v) (jd_versions db) = Some v"
    using ids v(1,2) by (auto simp: area_ids_def intro: find_by_id)
  then have made: "version_made_on db r = Some (ev_no v)" by (simp add: version_made_on_def r(1) v(3))
  have "filter (\<lambda>x. ev_no v < vi_version_no x) (later_versions (jl_estimate l) n db) = []" for n
    using v(4) by (auto simp: later_versions_def filter_empty_conv)
  then have chain: "filter (\<lambda>x. ev_no v < vi_version_no x)
      (case read_after db approved (ar_estimate r) of None \<Rightarrow> [] | Some n \<Rightarrow> later_versions (ar_estimate r) n db) = []"
    unfolding r(3) by (cases "read_after db approved (jl_estimate l)") simp_all
  show ?thesis by (simp add: view_of_def r(2) made aw_applies_def approval_state_def Let_def chain)
qed

lemma approval_of_last:
  assumes "last_event (job_id, e, n) db = Some r"
  shows "approval_for job_id e n db = Some (view_of db (approved_events job_id db) (role_on [job_id] db) r)"
  by (simp add: approval_for_at assms)

lemma last_event_snoc:
  assumes "jd_approvals db' = jd_approvals db @ [r]"
  shows "last_event (approval_key r) db' = Some r"
  by (simp add: last_event_def events_at_def assms)

lemma approve_goes:
  assumes "find_job job_id db \<noteq> None" and "evidence = Some required" and "find_area job_id area db = Inr (l, a)"
    and "ea_kept a" and "jl_role l = Est_original \<longrightarrow> ea_kind a = Some ''change_order''" and "\<not> today < aq_agreed_on q"
    and "required \<longrightarrow> clean_to 500 (aq_evidence q) \<noteq> None"
  shows "approval_applies job_id (jl_estimate l) (ea_order_no a) db
      \<Longrightarrow> approve_change_order new_id today evidence job_id area q actor db = Inl (Approved_already (ea_order_no a))"
    and "\<not> approval_applies job_id (jl_estimate l) (ea_order_no a) db
      \<Longrightarrow> \<exists>db'. approve_change_order new_id today evidence job_id area q actor db = Inr db'"
  using assms by (auto simp: approve_change_order_def the_job_def Let_def unless_def)

text \<open>
  C0: the life of an approval: approving a change order makes its approval apply at once, and a second approval
  is refused while it does; withdrawing it asks for a reason, ends it, and the change order can then be
  approved again.
\<close>

theorem approval_life:
  assumes "reachable_jobs db" and "approve_change_order new_id today evidence job_id area q actor db = Inr db'"
    and "find_area job_id area db = Inr (l, a)"
  shows "approval_applies job_id (jl_estimate l) (ea_order_no a) db'
    \<and> approve_change_order id2 today evidence job_id area q actor2 db' = Inl (Approved_already (ea_order_no a))
    \<and> (if clean_to 2000 reason = None then withdraw_approval id3 job_id area reason actor3 db' = Inl Reason_missing
       else \<exists>db'' db'''. withdraw_approval id3 job_id area reason actor3 db' = Inr db''
          \<and> \<not> approval_applies job_id (jl_estimate l) (ea_order_no a) db''
          \<and> approve_change_order id4 today evidence job_id area q actor4 db'' = Inr db''')"
  using assms(2)
proof (rule approve_written)
  fix l' a' r required x y z
  assume job: "find_job job_id db \<noteq> None" and evidence: "evidence = Some required" and "find_area job_id area db = Inr (l', a')"
    and area: "ea_kept a'" "jl_role l' = Est_original \<longrightarrow> ea_kind a' = Some ''change_order''" "\<not> today < aq_agreed_on q"
      "required \<longrightarrow> clean_to 500 (aq_evidence q) \<noteq> None"
    and r: "approval_key r = (job_id, jl_estimate l', ea_order_no a')" "ar_action r = Act_approved" "ar_area r = ea_id a'"
    and db': "db' = job_note Change_order_approved job_id actor x y z (db\<lparr>jd_approvals := jd_approvals db @ [r]\<rparr>)"
  then have la: "l' = l" "a' = a" using assms(3) by simp_all
  let ?e = "jl_estimate l" and ?n = "ea_order_no a"
  have ids: "distinct (fst (area_ids db'))" "distinct (snd (area_ids db'))"
    using job_machine.reachable_inv [OF assms(1)] by (simp_all add: crosswalk_ok_def db')
  have found: "find_area job_id area db' = Inr (l, a)" using assms(3) find_area_same [of db' db] by (simp add: db')
  have jobs: "find_job job_id db' \<noteq> None" using job by (simp add: db' find_job_def)
  have last: "last_event (job_id, ?e, ?n) db' = Some r" using last_event_snoc [of db' db r] r(1) la by (simp add: db')
  have key: "ar_estimate r = ?e" using r(1) la by (simp add: approval_key_def)
  have applies: "approval_applies job_id ?e ?n db'"
    unfolding approval_applies_def approval_of_last [OF last]
    using fresh_approval_applies [OF ids found] r la key by simp
  have second: "approve_change_order id2 today evidence job_id area q actor2 db' = Inl (Approved_already ?n)"
    using approve_goes(1) [OF jobs evidence found] area la applies by simp
  show ?thesis
  proof (cases "clean_to 2000 reason")
    case None
    then have "withdraw_approval id3 job_id area reason actor3 db' = Inl Reason_missing"
      using jobs by (auto simp: withdraw_approval_def the_job_def split: option.splits)
    then show ?thesis using applies second None by simp
  next
    case (Some why)
    have place: "approval_place job_id area db' = Inr (?e, ?n)" by (simp add: approval_place_def found)
    obtain db'' where done_: "withdraw_approval id3 job_id area reason actor3 db' = Inr db''"
      using jobs Some place approval_of_last [OF last] r(2) by (auto simp: withdraw_approval_def the_job_def Let_def)
    then show ?thesis
    proof (rule withdraw_written)
      fix e n r' why' x y z
      assume w: "approval_place job_id area db' = Inr (e, n)" "last_event (job_id, e, n) db' = Some r'" "ar_action r' = Act_approved"
        and db'': "db'' = job_note Approval_withdrawn job_id actor3 x y z (db'\<lparr>jd_approvals := jd_approvals db' @ [withdrawal_of id3 job_id why' actor3 r']\<rparr>)"
      let ?w = "withdrawal_of id3 job_id why' actor3 r'"
      have en: "e = ?e" "n = ?n" using w(1) place by simp_all
      have "last_event (approval_key ?w) db'' = Some ?w" by (rule last_event_snoc [of _ db']) (simp add: db'')
      then have "last_event (job_id, ?e, ?n) db'' = Some ?w" using withdrawal_follows(1) [OF w(2,3)] en by simp
      then have ended: "\<not> approval_applies job_id ?e ?n db''"
        by (simp add: approval_applies_def approval_of_last view_of_def withdrawal_of_def aw_applies_def)
      have "find_area job_id area db'' = Inr (l, a)" using found find_area_same [of db'' db'] by (simp add: db'')
      moreover have "find_job job_id db'' \<noteq> None" using jobs by (simp add: db'' find_job_def)
      ultimately have "\<exists>db'''. approve_change_order id4 today evidence job_id area q actor4 db'' = Inr db'''"
        using approve_goes(2) [OF _ evidence] area la ended by simp
      then show ?thesis using applies second done_ ended Some by simp
    qed
  qed
qed

section \<open>A link moves the cost\<close>

lemma find_snoc: "List.find P (xs @ [y]) = (case List.find P xs of Some x \<Rightarrow> Some x | None \<Rightarrow> if P y then Some y else None)"
  by (induction xs) simp_all

text \<open>
  C0: a link or an unlink moves the cost of a QuickBooks row: after a person links the row to a job, the cost
  run the link asks for puts every ledger line of that row on the job and leaves the job of every other line
  as it was by its links; after an unlink the run takes the lines of the row off the job.
\<close>

theorem link_moves_cost:
  assumes "reachable_jobs db"
  shows "(link_alias alias_id now job_id system external in_progress actor db = Inr db' \<longrightarrow>
        jd_cost_runs db' = jd_cost_runs db + 1
        \<and> fst (refill_job_ids (cost_aliases db') rows) = map (\<lambda>r. if gr_customer r = Some external then r\<lparr>gr_job := Some job_id\<rparr>
            else r\<lparr>gr_job := Option.bind (gr_customer r) (alias_job (cost_aliases db))\<rparr>) rows)
    \<and> (unlink_alias job_id alias_id actor db = Inr db'' \<longrightarrow> (\<exists>a \<in> set (jd_aliases db). ja_id a = alias_id \<and> ja_job a = job_id
        \<and> jd_cost_runs db'' = jd_cost_runs db + 1
        \<and> fst (refill_job_ids (cost_aliases db'') rows) = map (\<lambda>r. if gr_customer r = Some (ja_external a) then r\<lparr>gr_job := None\<rparr>
            else r\<lparr>gr_job := Option.bind (gr_customer r) (alias_job (cost_aliases db))\<rparr>) rows))"
    (is "(?linked \<longrightarrow> ?moved) \<and> (?unlinked \<longrightarrow> ?off)")
proof (rule conjI; rule impI)
  have refill: "fst (refill_job_ids aliases rows) = map (\<lambda>r. r\<lparr>gr_job := Option.bind (gr_customer r) (alias_job aliases)\<rparr>) rows" for aliases
    using refill_correct [of aliases rows] by (cases "refill_job_ids aliases rows") (simp add: Let_def)
  have by_alias: "alias_job (map (\<lambda>a. \<lparr>al_system = ja_system a, al_external = ja_external a, al_job = ja_job a\<rparr>) as) x
      = map_option ja_job (List.find (\<lambda>a. ja_system a = qbo_customer \<and> ja_external a = x) as)" for as x
    by (induction as) (simp_all add: alias_job_def)
  {
    assume ?linked
    then have "jd_aliases db' = jd_aliases db @ [\<lparr>ja_id = alias_id, ja_job = job_id, ja_system = qbo_customer, ja_external = external, ja_by = actor\<rparr>]"
      and runs: "jd_cost_runs db' = jd_cost_runs db + 1"
      and free: "\<not> list_ex (\<lambda>a. ja_system a = qbo_customer \<and> ja_external a = external) (jd_aliases db)"
      by (auto simp: link_alias_def Let_def request_cost_run_def put_customer_def put_job_def split: option.splits)
    then have as: "jd_aliases db' = jd_aliases db @ [\<lparr>ja_id = alias_id, ja_job = job_id, ja_system = qbo_customer, ja_external = external, ja_by = actor\<rparr>]"
      and none: "List.find (\<lambda>a. ja_system a = qbo_customer \<and> ja_external a = external) (jd_aliases db) = None"
      by (auto simp: find_None_iff list_ex_iff)
    have "alias_job (cost_aliases db') x = (if x = external then Some job_id else alias_job (cost_aliases db) x)" for x
    proof (cases "x = external")
      case True
      then show ?thesis using none by (simp add: cost_aliases_def by_alias find_snoc as del: map_append)
    next
      case False
      then show ?thesis by (simp add: cost_aliases_def by_alias find_snoc as del: map_append split: option.split)
    qed
    then have "alias_job (cost_aliases db') external = Some job_id"
      and "c \<noteq> Some external \<Longrightarrow> Option.bind c (alias_job (cost_aliases db')) = Option.bind c (alias_job (cost_aliases db))" for c
      by (cases c; simp)+
    then show ?moved using runs by (simp add: refill)
  next
    assume ?unlinked
    then obtain a where a: "List.find (\<lambda>a. ja_id a = alias_id) (jd_aliases db) = Some a" "ja_job a = job_id" "ja_system a = qbo_customer"
      and as: "jd_aliases db'' = filter (\<lambda>x. ja_id x \<noteq> alias_id) (jd_aliases db)" and runs: "jd_cost_runs db'' = jd_cost_runs db + 1"
      by (auto simp: unlink_alias_def Let_def request_cost_run_def put_job_def split: option.splits)
    have mem: "a \<in> set (jd_aliases db)" "ja_id a = alias_id" using find_mem [OF a(1)] by simp_all
    have inv: "jobs_inv db" using job_machine.reachable_inv [OF assms] by (simp add: crosswalk_ok_def)
    have one: "x = a" if "x \<in> set (jd_aliases db)" "ja_id x = alias_id" for x
      using inv that mem unfolding jobs_inv_def job_ids_ok_def distinct_map by (metis inj_onD)
    have same: "x = a" if "x \<in> set (jd_aliases db)" "ja_system x = qbo_customer" "ja_external x = ja_external a" for x
      using inv that mem a(3) unfolding jobs_inv_def aliases_ok_def distinct_map by (metis (mono_tags, lifting) inj_onD)
    have "List.find (\<lambda>x. ja_system x = qbo_customer \<and> ja_external x = e) (jd_aliases db'') =
        (if e = ja_external a then None else List.find (\<lambda>x. ja_system x = qbo_customer \<and> ja_external x = e) (jd_aliases db))" for e
    proof (cases "e = ja_external a")
      case True
      then show ?thesis using same mem(2) by (auto simp: as find_None_iff)
    next
      case False
      have "List.find (\<lambda>x. ja_system x = qbo_customer \<and> ja_external x = e) (filter (\<lambda>x. ja_id x \<noteq> alias_id) xs)
          = List.find (\<lambda>x. ja_system x = qbo_customer \<and> ja_external x = e) xs" if "set xs \<subseteq> set (jd_aliases db)" for xs
        using that one False by (induction xs) auto
      then show ?thesis using False by (simp add: as)
    qed
    then have "alias_job (cost_aliases db'') x = (if x = ja_external a then None else alias_job (cost_aliases db) x)" for x
      by (simp add: cost_aliases_def by_alias)
    then have gone: "alias_job (cost_aliases db'') (ja_external a) = None"
      and other: "c \<noteq> Some (ja_external a) \<Longrightarrow> Option.bind c (alias_job (cost_aliases db'')) = Option.bind c (alias_job (cost_aliases db))" for c
      by (cases c; simp)+
    have "fst (refill_job_ids (cost_aliases db'') rows) = map (\<lambda>r. if gr_customer r = Some (ja_external a) then r\<lparr>gr_job := None\<rparr>
            else r\<lparr>gr_job := Option.bind (gr_customer r) (alias_job (cost_aliases db))\<rparr>) rows"
      by (simp add: refill gone other)
    then show ?off using mem a(2) runs by blast
  }
qed

end
