(* ===== verification/JobExamples.thy ===== *)
theory JobExamples
  imports JobLife
begin

text \<open>
  A small company followed through: an estimate and a QuickBooks row come in, a person makes the job, links it and
  approves its change order; and a program with an ignored estimate that is made a pool.
\<close>

section \<open>A job followed through\<close>

definition ex_sold :: estimate_row where
  "ex_sold = \<lparr>es_id = 1, es_external = ''EST1'', es_name = ''Elm'', es_status = ''Sold'', es_status_norm = Some ''sold'',
     es_date = None, es_price = 900\<rparr>"

definition ex_area_row :: "uuid \<Rightarrow> string \<Rightarrow> bool \<Rightarrow> area_row" where
  "ex_area_row i name suggested = \<lparr>ea_id = i, ea_version = 2, ea_order_no = int i, ea_name = name, ea_kept = True,
     ea_suggested = suggested, ea_price = 400, ea_kind = None, ea_confirmed = None\<rparr>"

definition ex_jobs_start :: job_db where
  "ex_jobs_start = \<lparr>jd_jobs = [], jd_links = [], jd_aliases = [], jd_approvals = [], jd_customers = [], jd_estimates = [],
     jd_versions = [], jd_areas = [], jd_divisions = [\<lparr>dv_id = 5, dv_code = ''L'', dv_name = ''Lawn'', dv_digit = None, dv_active = True, dv_sort = 1\<rparr>],
     jd_log = [], jd_cost_runs = 0\<rparr>"

definition ex_row_values :: customer_values where
  "ex_row_values = \<lparr>nc_external = ''3'', nc_name = ''Elm'', nc_parent = None, nc_project = True, nc_active = True\<rparr>"

definition ex_no_copy :: billing_copy where
  "ex_no_copy = \<lparr>sy_customers = [], sy_billings = [], sy_lines = [], sy_payments = [], sy_applications = [], sy_assigned = []\<rparr>"

definition ex_jobs0 :: job_db where
  "ex_jobs0 = ex_jobs_start\<lparr>jd_estimates := [ex_sold], jd_versions := [\<lparr>ev_id = 2, ev_estimate = 1, ev_no = 1, ev_has_areas = True\<rparr>],
     jd_areas := [ex_area_row 3 ''Lawn'' False, ex_area_row 4 ''Wall'' True],
     jd_customers := sy_customers (write_customer 6 7 ex_row_values ex_no_copy)\<rparr>"

lemma ex_jobs0_reachable: "reachable_jobs ex_jobs0"
proof -
  let ?es = "[ex_sold]" and ?vs = "[\<lparr>ev_id = 2, ev_estimate = 1, ev_no = 1, ev_has_areas = True\<rparr>]"
    and ?as = "[ex_area_row 3 ''Lawn'' False, ex_area_row 4 ''Wall'' True]"
  define db where "db = ex_jobs_start\<lparr>jd_estimates := ?es, jd_versions := ?vs, jd_areas := ?as\<rparr>"
  have "reachable_jobs ex_jobs_start" by (rule reachable_from.reach_start) (simp add: empty_jobs_def ex_jobs_start_def)
  moreover have "imported ex_jobs_start db"
    unfolding imported_def by (intro exI [of _ ?es] exI [of _ ?vs] exI [of _ ?as]) (simp add: db_def ex_jobs_start_def ex_area_row_def)
  ultimately have "reachable_jobs db" by (blast intro: reachable_from.reach_step job_step.estimates)
  moreover have "job_step db (db\<lparr>jd_customers := sy_customers (write_customer 6 7 ex_row_values ex_no_copy)\<rparr>)"
    by (rule job_step.customer) (simp_all add: db_def ex_no_copy_def ex_jobs_start_def)
  ultimately show ?thesis unfolding ex_jobs0_def db_def by (rule reachable_from.reach_step)
qed

lemma person_reach: "reachable_jobs db \<Longrightarrow> person_step actor db db' \<Longrightarrow> reachable_jobs db'"
  by (blast intro: reachable_from.reach_step job_step.person)

definition ex_today :: date where "ex_today = Date 26 2 1"

text \<open>The state an action leaves.\<close>

definition after :: "('e, 'd) result \<Rightarrow> 'd \<Rightarrow> 'd" where
  "after r d = (case r of Inr d' \<Rightarrow> d' | Inl e \<Rightarrow> d)"

lemma after_ok: "isl r = False \<Longrightarrow> r = Inr (after r d)"
  by (cases r) (simp_all add: after_def)

definition ex_jobs1 :: job_db where
  "ex_jobs1 = after (create_job_from_estimate 10 11 12 ex_today 1 (Some 5) None 9 ex_jobs0) ex_jobs0"

definition ex_jobs2 :: job_db where
  "ex_jobs2 = fst (after (confirm_suggested_kinds 50 10 9 ex_jobs1) (ex_jobs1, 0, 0))"

definition ex_request_co :: approval_request where
  "ex_request_co = \<lparr>aq_agreed_on = Date 26 1 9, aq_agreed_by = Some ''Ann'', aq_evidence = Some ''mail'', aq_note = None\<rparr>"

abbreviation ex_approve :: "uuid \<Rightarrow> job_db \<Rightarrow> (job_error, job_db) result" where
  "ex_approve i db \<equiv> approve_change_order i ex_today (Some True) 10 4 ex_request_co 9 db"

definition ex_jobs3 :: job_db where
  "ex_jobs3 = after (ex_approve 13 ex_jobs2) ex_jobs2"

lemma ex_created: "create_job_from_estimate 10 11 12 ex_today 1 (Some 5) None 9 ex_jobs0 = Inr ex_jobs1"
  unfolding ex_jobs1_def by (rule after_ok) code_simp

lemma ex_confirmed_kinds: "confirm_suggested_kinds 50 10 9 ex_jobs1 = Inr (ex_jobs2, 2, 0)"
  by code_simp

lemma ex_approved: "ex_approve 13 ex_jobs2 = Inr ex_jobs3"
  unfolding ex_jobs3_def by (rule after_ok) code_simp

end
