(* ===== verification/BillingSyncProperties.thy ===== *)
theory BillingSyncProperties
  imports BillingSyncFacts
begin

text \<open>
  The properties of the copy of the billing side, over the machine whose steps apply a version of a
  record or assign a line: what is linked, what one document leaves, that an assigned document is
  refused, and how the QuickBooks ids come onto the chart of accounts.
\<close>

section \<open>The machine\<close>

text \<open>
  A step applies any version of any record, in whatever order they come; or a person assigns a line
  of a document to a work area. An operation that raises leaves the copy as it was.
\<close>

inductive billing_step :: "billing_copy \<Rightarrow> billing_copy \<Rightarrow> bool" where
  arrive: "fresh_ids ids db \<Longrightarrow> apply_billing_raw ids start raws raw db = Inr (db', oc) \<Longrightarrow> billing_step db db'"
| assign: "l \<in> set (sy_lines db) \<Longrightarrow> billing_step db (db\<lparr>sy_assigned := sl_id l # sy_assigned db\<rparr>)"

definition empty_billing :: "billing_copy \<Rightarrow> bool" where
  "empty_billing db \<longleftrightarrow> sy_customers db = [] \<and> sy_billings db = [] \<and> sy_lines db = [] \<and> sy_payments db = []
     \<and> sy_applications db = [] \<and> sy_assigned db = []"

abbreviation reachable_billing :: "billing_copy \<Rightarrow> bool" where
  "reachable_billing \<equiv> reachable_from empty_billing billing_step"

lemma apply_billing_inv:
  assumes inv: "sync_inv db" and fresh: "fresh_ids ids db" and done_: "apply_billing ids raws raw db = Inr (db', ext)"
  shows "sync_inv db'"
proof -
  obtain v where v: "normalize_billing (rr_entity raw) (rr_payload raw) (had_nonzero_total_before (raw_history (rr_key raw) raws) raw) = Inr v"
    using done_ by (auto simp: apply_billing_def)
  obtain db1 where w: "write_billing ids (rr_id raw) v db = Inr db1"
    using done_ v by (cases "write_billing ids (rr_id raw) v db") (auto simp: apply_billing_def)
  have one: "sync_inv db1"
    by (rule write_billing_inv [OF inv _ normalize_billing_values(1,2) [OF v] w]) (use fresh in \<open>simp add: fresh_ids_def\<close>)
  show ?thesis
  proof (cases "nb_kind v = ''sales_receipt''")
    case True
    then obtain p where "payment_from_sales_receipt v = Inr p" by (simp add: payment_from_sales_receipt_def)
    then have "db' = write_payment ids (rr_id raw) p db1" using done_ v w True by (simp add: apply_billing_def)
    moreover have "ni_payment ids \<notin> snd ` set (payment_ids db1)"
      using fresh write_billing_ids(3) [OF w] by (simp add: fresh_ids_def)
    ultimately show ?thesis using write_payment_inv [OF one] by simp
  next
    case False
    then have "db' = db1" using done_ v w by (simp add: apply_billing_def)
    then show ?thesis using one by simp
  qed
qed

lemma ends_Inr:
  assumes "ends raw db r = Inr (db', oc)"
  shows "db' = db \<or> (\<exists>ext. r = Inr (db', ext))"
proof (cases r)
  case (Inl e)
  then show ?thesis using assms by (cases e) (simp_all add: ends_def)
next
  case (Inr x)
  then show ?thesis using assms by (cases x) (simp add: ends_def)
qed

lemma apply_billing_raw_inv:
  assumes inv: "sync_inv db" and fresh: "fresh_ids ids db" and done_: "apply_billing_raw ids start raws raw db = Inr (db', oc)"
  shows "sync_inv db'"
proof -
  have ends_inv: "sync_inv db'" if "ends raw db r = Inr (db', oc)" "\<And>db1 ext. r = Inr (db1, ext) \<Longrightarrow> sync_inv db1" for r
    using ends_Inr [OF that(1)] that(2) inv by (elim disjE exE) simp_all
  have customer: "sync_inv db1" if "apply_customer ids raw db = Inr (db1, ext)" for db1 ext
    using that fresh write_customer_inv [OF inv] by (auto simp: apply_customer_def fresh_ids_def)
  have payment: "sync_inv db1" if "apply_payment ids raw db = Inr (db1, ext)" for db1 ext
    using that fresh write_payment_inv [OF inv] by (auto simp: apply_payment_def fresh_ids_def)
  consider "db' = db" | reason where "db' = fst (apply_delete raw reason db)"
    | "ends raw db (apply_customer ids raw db) = Inr (db', oc)" | "ends raw db (apply_billing ids raws raw db) = Inr (db', oc)"
    | "ends raw db (apply_payment ids raw db) = Inr (db', oc)"
  proof (cases "rr_source raw \<noteq> qbo")
    case True
    then have "db' = db" using done_ by (simp add: apply_billing_raw_def)
    then show ?thesis by (rule that(1))
  next
    case source: False
    show ?thesis
    proof (cases "rr_deleted raw")
      case True
      then have "db' = fst (apply_delete raw ''deleted'' db)" using done_ source by (simp add: apply_billing_raw_def)
      then show ?thesis by (rule that(2))
    next
      case live: False
      show ?thesis
      proof (cases "transactional raw \<and> before_history_start (rr_payload raw) start")
        case True
        then have "db' = fst (apply_delete raw ''before_history_start'' db)"
          using done_ source live by (simp add: apply_billing_raw_def Let_def split: prod.splits if_splits)
        then show ?thesis by (rule that(2))
      next
        case False
        then show ?thesis using done_ source live that by (auto simp: apply_billing_raw_def split: if_splits)
      qed
    qed
  qed
  then show ?thesis
  proof cases
    case 1
    then show ?thesis using inv by simp
  next
    case (2 reason)
    then show ?thesis using apply_delete_inv [OF inv] by simp
  next
    case 3
    then show ?thesis by (rule ends_inv) (rule customer)
  next
    case 4
    then show ?thesis by (rule ends_inv) (rule apply_billing_inv [OF inv fresh])
  next
    case 5
    then show ?thesis by (rule ends_inv) (rule payment)
  qed
qed

interpretation billing_machine: state_machine empty_billing billing_step sync_inv
proof
  show "sync_inv db" if "empty_billing db" for db
    using that by (simp add: empty_billing_def sync_inv_def customer_ids_def billing_ids_def payment_ids_def keyed_def
        links_complete_def rows_complete_def)
  show "sync_inv db'" if inv: "sync_inv db" and step: "billing_step db db'" for db db'
    using step
  proof cases
    case (arrive ids start raws raw oc)
    then show ?thesis using apply_billing_raw_inv inv by blast
  next
    case (assign l)
    then show ?thesis using inv
      by (simp add: sync_inv_def customer_ids_def billing_ids_def payment_ids_def links_complete_def rows_complete_def
          customer_id_ids billing_id_ids)
  qed
qed

text \<open>
  C10: the copy of the billing side is complete whatever order the records came in: a customer, a
  document and a payment are there once; every document and payment points at its customer, every
  customer at its parent and every application at the document it pays as soon as that row is there;
  the amounts of every document add up; and an assigned line is never gone.
\<close>

theorem reachable_billing_complete:
  assumes "reachable_billing db"
  shows "sync_inv db"
  using assms by (rule billing_machine.reachable_inv)

section \<open>What one document leaves\<close>

lemma find_append_none: "List.find P (xs @ ys) = (if List.find P xs = None then List.find P ys else List.find P xs)"
  by (induction xs) auto

lemma find_map_same: "(\<And>x. P (f x) = P x) \<Longrightarrow> List.find P (map f xs) = map_option f (List.find P xs)"
  by (induction xs) auto

lemma written_billing:
  assumes "write_billing ids raw_id v db = Inr db'" and "fresh_ids ids db" and "sync_inv db"
  shows "\<exists>b. find_billing (nb_kind v) (nb_external v) db' = Some b
    \<and> b = billing_with v (customer_id (nb_customer v) db') raw_id (sb_id b)
    \<and> map sl_values (filter (\<lambda>l. sl_billing l = sb_id b) (sy_lines db')) = nb_lines v"
proof -
  note parts = write_billing_parts [OF assms(1)]
  let ?k = "(nb_kind v, nb_external v)" and ?P = "\<lambda>b. sb_kind b = nb_kind v \<and> sb_external b = nb_external v"
  let ?i = "case map_of (billing_ids db) ?k of None \<Rightarrow> ni_billing ids | Some j \<Rightarrow> j"
  let ?row = "billing_with v (customer_id (nb_customer v) db) raw_id"
  have cust: "customer_id (nb_customer v) db' = customer_id (nb_customer v) db"
    by (simp add: customer_id_ids write_billing_ids [OF assms(1)])
  have row: "?P (?row j)" "sb_id (?row j) = j" for j by (simp_all add: billing_with_def)
  have "find_billing (nb_kind v) (nb_external v) db' = Some (?row ?i)"
  proof (cases "map_of (billing_ids db) ?k")
    case None
    then have "find_billing (nb_kind v) (nb_external v) db = None" by (simp add: found_billing)
    then show ?thesis using None parts(1) row by (simp add: find_billing_def find_append_none)
  next
    case (Some j)
    then obtain b where b: "find_billing (nb_kind v) (nb_external v) db = Some b" "sb_id b = j"
      using find_billing_ids [of "nb_kind v" "nb_external v" db] by auto
    let ?f = "\<lambda>b. if ?P b then ?row (sb_id b) else b"
    have "?P (?f x) = ?P x" for x using row by simp
    then have "List.find ?P (map ?f (sy_billings db)) = map_option ?f (List.find ?P (sy_billings db))" by (rule find_map_same)
    moreover have "?P b" using find_mem [OF b(1) [unfolded find_billing_def]] by simp
    ultimately show ?thesis using Some parts(1) b by (simp add: find_billing_def)
  qed
  moreover have "map sl_values (filter (\<lambda>l. sl_billing l = ?i) (sy_lines db')) = nb_lines v"
    unfolding parts(2) by (simp add: filter_map comp_def)
  ultimately show ?thesis using row cust by (intro exI [of _ "?row ?i"]) simp
qed

lemma written_payment:
  fixes ids raw_id v db
  defines "db' \<equiv> write_payment ids raw_id v db"
  shows "\<exists>p. find_payment (np_kind v) (np_external v) db' = Some p
    \<and> p = payment_with v (customer_id (np_customer v) db) raw_id (sp_id p)
    \<and> map sa_values (filter (\<lambda>a. sa_payment a = sp_id p) (sy_applications db')) = np_applications v
    \<and> (\<forall>a \<in> set (sy_applications db'). sa_payment a = sp_id p \<longrightarrow>
         sa_billing a = billing_id (pv_linked_type (sa_values a)) (pv_linked (sa_values a)) db)"
proof -
  note parts = write_payment_parts [of ids raw_id v db, folded db'_def]
  let ?k = "(np_kind v, np_external v)" and ?P = "\<lambda>p. sp_kind p = np_kind v \<and> sp_external p = np_external v"
  let ?i = "case map_of (payment_ids db) ?k of None \<Rightarrow> ni_payment ids | Some j \<Rightarrow> j"
  let ?row = "payment_with v (customer_id (np_customer v) db) raw_id"
  have row: "?P (?row j)" "sp_id (?row j) = j" for j by (simp_all add: payment_with_def)
  have "find_payment (np_kind v) (np_external v) db' = Some (?row ?i)"
  proof (cases "map_of (payment_ids db) ?k")
    case None
    then have "find_payment (np_kind v) (np_external v) db = None" by (simp add: found_payment)
    then show ?thesis using None parts(1) row by (simp add: find_payment_def find_append_none)
  next
    case (Some j)
    then obtain b where b: "find_payment (np_kind v) (np_external v) db = Some b" "sp_id b = j"
      using find_payment_ids [of "np_kind v" "np_external v" db] by auto
    let ?f = "\<lambda>b. if ?P b then ?row (sp_id b) else b"
    have "?P (?f x) = ?P x" for x using row by simp
    then have "List.find ?P (map ?f (sy_payments db)) = map_option ?f (List.find ?P (sy_payments db))" by (rule find_map_same)
    moreover have "?P b" using find_mem [OF b(1) [unfolded find_payment_def]] by simp
    ultimately show ?thesis using Some parts(1) b by (simp add: find_payment_def)
  qed
  moreover have "map sa_values (filter (\<lambda>a. sa_payment a = ?i) (sy_applications db')) = np_applications v"
    unfolding parts(2) by (simp add: filter_map comp_def)
  moreover have "\<forall>a \<in> set (sy_applications db'). sa_payment a = ?i \<longrightarrow>
      sa_billing a = billing_id (pv_linked_type (sa_values a)) (pv_linked (sa_values a)) db"
    unfolding parts(2) by auto
  ultimately show ?thesis using row by (intro exI [of _ "?row ?i"]) simp
qed


text \<open>The current version of a live document that can be read.\<close>

definition read_document :: "date \<Rightarrow> raw_row list \<Rightarrow> raw_row \<Rightarrow> billing_values \<Rightarrow> bool" where
  "read_document start raws raw v \<longleftrightarrow> rr_source raw = qbo \<and> \<not> rr_deleted raw \<and> \<not> before_history_start (rr_payload raw) start
     \<and> normalize_billing (rr_entity raw) (rr_payload raw) (had_nonzero_total_before (raw_history (rr_key raw) raws) raw) = Inr v"

lemma apply_read_document:
  assumes "read_document start raws raw v"
  shows "apply_billing_raw ids start raws raw db = ends raw db (apply_billing ids raws raw db)"
proof -
  have kind: "kind_by_entity (rr_entity raw) = Some (nb_kind v)"
    using assms normalize_billing_values(2) unfolding read_document_def by blast
  then have "rr_entity raw \<noteq> ''Customer''" by (auto simp: kind_by_entity_def)
  then show ?thesis using assms kind by (simp add: apply_billing_raw_def read_document_def)
qed

text \<open>
  C26: what applying a document leaves: its header holds the payload's values and points at its customer,
  its lines are the payload's lines in their order, and a sales receipt is collected in full by the
  payment of its own number, applied to itself.
\<close>

theorem document_applied:
  assumes "reachable_billing db" and "fresh_ids ids db" and "read_document start raws raw v"
    and "apply_billing_raw ids start raws raw db = Inr (db', oc)"
  shows "oc_result oc = Applied \<and> (\<exists>b. find_billing (nb_kind v) (nb_external v) db' = Some b
    \<and> b = billing_with v (customer_id (nb_customer v) db') (rr_id raw) (sb_id b)
    \<and> map sl_values (filter (\<lambda>l. sl_billing l = sb_id b) (sy_lines db')) = nb_lines v
    \<and> (nb_kind v = ''sales_receipt'' \<longrightarrow> (\<exists>p a. find_payment ''sales_receipt'' (nb_external v) db' = Some p
        \<and> filter (\<lambda>a. sa_payment a = sp_id p) (sy_applications db') = [a] \<and> sa_billing a = Some (sb_id b)
        \<and> pv_amount (sa_values a) = nb_total v \<and> sp_total p = nb_total v \<and> sp_unapplied p = 0)))"
proof -
  have inv: "sync_inv db" using assms(1) by (rule billing_machine.reachable_inv)
  have v: "normalize_billing (rr_entity raw) (rr_payload raw) (had_nonzero_total_before (raw_history (rr_key raw) raws) raw) = Inr v"
    using assms(3) by (simp add: read_document_def)
  have run: "ends raw db (apply_billing ids raws raw db) = Inr (db', oc)" using assms(4) apply_read_document [OF assms(3)] by simp
  obtain db1 where w: "write_billing ids (rr_id raw) v db = Inr db1"
  proof (cases "write_billing ids (rr_id raw) v db")
    case (Inl e)
    then show ?thesis using run v by (cases e) (simp add: apply_billing_def ends_def to_norm_error_def)
  qed (rule that)
  obtain b where b: "find_billing (nb_kind v) (nb_external v) db1 = Some b"
    "b = billing_with v (customer_id (nb_customer v) db1) (rr_id raw) (sb_id b)"
    "map sl_values (filter (\<lambda>l. sl_billing l = sb_id b) (sy_lines db1)) = nb_lines v"
    using written_billing [OF w assms(2) inv] by blast
  show ?thesis
  proof (cases "nb_kind v = ''sales_receipt''")
    case False
    then have "db' = db1" and "oc_result oc = Applied"
      using run v w by (auto simp: apply_billing_def ends_def outcome_of_def)
    then show ?thesis using b False by auto
  next
    case True
    then obtain p where p: "payment_from_sales_receipt v = Inr p" by (simp add: payment_from_sales_receipt_def)
    then have db': "db' = write_payment ids (rr_id raw) p db1" and oc: "oc_result oc = Applied"
      using run v w True by (auto simp: apply_billing_def ends_def outcome_of_def)
    have p': "np_kind p = ''sales_receipt''" "np_external p = nb_external v" "np_total p = nb_total v" "np_unapplied p = 0"
      "np_applications p = [\<lparr>pv_no = 1, pv_linked_type = ''SalesReceipt'', pv_linked = nb_external v, pv_amount = nb_total v\<rparr>]"
      using p True by (auto simp: payment_from_sales_receipt_def)
    obtain q where q: "find_payment (np_kind p) (np_external p) db' = Some q"
      "q = payment_with p (customer_id (np_customer p) db1) (rr_id raw) (sp_id q)"
      "map sa_values (filter (\<lambda>a. sa_payment a = sp_id q) (sy_applications db')) = np_applications p"
      "\<forall>a \<in> set (sy_applications db'). sa_payment a = sp_id q \<longrightarrow>
         sa_billing a = billing_id (pv_linked_type (sa_values a)) (pv_linked (sa_values a)) db1"
      using written_payment [of p ids "rr_id raw" db1] unfolding db' by blast
    obtain a where a: "filter (\<lambda>a. sa_payment a = sp_id q) (sy_applications db') = [a]"
      "sa_values a = \<lparr>pv_no = 1, pv_linked_type = ''SalesReceipt'', pv_linked = nb_external v, pv_amount = nb_total v\<rparr>"
      using q(3) p'(5) by auto
    then have "a \<in> set (filter (\<lambda>a. sa_payment a = sp_id q) (sy_applications db'))" by simp
    then have "sa_billing a = billing_id ''SalesReceipt'' (nb_external v) db1" using q(4) a(2) by simp
    then have "sa_billing a = Some (sb_id b)" using b(1) True by (simp add: billing_id_def kind_by_entity_def)
    moreover have "sp_total q = nb_total v \<and> sp_unapplied q = 0" by (subst (1 2) q(2)) (simp add: payment_with_def p')
    moreover have "sy_lines db' = sy_lines db1" "sy_billings db' = sy_billings db1" "sy_customers db' = sy_customers db1"
      unfolding db' by (rule write_payment_parts)+
    then have "find_billing (nb_kind v) (nb_external v) db' = Some b" "customer_id (nb_customer v) db' = customer_id (nb_customer v) db1"
      "map sl_values (filter (\<lambda>l. sl_billing l = sb_id b) (sy_lines db')) = nb_lines v"
      using b by (simp_all add: find_billing_def customer_id_def find_customer_def)
    ultimately show ?thesis using oc q(1) p'(1,2) a b(2) by auto
  qed
qed

text \<open>
  C39: a document with a line that was ever assigned to a work area can never be brought up to date again:
  the lines of a document are deleted and inserted for every new version, a changed balance included,
  and the foreign key of the assignments refuses the delete. The exception is no \<open>Unreadable\<close>: it ends
  the task of up to 200 records, which is undone as a whole.
\<close>

theorem assigned_document_refused:
  assumes "read_document start raws raw v" and "find_billing (nb_kind v) (nb_external v) db = Some b"
    and "l \<in> set (sy_lines db)" and "sl_billing l = sb_id b" and "sl_id l \<in> set (sy_assigned db)"
  shows "apply_billing_raw ids start raws raw db = Inl (Uncaught ''IntegrityError'')"
proof -
  have "list_ex (\<lambda>l. sl_billing l = sb_id b \<and> sl_id l \<in> set (sy_assigned db)) (sy_lines db)"
    using assms(3-5) by (auto simp: list_ex_iff)
  then have "write_billing ids (rr_id raw) v db = Inl (Uncaught ''IntegrityError'')"
    using assms(2) by (simp add: write_billing_def Let_def)
  then show ?thesis
    using assms(1) apply_read_document [OF assms(1)] by (simp add: apply_billing_def read_document_def ends_def to_norm_error_def)
qed


section \<open>Examples\<close>

definition ex_ref :: "string \<Rightarrow> json" where
  "ex_ref i = J_obj [(''value'', J_str i)]"

definition ex_invoice :: "int \<Rightarrow> json" where
  "ex_invoice balance = J_obj [(''Id'', J_str ''9''), (''TxnDate'', J_str ''0026-01-05''), (''TotalAmt'', J_dec False 1250 (- 2)),
     (''Balance'', J_int balance), (''CustomerRef'', ex_ref ''3''),
     (''Line'', J_list [J_obj [(''Id'', J_str ''1''), (''DetailType'', J_str sales_item_line), (''Amount'', J_dec False 1250 (- 2))],
       J_obj [(''DetailType'', J_str subtotal_line), (''Amount'', J_dec False 125 (- 1))]])]"

definition ex_receipt :: json where
  "ex_receipt = J_obj [(''Id'', J_str ''8''), (''TxnDate'', J_str ''0026-01-06''), (''TotalAmt'', J_int 4),
     (''CustomerRef'', ex_ref ''3''),
     (''Line'', J_list [J_obj [(''Id'', J_str ''1''), (''DetailType'', J_str sales_item_line), (''Amount'', J_int 4)]])]"

definition ex_version :: "uuid \<Rightarrow> string \<Rightarrow> string \<Rightarrow> nat \<Rightarrow> json \<Rightarrow> raw_row" where
  "ex_version i entity ext v payload = \<lparr>rr_id = i, rr_key = (qbo, entity, ext), rr_version = v, rr_payload = payload,
     rr_sha256 = [], rr_deleted = False, rr_fetched_at = 5, rr_origin = From_sync 0\<rparr>"

definition ex_start :: date where "ex_start = Date 26 1 1"

definition ex_ids :: "nat \<Rightarrow> new_ids" where
  "ex_ids n = \<lparr>ni_customer = n, ni_billing = n, ni_payment = n, ni_line = (\<lambda>i. n + i), ni_application = (\<lambda>i. n + i)\<rparr>"

definition ex_empty_billing :: billing_copy where
  "ex_empty_billing = \<lparr>sy_customers = [], sy_billings = [], sy_lines = [], sy_payments = [], sy_applications = [], sy_assigned = []\<rparr>"

definition ex_customer :: json where
  "ex_customer = J_obj [(''Id'', J_str ''3''), (''DisplayName'', J_str ''Elm''), (''IsProject'', J_bool True)]"

abbreviation ex_apply :: "nat \<Rightarrow> raw_row \<Rightarrow> billing_copy \<Rightarrow> (uncaught, billing_copy \<times> outcome) result" where
  "ex_apply n raw db \<equiv> apply_billing_raw (ex_ids n) ex_start [raw] raw db"

text \<open>The copy after the invoice, after its customer, and after its line was assigned.\<close>

definition ex_billing_row :: "uuid option \<Rightarrow> billing_row" where
  "ex_billing_row customer = \<lparr>sb_id = 10, sb_kind = ''invoice'', sb_external = ''9'', sb_doc_number = None,
     sb_date = Date 26 1 5, sb_due = None, sb_customer_external = ''3'', sb_customer = customer, sb_subtotal = 1250,
     sb_discount = 0, sb_tax = 0, sb_total = 1250, sb_balance = 1200, sb_voided = False, sb_deleted = None, sb_raw = 1\<rparr>"

definition ex_line_values :: "cents \<Rightarrow> billing_line_values" where
  "ex_line_values amount = \<lparr>bv_no = 1, bv_external = Some ''1'', bv_kind = ''SalesItemLineDetail'', bv_description = None,
     bv_item = None, bv_amount = amount\<rparr>"

definition ex_copy1 :: billing_copy where
  "ex_copy1 = ex_empty_billing\<lparr>sy_billings := [ex_billing_row None],
     sy_lines := [\<lparr>sl_id = 11, sl_billing = 10, sl_values = ex_line_values 1250\<rparr>]\<rparr>"

definition ex_copy2 :: billing_copy where
  "ex_copy2 = ex_copy1\<lparr>sy_customers := [\<lparr>sc_id = 20, sc_external = ''3'', sc_name = ''Elm'', sc_parent_external = None,
     sc_parent = None, sc_project = True, sc_active = True, sc_tracked = None, sc_raw = 2\<rparr>],
     sy_billings := [ex_billing_row (Some 20)]\<rparr>"

definition ex_copy3 :: billing_copy where
  "ex_copy3 = ex_copy2\<lparr>sy_assigned := [11]\<rparr>"

definition ex_applied :: "string \<Rightarrow> string \<Rightarrow> outcome" where
  "ex_applied entity ext = \<lparr>oc_entity = entity, oc_external = ext, oc_result = Applied, oc_reason = None\<rparr>"

lemma ex_copies: "reachable_billing ex_empty_billing" "reachable_billing ex_copy1" "reachable_billing ex_copy2" "reachable_billing ex_copy3"
proof -
  show 0: "reachable_billing ex_empty_billing"
    by (rule reachable_from.reach_start) (simp add: empty_billing_def ex_empty_billing_def)
  have fresh: "fresh_ids (ex_ids 10) ex_empty_billing" by code_simp
  have run: "ex_apply 10 (ex_version 1 ''Invoice'' ''9'' 1 (ex_invoice 12)) ex_empty_billing = Inr (ex_copy1, ex_applied ''Invoice'' ''9'')"
    by code_simp
  show 1: "reachable_billing ex_copy1" using 0 billing_step.arrive [OF fresh run] by (rule reachable_from.reach_step)
  have fresh: "fresh_ids (ex_ids 20) ex_copy1" by code_simp
  have run: "ex_apply 20 (ex_version 2 ''Customer'' ''3'' 1 ex_customer) ex_copy1 = Inr (ex_copy2, ex_applied ''Customer'' ''3'')"
    by code_simp
  show 2: "reachable_billing ex_copy2" using 1 billing_step.arrive [OF fresh run] by (rule reachable_from.reach_step)
  have "billing_step ex_copy2 (ex_copy2\<lparr>sy_assigned := sl_id \<lparr>sl_id = 11, sl_billing = 10, sl_values = ex_line_values 1250\<rparr> # sy_assigned ex_copy2\<rparr>)"
    by (rule billing_step.assign) (simp add: ex_copy2_def ex_copy1_def)
  moreover have "\<dots> = ex_copy3" by (simp add: ex_copy3_def ex_copy2_def ex_copy1_def ex_empty_billing_def)
  ultimately show "reachable_billing ex_copy3" using 2 by (metis reachable_from.reach_step)
qed

text \<open>The invoice that came first points at its customer once that came.\<close>

theorem reachable_billing_complete_witness:
  "sync_inv ex_copy2 \<and> map sb_customer (sy_billings ex_copy1) = [None] \<and> map sb_customer (sy_billings ex_copy2) = [Some 20]"
proof (intro conjI)
  show "sync_inv ex_copy2" using ex_copies(3) by (rule reachable_billing_complete)
  show "map sb_customer (sy_billings ex_copy1) = [None]" "map sb_customer (sy_billings ex_copy2) = [Some 20]"
    by (simp_all add: ex_copy1_def ex_copy2_def ex_billing_row_def)
qed

definition ex_read :: "string \<Rightarrow> string \<Rightarrow> int \<Rightarrow> cents \<Rightarrow> billing_values" where
  "ex_read kind ext day amount = \<lparr>nb_kind = kind, nb_external = ext, nb_doc_number = None, nb_date = Date 26 1 day,
     nb_due = None, nb_customer = ''3'', nb_subtotal = amount, nb_discount = 0, nb_tax = 0, nb_total = amount, nb_balance = 0,
     nb_voided = False, nb_deposit_account = None, nb_lines = [ex_line_values amount]\<rparr>"

definition ex_receipt_version :: raw_row where
  "ex_receipt_version = ex_version 3 ''SalesReceipt'' ''8'' 1 ex_receipt"

text \<open>The invoice was paid: its balance is 0.00 now and nothing else of it changed.\<close>

definition ex_paid_version :: raw_row where
  "ex_paid_version = ex_version 4 ''Invoice'' ''9'' 2 (ex_invoice 0)"

theorem document_applied_witness:
  "\<exists>db oc b. ex_apply 30 ex_receipt_version ex_copy2 = Inr (db, oc) \<and> find_billing ''sales_receipt'' ''8'' db = Some b \<and> sb_total b = 400"
proof -
  let ?v = "ex_read ''sales_receipt'' ''8'' 6 400"
  have fresh: "fresh_ids (ex_ids 30) ex_copy2" by code_simp
  have read: "read_document ex_start [ex_receipt_version] ex_receipt_version ?v" by code_simp
  obtain db oc where r: "ex_apply 30 ex_receipt_version ex_copy2 = Inr (db, oc)"
  proof (cases "ex_apply 30 ex_receipt_version ex_copy2")
    case (Inl e)
    then show ?thesis
      using apply_read_document [OF read, of "ex_ids 30" ex_copy2] read
      by (simp add: apply_billing_def read_document_def write_billing_def Let_def ends_def payment_from_sales_receipt_def
          ex_read_def ex_copy2_def ex_copy1_def find_billing_def ex_billing_row_def ex_empty_billing_def)
  next
    case (Inr x)
    then show ?thesis by (cases x) (auto intro: that)
  qed
  have v: "nb_kind ?v = ''sales_receipt''" "nb_external ?v = ''8''" "nb_total ?v = 400" by (simp_all add: ex_read_def)
  from document_applied [OF ex_copies(3) fresh read r] obtain b where b: "find_billing ''sales_receipt'' ''8'' db = Some b"
    "b = billing_with ?v (customer_id (nb_customer ?v) db) (rr_id ex_receipt_version) (sb_id b)"
    unfolding v by (elim conjE exE) (rule that)
  have "sb_total b = 400" by (subst b(2)) (simp add: billing_with_def v)
  with r b(1) show ?thesis by (intro exI conjI)
qed

theorem assigned_document_refused_witness:
  "reachable_billing ex_copy3 \<and> ex_apply 30 ex_paid_version ex_copy3 = Inl (Uncaught ''IntegrityError'')"
proof (intro conjI)
  show "reachable_billing ex_copy3" by (rule ex_copies(4))
  have read: "read_document ex_start [ex_paid_version] ex_paid_version (ex_read ''invoice'' ''9'' 5 1250)" by code_simp
  have found: "find_billing (nb_kind (ex_read ''invoice'' ''9'' 5 1250)) (nb_external (ex_read ''invoice'' ''9'' 5 1250)) ex_copy3
      = Some (ex_billing_row (Some 20))"
    by (simp add: ex_read_def find_billing_def ex_copy3_def ex_copy2_def ex_billing_row_def)
  show "ex_apply 30 ex_paid_version ex_copy3 = Inl (Uncaught ''IntegrityError'')"
    by (rule assigned_document_refused [OF read found, of "\<lparr>sl_id = 11, sl_billing = 10, sl_values = ex_line_values 1250\<rparr>"])
      (simp_all add: ex_copy3_def ex_copy2_def ex_copy1_def ex_billing_row_def)
qed

section \<open>The QuickBooks ids of the chart\<close>

definition attached :: "(string, string list) dict \<Rightarrow> account_row \<Rightarrow> account_row" where
  "attached by_number a = (case map_of by_number (ga_no a) of
     Some [i] \<Rightarrow> a\<lparr>ga_external_id := Some i\<rparr> | _ \<Rightarrow> a)"



lemma attached_keys [simp]: "ga_no (attached t a) = ga_no a" "ga_id (attached t a) = ga_id a"
  by (auto simp: attached_def split: option.splits list.splits)








end
