(* ===== verification/Spec2Isabelle.thy ===== *)
theory Spec2Isabelle
  imports BillingFigures Estimates Burden WorkAreas PayApplications PayApplicationService
    JobContract TaskQueue QueueDrain ExceptionRegistry Exceptions ExceptionHistory AccessControl
    Throttle SignIn SignInSafety SignInProperties ChartConfig ChartProperties ConfigSafety CostFigures
    CostProperties CostReview JsonCodec RawStore QboPayloads CostSync
    CostSyncFacts CostSyncProperties BillingSync BillingSyncFacts Jobs JobLinks JobFacts JobInvariant JobsProperties JobMachine JobOutcomes JobLife JobExamples
    BillingSyncProperties
begin

text \<open>
  The core of a work-in-progress reporting application for contractors, from the backend under
  \<open>src/backend/app\<close>.
\<close>

end
